(* ===== verification/Prelude.thy ===== *)
theory Prelude
  imports Main "HOL-Library.Word" "HOL-Library.AList" "HOL-Library.Multiset"
begin

text \<open>
  Shared vocabulary of the development: Rust's saturating and checked integer
  operations, \<open>Instant\<close>/\<open>Duration\<close> as nanosecond counts, association lists for the
  hash maps whose contents are enumerated, and the run of a step function over a list
  of inputs with its invariant rule.

  Conventions.  An \<open>i64\<close> is an \<open>int\<close> and every saturation the code asks for is written
  out with \<open>i64_max\<close>/\<open>i64_min\<close>; a \<open>u64\<close>, \<open>u32\<close> or \<open>usize\<close> is a \<open>nat\<close> with its
  saturation written out, except where the code packs bits, where it is a word.
  An \<open>Instant\<close> is the \<open>nat\<close> number of nanoseconds since the clock's origin, so that
  \<open>checked_sub\<close> fails exactly below the origin, and a \<open>Duration\<close> is a \<open>nat\<close> number of
  nanoseconds.
\<close>

named_theorems sat_defs \<open>definitions of the saturating operations\<close>

section \<open>Machine integers\<close>

definition i64_max :: int where "i64_max = 9223372036854775807"
definition i64_min :: int where "i64_min = -9223372036854775808"
definition u64_max :: nat where "u64_max = 18446744073709551615"
definition u32_max :: nat where "u32_max = 4294967295"

definition in_i64 :: "int \<Rightarrow> bool" where
  "in_i64 x \<longleftrightarrow> i64_min \<le> x \<and> x \<le> i64_max"

definition sat_i64 :: "int \<Rightarrow> int" where
  "sat_i64 x = max i64_min (min i64_max x)"

definition sat_add_i64 :: "int \<Rightarrow> int \<Rightarrow> int" where
  "sat_add_i64 a b = sat_i64 (a + b)"

definition sat_sub_i64 :: "int \<Rightarrow> int \<Rightarrow> int" where
  "sat_sub_i64 a b = sat_i64 (a - b)"

definition sat_mul_i64 :: "int \<Rightarrow> int \<Rightarrow> int" where
  "sat_mul_i64 a b = sat_i64 (a * b)"

definition sat_add_u64 :: "nat \<Rightarrow> nat \<Rightarrow> nat" where
  "sat_add_u64 a b = min u64_max (a + b)"

lemmas i64_bounds [sat_defs] = i64_max_def i64_min_def
lemmas sat_ops [sat_defs] =
  sat_i64_def sat_add_i64_def sat_sub_i64_def sat_mul_i64_def sat_add_u64_def u64_max_def

lemma sat_i64_id [simp]: "in_i64 x \<Longrightarrow> sat_i64 x = x"
  by (simp add: in_i64_def sat_i64_def)

lemma in_i64_sat [simp, intro]: "in_i64 (sat_i64 x)"
  by (simp add: in_i64_def sat_defs)

lemma in_i64_sat_ops [simp, intro]:
  "in_i64 (sat_add_i64 a b)" "in_i64 (sat_sub_i64 a b)" "in_i64 (sat_mul_i64 a b)"
  by (simp_all add: sat_add_i64_def sat_sub_i64_def sat_mul_i64_def)

lemma sat_i64_mono: "x \<le> y \<Longrightarrow> sat_i64 x \<le> sat_i64 y"
  by (simp add: sat_i64_def)

lemma sat_add_i64_mono: "b \<le> c \<Longrightarrow> sat_add_i64 a b \<le> sat_add_i64 a c"
  by (simp add: sat_add_i64_def sat_i64_mono)

lemma sat_sub_i64_antimono: "b \<le> c \<Longrightarrow> sat_sub_i64 a c \<le> sat_sub_i64 a b"
  by (simp add: sat_sub_i64_def sat_i64_mono)

section \<open>Instants and durations\<close>

type_synonym instant = nat
type_synonym duration = nat

definition ns_per_ms :: nat where "ns_per_ms = 1000000"
definition ns_per_sec :: nat where "ns_per_sec = 1000000000"

definition from_millis :: "nat \<Rightarrow> duration" where "from_millis ms = ms * ns_per_ms"
definition from_secs :: "nat \<Rightarrow> duration" where "from_secs s = s * ns_per_sec"
definition as_millis :: "duration \<Rightarrow> nat" where "as_millis d = d div ns_per_ms"

text \<open>\<open>Instant::duration_since\<close> and \<open>saturating_duration_since\<close> both return zero for a later
  argument; the \<open>checked\<close> forms return \<open>None\<close>.\<close>

definition duration_since :: "instant \<Rightarrow> instant \<Rightarrow> duration" where
  "duration_since later earlier = later - earlier"

definition checked_duration_since :: "instant \<Rightarrow> instant \<Rightarrow> duration option" where
  "checked_duration_since later earlier =
     (if earlier \<le> later then Some (later - earlier) else None)"

definition checked_sub_instant :: "instant \<Rightarrow> duration \<Rightarrow> instant option" where
  "checked_sub_instant t d = (if d \<le> t then Some (t - d) else None)"

lemmas time_defs = ns_per_ms_def ns_per_sec_def from_millis_def from_secs_def as_millis_def
  duration_since_def checked_duration_since_def checked_sub_instant_def

lemma as_millis_mono: "a \<le> b \<Longrightarrow> as_millis a \<le> as_millis b"
  by (simp add: as_millis_def div_le_mono)

lemma as_millis_add_le: "as_millis a + as_millis b \<le> as_millis (a + b)"
  by (simp add: as_millis_def div_add1_eq [of a b])

lemma as_millis_from_millis [simp]: "as_millis (from_millis n) = n"
  by (simp add: time_defs)

section \<open>Running a machine over its inputs\<close>

text \<open>
  \<open>outputs step s xs\<close> threads a state through a list of inputs and collects what each
  step emits; \<open>final step s xs\<close> is the state after the last one.
\<close>

fun final :: "('s \<Rightarrow> 'i \<Rightarrow> 's \<times> 'o list) \<Rightarrow> 's \<Rightarrow> 'i list \<Rightarrow> 's" where
  "final step s [] = s"
| "final step s (x # xs) = final step (fst (step s x)) xs"

fun outputs :: "('s \<Rightarrow> 'i \<Rightarrow> 's \<times> 'o list) \<Rightarrow> 's \<Rightarrow> 'i list \<Rightarrow> 'o list" where
  "outputs step s [] = []"
| "outputs step s (x # xs) = snd (step s x) @ outputs step (fst (step s x)) xs"

lemma final_append [simp]: "final step s (xs @ ys) = final step (final step s xs) ys"
  by (induction xs arbitrary: s) auto

lemma outputs_append:
  "outputs step s (xs @ ys) = outputs step s xs @ outputs step (final step s xs) ys"
  by (induction xs arbitrary: s) auto

text \<open>The run with each input beside what its step emitted, for histories read backwards.\<close>

fun trace :: "('s \<Rightarrow> 'i \<Rightarrow> 's \<times> 'o list) \<Rightarrow> 's \<Rightarrow> 'i list \<Rightarrow> ('i \<times> 'o list) list" where
  "trace step s [] = []"
| "trace step s (x # xs) = (x, snd (step s x)) # trace step (fst (step s x)) xs"

lemma trace_append [simp]: "trace step s (xs @ ys) = trace step s xs @ trace step (final step s xs) ys"
  by (induction xs arbitrary: s) auto

text \<open>
  The interface of a machine with an invariant: its step, the invariant it keeps and a
  relation between the state before a step, the input and what the step emits.  Clients
  get the invariant and the emission law for whole runs.
\<close>

locale machine =
  fixes step :: "'s \<Rightarrow> 'i \<Rightarrow> 's \<times> 'o list"
    and inv :: "'s \<Rightarrow> bool"
    and ok :: "'s \<Rightarrow> 'o \<Rightarrow> bool"
  assumes step_inv: "inv s \<Longrightarrow> inv (fst (step s x))"
    and step_ok: "inv s \<Longrightarrow> y \<in> set (snd (step s x)) \<Longrightarrow> ok s y"
begin

lemma final_inv: "inv s \<Longrightarrow> inv (final step s xs)"
  by (induction xs arbitrary: s) (auto intro: step_inv)

lemma outputs_ok:
  "inv s \<Longrightarrow> y \<in> set (outputs step s xs) \<Longrightarrow> \<exists>t. inv t \<and> ok t y"
  by (induction xs arbitrary: s) (auto intro: step_inv step_ok)

end

text \<open>A machine whose emission law does not mention the state: the law holds of every output.\<close>

locale filter_machine = machine step inv "\<lambda>_. good"
  for step :: "'s \<Rightarrow> 'i \<Rightarrow> 's \<times> 'o list" and inv :: "'s \<Rightarrow> bool" and good :: "'o \<Rightarrow> bool"
begin

lemma outputs_good: "inv s \<Longrightarrow> y \<in> set (outputs step s xs) \<Longrightarrow> good y"
  using outputs_ok by blast

end

section \<open>Lists\<close>

lemma sum_list_map_le:
  fixes f g :: "'a \<Rightarrow> nat"
  shows "(\<And>x. x \<in> set xs \<Longrightarrow> f x \<le> g x) \<Longrightarrow> sum_list (map f xs) \<le> sum_list (map g xs)"
  by (induction xs) (auto intro: add_mono)

lemma sum_list_update_fresh:
  "k \<notin> fst ` set al \<Longrightarrow>
   sum_list (map snd (AList.update k (v::nat) al)) = sum_list (map snd al) + v"
  by (induction al) auto

lemma sum_list_update_bump:
  "distinct (map fst al) \<Longrightarrow> map_of al k = Some (v::nat) \<Longrightarrow>
   sum_list (map snd (AList.update k (Suc v) al)) = Suc (sum_list (map snd al))"
  by (induction al) auto

end
