(* ===== verification/Rust_Strings.thy ===== *)
theory Rust_Strings
  imports Prelude "HOL-Library.Sublist" "HOL-Library.Char_ord" "HOL-Library.List_Lexorder"
begin

text \<open>
  The part of Rust's \<open>str\<close> and \<open>String\<close> the program uses, over \<open>string\<close>.  A \<open>char\<close> here
  stands for a Unicode scalar value between U+0000 and U+00FF, so a model string is a Rust
  string over that range; on it \<open>to_lowercase\<close>, \<open>trim\<close> (Unicode \<open>White_Space\<close>),
  \<open>chars().count()\<close> and the UTF-8 length \<open>len()\<close> are exact.  Scalars beyond U+00FF are not
  modelled.  The order on strings is the lexicographic one, which Rust's byte order on
  UTF-8 agrees with.
\<close>

named_theorems string_defs \<open>definitions of the string operations\<close>

definition is_space :: "char \<Rightarrow> bool" where
  "is_space c = (let n = (of_char c :: nat) in
     (9 \<le> n \<and> n \<le> 13) \<or> n = 32 \<or> n = 133 \<or> n = 160)"

definition lower_char :: "char \<Rightarrow> char" where
  "lower_char c = (let n = (of_char c :: nat) in
     if (65 \<le> n \<and> n \<le> 90) \<or> (192 \<le> n \<and> n \<le> 222 \<and> n \<noteq> 215)
     then char_of (n + 32) else c)"

definition ascii_lower_char :: "char \<Rightarrow> char" where
  "ascii_lower_char c = (let n = (of_char c :: nat) in
     if 65 \<le> n \<and> n \<le> 90 then char_of (n + 32) else c)"

definition is_ascii_digit :: "char \<Rightarrow> bool" where
  "is_ascii_digit c = (let n = (of_char c :: nat) in 48 \<le> n \<and> n \<le> 57)"

definition to_lowercase :: "string \<Rightarrow> string" where "to_lowercase = map lower_char"
definition to_ascii_lowercase :: "string \<Rightarrow> string" where
  "to_ascii_lowercase = map ascii_lower_char"

definition trim_start :: "string \<Rightarrow> string" where "trim_start = dropWhile is_space"
definition trim_end :: "string \<Rightarrow> string" where
  "trim_end s = rev (dropWhile is_space (rev s))"
definition trim :: "string \<Rightarrow> string" where "trim s = trim_end (trim_start s)"

text \<open>The last piece of \<open>rsplit\<close> on a set of separators: what follows the last separator.\<close>

definition after_last :: "(char \<Rightarrow> bool) \<Rightarrow> string \<Rightarrow> string" where
  "after_last sep s = rev (takeWhile (\<lambda>c. \<not> sep c) (rev s))"

fun contains :: "string \<Rightarrow> string \<Rightarrow> bool" where
  "contains [] frag = (frag = [])"
| "contains (c # s) frag = (prefix frag (c # s) \<or> contains s frag)"

definition starts_with :: "string \<Rightarrow> string \<Rightarrow> bool" where
  "starts_with s p = prefix p s"

definition strip_suffix :: "string \<Rightarrow> string \<Rightarrow> string option" where
  "strip_suffix s suf =
     (if suffix suf s then Some (take (length s - length suf) s) else None)"

text \<open>Bytes of the UTF-8 encoding: one for ASCII, two for U+0080 to U+00FF.\<close>

definition utf8_len :: "string \<Rightarrow> nat" where
  "utf8_len s = sum_list (map (\<lambda>c. if (of_char c :: nat) < 128 then 1 else 2) s)"

text \<open>Decimal and hexadecimal formatting (\<open>{}\<close>, \<open>{:x}\<close>, \<open>{:02x}\<close>).\<close>

definition digit_char :: "nat \<Rightarrow> char" where
  "digit_char d = char_of (if d < 10 then 48 + d else 87 + d)"

fun show_base :: "nat \<Rightarrow> nat \<Rightarrow> string" where
  "show_base b n =
     (if b < 2 \<or> n < b then [digit_char n] else show_base b (n div b) @ [digit_char (n mod b)])"

declare show_base.simps [simp del]

definition show_nat :: "nat \<Rightarrow> string" where "show_nat n = show_base 10 n"
definition show_int :: "int \<Rightarrow> string" where
  "show_int i = (if i < 0 then CHR ''-'' # show_nat (nat (- i)) else show_nat (nat i))"
definition show_hex :: "nat \<Rightarrow> string" where "show_hex n = show_base 16 n"
definition show_hex2 :: "nat \<Rightarrow> string" where
  "show_hex2 n = (if n < 16 then CHR ''0'' # show_hex n else show_hex n)"

lemmas string_op_defs [string_defs] = is_space_def lower_char_def ascii_lower_char_def
  is_ascii_digit_def to_lowercase_def to_ascii_lowercase_def trim_start_def trim_end_def
  trim_def after_last_def starts_with_def strip_suffix_def utf8_len_def

section \<open>Facts about the operations\<close>

lemma contains_iff_sublist: "contains s frag = sublist frag s"
  by (induction s) (auto simp: sublist_Cons_right)

lemma contains_self [simp]: "contains s s"
  by (simp add: contains_iff_sublist)

lemma of_char_lower:
  "(of_char (lower_char c) :: nat) =
     (let n = of_char c in
      if (65 \<le> n \<and> n \<le> 90) \<or> (192 \<le> n \<and> n \<le> 222 \<and> n \<noteq> 215) then n + 32 else n)"
  by (auto simp: lower_char_def Let_def of_char_of)

lemma lower_char_idem [simp]: "lower_char (lower_char c) = lower_char c"
proof -
  have "(of_char (lower_char (lower_char c)) :: nat) = of_char (lower_char c)"
    by (simp add: of_char_lower Let_def)
  then show ?thesis by simp
qed

lemma to_lowercase_idem [simp]: "to_lowercase (to_lowercase s) = to_lowercase s"
  by (simp add: to_lowercase_def comp_def)

lemma is_space_lower [simp]: "is_space (lower_char c) = is_space c"
  by (auto simp: is_space_def of_char_lower Let_def)

lemma trim_start_lower: "trim_start (to_lowercase s) = to_lowercase (trim_start s)"
  by (simp add: trim_start_def to_lowercase_def dropWhile_map comp_def)

lemma trim_end_lower: "trim_end (to_lowercase s) = to_lowercase (trim_end s)"
  by (simp add: trim_end_def to_lowercase_def rev_map dropWhile_map comp_def)

lemma trim_lower: "trim (to_lowercase s) = to_lowercase (trim s)"
  by (simp add: trim_def trim_start_lower trim_end_lower)

lemma trim_start_idem [simp]: "trim_start (trim_start s) = trim_start s"
  by (simp add: trim_start_def)

lemma trim_end_idem [simp]: "trim_end (trim_end s) = trim_end s"
  by (simp add: trim_end_def)

lemma trim_start_fix: "trim_start s = s \<longleftrightarrow> s = [] \<or> \<not> is_space (hd s)"
  by (simp add: trim_start_def dropWhile_eq_self_iff)

lemma trim_end_prefix: "prefix (trim_end s) s"
proof -
  have "suffix (dropWhile is_space (rev s)) (rev s)" by (rule suffix_dropWhile)
  then show ?thesis by (simp add: trim_end_def suffix_to_prefix)
qed

lemma trim_idem [simp]: "trim (trim s) = trim s"
proof -
  have "trim_start (trim_end (trim_start s)) = trim_end (trim_start s)"
  proof (cases "trim_end (trim_start s) = []")
    case False
    have "prefix (trim_end (trim_start s)) (trim_start s)" by (rule trim_end_prefix)
    with False have "hd (trim_end (trim_start s)) = hd (trim_start s)" "trim_start s \<noteq> []"
      by (auto simp: prefix_def) (metis hd_append2)
    moreover have "\<not> is_space (hd (trim_start s))"
      using \<open>trim_start s \<noteq> []\<close> by (simp add: trim_start_def hd_dropWhile)
    ultimately show ?thesis by (simp add: trim_start_fix)
  qed (simp add: trim_start_def)
  then show ?thesis by (simp add: trim_def)
qed

lemma after_last_no_sep: "c \<in> set (after_last sep s) \<Longrightarrow> \<not> sep c"
  by (auto simp: after_last_def dest: set_takeWhileD)

lemma after_last_id: "(\<And>c. c \<in> set s \<Longrightarrow> \<not> sep c) \<Longrightarrow> after_last sep s = s"
  by (simp add: after_last_def takeWhile_eq_all_conv rev_swap)

lemma set_trim: "set (trim s) \<subseteq> set s"
  by (auto simp: trim_def trim_start_def trim_end_def dest!: set_dropWhileD)

lemma strip_suffix_Some: "strip_suffix s suf = Some t \<longleftrightarrow> s = t @ suf"
  by (auto simp: strip_suffix_def suffix_def)

subsection \<open>Decimal formatting is injective\<close>

lemma digit_char_inj: "a < 16 \<Longrightarrow> b < 16 \<Longrightarrow> digit_char a = digit_char b \<Longrightarrow> a = b"
  by (auto simp: digit_char_def dest!: arg_cong [of _ _ "of_char :: char \<Rightarrow> nat"]
      split: if_splits)

lemma show_base_nonempty [simp]: "show_base b n \<noteq> []" "[] \<noteq> show_base b n"
  by (subst show_base.simps, simp)+

lemma digit_char_decimal: "d < 10 \<Longrightarrow> is_ascii_digit (digit_char d)"
  by (simp add: digit_char_def is_ascii_digit_def Let_def)

lemma show_nat_digits: "c \<in> set (show_nat n) \<Longrightarrow> is_ascii_digit c"
  unfolding show_nat_def
proof (induction "10::nat" n rule: show_base.induct)
  case (1 n)
  then show ?case
    by (subst (asm) (2) show_base.simps) (auto split: if_splits intro: digit_char_decimal)
qed

lemma show_base_10_inj: "show_base 10 m = show_base 10 n \<Longrightarrow> m = n"
proof (induction "10::nat" m arbitrary: n rule: show_base.induct)
  case (1 m)
  have eq: "(if m < 10 then [digit_char m] else show_base 10 (m div 10) @ [digit_char (m mod 10)])
          = (if n < 10 then [digit_char n] else show_base 10 (n div 10) @ [digit_char (n mod 10)])"
    using "1.prems" by (simp add: show_base.simps [of 10 m] show_base.simps [of 10 n])
  show ?case
  proof (cases "m < 10")
    case True
    then have "n < 10" using eq by (auto split: if_splits)
    then show ?thesis using eq True by (auto intro: digit_char_inj)
  next
    case False
    then have n: "\<not> n < 10" using eq by (auto split: if_splits)
    then have "m div 10 = n div 10" "digit_char (m mod 10) = digit_char (n mod 10)"
      using eq False "1.hyps" [of "n div 10"] by auto
    then have "m div 10 = n div 10" "m mod 10 = n mod 10" by (auto intro: digit_char_inj)
    then show ?thesis by (metis div_mult_mod_eq)
  qed
qed

lemma show_nat_inj: "show_nat m = show_nat n \<longleftrightarrow> m = n"
  by (auto simp: show_nat_def dest: show_base_10_inj)

lemma show_nat_nonempty [simp]: "show_nat n \<noteq> []"
  by (simp add: show_nat_def)

lemma minus_not_digit: "\<not> is_ascii_digit (CHR ''-'')"
  by (simp add: is_ascii_digit_def)

lemma show_int_inj: "show_int i = show_int j \<longleftrightarrow> i = j"
proof
  assume eq: "show_int i = show_int j"
  have *: "CHR ''-'' # xs \<noteq> show_nat n" for xs n
  proof
    assume "CHR ''-'' # xs = show_nat n"
    then have "CHR ''-'' \<in> set (show_nat n)" by (metis list.set_intros(1))
    then show False using show_nat_digits minus_not_digit by blast
  qed
  show "i = j"
    using eq * by (auto simp: show_int_def show_nat_inj split: if_splits dest: sym)
qed simp

lemma show_int_chars: "c \<in> set (show_int i) \<Longrightarrow> is_ascii_digit c \<or> c = CHR ''-''"
  by (auto simp: show_int_def dest: show_nat_digits split: if_splits)

section \<open>Splitting\<close>

definition is_control :: "char \<Rightarrow> bool" where
  "is_control c \<longleftrightarrow> of_char c < (32 :: nat) \<or> 127 \<le> (of_char c :: nat) \<and> (of_char c :: nat) \<le> 159"

text \<open>\<open>split\<close>, \<open>split_whitespace\<close> and \<open>join(" ")\<close>.\<close>

fun split_on :: "(char \<Rightarrow> bool) \<Rightarrow> string \<Rightarrow> string list" where
  "split_on sep [] = [[]]"
| "split_on sep (c # s) =
     (if sep c then [] # split_on sep s
      else case split_on sep s of w # ws \<Rightarrow> (c # w) # ws | [] \<Rightarrow> [[c]])"

definition split_whitespace :: "string \<Rightarrow> string list" where
  "split_whitespace s = filter (\<lambda>w. w \<noteq> []) (split_on is_space s)"

fun join_words :: "string list \<Rightarrow> string" where
  "join_words [] = []"
| "join_words [w] = w"
| "join_words (w # ws) = w @ '' '' @ join_words ws"

section \<open>Integers\<close>

text \<open>\<open>str::parse::<i64>\<close>: an optional sign, at least one digit, and a value that fits.\<close>

definition digits_value :: "string \<Rightarrow> nat" where
  "digits_value ds = foldl (\<lambda>n c. 10 * n + (of_char c - 48)) 0 ds"

definition parse_i64 :: "string \<Rightarrow> int option" where
  "parse_i64 s =
     (let (negative, ds) = (case s of
            c # ds \<Rightarrow> if c = CHR ''-'' then (True, ds) else if c = CHR ''+'' then (False, ds) else (False, s)
          | [] \<Rightarrow> (False, []));
          v = (if negative then - int (digits_value ds) else int (digits_value ds))
      in if ds = [] \<or> \<not> list_all is_ascii_digit ds \<or> \<not> in_i64 v then None else Some v)"

lemma parse_i64_range: "parse_i64 s = Some v \<Longrightarrow> in_i64 v"
  by (auto simp: parse_i64_def Let_def split: if_splits prod.splits)

end
