(* ===== verification/Vocabulary.thy ===== *)
theory Vocabulary
  imports Rust_Strings
begin

text \<open>
  The closed vocabularies of \<open>gilbreth-core\<close> (crates/gilbreth-core/src/lib.rs): each
  \<open>enum\<close> is a datatype with the source's constructors, each \<open>as_str\<close> a \<open>primrec\<close>, each
  \<open>FromStr\<close> a definition into \<open>string + 'a\<close> whose \<open>Inl\<close> is the parse error, which carries
  the rejected text.  The seven vocabularies that are stored as text and parsed back share
  the interface \<open>stored_tag\<close>: what a reader of the database relies on.  Some constructor
  names occur in several enums, as in the source; they are written qualified by their type
  where that matters.
\<close>

section \<open>The interface of a stored vocabulary\<close>

locale stored_tag =
  fixes as_str :: "'a \<Rightarrow> string"
    and all :: "'a list"
    and from_str :: "string \<Rightarrow> string + 'a"
  assumes all_complete: "x \<in> set all"
    and all_distinct: "distinct all"
    and parse_print: "from_str (as_str x) = Inr x"
    and print_parse: "from_str s = Inr x \<Longrightarrow> as_str x = s"
    and error_value: "from_str s = Inl e \<Longrightarrow> e = s"
begin

lemma as_str_inj: "as_str x = as_str y \<longleftrightarrow> x = y"
  by (metis parse_print sum.inject(2))

lemma parse_iff: "from_str s = Inr x \<longleftrightarrow> s = as_str x"
  using parse_print print_parse by blast

lemma reject_iff: "from_str s = Inl s \<longleftrightarrow> s \<notin> as_str ` set all"
proof
  assume "from_str s = Inl s"
  then show "s \<notin> as_str ` set all" using parse_print by auto
next
  assume no: "s \<notin> as_str ` set all"
  show "from_str s = Inl s"
  proof (cases "from_str s")
    case (Inl e)
    then show ?thesis using error_value by simp
  next
    case (Inr x)
    then have "s = as_str x" by (simp add: parse_iff)
    with no show ?thesis using all_complete by blast
  qed
qed

lemma image_all: "as_str ` set all = range as_str"
  using all_complete by auto

lemma card_range: "card (range as_str) = length all"
proof -
  have "inj_on as_str (set all)" by (simp add: inj_on_def as_str_inj)
  then show ?thesis
    using all_distinct by (simp add: image_all [symmetric] card_image distinct_card)
qed

end

text \<open>The code's \<open>match\<close> on literals is the search of a table of literals.\<close>

fun parse_table :: "(string \<times> 'a) list \<Rightarrow> string \<Rightarrow> string + 'a" where
  "parse_table [] s = Inl s"
| "parse_table ((t, x) # ts) s = (if s = t then Inr x else parse_table ts s)"

lemma parse_table_hit:
  "distinct (map f xs) \<Longrightarrow> x \<in> set xs \<Longrightarrow> parse_table (map (\<lambda>x. (f x, x)) xs) (f x) = Inr x"
  by (induction xs) (auto simp: image_iff)

lemma parse_table_Inr: "parse_table (map (\<lambda>x. (f x, x)) xs) s = Inr x \<Longrightarrow> f x = s"
  by (induction xs) (auto split: if_splits)

lemma parse_table_Inl: "parse_table ts s = Inl e \<Longrightarrow> e = s"
  by (induction ts s rule: parse_table.induct) (auto split: if_splits)

lemma stored_tag_of_table:
  assumes complete: "\<And>x. x \<in> set all"
    and distinct: "distinct (map as_str all)"
    and parse: "\<And>s. from_str s = parse_table (map (\<lambda>x. (as_str x, x)) all) s"
  shows "stored_tag as_str all from_str"
proof
  show "distinct all" using distinct by (simp add: distinct_map)
qed (auto simp: complete parse parse_table_hit [OF distinct] dest: parse_table_Inr parse_table_Inl)

section \<open>The vocabularies\<close>

datatype edit_commit_signal =
    CompositionFinalized | FocusLoss | Enter | Tab | Stop
  | Cap | Idle

primrec edit_commit_signal_as_str :: "edit_commit_signal \<Rightarrow> string" where
  "edit_commit_signal_as_str CompositionFinalized = ''composition_finalized''"
| "edit_commit_signal_as_str FocusLoss = ''focus_loss''"
| "edit_commit_signal_as_str Enter = ''enter''"
| "edit_commit_signal_as_str Tab = ''tab''"
| "edit_commit_signal_as_str Stop = ''stop''"
| "edit_commit_signal_as_str Cap = ''cap''"
| "edit_commit_signal_as_str Idle = ''idle''"

definition edit_commit_signal_all :: "edit_commit_signal list" where
  "edit_commit_signal_all = [CompositionFinalized, FocusLoss, Enter, Tab, Stop, Cap, Idle]"

definition edit_commit_signal_from_str :: "string \<Rightarrow> string + edit_commit_signal" where
  "edit_commit_signal_from_str value =
     (if value = ''composition_finalized'' then Inr CompositionFinalized
      else if value = ''focus_loss'' then Inr FocusLoss
      else if value = ''enter'' then Inr Enter
      else if value = ''tab'' then Inr Tab
      else if value = ''stop'' then Inr Stop
      else if value = ''cap'' then Inr Cap
      else if value = ''idle'' then Inr Idle
      else Inl value)"

interpretation edit_commit_signal: stored_tag edit_commit_signal_as_str edit_commit_signal_all edit_commit_signal_from_str
proof (rule stored_tag_of_table)
  show "x \<in> set edit_commit_signal_all" for x by (cases x) (simp_all add: edit_commit_signal_all_def)
qed (simp_all add: edit_commit_signal_all_def edit_commit_signal_from_str_def)

datatype rejected_action_reason =
    NullElement | WindowMismatch | SelectorCaptureFailed | TrustRejected | ElevatedOrUipiDenied
  | NonActionableElement | BenignNoAction

primrec rejected_action_reason_as_str :: "rejected_action_reason \<Rightarrow> string" where
  "rejected_action_reason_as_str NullElement = ''null_element''"
| "rejected_action_reason_as_str WindowMismatch = ''window_mismatch''"
| "rejected_action_reason_as_str SelectorCaptureFailed = ''selector_capture_failed''"
| "rejected_action_reason_as_str TrustRejected = ''trust_rejected''"
| "rejected_action_reason_as_str ElevatedOrUipiDenied = ''elevated_or_uipi_denied''"
| "rejected_action_reason_as_str NonActionableElement = ''non_actionable_element''"
| "rejected_action_reason_as_str BenignNoAction = ''benign_no_action''"

definition rejected_action_reason_all :: "rejected_action_reason list" where
  "rejected_action_reason_all = [NullElement, WindowMismatch, SelectorCaptureFailed, TrustRejected, ElevatedOrUipiDenied, NonActionableElement, BenignNoAction]"

definition rejected_action_reason_from_str :: "string \<Rightarrow> string + rejected_action_reason" where
  "rejected_action_reason_from_str value =
     (if value = ''null_element'' then Inr NullElement
      else if value = ''window_mismatch'' then Inr WindowMismatch
      else if value = ''selector_capture_failed'' then Inr SelectorCaptureFailed
      else if value = ''trust_rejected'' then Inr TrustRejected
      else if value = ''elevated_or_uipi_denied'' then Inr ElevatedOrUipiDenied
      else if value = ''non_actionable_element'' then Inr NonActionableElement
      else if value = ''benign_no_action'' then Inr BenignNoAction
      else Inl value)"

interpretation rejected_action_reason: stored_tag rejected_action_reason_as_str rejected_action_reason_all rejected_action_reason_from_str
proof (rule stored_tag_of_table)
  show "x \<in> set rejected_action_reason_all" for x by (cases x) (simp_all add: rejected_action_reason_all_def)
qed (simp_all add: rejected_action_reason_all_def rejected_action_reason_from_str_def)

datatype action_type =
    Invoke | Toggle | Select | ExpandCollapse | EditCommitted
  | Scroll | UiActionOther

primrec action_type_as_str :: "action_type \<Rightarrow> string" where
  "action_type_as_str Invoke = ''invoke''"
| "action_type_as_str Toggle = ''toggle''"
| "action_type_as_str Select = ''select''"
| "action_type_as_str ExpandCollapse = ''expand_collapse''"
| "action_type_as_str EditCommitted = ''edit_committed''"
| "action_type_as_str Scroll = ''scroll''"
| "action_type_as_str UiActionOther = ''ui_action_other''"

definition action_type_all :: "action_type list" where
  "action_type_all = [Invoke, Toggle, Select, ExpandCollapse, EditCommitted, Scroll, UiActionOther]"

definition action_type_from_str :: "string \<Rightarrow> string + action_type" where
  "action_type_from_str value =
     (if value = ''invoke'' then Inr Invoke
      else if value = ''toggle'' then Inr Toggle
      else if value = ''select'' then Inr Select
      else if value = ''expand_collapse'' then Inr ExpandCollapse
      else if value = ''edit_committed'' then Inr EditCommitted
      else if value = ''scroll'' then Inr Scroll
      else if value = ''ui_action_other'' then Inr UiActionOther
      else Inl value)"

interpretation action_type: stored_tag action_type_as_str action_type_all action_type_from_str
proof (rule stored_tag_of_table)
  show "x \<in> set action_type_all" for x by (cases x) (simp_all add: action_type_all_def)
qed (simp_all add: action_type_all_def action_type_from_str_def)

datatype record_request_status =
    Requested | Confirmed | Started | Expired | Cancelled
  | Failed

primrec record_request_status_as_str :: "record_request_status \<Rightarrow> string" where
  "record_request_status_as_str Requested = ''requested''"
| "record_request_status_as_str Confirmed = ''confirmed''"
| "record_request_status_as_str Started = ''started''"
| "record_request_status_as_str Expired = ''expired''"
| "record_request_status_as_str Cancelled = ''cancelled''"
| "record_request_status_as_str Failed = ''failed''"

definition record_request_status_all :: "record_request_status list" where
  "record_request_status_all = [Requested, Confirmed, Started, Expired, Cancelled, Failed]"

definition record_request_status_from_str :: "string \<Rightarrow> string + record_request_status" where
  "record_request_status_from_str value =
     (if value = ''requested'' then Inr Requested
      else if value = ''confirmed'' then Inr Confirmed
      else if value = ''started'' then Inr Started
      else if value = ''expired'' then Inr Expired
      else if value = ''cancelled'' then Inr Cancelled
      else if value = ''failed'' then Inr Failed
      else Inl value)"

interpretation record_request_status: stored_tag record_request_status_as_str record_request_status_all record_request_status_from_str
proof (rule stored_tag_of_table)
  show "x \<in> set record_request_status_all" for x by (cases x) (simp_all add: record_request_status_all_def)
qed (simp_all add: record_request_status_all_def record_request_status_from_str_def)

datatype record_stop_reason =
    UserStop | PanicHotkey | SafetyCapStop | AppShutdown | Error

primrec record_stop_reason_as_str :: "record_stop_reason \<Rightarrow> string" where
  "record_stop_reason_as_str UserStop = ''user_stop''"
| "record_stop_reason_as_str PanicHotkey = ''panic_hotkey''"
| "record_stop_reason_as_str SafetyCapStop = ''safety_cap_stop''"
| "record_stop_reason_as_str AppShutdown = ''app_shutdown''"
| "record_stop_reason_as_str Error = ''error''"

definition record_stop_reason_all :: "record_stop_reason list" where
  "record_stop_reason_all = [UserStop, PanicHotkey, SafetyCapStop, AppShutdown, Error]"

definition record_stop_reason_from_str :: "string \<Rightarrow> string + record_stop_reason" where
  "record_stop_reason_from_str value =
     (if value = ''user_stop'' then Inr UserStop
      else if value = ''panic_hotkey'' then Inr PanicHotkey
      else if value = ''safety_cap_stop'' then Inr SafetyCapStop
      else if value = ''app_shutdown'' then Inr AppShutdown
      else if value = ''error'' then Inr Error
      else Inl value)"

interpretation record_stop_reason: stored_tag record_stop_reason_as_str record_stop_reason_all record_stop_reason_from_str
proof (rule stored_tag_of_table)
  show "x \<in> set record_stop_reason_all" for x by (cases x) (simp_all add: record_stop_reason_all_def)
qed (simp_all add: record_stop_reason_all_def record_stop_reason_from_str_def)

datatype selector_trust_basis =
    PidMatch | WindowOwnership | ScopedInvokeSender

primrec selector_trust_basis_as_str :: "selector_trust_basis \<Rightarrow> string" where
  "selector_trust_basis_as_str PidMatch = ''pid_match''"
| "selector_trust_basis_as_str WindowOwnership = ''window_ownership''"
| "selector_trust_basis_as_str ScopedInvokeSender = ''scoped_invoke_sender''"

definition selector_trust_basis_all :: "selector_trust_basis list" where
  "selector_trust_basis_all = [PidMatch, WindowOwnership, ScopedInvokeSender]"

definition selector_trust_basis_from_str :: "string \<Rightarrow> string + selector_trust_basis" where
  "selector_trust_basis_from_str value =
     (if value = ''pid_match'' then Inr PidMatch
      else if value = ''window_ownership'' then Inr WindowOwnership
      else if value = ''scoped_invoke_sender'' then Inr ScopedInvokeSender
      else Inl value)"

interpretation selector_trust_basis: stored_tag selector_trust_basis_as_str selector_trust_basis_all selector_trust_basis_from_str
proof (rule stored_tag_of_table)
  show "x \<in> set selector_trust_basis_all" for x by (cases x) (simp_all add: selector_trust_basis_all_def)
qed (simp_all add: selector_trust_basis_all_def selector_trust_basis_from_str_def)

datatype framework_class =
    Native | NativeProvisional | WebRenderer | Virtualized | Unknown

primrec framework_class_as_str :: "framework_class \<Rightarrow> string" where
  "framework_class_as_str Native = ''native''"
| "framework_class_as_str NativeProvisional = ''native_provisional''"
| "framework_class_as_str WebRenderer = ''web_renderer''"
| "framework_class_as_str Virtualized = ''virtualized''"
| "framework_class_as_str Unknown = ''unknown''"

definition framework_class_all :: "framework_class list" where
  "framework_class_all = [Native, NativeProvisional, WebRenderer, Virtualized, Unknown]"

definition framework_class_from_str :: "string \<Rightarrow> string + framework_class" where
  "framework_class_from_str value =
     (if value = ''native'' then Inr Native
      else if value = ''native_provisional'' then Inr NativeProvisional
      else if value = ''web_renderer'' then Inr WebRenderer
      else if value = ''virtualized'' then Inr Virtualized
      else if value = ''unknown'' then Inr Unknown
      else Inl value)"

interpretation framework_class: stored_tag framework_class_as_str framework_class_all framework_class_from_str
proof (rule stored_tag_of_table)
  show "x \<in> set framework_class_all" for x by (cases x) (simp_all add: framework_class_all_def)
qed (simp_all add: framework_class_all_def framework_class_from_str_def)

datatype window_lifecycle_origin =
    Observed | Seeded | Synthesized

primrec window_lifecycle_origin_as_str :: "window_lifecycle_origin \<Rightarrow> string" where
  "window_lifecycle_origin_as_str Observed = ''observed''"
| "window_lifecycle_origin_as_str Seeded = ''seeded''"
| "window_lifecycle_origin_as_str Synthesized = ''synthesized''"

datatype process_exe_source =
    FullPath | SnapshotName

primrec process_exe_source_as_str :: "process_exe_source \<Rightarrow> string" where
  "process_exe_source_as_str FullPath = ''full_path''"
| "process_exe_source_as_str SnapshotName = ''snapshot_name''"

datatype clipboard_format_kind =
    Text | Files | Image | Audio | Custom
  | Empty | Unavailable | Concealed

primrec clipboard_format_kind_as_str :: "clipboard_format_kind \<Rightarrow> string" where
  "clipboard_format_kind_as_str Text = ''text''"
| "clipboard_format_kind_as_str Files = ''files''"
| "clipboard_format_kind_as_str Image = ''image''"
| "clipboard_format_kind_as_str Audio = ''audio''"
| "clipboard_format_kind_as_str Custom = ''custom''"
| "clipboard_format_kind_as_str Empty = ''empty''"
| "clipboard_format_kind_as_str Unavailable = ''unavailable''"
| "clipboard_format_kind_as_str Concealed = ''concealed''"

datatype sensitive_context_reason =
    SessionLocked | SessionDisconnected | SecureDesktop | PasswordField | SecureInput

primrec sensitive_context_reason_as_str :: "sensitive_context_reason \<Rightarrow> string" where
  "sensitive_context_reason_as_str SessionLocked = ''session locked''"
| "sensitive_context_reason_as_str SessionDisconnected = ''session disconnected''"
| "sensitive_context_reason_as_str SecureDesktop = ''secure desktop''"
| "sensitive_context_reason_as_str PasswordField = ''password field''"
| "sensitive_context_reason_as_str SecureInput = ''secure input''"

datatype session_connection_kind =
    Console | Remote

primrec session_connection_kind_as_str :: "session_connection_kind \<Rightarrow> string" where
  "session_connection_kind_as_str Console = ''console''"
| "session_connection_kind_as_str Remote = ''remote''"

datatype mouse_button =
    Left | Right | Middle | X1 | X2

primrec mouse_button_as_str :: "mouse_button \<Rightarrow> string" where
  "mouse_button_as_str Left = ''left''"
| "mouse_button_as_str Right = ''right''"
| "mouse_button_as_str Middle = ''middle''"
| "mouse_button_as_str X1 = ''x1''"
| "mouse_button_as_str X2 = ''x2''"

datatype input_origin =
    Local | RemoteRelaySuspected

primrec input_origin_as_str :: "input_origin \<Rightarrow> string" where
  "input_origin_as_str Local = ''local''"
| "input_origin_as_str RemoteRelaySuspected = ''remote_relay_suspected''"

datatype source =
    Foreground | Window | Keyboard | Mouse | System

primrec source_as_str :: "source \<Rightarrow> string" where
  "source_as_str Foreground = ''foreground''"
| "source_as_str Window = ''window''"
| "source_as_str Keyboard = ''keyboard''"
| "source_as_str Mouse = ''mouse''"
| "source_as_str System = ''system''"

datatype capture_stream =
    Foreground | Windows | Keyboard | Mouse | System
  | Idle

datatype modality =
    Mouse | Keyboard | Other

datatype toggle_action_state =
    On | Off | Indeterminate

datatype expand_collapse_action_state =
    Expanded | Collapsed

datatype scroll_direction =
    Up | Down | Left | Right | Horizontal

datatype mouse_wheel_axis =
    Vertical | Horizontal

datatype key_class =
    Printable | Navigation | Modifier | Function | Other

section \<open>Round trips\<close>

text \<open>
  \<open>as_str\<close>/\<open>FromStr\<close>: the seven vocabularies stored as text survive storage.  A text
  parses to a tag exactly when it is the tag's own text, and every other text is rejected
  with itself as the error value.
\<close>

theorem stored_tags_roundtrip:
  "(edit_commit_signal_from_str s = Inr a \<longleftrightarrow> s = edit_commit_signal_as_str a) \<and>
   (edit_commit_signal_from_str s = Inl s \<longleftrightarrow> s \<notin> range edit_commit_signal_as_str) \<and>
   (rejected_action_reason_from_str s = Inr b \<longleftrightarrow> s = rejected_action_reason_as_str b) \<and>
   (rejected_action_reason_from_str s = Inl s \<longleftrightarrow> s \<notin> range rejected_action_reason_as_str) \<and>
   (action_type_from_str s = Inr c \<longleftrightarrow> s = action_type_as_str c) \<and>
   (action_type_from_str s = Inl s \<longleftrightarrow> s \<notin> range action_type_as_str) \<and>
   (record_request_status_from_str s = Inr d \<longleftrightarrow> s = record_request_status_as_str d) \<and>
   (record_request_status_from_str s = Inl s \<longleftrightarrow> s \<notin> range record_request_status_as_str) \<and>
   (record_stop_reason_from_str s = Inr e \<longleftrightarrow> s = record_stop_reason_as_str e) \<and>
   (record_stop_reason_from_str s = Inl s \<longleftrightarrow> s \<notin> range record_stop_reason_as_str) \<and>
   (selector_trust_basis_from_str s = Inr f \<longleftrightarrow> s = selector_trust_basis_as_str f) \<and>
   (selector_trust_basis_from_str s = Inl s \<longleftrightarrow> s \<notin> range selector_trust_basis_as_str) \<and>
   (framework_class_from_str s = Inr g \<longleftrightarrow> s = framework_class_as_str g) \<and>
   (framework_class_from_str s = Inl s \<longleftrightarrow> s \<notin> range framework_class_as_str)"
  by (simp_all only: edit_commit_signal.parse_iff rejected_action_reason.parse_iff action_type.parse_iff record_request_status.parse_iff record_stop_reason.parse_iff selector_trust_basis.parse_iff framework_class.parse_iff
    edit_commit_signal.reject_iff [unfolded edit_commit_signal.image_all]
    rejected_action_reason.reject_iff [unfolded rejected_action_reason.image_all]
    action_type.reject_iff [unfolded action_type.image_all]
    record_request_status.reject_iff [unfolded record_request_status.image_all]
    record_stop_reason.reject_iff [unfolded record_stop_reason.image_all]
    selector_trust_basis.reject_iff [unfolded selector_trust_basis.image_all]
    framework_class.reject_iff [unfolded framework_class.image_all] simp_thms)

end
