(* ===== verification/Event_Model.thy ===== *)
theory Event_Model
  imports Vocabulary
begin

text \<open>
  The event model of \<open>gilbreth-core\<close> (crates/gilbreth-core/src/lib.rs): windows, the payload
  enum with its thirty kinds, captured events and stamped envelopes, the Record Routine
  action types, the routing of an event to its capture stream and the in-place redactions
  of a payload.  A method taking \<open>&mut self\<close> and returning \<open>bool\<close> is a function to the pair of
  the new value and the flag.
\<close>

section \<open>Data\<close>

record modifiers =
  m_shift :: bool
  m_ctrl :: bool
  m_alt :: bool
  m_win :: bool

definition default_modifiers :: modifiers where
  "default_modifiers = \<lparr>m_shift = False, m_ctrl = False, m_alt = False, m_win = False\<rparr>"

record window_ref =
  w_hwnd :: nat
  w_exe :: string
  w_title :: string
  w_pid :: nat

record process_churn_entry =
  pc_exe :: string
  pc_dropped :: nat
  pc_sustained :: bool

datatype event_payload =
    FocusChanged window_ref "window_ref option" nat nat bool
  | WindowOpened window_ref window_lifecycle_origin
  | WindowClosed window_ref nat window_lifecycle_origin
  | Key string modifiers "window_ref option" "key_class option"
  | MouseClick mouse_button "int option" "int option" "window_ref option" "input_origin option"
  | MouseDoubleClick mouse_button nat "int option" "int option" "window_ref option"
      "input_origin option"
  | MouseDrag mouse_button int int nat nat nat "int option" "int option" "int option"
      "int option" "window_ref option" bool "input_origin option"
  | MouseWheel mouse_wheel_axis int "int option" "int option" "window_ref option"
      "input_origin option"
  | MouseMove int int nat nat nat "int option" "int option" "window_ref option"
      "input_origin option"
  | SystemInfo string string string nat nat
  | VirtualScreen int int int int int int
  | ProcessStarted nat string process_exe_source
  | ProcessExited nat string process_exe_source
  | ProcessChurnSummary nat nat nat "process_churn_entry list"
  | PowerSuspend "nat option"
  | PowerResume "nat option" bool
  | PowerBoundaryRecovered nat nat
  | CapturePaused
  | CaptureResumed
  | PowerStatusChanged "bool option" "nat option" "bool option"
  | SessionLock nat
  | SessionUnlock nat
  | SessionConnect nat session_connection_kind
  | SessionDisconnect nat session_connection_kind
  | ClipboardUsed nat clipboard_format_kind nat "nat option" "nat option"
  | NotificationsReceived "string option" nat
  | SensitiveContextEntered sensitive_context_reason
  | SensitiveContextExited sensitive_context_reason
  | Idle nat
  | Active nat

record captured =
  c_source :: source
  c_captured_at :: instant
  c_payload :: event_payload

record event_envelope =
  e_schema_version :: nat
  e_session_id :: int
  e_seq :: nat
  e_ts_unix_ms :: int
  e_source :: source
  e_is_sensitive :: bool
  e_payload :: event_payload

definition SCHEMA_VERSION :: nat where "SCHEMA_VERSION = 1"
definition EXCLUDED_APP_GAP_PATTERN :: string where
  "EXCLUDED_APP_GAP_PATTERN = ''excluded_app_gap''"

subsection \<open>Record Routine actions\<close>

record selector_path_hop =
  h_control_type :: int
  h_automation_id :: string
  h_class_name :: string
  h_ordinal :: nat

record selector_path =
  s_backend :: string
  s_hops :: "selector_path_hop list"

record automation_action =
  aa_action_type :: action_type
  aa_selector_path :: selector_path
  aa_trust_basis :: selector_trust_basis

datatype action_payload =
    Invoke "modality option" "int option"
  | Toggle toggle_action_state "modality option" "int option"
  | Select "nat option" "nat option" "modality option" "int option"
  | ExpandCollapse expand_collapse_action_state "modality option" "int option"
  | EditCommitted "modality option" "int option"
  | Scroll scroll_direction "nat option" "modality option" "int option"
  | UiActionOther "int option" "modality option" "int option"

text \<open>The fields \<open>ActionCapture\<close>, \<open>ActionCaptureWire\<close> and \<open>StampedAction\<close> share.\<close>

record action_body =
  a_action :: automation_action
  a_record_session_id :: int
  a_exe :: "string option"
  a_is_sensitive :: bool
  a_has_name :: bool
  a_pattern_action :: "string option"
  a_framework :: string
  a_framework_class :: framework_class
  a_depth :: nat
  a_leaf_rect :: "string option"
  a_payload :: action_payload

record action_capture = action_body + a_captured_at :: instant
record action_capture_wire = action_body + a_captured_unix_ms :: int
record stamped_action = action_body +
  a_session_id :: int
  a_seq :: nat
  a_ts_unix_ms :: int

record action_diag =
  d_record_session_id :: int
  d_worker_ordinal :: nat
  d_event_kind :: string
  d_callback_latency_ns :: nat
  d_event_to_selector_complete_ns :: nat
  d_queue_depth_at_enqueue :: nat
  d_repeat_count :: nat
  d_edit_commit_signal :: "edit_commit_signal option"
  d_trust_basis :: "selector_trust_basis option"
  d_action_type :: "action_type option"

record rejected_action =
  r_record_session_id :: int
  r_worker_ordinal :: nat
  r_event_kind :: string
  r_captured_at :: instant
  r_reason :: rejected_action_reason
  r_trust_basis :: "selector_trust_basis option"
  r_callback_latency_ns :: nat
  r_event_to_selector_complete_ns :: nat
  r_queue_depth_at_enqueue :: nat

datatype writer_input =
    Motion captured
  | Action action_capture
  | ActionDiag action_diag
  | RejectedAction rejected_action

section \<open>Kinds and streams\<close>

primrec payload_kind :: "event_payload \<Rightarrow> string" where
  "payload_kind (FocusChanged _ _ _ _ _) = ''focus_changed''"
| "payload_kind (WindowOpened _ _) = ''window_opened''"
| "payload_kind (WindowClosed _ _ _) = ''window_closed''"
| "payload_kind (Key _ _ _ _) = ''key''"
| "payload_kind (MouseClick _ _ _ _ _) = ''mouse_click''"
| "payload_kind (MouseDoubleClick _ _ _ _ _ _) = ''mouse_double_click''"
| "payload_kind (MouseDrag _ _ _ _ _ _ _ _ _ _ _ _ _) = ''mouse_drag''"
| "payload_kind (MouseWheel _ _ _ _ _ _) = ''mouse_wheel''"
| "payload_kind (MouseMove _ _ _ _ _ _ _ _ _) = ''mouse_move''"
| "payload_kind (SystemInfo _ _ _ _ _) = ''system_info''"
| "payload_kind (VirtualScreen _ _ _ _ _ _) = ''virtual_screen''"
| "payload_kind (ProcessStarted _ _ _) = ''process_started''"
| "payload_kind (ProcessExited _ _ _) = ''process_exited''"
| "payload_kind (ProcessChurnSummary _ _ _ _) = ''process_churn_summary''"
| "payload_kind (PowerSuspend _) = ''power_suspend''"
| "payload_kind (PowerResume _ _) = ''power_resume''"
| "payload_kind (PowerBoundaryRecovered _ _) = ''power_boundary_recovered''"
| "payload_kind CapturePaused = ''capture_paused''"
| "payload_kind CaptureResumed = ''capture_resumed''"
| "payload_kind (PowerStatusChanged _ _ _) = ''power_status''"
| "payload_kind (SessionLock _) = ''session_lock''"
| "payload_kind (SessionUnlock _) = ''session_unlock''"
| "payload_kind (SessionConnect _ _) = ''session_connect''"
| "payload_kind (SessionDisconnect _ _) = ''session_disconnect''"
| "payload_kind (ClipboardUsed _ _ _ _ _) = ''clipboard_used''"
| "payload_kind (NotificationsReceived _ _) = ''notifications_received''"
| "payload_kind (SensitiveContextEntered _) = ''sensitive_context_entered''"
| "payload_kind (SensitiveContextExited _) = ''sensitive_context_exited''"
| "payload_kind (Idle _) = ''idle''"
| "payload_kind (Active _) = ''active''"

definition envelope_kind :: "event_envelope \<Rightarrow> string" where
  "envelope_kind event = payload_kind (e_payload event)"

definition captured_new :: "source \<Rightarrow> instant \<Rightarrow> event_payload \<Rightarrow> captured" where
  "captured_new source captured_at payload =
     \<lparr>c_source = source, c_captured_at = captured_at, c_payload = payload\<rparr>"

definition stream_for :: "captured \<Rightarrow> capture_stream" where
  "stream_for captured = (case c_source captured of
       source.Foreground \<Rightarrow> capture_stream.Foreground
     | source.Window \<Rightarrow> capture_stream.Windows
     | source.Keyboard \<Rightarrow> capture_stream.Keyboard
     | source.Mouse \<Rightarrow> capture_stream.Mouse
     | source.System \<Rightarrow> (case c_payload captured of
           Idle _ \<Rightarrow> capture_stream.Idle
         | Active _ \<Rightarrow> capture_stream.Idle
         | _ \<Rightarrow> capture_stream.System))"

section \<open>Names of executables and keys\<close>

definition path_sep :: "char \<Rightarrow> bool" where
  "path_sep c \<longleftrightarrow> of_char c = (92 :: nat) \<or> of_char c = (47 :: nat)"

definition exe_basename_lower :: "string \<Rightarrow> string" where
  "exe_basename_lower exe = to_lowercase (trim (after_last path_sep exe))"

definition notification_match_key :: "string \<Rightarrow> string" where
  "notification_match_key label =
     (let basename = exe_basename_lower label in
      case strip_suffix basename ''.exe'' of Some s \<Rightarrow> s | None \<Rightarrow> basename)"

definition key_class_for_name :: "string \<Rightarrow> key_class" where
  "key_class_for_name name =
     (if name \<in> {''Shift'', ''Ctrl'', ''Alt'', ''Win'', ''CapsLock'', ''NumLock'', ''ScrollLock'',
                 ''Cmd'', ''Option'', ''Fn''} then key_class.Modifier
      else if name \<in> {''Home'', ''End'', ''PageUp'', ''PageDown'', ''ArrowLeft'', ''ArrowUp'',
                 ''ArrowRight'', ''ArrowDown'', ''Insert'', ''Delete'', ''Backspace'', ''Tab''}
        then key_class.Navigation
      else if name \<in> {''Enter'', ''Escape'', ''Pause'', ''Apps'', ''PrintScreen''}
        then key_class.Function
      else if name = ''Space'' then key_class.Printable
      else if utf8_len name \<ge> 2 \<and> starts_with name ''F'' \<and> list_all is_ascii_digit (tl name)
        then key_class.Function
      else if starts_with name ''Numpad'' then key_class.Printable
      else if length name = 1 then key_class.Printable
      else key_class.Other)"

definition framework_class_from_id :: "string \<Rightarrow> framework_class" where
  "framework_class_from_id framework_id =
     (let normalized = to_ascii_lowercase (trim framework_id) in
      if normalized = [] then framework_class.Unknown
      else if normalized \<in> {''win32'', ''wpf'', ''windowsforms'', ''xaml'', ''uia'', ''directui''}
        then framework_class.Native
      else if normalized \<in> {''qt'', ''qt5'', ''qt6''} then framework_class.NativeProvisional
      else if normalized \<in> {''chrome'', ''chromium'', ''cef'', ''electron'', ''webview2'',
          ''mshtml'', ''firefox'', ''edge''} then framework_class.WebRenderer
      else if normalized \<in> {''citrix'', ''rdp'', ''remote'', ''vnc'', ''vmware''}
        then framework_class.Virtualized
      else framework_class.Unknown)"

definition hwnd_hex :: "window_ref \<Rightarrow> string" where
  "hwnd_hex w = ''0x'' @ show_hex (w_hwnd w)"

section \<open>Redaction of a payload\<close>

definition redacted :: string where "redacted = ''<redacted>''"

definition matches_fragment :: "string list \<Rightarrow> string \<Rightarrow> bool" where
  "matches_fragment fragments value =
     list_ex (\<lambda>fragment. fragment \<noteq> [] \<and> contains value fragment) fragments"

definition redact_title :: "window_ref \<Rightarrow> window_ref \<times> bool" where
  "redact_title w = (if w_title w = redacted then (w, False)
                     else (w\<lparr>w_title := redacted\<rparr>, True))"

definition redact_title_if_needed :: "string list \<Rightarrow> window_ref \<Rightarrow> window_ref \<times> bool" where
  "redact_title_if_needed fragments w =
     (if matches_fragment fragments (w_title w) then redact_title w else (w, False))"

definition redact_optional_label :: "string option \<Rightarrow> string option \<times> bool" where
  "redact_optional_label label = (case label of
       None \<Rightarrow> (None, False)
     | Some value \<Rightarrow> if value = redacted then (Some value, False) else (Some redacted, True))"

definition redact_optional_label_if_needed ::
    "string option \<Rightarrow> string list \<Rightarrow> string option \<times> bool" where
  "redact_optional_label_if_needed label fragments =
     (case label of
        Some value \<Rightarrow> if matches_fragment fragments value then redact_optional_label label
                      else (label, False)
      | None \<Rightarrow> (label, False))"

text \<open>\<open>as_mut().is_some_and(f)\<close>: update the value inside, if there is one.\<close>

definition on_some :: "('a \<Rightarrow> 'a \<times> bool) \<Rightarrow> 'a option \<Rightarrow> 'a option \<times> bool" where
  "on_some f w = (case w of None \<Rightarrow> (None, False)
                  | Some x \<Rightarrow> (Some (fst (f x)), snd (f x)))"

text \<open>
  The window-carrying kinds share one arm in each redaction: \<open>map_windows f p\<close> applies \<open>f\<close>
  to every window reference of \<open>p\<close> and reports whether any call changed something.
\<close>

fun map_windows :: "(window_ref \<Rightarrow> window_ref \<times> bool) \<Rightarrow> event_payload \<Rightarrow> event_payload \<times> bool" where
  "map_windows f (FocusChanged w prev d u r) =
     (FocusChanged (fst (f w)) (fst (on_some f prev)) d u r, snd (f w) \<or> snd (on_some f prev))"
| "map_windows f (WindowOpened w og) = (WindowOpened (fst (f w)) og, snd (f w))"
| "map_windows f (WindowClosed w d og) = (WindowClosed (fst (f w)) d og, snd (f w))"
| "map_windows f (Key k m w kc) = (Key k m (fst (on_some f w)) kc, snd (on_some f w))"
| "map_windows f (MouseClick b x y w og) =
     (MouseClick b x y (fst (on_some f w)) og, snd (on_some f w))"
| "map_windows f (MouseDoubleClick b i x y w og) =
     (MouseDoubleClick b i x y (fst (on_some f w)) og, snd (on_some f w))"
| "map_windows f (MouseDrag b dx dy d n t sx sy ex ey w sel og) =
     (MouseDrag b dx dy d n t sx sy ex ey (fst (on_some f w)) sel og, snd (on_some f w))"
| "map_windows f (MouseWheel a d x y w og) =
     (MouseWheel a d x y (fst (on_some f w)) og, snd (on_some f w))"
| "map_windows f (MouseMove dx dy d n t x y w og) =
     (MouseMove dx dy d n t x y (fst (on_some f w)) og, snd (on_some f w))"
| "map_windows f p = (p, False)"

definition redact_titles_containing :: "string list \<Rightarrow> event_payload \<Rightarrow> event_payload \<times> bool" where
  "redact_titles_containing fragments p = (case p of
       NotificationsReceived app n \<Rightarrow>
         (let (app', changed) = redact_optional_label_if_needed app fragments
          in (NotificationsReceived app' n, changed))
     | _ \<Rightarrow> map_windows (redact_title_if_needed fragments) p)"

definition omit_key_content_of :: "event_payload \<Rightarrow> event_payload \<times> bool" where
  "omit_key_content_of p = (case p of
       Key k m w kc \<Rightarrow>
         if k \<noteq> []
         then (Key [] m w (if k \<noteq> redacted then Some (key_class_for_name k) else kc), True)
         else (p, False)
     | _ \<Rightarrow> (p, False))"

definition redact_keys_containing :: "string list \<Rightarrow> event_payload \<Rightarrow> event_payload \<times> bool" where
  "redact_keys_containing fragments p = (case p of
       Key k m w kc \<Rightarrow>
         if matches_fragment fragments k then (Key redacted m w kc, True) else (p, False)
     | _ \<Rightarrow> (p, False))"

definition redact_for_sensitive_context :: "event_payload \<Rightarrow> event_payload \<times> bool" where
  "redact_for_sensitive_context p = (case p of
       Key k m w kc \<Rightarrow>
         (Key redacted default_modifiers (fst (on_some redact_title w)) kc,
          k \<noteq> redacted \<or> m \<noteq> default_modifiers \<or> snd (on_some redact_title w))
     | NotificationsReceived app n \<Rightarrow>
         (let (app', changed) = redact_optional_label app
          in (NotificationsReceived app' n, changed))
     | ClipboardUsed sn fk fc tc bs \<Rightarrow>
         (ClipboardUsed sn fk fc None None, tc \<noteq> None \<or> bs \<noteq> None)
     | _ \<Rightarrow> map_windows redact_title p)"

definition key_was_capture_redacted :: "event_payload \<Rightarrow> bool" where
  "key_was_capture_redacted p = (case p of
       Key k m w kc \<Rightarrow>
         k = redacted \<or> (case w of Some w' \<Rightarrow> w_title w' = redacted | None \<Rightarrow> False)
     | _ \<Rightarrow> False)"

end
