(* ===== verification/Selector_Path.thy ===== *)
theory Selector_Path
  imports Event_Model
begin

text \<open>
  The version-1 serialization of a UI Automation selector path and its hash
  (\<open>serialize_selector_path_v1\<close>, \<open>push_selector_escaped\<close>, \<open>selector_path_hash_v1\<close> in
  crates/gilbreth-core/src/lib.rs).  The store interns selectors by this hash, so two paths
  must serialize alike only when they are the same path up to the case of class names.
  SHA-256 is a library of its own and a parameter \<open>sha256\<close> here.
\<close>

section \<open>Serialization\<close>

definition nl :: char where "nl = CHR 0x0A"
definition cr :: char where "cr = CHR 0x0D"
definition backslash :: char where "backslash = CHR 0x5C"

definition escape_char :: "char \<Rightarrow> string" where
  "escape_char ch =
     (if ch = backslash then [backslash, backslash]
      else if ch = nl then [backslash, CHR ''n'']
      else if ch = cr then [backslash, CHR ''r'']
      else if ch = CHR ''|'' then [backslash, CHR ''|'']
      else [ch])"

definition selector_escaped :: "string \<Rightarrow> string" where
  "selector_escaped value = concat (map escape_char value)"

definition serialize_hop :: "nat \<Rightarrow> selector_path_hop \<Rightarrow> string" where
  "serialize_hop index hop =
     nl # ''hop='' @ show_nat index @ ''|control_type='' @ show_int (h_control_type hop)
     @ ''|automation_id='' @ selector_escaped (h_automation_id hop)
     @ ''|class_name='' @ selector_escaped (to_lowercase (h_class_name hop))
     @ ''|ordinal='' @ show_nat (h_ordinal hop)"

fun serialize_hops :: "nat \<Rightarrow> selector_path_hop list \<Rightarrow> string" where
  "serialize_hops index [] = []"
| "serialize_hops index (hop # hops) = serialize_hop index hop @ serialize_hops (Suc index) hops"

definition serialize_selector_path_v1 :: "selector_path \<Rightarrow> string" where
  "serialize_selector_path_v1 path =
     ''gilbreth.selector_path.v1'' @ nl # ''backend='' @ selector_escaped (s_backend path)
     @ serialize_hops 0 (s_hops path)"

definition selector_path_hash_v1 :: "(string \<Rightarrow> nat list) \<Rightarrow> selector_path \<Rightarrow> string" where
  "selector_path_hash_v1 sha256 path =
     concat (map show_hex2 (sha256 (serialize_selector_path_v1 path)))"

text \<open>The identity the serialization keeps: class names up to case.\<close>

definition normal_hop :: "selector_path_hop \<Rightarrow> selector_path_hop" where
  "normal_hop hop = hop\<lparr>h_class_name := to_lowercase (h_class_name hop)\<rparr>"

definition normal_path :: "selector_path \<Rightarrow> selector_path" where
  "normal_path path = path\<lparr>s_hops := map normal_hop (s_hops path)\<rparr>"

section \<open>Unique readability\<close>

text \<open>
  A field ends where its value's alphabet stops: \<open>ends P r\<close> says the rest \<open>r\<close> is empty or
  starts outside \<open>P\<close>.
\<close>

definition ends :: "(char \<Rightarrow> bool) \<Rightarrow> string \<Rightarrow> bool" where
  "ends P r \<longleftrightarrow> r = [] \<or> \<not> P (hd r)"

lemma ends_Nil [simp]: "ends P []"
  by (simp add: ends_def)

lemma ends_Cons [simp]: "ends P (c # r) \<longleftrightarrow> \<not> P c"
  by (simp add: ends_def)

lemma span_unique:
  assumes "u @ r = v @ s" "\<And>c. c \<in> set u \<Longrightarrow> P c" "\<And>c. c \<in> set v \<Longrightarrow> P c" "ends P r" "ends P s"
  shows "u = v \<and> r = s"
  using assms
proof (induction u arbitrary: v)
  case Nil
  then show ?case by (cases v) (auto simp: ends_def)
next
  case (Cons c u)
  then show ?case by (cases v) (auto simp: ends_def)
qed

definition numeral_char :: "char \<Rightarrow> bool" where
  "numeral_char c \<longleftrightarrow> is_ascii_digit c \<or> c = CHR ''-''"

lemma show_int_unique:
  "show_int i @ r = show_int j @ s \<Longrightarrow> ends numeral_char r \<Longrightarrow> ends numeral_char s
   \<Longrightarrow> i = j \<and> r = s"
  using span_unique [of "show_int i" r "show_int j" s numeral_char]
  by (auto simp: numeral_char_def show_int_inj dest: show_int_chars)

lemma show_nat_unique:
  "show_nat i @ r = show_nat j @ s \<Longrightarrow> ends numeral_char r \<Longrightarrow> ends numeral_char s
   \<Longrightarrow> i = j \<and> r = s"
  using span_unique [of "show_nat i" r "show_nat j" s numeral_char]
  by (auto simp: numeral_char_def show_nat_inj dest: show_nat_digits)

text \<open>No code word of the escape starts with a raw newline or a raw bar.\<close>

definition field_end :: "string \<Rightarrow> bool" where
  "field_end r \<longleftrightarrow> r = [] \<or> hd r = nl \<or> hd r = CHR ''|''"

lemma special_chars [simp]:
  "nl \<noteq> backslash" "cr \<noteq> backslash" "backslash \<noteq> CHR ''|''" "nl \<noteq> CHR ''|''" "nl \<noteq> cr"
  "backslash \<noteq> nl" "CHR ''|'' \<noteq> backslash" "backslash \<noteq> CHR ''n''" "backslash \<noteq> CHR ''r''"
  "CHR ''|'' \<noteq> nl" "cr \<noteq> CHR ''|''" "cr \<noteq> nl" "CHR ''n'' \<noteq> backslash" "CHR ''r'' \<noteq> backslash"
  by (simp_all add: nl_def cr_def backslash_def)

lemma escape_char_cases:
  obtains "escape_char c = [c]" "c \<noteq> backslash" "c \<noteq> nl" "c \<noteq> CHR ''|''"
  | d where "escape_char c = [backslash, d]"
  unfolding escape_char_def by metis

lemma escape_char_prefix_free:
  "escape_char c @ r = escape_char d @ s \<Longrightarrow> c = d \<and> r = s"
  by (auto simp: escape_char_def split: if_splits)

lemma escape_not_end: "\<not> field_end (escape_char c @ r)"
  by (cases c rule: escape_char_cases) (auto simp: field_end_def)

lemma selector_escaped_unique:
  "selector_escaped a @ r = selector_escaped b @ s \<Longrightarrow> field_end r \<Longrightarrow> field_end s
   \<Longrightarrow> a = b \<and> r = s"
proof (induction a arbitrary: b)
  case Nil
  then show ?case
    by (cases b) (auto simp: selector_escaped_def escape_not_end)
next
  case (Cons c a)
  show ?case
  proof (cases b)
    case Nil
    with Cons.prems have "field_end (escape_char c @ selector_escaped a @ r)"
      by (simp add: selector_escaped_def)
    then show ?thesis by (simp add: escape_not_end)
  next
    case (Cons d b')
    with Cons.prems(1)
    have "escape_char c @ (selector_escaped a @ r) = escape_char d @ (selector_escaped b' @ s)"
      by (simp add: selector_escaped_def)
    then have "c = d" "selector_escaped a @ r = selector_escaped b' @ s"
      by (auto dest: escape_char_prefix_free)
    with Cons.IH [of b'] Cons.prems(2,3) Cons show ?thesis by simp
  qed
qed

lemma not_numeral [simp]:
  "\<not> numeral_char CHR ''|''" "\<not> numeral_char nl"
  by (simp_all add: numeral_char_def is_ascii_digit_def nl_def)

lemma hops_ends: "ends numeral_char (serialize_hops i hops)"
  by (cases hops) (simp_all add: serialize_hop_def)

lemma hops_field_end: "field_end (serialize_hops i hops)"
  by (cases hops) (simp_all add: serialize_hop_def field_end_def)

lemma field_end_bar [simp]: "field_end (CHR ''|'' # r)"
  by (simp add: field_end_def)

lemma serialize_hop_unique:
  assumes eq: "serialize_hop i g @ r = serialize_hop i h @ s"
    and ends: "ends numeral_char r" "ends numeral_char s"
  shows "normal_hop g = normal_hop h \<and> r = s"
proof -
  have "h_control_type g = h_control_type h \<and>
      ''|automation_id='' @ selector_escaped (h_automation_id g)
        @ ''|class_name='' @ selector_escaped (to_lowercase (h_class_name g))
        @ ''|ordinal='' @ show_nat (h_ordinal g) @ r =
      ''|automation_id='' @ selector_escaped (h_automation_id h)
        @ ''|class_name='' @ selector_escaped (to_lowercase (h_class_name h))
        @ ''|ordinal='' @ show_nat (h_ordinal h) @ s"
    by (rule show_int_unique) (use eq in \<open>simp_all add: serialize_hop_def\<close>)
  then have ct: "h_control_type g = h_control_type h"
    and aid: "selector_escaped (h_automation_id g)
        @ ''|class_name='' @ selector_escaped (to_lowercase (h_class_name g))
        @ ''|ordinal='' @ show_nat (h_ordinal g) @ r =
      selector_escaped (h_automation_id h)
        @ ''|class_name='' @ selector_escaped (to_lowercase (h_class_name h))
        @ ''|ordinal='' @ show_nat (h_ordinal h) @ s"
    by simp_all
  have ai: "h_automation_id g = h_automation_id h"
    and cn: "selector_escaped (to_lowercase (h_class_name g))
        @ ''|ordinal='' @ show_nat (h_ordinal g) @ r =
      selector_escaped (to_lowercase (h_class_name h))
        @ ''|ordinal='' @ show_nat (h_ordinal h) @ s"
    using selector_escaped_unique [OF aid] by simp_all
  have cl: "to_lowercase (h_class_name g) = to_lowercase (h_class_name h)"
    and od: "show_nat (h_ordinal g) @ r = show_nat (h_ordinal h) @ s"
    using selector_escaped_unique [OF cn] by simp_all
  have "h_ordinal g = h_ordinal h \<and> r = s"
    using show_nat_unique [OF od] ends by simp
  with ct ai cl show ?thesis
    by (cases g; cases h) (simp add: normal_hop_def)
qed

lemma serialize_hops_unique:
  "serialize_hops i gs = serialize_hops i hs \<Longrightarrow> map normal_hop gs = map normal_hop hs"
proof (induction gs arbitrary: i hs)
  case Nil
  then show ?case by (cases hs) (auto simp: serialize_hop_def)
next
  case (Cons g gs)
  then obtain h hs' where hs: "hs = h # hs'"
    by (cases hs) (auto simp: serialize_hop_def)
  with Cons.prems
  have "serialize_hop i g @ serialize_hops (Suc i) gs = serialize_hop i h @ serialize_hops (Suc i) hs'"
    by simp
  from serialize_hop_unique [OF this hops_ends hops_ends]
  have "normal_hop g = normal_hop h" "map normal_hop gs = map normal_hop hs'"
    using Cons.IH by blast+
  with hs show ?case by simp
qed

lemma serialize_normal: "serialize_selector_path_v1 (normal_path p) = serialize_selector_path_v1 p"
proof -
  have "serialize_hops i (map normal_hop hs) = serialize_hops i hs" for i hs
    by (induction hs arbitrary: i) (auto simp: serialize_hop_def normal_hop_def)
  then show ?thesis by (simp add: serialize_selector_path_v1_def normal_path_def)
qed

lemma serialize_unique:
  assumes "serialize_selector_path_v1 p = serialize_selector_path_v1 q"
  shows "normal_path p = normal_path q"
proof -
  have "selector_escaped (s_backend p) @ serialize_hops 0 (s_hops p) =
        selector_escaped (s_backend q) @ serialize_hops 0 (s_hops q)"
    using assms by (simp add: serialize_selector_path_v1_def)
  from selector_escaped_unique [OF this]
  have "s_backend p = s_backend q" "serialize_hops 0 (s_hops p) = serialize_hops 0 (s_hops q)"
    by (simp_all add: hops_field_end)
  from this(1) serialize_hops_unique [OF this(2)] show ?thesis
    by (cases p; cases q) (simp add: normal_path_def)
qed

subsection \<open>The hexadecimal digest\<close>

lemma show_hex_small: "n < 16 \<Longrightarrow> show_hex n = [digit_char n]"
  by (simp add: show_hex_def show_base.simps)

lemma show_hex2_two: "n < 256 \<Longrightarrow> show_hex2 n = [digit_char (n div 16), digit_char (n mod 16)]"
proof (cases "n < 16")
  case True
  moreover have "digit_char 0 = CHR ''0''" by (simp add: digit_char_def) code_simp
  ultimately show ?thesis by (simp add: show_hex2_def show_hex_small)
next
  case False
  assume "n < 256"
  with False show ?thesis
    by (simp add: show_hex2_def show_hex_def show_base.simps [of 16 n]
        show_base.simps [of 16 "n div 16"] less_mult_imp_div_less)
qed

lemma show_hex2_inj: "m < 256 \<Longrightarrow> n < 256 \<Longrightarrow> show_hex2 m = show_hex2 n \<Longrightarrow> m = n"
proof -
  assume b: "m < 256" "n < 256" and eq: "show_hex2 m = show_hex2 n"
  then have "m div 16 = n div 16" "m mod 16 = n mod 16"
    by (auto simp: show_hex2_two less_mult_imp_div_less intro: digit_char_inj)
  then show "m = n" by (metis div_mult_mod_eq)
qed

lemma hex_digest_inj:
  assumes "length xs = length ys" "\<forall>x\<in>set xs. x < 256" "\<forall>y\<in>set ys. y < 256"
    and "concat (map show_hex2 xs) = concat (map show_hex2 ys)"
  shows "xs = ys"
  using assms
proof (induction xs ys rule: list_induct2)
  case (Cons x xs y ys)
  then have "show_hex2 x = show_hex2 y" "concat (map show_hex2 xs) = concat (map show_hex2 ys)"
    by (simp_all add: show_hex2_two)
  with Cons show ?case by (auto dest: show_hex2_inj)
qed simp

section \<open>Properties\<close>

text \<open>
  \<open>serialize_selector_path_v1\<close>: the escaping makes the serialization uniquely readable:
  two selector paths have the same text exactly when they agree in backend, in the number of
  hops and in every field of every hop, class names compared without case.
\<close>

theorem selector_serialization_injective:
  "serialize_selector_path_v1 p = serialize_selector_path_v1 q \<longleftrightarrow> normal_path p = normal_path q"
  using serialize_unique serialize_normal by metis

text \<open>
  \<open>selector_path_hash_v1\<close>: with a digest of 32 bytes that does not collide on the two
  texts, equal hash strings identify equal selector paths; the hexadecimal rendering loses
  nothing.
\<close>

theorem selector_hash_identifies_path:
  assumes digest: "\<And>m. length (sha256 m) = 32" "\<And>m b. b \<in> set (sha256 m) \<Longrightarrow> b < 256"
    and collision_free:
      "sha256 (serialize_selector_path_v1 p) = sha256 (serialize_selector_path_v1 q)
       \<Longrightarrow> serialize_selector_path_v1 p = serialize_selector_path_v1 q"
  shows "selector_path_hash_v1 sha256 p = selector_path_hash_v1 sha256 q
         \<longleftrightarrow> normal_path p = normal_path q"
proof
  assume "selector_path_hash_v1 sha256 p = selector_path_hash_v1 sha256 q"
  then have "concat (map show_hex2 (sha256 (serialize_selector_path_v1 p))) =
             concat (map show_hex2 (sha256 (serialize_selector_path_v1 q)))"
    by (simp only: selector_path_hash_v1_def)
  then have "sha256 (serialize_selector_path_v1 p) = sha256 (serialize_selector_path_v1 q)"
    by (rule hex_digest_inj [rotated 3]) (simp_all add: digest)
  from collision_free [OF this] show "normal_path p = normal_path q"
    by (rule serialize_unique)
next
  assume "normal_path p = normal_path q"
  then have "serialize_selector_path_v1 p = serialize_selector_path_v1 q"
    by (metis serialize_normal)
  then show "selector_path_hash_v1 sha256 p = selector_path_hash_v1 sha256 q"
    by (simp add: selector_path_hash_v1_def)
qed

definition escape_digest :: "string \<Rightarrow> nat list" where
  "escape_digest m = (if backslash \<in> set m then 1 else 0) # replicate 31 0"

theorem selector_hash_identifies_path_witness:
  "selector_path_hash_v1 escape_digest \<lparr>s_backend = ''uia'', s_hops = []\<rparr>
   \<noteq> selector_path_hash_v1 escape_digest \<lparr>s_backend = ''a|x'', s_hops = []\<rparr>"
proof -
  have "selector_path_hash_v1 escape_digest \<lparr>s_backend = ''uia'', s_hops = []\<rparr>
      = selector_path_hash_v1 escape_digest \<lparr>s_backend = ''a|x'', s_hops = []\<rparr>
    \<longleftrightarrow> normal_path \<lparr>s_backend = ''uia'', s_hops = []\<rparr> = normal_path \<lparr>s_backend = ''a|x'', s_hops = []\<rparr>"
  proof (rule selector_hash_identifies_path)
    show "length (escape_digest m) = 32" for m by (simp add: escape_digest_def)
    show "b < 256" if "b \<in> set (escape_digest m)" for m b
      using that by (auto simp: escape_digest_def)
    have "escape_digest (serialize_selector_path_v1 \<lparr>s_backend = ''uia'', s_hops = []\<rparr>) \<noteq>
          escape_digest (serialize_selector_path_v1 \<lparr>s_backend = ''a|x'', s_hops = []\<rparr>)"
      by (simp add: escape_digest_def serialize_selector_path_v1_def selector_escaped_def
          escape_char_def nl_def cr_def backslash_def)
    then show "serialize_selector_path_v1 \<lparr>s_backend = ''uia'', s_hops = []\<rparr> =
          serialize_selector_path_v1 \<lparr>s_backend = ''a|x'', s_hops = []\<rparr>"
      if "escape_digest (serialize_selector_path_v1 \<lparr>s_backend = ''uia'', s_hops = []\<rparr>) =
          escape_digest (serialize_selector_path_v1 \<lparr>s_backend = ''a|x'', s_hops = []\<rparr>)"
      using that by (rule notE)
  qed
  then show ?thesis by (simp add: normal_path_def)
qed

end
