(* ===== verification/Capture_Controls.thy ===== *)
theory Capture_Controls
  imports Event_Model
begin

unbundle bit_operations_syntax

text \<open>
  The control surface every capture backend shares with the app: \<open>CaptureSettings\<close>,
  \<open>CaptureControls\<close>, \<open>SensitiveTransitionPending\<close>, \<open>DiagnosticsCounters\<close> and \<open>StopToken\<close> of
  crates/gilbreth-core/src/lib.rs.  Every field is an atomic, so the threads' sequentially
  consistent accesses are an interleaving of single operations: the model is the record of
  the fields, one function per operation, and runs are lists of operations.  The counters
  keep their 64-bit width (\<open>fetch_add\<close> wraps); the transition word packs a generation in its
  high half and the number of open transitions in its low half.
\<close>

section \<open>State\<close>

record capture_settings =
  cs_foreground :: bool
  cs_windows :: bool
  cs_keyboard :: bool
  cs_mouse :: bool
  cs_system :: bool
  cs_idle :: bool
  cs_idle_threshold_ms :: nat
  cs_process_filter :: bool

definition DEFAULT_IDLE_THRESHOLD_MS :: nat where
  "DEFAULT_IDLE_THRESHOLD_MS = 3 * 60 * 1000"

definition settings_all_enabled :: capture_settings where
  "settings_all_enabled =
     \<lparr>cs_foreground = True, cs_windows = True, cs_keyboard = True, cs_mouse = True,
      cs_system = True, cs_idle = True, cs_idle_threshold_ms = DEFAULT_IDLE_THRESHOLD_MS,
      cs_process_filter = True\<rparr>"

fun settings_enabled :: "capture_settings \<Rightarrow> capture_stream \<Rightarrow> bool" where
  "settings_enabled s capture_stream.Foreground = cs_foreground s"
| "settings_enabled s capture_stream.Windows = cs_windows s"
| "settings_enabled s capture_stream.Keyboard = cs_keyboard s"
| "settings_enabled s capture_stream.Mouse = cs_mouse s"
| "settings_enabled s capture_stream.System = cs_system s"
| "settings_enabled s capture_stream.Idle = cs_idle s"

record diagnostics_counters =
  dc_power_boundary_catches :: "64 word"
  dc_capture_events_dropped :: "64 word"
  dc_stale_pre_erase_rows_dropped :: "64 word"

definition diagnostics_new :: diagnostics_counters where
  "diagnostics_new = \<lparr>dc_power_boundary_catches = 0, dc_capture_events_dropped = 0,
                       dc_stale_pre_erase_rows_dropped = 0\<rparr>"

definition increment_power_boundary_catches :: "diagnostics_counters \<Rightarrow> diagnostics_counters" where
  "increment_power_boundary_catches d =
     d\<lparr>dc_power_boundary_catches := dc_power_boundary_catches d + 1\<rparr>"

definition increment_capture_events_dropped :: "diagnostics_counters \<Rightarrow> diagnostics_counters" where
  "increment_capture_events_dropped d =
     d\<lparr>dc_capture_events_dropped := dc_capture_events_dropped d + 1\<rparr>"

text \<open>The return value is the old count plus one, saturating, although the store wraps.\<close>

definition increment_stale_pre_erase_rows_dropped ::
    "diagnostics_counters \<Rightarrow> diagnostics_counters \<times> nat" where
  "increment_stale_pre_erase_rows_dropped d =
     (d\<lparr>dc_stale_pre_erase_rows_dropped := dc_stale_pre_erase_rows_dropped d + 1\<rparr>,
      sat_add_u64 (unat (dc_stale_pre_erase_rows_dropped d)) 1)"

text \<open>A \<open>StopToken\<close> is one shared flag that is only ever raised.\<close>

type_synonym stop_token = bool

definition stop_token_new :: stop_token where "stop_token_new = False"
definition stop_token_cancel :: "stop_token \<Rightarrow> stop_token" where "stop_token_cancel t = True"
definition is_cancelled :: "stop_token \<Rightarrow> bool" where "is_cancelled t = t"

record sensitive_field_probe_result =
  pr_is_password :: bool
  pr_focus_generation :: nat

text \<open>
  The probe slot holds the sending end of a channel, named by a number; what a request over
  it answers (a full channel, a timeout and an empty answer are all \<open>None\<close>) is the parameter
  \<open>ask\<close> of \<open>probe_password_field_active\<close>.
\<close>

record capture_controls =
  k_foreground :: bool
  k_windows :: bool
  k_keyboard :: bool
  k_mouse :: bool
  k_system :: bool
  k_idle :: bool
  k_suspended :: bool
  k_reseed_generation :: "64 word"
  k_redact_titles_on_next_reseed :: bool
  k_password_field_active :: bool
  k_password_field_confirmed_active :: bool
  k_sensitive_reconcile_pending :: bool
  k_sensitive_resume_barrier :: bool
  k_sensitive_transition_state :: "64 word"
  k_password_focus_generation :: "64 word"
  k_sensitive_field_probe :: "nat option"
  k_diagnostics :: diagnostics_counters
  k_idle_threshold_ms :: nat
  k_process_filter :: bool
  k_foreground_seen :: "string set"
  k_excluded_apps :: "string set"
  k_excluded_notification_keys :: "string set"

section \<open>Operations\<close>

definition controls_new :: "capture_settings \<Rightarrow> capture_controls" where
  "controls_new s =
     \<lparr>k_foreground = cs_foreground s, k_windows = cs_windows s, k_keyboard = cs_keyboard s,
      k_mouse = cs_mouse s, k_system = cs_system s, k_idle = cs_idle s, k_suspended = False,
      k_reseed_generation = 0, k_redact_titles_on_next_reseed = False,
      k_password_field_active = False, k_password_field_confirmed_active = False,
      k_sensitive_reconcile_pending = False, k_sensitive_resume_barrier = False,
      k_sensitive_transition_state = 0, k_password_focus_generation = 0,
      k_sensitive_field_probe = None, k_diagnostics = diagnostics_new,
      k_idle_threshold_ms = max (cs_idle_threshold_ms s) 1,
      k_process_filter = cs_process_filter s, k_foreground_seen = {}, k_excluded_apps = {},
      k_excluded_notification_keys = {}\<rparr>"

definition controls_all_enabled :: capture_controls where
  "controls_all_enabled = controls_new settings_all_enabled"

fun flag :: "capture_controls \<Rightarrow> capture_stream \<Rightarrow> bool" where
  "flag k capture_stream.Foreground = k_foreground k"
| "flag k capture_stream.Windows = k_windows k"
| "flag k capture_stream.Keyboard = k_keyboard k"
| "flag k capture_stream.Mouse = k_mouse k"
| "flag k capture_stream.System = k_system k"
| "flag k capture_stream.Idle = k_idle k"

fun set_enabled :: "capture_controls \<Rightarrow> capture_stream \<Rightarrow> bool \<Rightarrow> capture_controls" where
  "set_enabled k capture_stream.Foreground on = k\<lparr>k_foreground := on\<rparr>"
| "set_enabled k capture_stream.Windows on = k\<lparr>k_windows := on\<rparr>"
| "set_enabled k capture_stream.Keyboard on = k\<lparr>k_keyboard := on\<rparr>"
| "set_enabled k capture_stream.Mouse on = k\<lparr>k_mouse := on\<rparr>"
| "set_enabled k capture_stream.System on = k\<lparr>k_system := on\<rparr>"
| "set_enabled k capture_stream.Idle on = k\<lparr>k_idle := on\<rparr>"

definition enabled :: "capture_controls \<Rightarrow> capture_stream \<Rightarrow> bool" where
  "enabled k stream = flag k stream"

definition controls_settings :: "capture_controls \<Rightarrow> capture_settings" where
  "controls_settings k =
     \<lparr>cs_foreground = enabled k capture_stream.Foreground,
      cs_windows = enabled k capture_stream.Windows,
      cs_keyboard = enabled k capture_stream.Keyboard,
      cs_mouse = enabled k capture_stream.Mouse,
      cs_system = enabled k capture_stream.System,
      cs_idle = enabled k capture_stream.Idle,
      cs_idle_threshold_ms = k_idle_threshold_ms k,
      cs_process_filter = k_process_filter k\<rparr>"

definition process_filter_enabled :: "capture_controls \<Rightarrow> bool" where
  "process_filter_enabled k = k_process_filter k"

definition set_process_filter_enabled :: "capture_controls \<Rightarrow> bool \<Rightarrow> capture_controls" where
  "set_process_filter_enabled k on = k\<lparr>k_process_filter := on\<rparr>"

definition note_foreground_exe :: "capture_controls \<Rightarrow> string \<Rightarrow> capture_controls" where
  "note_foreground_exe k exe =
     (let basename = exe_basename_lower exe in
      if basename = [] then k
      else k\<lparr>k_foreground_seen := insert basename (k_foreground_seen k)\<rparr>)"

definition foreground_exe_seen :: "capture_controls \<Rightarrow> string \<Rightarrow> bool" where
  "foreground_exe_seen k basename \<longleftrightarrow> basename \<in> k_foreground_seen k"

definition controls_with_excluded_apps ::
    "capture_controls \<Rightarrow> string list \<Rightarrow> capture_controls" where
  "controls_with_excluded_apps k apps =
     (let excluded = set (filter (\<lambda>app. app \<noteq> []) (map exe_basename_lower apps)) in
      k\<lparr>k_excluded_notification_keys := notification_match_key ` excluded,
        k_excluded_apps := excluded\<rparr>)"

definition app_excluded :: "capture_controls \<Rightarrow> string \<Rightarrow> bool" where
  "app_excluded k exe \<longleftrightarrow> exe_basename_lower exe \<in> k_excluded_apps k"

definition has_app_exclusions :: "capture_controls \<Rightarrow> bool" where
  "has_app_exclusions k \<longleftrightarrow> k_excluded_apps k \<noteq> {}"

definition notification_app_excluded :: "capture_controls \<Rightarrow> string \<Rightarrow> bool" where
  "notification_app_excluded k label \<longleftrightarrow>
     notification_match_key label \<in> k_excluded_notification_keys k"

definition set_suspended :: "capture_controls \<Rightarrow> bool \<Rightarrow> capture_controls" where
  "set_suspended k suspended = k\<lparr>k_suspended := suspended\<rparr>"

definition request_reseed :: "capture_controls \<Rightarrow> capture_controls \<times> 64 word" where
  "request_reseed k =
     (k\<lparr>k_reseed_generation := k_reseed_generation k + 1\<rparr>, k_reseed_generation k + 1)"

definition request_title_redacted_reseed :: "capture_controls \<Rightarrow> capture_controls \<times> 64 word" where
  "request_title_redacted_reseed k = request_reseed (k\<lparr>k_redact_titles_on_next_reseed := True\<rparr>)"

definition take_title_redaction_for_reseed :: "capture_controls \<Rightarrow> capture_controls \<times> bool" where
  "take_title_redaction_for_reseed k =
     (k\<lparr>k_redact_titles_on_next_reseed := False\<rparr>, k_redact_titles_on_next_reseed k)"

definition set_password_field_gate :: "capture_controls \<Rightarrow> bool \<Rightarrow> capture_controls" where
  "set_password_field_gate k active = k\<lparr>k_password_field_active := active\<rparr>"

definition request_sensitive_context_reconcile :: "capture_controls \<Rightarrow> capture_controls" where
  "request_sensitive_context_reconcile k = k\<lparr>k_sensitive_reconcile_pending := True\<rparr>"

definition take_sensitive_context_reconcile :: "capture_controls \<Rightarrow> capture_controls \<times> bool" where
  "take_sensitive_context_reconcile k =
     (k\<lparr>k_sensitive_reconcile_pending := False\<rparr>, k_sensitive_reconcile_pending k)"

definition SENSITIVE_TRANSITION_GENERATION_STEP :: "64 word" where
  "SENSITIVE_TRANSITION_GENERATION_STEP = push_bit 32 1"

definition SENSITIVE_TRANSITION_ACTIVE_MASK :: "64 word" where
  "SENSITIVE_TRANSITION_ACTIVE_MASK = 0xFFFFFFFF"

definition begin_sensitive_transition :: "capture_controls \<Rightarrow> capture_controls" where
  "begin_sensitive_transition k =
     k\<lparr>k_sensitive_transition_state :=
         k_sensitive_transition_state k + (SENSITIVE_TRANSITION_GENERATION_STEP + 1)\<rparr>"

definition drop_sensitive_transition :: "capture_controls \<Rightarrow> capture_controls" where
  "drop_sensitive_transition k =
     k\<lparr>k_sensitive_transition_state := k_sensitive_transition_state k - 1\<rparr>"

definition sensitive_transition_should_defer :: "capture_controls \<Rightarrow> bool" where
  "sensitive_transition_should_defer k \<longleftrightarrow> k_suspended k \<or> k_sensitive_resume_barrier k"

definition set_sensitive_resume_barrier :: "capture_controls \<Rightarrow> bool \<Rightarrow> capture_controls" where
  "set_sensitive_resume_barrier k blocked = k\<lparr>k_sensitive_resume_barrier := blocked\<rparr>"

definition sensitive_transition_active :: "capture_controls \<Rightarrow> bool" where
  "sensitive_transition_active k \<longleftrightarrow>
     k_sensitive_transition_state k AND SENSITIVE_TRANSITION_ACTIVE_MASK \<noteq> 0"

text \<open>\<open>u64::trailing_zeros\<close>.\<close>

definition trailing_zeros :: "64 word \<Rightarrow> nat" where
  "trailing_zeros w = length (takeWhile (\<lambda>n. \<not> bit w n) [0..<64])"

definition sensitive_transition_generation :: "capture_controls \<Rightarrow> 64 word" where
  "sensitive_transition_generation k =
     drop_bit (trailing_zeros SENSITIVE_TRANSITION_GENERATION_STEP) (k_sensitive_transition_state k)"

definition is_suspended :: "capture_controls \<Rightarrow> bool" where
  "is_suspended k \<longleftrightarrow> sensitive_transition_should_defer k \<or> sensitive_transition_active k"

definition mark_password_focus_changed :: "capture_controls \<Rightarrow> capture_controls \<times> 64 word" where
  "mark_password_focus_changed k =
     (k\<lparr>k_password_focus_generation := k_password_focus_generation k + 1\<rparr>,
      k_password_focus_generation k + 1)"

definition set_sensitive_field_probe :: "capture_controls \<Rightarrow> nat option \<Rightarrow> capture_controls" where
  "set_sensitive_field_probe k probe = k\<lparr>k_sensitive_field_probe := probe\<rparr>"

definition probe_password_field_active ::
    "(nat \<Rightarrow> duration \<Rightarrow> sensitive_field_probe_result option) \<Rightarrow> capture_controls \<Rightarrow> duration
     \<Rightarrow> sensitive_field_probe_result option" where
  "probe_password_field_active ask k timeout =
     Option.bind (k_sensitive_field_probe k) (\<lambda>probe. ask probe timeout)"

definition idle_threshold :: "capture_controls \<Rightarrow> duration" where
  "idle_threshold k = from_millis (k_idle_threshold_ms k)"

definition enabled_for :: "capture_controls \<Rightarrow> captured \<Rightarrow> bool" where
  "enabled_for k captured \<longleftrightarrow> \<not> is_suspended k \<and> enabled k (stream_for captured)"

section \<open>Interleavings\<close>

text \<open>One atomic operation of any thread.\<close>

datatype control_op =
    SetEnabled capture_stream bool
  | SetProcessFilter bool
  | NoteForegroundExe string
  | SetSuspended bool
  | RequestReseed
  | RequestTitleRedactedReseed
  | TakeTitleRedaction
  | SetPasswordGate bool
  | RequestReconcile
  | TakeReconcile
  | BeginTransition
  | DropTransition
  | SetResumeBarrier bool
  | MarkPasswordFocus
  | SetProbe "nat option"

primrec control_step :: "control_op \<Rightarrow> capture_controls \<Rightarrow> capture_controls" where
  "control_step (SetEnabled stream on) k = set_enabled k stream on"
| "control_step (SetProcessFilter on) k = set_process_filter_enabled k on"
| "control_step (NoteForegroundExe exe) k = note_foreground_exe k exe"
| "control_step (SetSuspended s) k = set_suspended k s"
| "control_step RequestReseed k = fst (request_reseed k)"
| "control_step RequestTitleRedactedReseed k = fst (request_title_redacted_reseed k)"
| "control_step TakeTitleRedaction k = fst (take_title_redaction_for_reseed k)"
| "control_step (SetPasswordGate a) k = set_password_field_gate k a"
| "control_step RequestReconcile k = request_sensitive_context_reconcile k"
| "control_step TakeReconcile k = fst (take_sensitive_context_reconcile k)"
| "control_step BeginTransition k = begin_sensitive_transition k"
| "control_step DropTransition k = drop_sensitive_transition k"
| "control_step (SetResumeBarrier b) k = set_sensitive_resume_barrier k b"
| "control_step MarkPasswordFocus k = fst (mark_password_focus_changed k)"
| "control_step (SetProbe p) k = set_sensitive_field_probe k p"

lemmas control_op_defs =
  set_process_filter_enabled_def note_foreground_exe_def set_suspended_def request_reseed_def
  request_title_redacted_reseed_def take_title_redaction_for_reseed_def
  set_password_field_gate_def request_sensitive_context_reconcile_def
  take_sensitive_context_reconcile_def begin_sensitive_transition_def
  drop_sensitive_transition_def set_sensitive_resume_barrier_def mark_password_focus_changed_def
  set_sensitive_field_probe_def

text \<open>
  A pending transition is a token that is dropped once: a list of operations is well
  bracketed from \<open>n\<close> open tokens when no drop comes without an open one.
\<close>

fun tokens_ok :: "nat \<Rightarrow> control_op list \<Rightarrow> bool" where
  "tokens_ok n [] = True"
| "tokens_ok n (op # ops) = (case op of
      BeginTransition \<Rightarrow> tokens_ok (Suc n) ops
    | DropTransition \<Rightarrow> 0 < n \<and> tokens_ok (n - 1) ops
    | _ \<Rightarrow> tokens_ok n ops)"

definition begun :: "control_op list \<Rightarrow> nat" where "begun ops = count_list ops BeginTransition"
definition ended :: "control_op list \<Rightarrow> nat" where "ended ops = count_list ops DropTransition"

subsection \<open>The packed word\<close>

lemma step_word: "SENSITIVE_TRANSITION_GENERATION_STEP = 4294967296"
  by (simp add: SENSITIVE_TRANSITION_GENERATION_STEP_def)

lemma step_trailing_zeros: "trailing_zeros SENSITIVE_TRANSITION_GENERATION_STEP = 32"
  by (simp add: trailing_zeros_def SENSITIVE_TRANSITION_GENERATION_STEP_def) code_simp

lemma unat_begin:
  fixes s :: "64 word"
  assumes "unat s = g * 2 ^ 32 + n" "Suc g < 2 ^ 32" "Suc n < 2 ^ 32"
  shows "unat (s + (SENSITIVE_TRANSITION_GENERATION_STEP + 1)) = Suc g * 2 ^ 32 + Suc n"
  using assms by (simp add: step_word unat_word_ariths)

lemma unat_drop:
  fixes s :: "64 word"
  assumes "unat s = g * 2 ^ 32 + Suc n"
  shows "unat (s - 1) = g * 2 ^ 32 + n"
proof -
  have "s \<noteq> 0" using assms by auto
  then show ?thesis using assms by (simp add: unat_minus_one)
qed

lemma active_low_half:
  fixes s :: "64 word"
  assumes "unat s = g * 2 ^ 32 + n" "n < 2 ^ 32"
  shows "s AND SENSITIVE_TRANSITION_ACTIVE_MASK = 0 \<longleftrightarrow> n = 0"
proof -
  have "s AND SENSITIVE_TRANSITION_ACTIVE_MASK = take_bit 32 s"
    by (simp add: SENSITIVE_TRANSITION_ACTIVE_MASK_def take_bit_eq_mask mask_eq_exp_minus_1)
  moreover have "unat (take_bit 32 s) = n"
    unfolding unsigned_take_bit_eq using assms by (simp add: take_bit_eq_mod)
  ultimately show ?thesis by (metis unat_0 unat_eq_zero)
qed

lemma generation_high_half:
  fixes s :: "64 word"
  assumes "unat s = g * 2 ^ 32 + n" "n < 2 ^ 32"
  shows "drop_bit (trailing_zeros SENSITIVE_TRANSITION_GENERATION_STEP) s = word_of_nat g"
proof -
  have "unat (drop_bit 32 s) = g"
    unfolding unat_drop_bit_eq using assms by (simp add: drop_bit_eq_div)
  moreover have "word_of_nat (unat x) = x" for x :: "64 word" by simp
  ultimately show ?thesis by (metis step_trailing_zeros)
qed

text \<open>The representation invariant after \<open>g\<close> begins with \<open>n\<close> tokens open.\<close>

definition transition_word :: "nat \<Rightarrow> nat \<Rightarrow> capture_controls \<Rightarrow> bool" where
  "transition_word g n k \<longleftrightarrow>
     unat (k_sensitive_transition_state k) = g * 2 ^ 32 + n \<and> n \<le> g \<and> g < 2 ^ 32"

lemma set_enabled_transition_state [simp]:
  "k_sensitive_transition_state (set_enabled k stream on) = k_sensitive_transition_state k"
  by (cases stream) simp_all

lemma transition_word_frame:
  assumes "op \<noteq> BeginTransition" "op \<noteq> DropTransition"
  shows "k_sensitive_transition_state (control_step op k) = k_sensitive_transition_state k"
  using assms
  by (cases op) (auto simp: control_op_defs Let_def)

lemma transition_word_begin:
  "transition_word g n k \<Longrightarrow> Suc g < 2 ^ 32 \<Longrightarrow>
   transition_word (Suc g) (Suc n) (control_step BeginTransition k)"
  unfolding transition_word_def control_step.simps begin_sensitive_transition_def
  using unat_begin [of "k_sensitive_transition_state k" g n] by simp

lemma transition_word_drop:
  "transition_word g (Suc n) k \<Longrightarrow> transition_word g n (control_step DropTransition k)"
  unfolding transition_word_def control_step.simps drop_sensitive_transition_def
  using unat_drop [of "k_sensitive_transition_state k" g n] by simp

lemma transition_word_run:
  assumes "transition_word g n k" "tokens_ok n ops" "g + begun ops < 2 ^ 32"
  shows "ended ops \<le> n + begun ops \<and>
         transition_word (g + begun ops) (n + begun ops - ended ops) (fold control_step ops k)"
  using assms
proof (induction ops arbitrary: g n k)
  case Nil
  then show ?case by (simp add: begun_def ended_def)
next
  case (Cons op ops)
  consider "op = BeginTransition" | "op = DropTransition"
    | (other) "op \<noteq> BeginTransition" "op \<noteq> DropTransition" by blast
  then show ?case
  proof cases
    case 1
    with Cons.prems have "transition_word (Suc g) (Suc n) (control_step op k)"
      using transition_word_begin [of g n k] by (simp add: begun_def)
    with 1 Cons.prems Cons.IH [of "Suc g" "Suc n" "control_step op k"] show ?thesis
      by (simp add: begun_def ended_def)
  next
    case 2
    with Cons.prems(2) obtain m where "n = Suc m" "tokens_ok m ops" by (cases n) auto
    moreover from this 2 Cons.prems have "transition_word g m (control_step op k)"
      using transition_word_drop [of g m k] by simp
    ultimately show ?thesis
      using 2 Cons.prems Cons.IH [of g m "control_step op k"]
      by (simp add: begun_def ended_def)
  next
    case other
    have "tokens_ok n ops"
      using other Cons.prems(2) by (cases op) auto
    moreover have "transition_word g n (control_step op k)"
      using Cons.prems(1) by (simp only: transition_word_def transition_word_frame [OF other])
    ultimately show ?thesis
      using other Cons.prems(3) Cons.IH [of g n "control_step op k"]
      by (simp add: begun_def ended_def)
  qed
qed

lemma transition_word_active:
  "transition_word g n k \<Longrightarrow> sensitive_transition_active k \<longleftrightarrow> 0 < n"
  using active_low_half [of "k_sensitive_transition_state k" g n]
  by (auto simp: transition_word_def sensitive_transition_active_def)

lemma transition_word_generation:
  "transition_word g n k \<Longrightarrow> sensitive_transition_generation k = word_of_nat g"
  using generation_high_half [of "k_sensitive_transition_state k" g n]
  by (auto simp: transition_word_def sensitive_transition_generation_def)

lemma transition_word_new: "transition_word 0 0 (controls_new s)"
  by (simp add: transition_word_def controls_new_def)

subsection \<open>Toggles and settings\<close>

lemma enabled_set_enabled [simp]:
  "enabled (set_enabled k stream on) other = (if other = stream then on else enabled k other)"
  by (cases stream; cases other) (simp_all add: enabled_def)

lemma exe_basename_lower_idem [simp]:
  "exe_basename_lower (exe_basename_lower s) = exe_basename_lower s"
proof -
  have lower: "path_sep (lower_char c) = path_sep c" for c
    by (auto simp: path_sep_def of_char_lower Let_def)
  have "\<not> path_sep c" if mem: "c \<in> set (exe_basename_lower s)" for c
  proof -
    obtain d where "d \<in> set (trim (after_last path_sep s))" "c = lower_char d"
      using mem by (auto simp: exe_basename_lower_def to_lowercase_def)
    with set_trim [of "after_last path_sep s"] after_last_no_sep [of d path_sep s] lower
    show ?thesis by auto
  qed
  then have "after_last path_sep (exe_basename_lower s) = exe_basename_lower s"
    by (rule after_last_id)
  then show ?thesis
    by (simp add: exe_basename_lower_def trim_lower)
qed

lemma app_excluded_configured:
  "app_excluded (controls_with_excluded_apps k apps) exe \<longleftrightarrow>
     exe_basename_lower exe \<noteq> [] \<and> exe_basename_lower exe \<in> exe_basename_lower ` set apps"
  by (auto simp: app_excluded_def controls_with_excluded_apps_def Let_def)

section \<open>Properties\<close>

text \<open>
  \<open>CaptureControls\<close>: under any interleaving of the control operations in which every
  pending transition is dropped at most once and fewer than \<open>2 ^ 32\<close> are begun, the packed
  word never overflows between its halves: the generation is the number of transitions
  begun, one is active exactly while some are open, and no event passes the capture gate
  while one is open.
\<close>

theorem open_transition_suspends_capture:
  assumes "tokens_ok 0 ops" "begun ops < 2 ^ 32"
  shows "let k = fold control_step ops (controls_new s) in
           sensitive_transition_generation k = word_of_nat (begun ops) \<and>
           (sensitive_transition_active k \<longleftrightarrow> ended ops < begun ops) \<and>
           (ended ops < begun ops \<longrightarrow> \<not> enabled_for k captured)"
proof -
  let ?k = "fold control_step ops (controls_new s)"
  have "transition_word (begun ops) (begun ops - ended ops) ?k" "ended ops \<le> begun ops"
    using transition_word_run [OF transition_word_new assms(1)] assms(2) by auto
  then show ?thesis
    by (auto simp: Let_def transition_word_active transition_word_generation enabled_for_def
        is_suspended_def)
qed

theorem open_transition_suspends_capture_witness:
  "let k = fold control_step [BeginTransition, SetSuspended False, BeginTransition, DropTransition]
             controls_all_enabled
   in sensitive_transition_generation k = 2 \<and>
      \<not> enabled_for k (captured_new source.Mouse 0 CapturePaused)"
proof -
  let ?ops = "[BeginTransition, SetSuspended False, BeginTransition, DropTransition]"
  have counts: "begun ?ops = 2" "ended ?ops = 1" by (simp_all add: begun_def ended_def)
  have "tokens_ok 0 ?ops" "begun ?ops < 2 ^ 32" by (simp_all add: counts)
  from open_transition_suspends_capture [OF this, of settings_all_enabled
      "captured_new source.Mouse 0 CapturePaused"]
  show ?thesis by (simp add: counts Let_def controls_all_enabled_def del: fold_simps)
qed

text \<open>
  \<open>CaptureControls::settings\<close>: reading the settings back from fresh controls returns the
  settings they were built from, the idle threshold raised to at least one millisecond; a
  toggle changes its own stream and no other setting.
\<close>

theorem settings_roundtrip_and_toggle_frame:
  "controls_settings (controls_new s) = s\<lparr>cs_idle_threshold_ms := max (cs_idle_threshold_ms s) 1\<rparr> \<and>
   settings_enabled (controls_settings (set_enabled k stream on)) other =
     (if other = stream then on else settings_enabled (controls_settings k) other) \<and>
   cs_idle_threshold_ms (controls_settings (set_enabled k stream on)) =
     cs_idle_threshold_ms (controls_settings k) \<and>
   cs_process_filter (controls_settings (set_enabled k stream on)) =
     cs_process_filter (controls_settings k)"
proof -
  have "controls_settings (controls_new s)
        = s\<lparr>cs_idle_threshold_ms := max (cs_idle_threshold_ms s) 1\<rparr>"
    by (cases s) (simp add: controls_settings_def controls_new_def enabled_def)
  moreover have "settings_enabled (controls_settings k') x = enabled k' x" for k' x
    by (cases x) (simp_all add: controls_settings_def)
  moreover have "cs_idle_threshold_ms (controls_settings (set_enabled k stream on)) =
        cs_idle_threshold_ms (controls_settings k)"
      "cs_process_filter (controls_settings (set_enabled k stream on)) =
        cs_process_filter (controls_settings k)"
    by (cases stream; simp add: controls_settings_def)+
  ultimately show ?thesis by simp
qed

end
