(* ===== verification/Privacy_Policy.thy ===== *)
theory Privacy_Policy
  imports Event_Model
begin

text \<open>
  The writer's privacy filter \<open>Policy\<close> (crates/gilbreth-core/src/lib.rs): application
  exclusions, the focus latch that attributes rows without a window, sensitive-context
  suppression, title and key redaction rules and lean capture.  The two \<open>RefCell\<close> fields are
  fields of the record and every method that writes them returns the new policy.
\<close>

section \<open>State and configuration\<close>

record policy =
  p_title_redaction_fragments :: "string list"
  p_key_redaction_fragments :: "string list"
  p_sensitive_context_suppression :: bool
  p_omit_key_content :: bool
  p_excluded_apps :: "string set"
  p_excluded_notification_keys :: "string set"
  p_current_focus_excluded :: "bool option"
  p_active_sensitive_reasons :: "sensitive_context_reason set"

definition policy_identity :: policy where
  "policy_identity =
     \<lparr>p_title_redaction_fragments = [], p_key_redaction_fragments = [],
      p_sensitive_context_suppression = False, p_omit_key_content = False,
      p_excluded_apps = {}, p_excluded_notification_keys = {},
      p_current_focus_excluded = None, p_active_sensitive_reasons = {}\<rparr>"

definition with_title_redactions :: "policy \<Rightarrow> string list \<Rightarrow> policy" where
  "with_title_redactions P fragments =
     P\<lparr>p_title_redaction_fragments := p_title_redaction_fragments P @ fragments\<rparr>"

definition with_key_redactions :: "policy \<Rightarrow> string list \<Rightarrow> policy" where
  "with_key_redactions P fragments =
     P\<lparr>p_key_redaction_fragments := p_key_redaction_fragments P @ fragments\<rparr>"

definition policy_redact_titles_containing :: "string list \<Rightarrow> policy" where
  "policy_redact_titles_containing fragments = with_title_redactions policy_identity fragments"

definition policy_redact_keys_containing :: "string list \<Rightarrow> policy" where
  "policy_redact_keys_containing fragments = with_key_redactions policy_identity fragments"

definition with_sensitive_context_suppression :: "policy \<Rightarrow> bool \<Rightarrow> policy" where
  "with_sensitive_context_suppression P on = P\<lparr>p_sensitive_context_suppression := on\<rparr>"

definition with_store_key_content :: "policy \<Rightarrow> bool \<Rightarrow> policy" where
  "with_store_key_content P store = P\<lparr>p_omit_key_content := \<not> store\<rparr>"

fun policy_with_excluded_apps :: "policy \<Rightarrow> string list \<Rightarrow> policy" where
  "policy_with_excluded_apps P [] = P"
| "policy_with_excluded_apps P (app # apps) =
     (let basename = exe_basename_lower app in
      if basename = [] then policy_with_excluded_apps P apps
      else policy_with_excluded_apps
             (P\<lparr>p_excluded_notification_keys :=
                  insert (notification_match_key basename) (p_excluded_notification_keys P),
                p_excluded_apps := insert basename (p_excluded_apps P)\<rparr>) apps)"

section \<open>Verdicts\<close>

definition excludes_exe :: "policy \<Rightarrow> string \<Rightarrow> bool" where
  "excludes_exe P exe \<longleftrightarrow> exe_basename_lower exe \<in> p_excluded_apps P"

definition latched_focus_excluded :: "policy \<Rightarrow> bool" where
  "latched_focus_excluded P =
     (case p_current_focus_excluded P of Some b \<Rightarrow> b | None \<Rightarrow> p_excluded_apps P \<noteq> {})"

definition forget_focus_attribution :: "policy \<Rightarrow> policy" where
  "forget_focus_attribution P = P\<lparr>p_current_focus_excluded := None\<rparr>"

definition excludes_action :: "policy \<Rightarrow> action_capture \<Rightarrow> bool" where
  "excludes_action P action =
     (case a_exe action of Some exe \<Rightarrow> excludes_exe P exe | None \<Rightarrow> False)"

definition sensitive_context_active :: "policy \<Rightarrow> bool" where
  "sensitive_context_active P \<longleftrightarrow>
     p_sensitive_context_suppression P \<and> p_active_sensitive_reasons P \<noteq> {}"

definition active_sensitive_reasons :: "policy \<Rightarrow> sensitive_context_reason list" where
  "active_sensitive_reasons P =
     (if \<not> p_sensitive_context_suppression P then []
      else filter (\<lambda>reason. reason \<in> p_active_sensitive_reasons P)
             [SessionLocked, SessionDisconnected, SecureDesktop, PasswordField])"

section \<open>The exclusion boundary\<close>

text \<open>The result is the new policy, the scrubbed payload and whether the row is kept.\<close>

definition unattributed_or_excluded :: "policy \<Rightarrow> window_ref option \<Rightarrow> bool" where
  "unattributed_or_excluded P window =
     (case window of None \<Rightarrow> latched_focus_excluded P | Some w \<Rightarrow> excludes_exe P (w_exe w))"

definition note_sensitive_entered :: "policy \<Rightarrow> sensitive_context_reason \<Rightarrow> policy" where
  "note_sensitive_entered P reason =
     P\<lparr>p_active_sensitive_reasons := insert reason (p_active_sensitive_reasons P)\<rparr>"

definition note_sensitive_exited :: "policy \<Rightarrow> sensitive_context_reason \<Rightarrow> policy" where
  "note_sensitive_exited P reason =
     P\<lparr>p_active_sensitive_reasons := p_active_sensitive_reasons P - {reason}\<rparr>"

definition apply_exclusion_boundary ::
    "policy \<Rightarrow> event_payload \<Rightarrow> policy \<times> event_payload \<times> bool" where
  "apply_exclusion_boundary P payload = (case payload of
       FocusChanged w prev focused unfocused recovered \<Rightarrow>
         (let current = excludes_exe P (w_exe w);
              P' = P\<lparr>p_current_focus_excluded := Some current\<rparr>
          in if current then (P', payload, False)
             else if (case prev of Some v \<Rightarrow> excludes_exe P (w_exe v) | None \<Rightarrow> False)
             then (P', FocusChanged w None 0 0 recovered, True)
             else (P', payload, True))
     | WindowOpened w _ \<Rightarrow> (P, payload, \<not> excludes_exe P (w_exe w))
     | WindowClosed w _ _ \<Rightarrow> (P, payload, \<not> excludes_exe P (w_exe w))
     | Key _ _ w _ \<Rightarrow> (P, payload, \<not> unattributed_or_excluded P w)
     | MouseClick _ _ _ w _ \<Rightarrow> (P, payload, \<not> unattributed_or_excluded P w)
     | MouseDoubleClick _ _ _ _ w _ \<Rightarrow> (P, payload, \<not> unattributed_or_excluded P w)
     | MouseDrag _ _ _ _ _ _ _ _ _ _ w _ _ \<Rightarrow> (P, payload, \<not> unattributed_or_excluded P w)
     | MouseWheel _ _ _ _ w _ \<Rightarrow> (P, payload, \<not> unattributed_or_excluded P w)
     | MouseMove _ _ _ _ _ _ _ w _ \<Rightarrow> (P, payload, \<not> unattributed_or_excluded P w)
     | ProcessStarted _ exe _ \<Rightarrow> (P, payload, \<not> excludes_exe P exe)
     | ProcessExited _ exe _ \<Rightarrow> (P, payload, \<not> excludes_exe P exe)
     | NotificationsReceived app _ \<Rightarrow>
         (P, payload, \<not> (p_excluded_apps P \<noteq> {} \<or>
            (case app of Some label \<Rightarrow>
               notification_match_key label \<in> p_excluded_notification_keys P | None \<Rightarrow> False)))
     | SensitiveContextEntered reason \<Rightarrow>
         if latched_focus_excluded P
         then (if p_sensitive_context_suppression P then note_sensitive_entered P reason else P,
               payload, False)
         else (P, payload, True)
     | SensitiveContextExited reason \<Rightarrow>
         if latched_focus_excluded P
         then (if p_sensitive_context_suppression P then note_sensitive_exited P reason else P,
               payload, False)
         else (P, payload, True)
     | _ \<Rightarrow> (P, payload, True))"

definition apply_exclusions_to_captured :: "policy \<Rightarrow> captured \<Rightarrow> policy \<times> captured option" where
  "apply_exclusions_to_captured P captured =
     (let (P', payload, keep) = apply_exclusion_boundary P (c_payload captured)
      in (P', if keep then Some (captured\<lparr>c_payload := payload\<rparr>) else None))"

section \<open>The remaining policy\<close>

text \<open>
  The rules in the code's order.  The title and key rules are the two operands of one
  \<open>||\<close>: the key rule does not run when the title rule reports a change.
\<close>

definition redact_by_rules :: "policy \<Rightarrow> event_payload \<Rightarrow> event_payload \<times> bool" where
  "redact_by_rules P payload =
     (let (p1, titles) = redact_titles_containing (p_title_redaction_fragments P) payload
      in if titles then (p1, True)
         else redact_keys_containing (p_key_redaction_fragments P) p1)"

definition apply_after_exclusions :: "policy \<Rightarrow> event_envelope \<Rightarrow> policy \<times> event_envelope" where
  "apply_after_exclusions P event =
     (let rest =
        (let (p1, changed) =
               (if p_sensitive_context_suppression P \<and> p_active_sensitive_reasons P \<noteq> {}
                then redact_for_sensitive_context (e_payload event)
                else (e_payload event, False));
             s1 = (e_is_sensitive event \<or> changed);
             s2 = (s1 \<or> key_was_capture_redacted p1);
             (p2, ruled) = redact_by_rules P p1;
             s3 = (s2 \<or> ruled);
             p3 = (if p_omit_key_content P then fst (omit_key_content_of p2) else p2)
         in (P, event\<lparr>e_payload := p3, e_is_sensitive := s3\<rparr>))
      in if p_sensitive_context_suppression P then
           (case e_payload event of
              SensitiveContextEntered reason \<Rightarrow> (note_sensitive_entered P reason, event)
            | SensitiveContextExited reason \<Rightarrow> (note_sensitive_exited P reason, event)
            | _ \<Rightarrow> rest)
         else rest)"

definition policy_apply :: "policy \<Rightarrow> event_envelope \<Rightarrow> policy \<times> event_envelope option" where
  "policy_apply P event =
     (let (P1, payload, keep) = apply_exclusion_boundary P (e_payload event)
      in if \<not> keep then (P1, None)
         else let (P2, event') = apply_after_exclusions P1 (event\<lparr>e_payload := payload\<rparr>)
              in (P2, Some event'))"

section \<open>What a row discloses\<close>

fun windows_of :: "event_payload \<Rightarrow> window_ref list" where
  "windows_of (FocusChanged w prev _ _ _) = w # (case prev of Some v \<Rightarrow> [v] | None \<Rightarrow> [])"
| "windows_of (WindowOpened w _) = [w]"
| "windows_of (WindowClosed w _ _) = [w]"
| "windows_of (Key _ _ w _) = (case w of Some v \<Rightarrow> [v] | None \<Rightarrow> [])"
| "windows_of (MouseClick _ _ _ w _) = (case w of Some v \<Rightarrow> [v] | None \<Rightarrow> [])"
| "windows_of (MouseDoubleClick _ _ _ _ w _) = (case w of Some v \<Rightarrow> [v] | None \<Rightarrow> [])"
| "windows_of (MouseDrag _ _ _ _ _ _ _ _ _ _ w _ _) = (case w of Some v \<Rightarrow> [v] | None \<Rightarrow> [])"
| "windows_of (MouseWheel _ _ _ _ w _) = (case w of Some v \<Rightarrow> [v] | None \<Rightarrow> [])"
| "windows_of (MouseMove _ _ _ _ _ _ _ w _) = (case w of Some v \<Rightarrow> [v] | None \<Rightarrow> [])"
| "windows_of _ = []"

definition attributed_exes :: "event_payload \<Rightarrow> string list" where
  "attributed_exes payload = map w_exe (windows_of payload) @
     (case payload of ProcessStarted _ exe _ \<Rightarrow> [exe] | ProcessExited _ exe _ \<Rightarrow> [exe] | _ \<Rightarrow> [])"

text \<open>Input rows without a window, and the sensitive boundaries: attributed by the latch only.\<close>

definition latch_attributed :: "event_payload \<Rightarrow> bool" where
  "latch_attributed payload = (case payload of
       Key _ _ None _ \<Rightarrow> True
     | MouseClick _ _ _ None _ \<Rightarrow> True
     | MouseDoubleClick _ _ _ _ None _ \<Rightarrow> True
     | MouseDrag _ _ _ _ _ _ _ _ _ _ None _ _ \<Rightarrow> True
     | MouseWheel _ _ _ _ None _ \<Rightarrow> True
     | MouseMove _ _ _ _ _ _ _ None _ \<Rightarrow> True
     | SensitiveContextEntered _ \<Rightarrow> True
     | SensitiveContextExited _ \<Rightarrow> True
     | _ \<Rightarrow> False)"

section \<open>The policy as a machine\<close>

text \<open>
  The writer feeds the policy one envelope at a time; the app makes it forget its focus
  attribution when the foreground stream stops.
\<close>

datatype policy_op = Observe event_envelope | ForgetFocus

primrec policy_step :: "policy \<Rightarrow> policy_op \<Rightarrow> policy \<times> event_envelope list" where
  "policy_step P (Observe event) =
     (fst (policy_apply P event),
      case snd (policy_apply P event) of None \<Rightarrow> [] | Some event' \<Rightarrow> [event'])"
| "policy_step P ForgetFocus = (forget_focus_attribution P, [])"

named_theorems policy_defs \<open>the boundary, the rules and their state updates\<close>

lemmas policy_boundary_defs [policy_defs] =
  apply_exclusion_boundary_def unattributed_or_excluded_def note_sensitive_entered_def
  note_sensitive_exited_def forget_focus_attribution_def

subsection \<open>Configuration is constant\<close>

definition same_config :: "policy \<Rightarrow> policy \<Rightarrow> bool" where
  "same_config P Q \<longleftrightarrow>
     p_title_redaction_fragments Q = p_title_redaction_fragments P \<and>
     p_key_redaction_fragments Q = p_key_redaction_fragments P \<and>
     p_sensitive_context_suppression Q = p_sensitive_context_suppression P \<and>
     p_omit_key_content Q = p_omit_key_content P \<and>
     p_excluded_apps Q = p_excluded_apps P \<and>
     p_excluded_notification_keys Q = p_excluded_notification_keys P"

lemma same_config_refl [simp]: "same_config P P"
  by (simp add: same_config_def)

lemma same_config_trans: "same_config P Q \<Longrightarrow> same_config Q R \<Longrightarrow> same_config P R"
  by (simp add: same_config_def)

lemma boundary_config: "same_config P (fst (apply_exclusion_boundary P payload))"
  by (simp add: policy_defs same_config_def Let_def split: event_payload.split)

lemma after_config: "same_config P (fst (apply_after_exclusions P event))"
  by (simp add: apply_after_exclusions_def note_sensitive_entered_def note_sensitive_exited_def
      same_config_def Let_def split: event_payload.split prod.split)

lemma policy_apply_cases:
  obtains (dropped) P1 payload where
      "apply_exclusion_boundary P (e_payload event) = (P1, payload, False)"
      "policy_apply P event = (P1, None)"
    | (kept) P1 payload where
      "apply_exclusion_boundary P (e_payload event) = (P1, payload, True)"
      "policy_apply P event =
         (fst (apply_after_exclusions P1 (event\<lparr>e_payload := payload\<rparr>)),
          Some (snd (apply_after_exclusions P1 (event\<lparr>e_payload := payload\<rparr>))))"
proof (cases "apply_exclusion_boundary P (e_payload event)")
  case (fields P1 payload keep)
  then show thesis
    using dropped kept by (cases keep) (auto simp: policy_apply_def split: prod.splits)
qed

lemma apply_config: "same_config P (fst (policy_apply P event))"
proof (cases rule: policy_apply_cases [of P event])
  case (dropped P1 payload)
  then show ?thesis using boundary_config [of P "e_payload event"] by simp
next
  case (kept P1 payload)
  then show ?thesis
    using boundary_config [of P "e_payload event"] after_config [of P1]
    by (auto intro: same_config_trans)
qed

lemma step_config: "same_config P (fst (policy_step P op))"
  by (cases op) (simp_all add: apply_config, simp add: same_config_def forget_focus_attribution_def)

lemma final_config: "same_config P (final policy_step P ops)"
  by (induction ops arbitrary: P) (auto intro: same_config_trans step_config)

subsection \<open>Redaction never changes who a row is attributed to\<close>

lemma map_windows_exes:
  assumes "\<And>w. w_exe (fst (f w)) = w_exe w"
  shows "map w_exe (windows_of (fst (map_windows f p))) = map w_exe (windows_of p)"
  using assms by (cases p) (auto simp: on_some_def split: option.splits)

lemma map_windows_kind [simp]:
  "payload_kind (fst (map_windows f p)) = payload_kind p"
  by (cases p) simp_all

lemma map_windows_attributed:
  assumes "\<And>w. w_exe (fst (f w)) = w_exe w"
  shows "attributed_exes (fst (map_windows f p)) = attributed_exes p"
  unfolding attributed_exes_def map_windows_exes [of f, OF assms]
  by (cases p) simp_all

lemma redact_title_exe [simp]: "w_exe (fst (redact_title w)) = w_exe w"
  by (simp add: redact_title_def)

lemma redact_title_if_needed_exe [simp]: "w_exe (fst (redact_title_if_needed fs w)) = w_exe w"
  by (simp add: redact_title_if_needed_def)

lemma redact_titles_kept [simp]:
  "attributed_exes (fst (redact_titles_containing fs p)) = attributed_exes p"
  "payload_kind (fst (redact_titles_containing fs p)) = payload_kind p"
  by (cases p; simp only: redact_titles_containing_def event_payload.case map_windows_kind
      map_windows_attributed redact_title_if_needed_exe; simp add: Let_def split_def
      attributed_exes_def)+

lemma redact_keys_kept [simp]:
  "attributed_exes (fst (redact_keys_containing fs p)) = attributed_exes p"
  "payload_kind (fst (redact_keys_containing fs p)) = payload_kind p"
  by (cases p; simp add: redact_keys_containing_def attributed_exes_def)+

lemma omit_key_kept [simp]:
  "attributed_exes (fst (omit_key_content_of p)) = attributed_exes p"
  "payload_kind (fst (omit_key_content_of p)) = payload_kind p"
  by (cases p; simp add: omit_key_content_of_def attributed_exes_def)+

lemma redact_sensitive_kept [simp]:
  "attributed_exes (fst (redact_for_sensitive_context p)) = attributed_exes p"
  "payload_kind (fst (redact_for_sensitive_context p)) = payload_kind p"
  by (cases p; simp only: redact_for_sensitive_context_def event_payload.case map_windows_kind
      map_windows_attributed redact_title_exe; simp add: Let_def split_def attributed_exes_def
      on_some_def split: option.split)+

lemma redact_by_rules_kept [simp]:
  "attributed_exes (fst (redact_by_rules P p)) = attributed_exes p"
  "payload_kind (fst (redact_by_rules P p)) = payload_kind p"
  by (simp_all add: redact_by_rules_def Let_def split_def)

text \<open>The two shapes of \<open>apply_after_exclusions\<close>.\<close>

fun sensitive_boundary :: "event_payload \<Rightarrow> bool" where
  "sensitive_boundary (SensitiveContextEntered _) = True"
| "sensitive_boundary (SensitiveContextExited _) = True"
| "sensitive_boundary _ = False"

definition suppressed_payload :: "policy \<Rightarrow> event_payload \<Rightarrow> event_payload" where
  "suppressed_payload P p =
     (if sensitive_context_active P then fst (redact_for_sensitive_context p) else p)"

definition ruled_payload :: "policy \<Rightarrow> event_payload \<Rightarrow> event_payload" where
  "ruled_payload P p =
     (if p_omit_key_content P then fst (omit_key_content_of (fst (redact_by_rules P p)))
      else fst (redact_by_rules P p))"

lemma after_boundary:
  "p_sensitive_context_suppression P \<Longrightarrow> sensitive_boundary (e_payload event) \<Longrightarrow>
   snd (apply_after_exclusions P event) = event"
  by (cases "e_payload event") (simp_all add: apply_after_exclusions_def)

lemma after_ordinary:
  assumes "\<not> (p_sensitive_context_suppression P \<and> sensitive_boundary (e_payload event))"
  shows "fst (apply_after_exclusions P event) = P"
    and "e_payload (snd (apply_after_exclusions P event))
           = ruled_payload P (suppressed_payload P (e_payload event))"
  using assms
  by (cases "e_payload event"; simp add: apply_after_exclusions_def Let_def split_def
      ruled_payload_def suppressed_payload_def sensitive_context_active_def)+

lemma ruled_suppressed_kept [simp]:
  "attributed_exes (ruled_payload P (suppressed_payload Q p)) = attributed_exes p"
  "payload_kind (ruled_payload P (suppressed_payload Q p)) = payload_kind p"
  by (simp_all add: ruled_payload_def suppressed_payload_def)

lemma after_exclusions_kept [simp]:
  "attributed_exes (e_payload (snd (apply_after_exclusions P event)))
     = attributed_exes (e_payload event)"
  "payload_kind (e_payload (snd (apply_after_exclusions P event)))
     = payload_kind (e_payload event)"
  by (cases "p_sensitive_context_suppression P \<and> sensitive_boundary (e_payload event)";
      simp add: after_boundary after_ordinary)+

section \<open>Exclusions\<close>

definition exclusion_free :: "string set \<Rightarrow> event_envelope \<Rightarrow> bool" where
  "exclusion_free apps event \<longleftrightarrow>
     list_all (\<lambda>exe. exe_basename_lower exe \<notin> apps) (attributed_exes (e_payload event)) \<and>
     (apps \<noteq> {} \<longrightarrow> envelope_kind event \<noteq> ''notifications_received'')"

lemma boundary_exclusion_free:
  assumes "apply_exclusion_boundary P p = (P1, q, True)"
  shows "list_all (\<lambda>exe. exe_basename_lower exe \<notin> p_excluded_apps P) (attributed_exes q)"
    and "p_excluded_apps P \<noteq> {} \<Longrightarrow> payload_kind q \<noteq> ''notifications_received''"
  using assms
  by (cases p; force simp: apply_exclusion_boundary_def unattributed_or_excluded_def
      excludes_exe_def attributed_exes_def Let_def split: option.splits if_splits)+

lemma policy_step_exclusion_free:
  "y \<in> set (snd (policy_step P op)) \<Longrightarrow> exclusion_free (p_excluded_apps P) y"
proof (cases op)
  case (Observe event)
  assume "y \<in> set (snd (policy_step P op))"
  then show ?thesis
    by (cases rule: policy_apply_cases [of P event])
       (auto simp: Observe exclusion_free_def envelope_kind_def dest: boundary_exclusion_free)
qed simp

interpretation exclusions:
  filter_machine policy_step "\<lambda>P. p_excluded_apps P = apps" "exclusion_free apps"
  for apps
  using step_config policy_step_exclusion_free
  by unfold_locales (auto simp: same_config_def)


subsection \<open>The focus latch and the sensitive reasons\<close>

text \<open>The specification reads the raw inputs backwards, rows that were dropped included.\<close>

fun latch_event :: "string set \<Rightarrow> policy_op \<Rightarrow> bool option option" where
  "latch_event apps ForgetFocus = Some None"
| "latch_event apps (Observe event) =
     (case e_payload event of
        FocusChanged w _ _ _ _ \<Rightarrow> Some (Some (exe_basename_lower (w_exe w) \<in> apps))
      | _ \<Rightarrow> None)"

definition last_focus_verdict :: "string set \<Rightarrow> bool option \<Rightarrow> policy_op list \<Rightarrow> bool option" where
  "last_focus_verdict apps start ops =
     (case List.map_filter (latch_event apps) (rev ops) of [] \<Rightarrow> start | v # _ \<Rightarrow> v)"

fun reason_payload :: "sensitive_context_reason \<Rightarrow> event_payload \<Rightarrow> bool option" where
  "reason_payload r (SensitiveContextEntered r') = (if r' = r then Some True else None)"
| "reason_payload r (SensitiveContextExited r') = (if r' = r then Some False else None)"
| "reason_payload r _ = None"

fun reason_event :: "sensitive_context_reason \<Rightarrow> policy_op \<Rightarrow> bool option" where
  "reason_event r ForgetFocus = None"
| "reason_event r (Observe event) = reason_payload r (e_payload event)"

definition reason_open :: "sensitive_context_reason set \<Rightarrow> policy_op list
    \<Rightarrow> sensitive_context_reason \<Rightarrow> bool" where
  "reason_open start ops r =
     (case List.map_filter (reason_event r) (rev ops) of [] \<Rightarrow> r \<in> start | b # _ \<Rightarrow> b)"

lemma boundary_latch:
  "p_current_focus_excluded (fst (apply_exclusion_boundary P (e_payload event))) =
     (case latch_event (p_excluded_apps P) (Observe event) of
        None \<Rightarrow> p_current_focus_excluded P | Some v \<Rightarrow> v)"
  by (cases "e_payload event") (simp_all add: policy_defs excludes_exe_def Let_def)

lemma after_latch:
  "p_current_focus_excluded (fst (apply_after_exclusions P event)) = p_current_focus_excluded P"
  by (cases "e_payload event")
     (simp_all add: apply_after_exclusions_def note_sensitive_entered_def
       note_sensitive_exited_def Let_def split_def)

lemma step_latch:
  "p_current_focus_excluded (fst (policy_step P op)) =
     (case latch_event (p_excluded_apps P) op of
        None \<Rightarrow> p_current_focus_excluded P | Some v \<Rightarrow> v)"
proof (cases op)
  case (Observe event)
  show ?thesis
    by (cases rule: policy_apply_cases [of P event])
       (use boundary_latch [of P event] in \<open>auto simp: Observe after_latch\<close>)
qed (simp add: forget_focus_attribution_def)

lemma after_sensitive [simp]:
  "p_sensitive_context_suppression P \<Longrightarrow>
   fst (apply_after_exclusions P (event\<lparr>e_payload := SensitiveContextEntered r\<rparr>))
     = note_sensitive_entered P r"
  "p_sensitive_context_suppression P \<Longrightarrow>
   fst (apply_after_exclusions P (event\<lparr>e_payload := SensitiveContextExited r\<rparr>))
     = note_sensitive_exited P r"
  by (simp_all add: apply_after_exclusions_def)

lemma boundary_reasons:
  assumes "apply_exclusion_boundary P p = (P1, q, keep)" and "p_sensitive_context_suppression P"
  shows "r \<in> p_active_sensitive_reasons (if keep then fst (apply_after_exclusions P1
            (event\<lparr>e_payload := q\<rparr>)) else P1) \<longleftrightarrow>
     (case reason_payload r p of
        None \<Rightarrow> r \<in> p_active_sensitive_reasons P | Some b \<Rightarrow> b)"
proof (cases "sensitive_boundary p")
  case True
  then show ?thesis
    using assms by (cases p) (auto simp: policy_defs split: if_splits)
next
  case False
  then have "p_active_sensitive_reasons P1 = p_active_sensitive_reasons P"
    "\<not> sensitive_boundary q" "reason_payload r p = None"
    using assms by (cases p; auto simp: policy_defs Let_def split: if_splits)+
  then show ?thesis by (simp add: after_ordinary)
qed

lemma step_reasons:
  assumes "p_sensitive_context_suppression P"
  shows "r \<in> p_active_sensitive_reasons (fst (policy_step P op)) \<longleftrightarrow>
     (case reason_event r op of None \<Rightarrow> r \<in> p_active_sensitive_reasons P | Some b \<Rightarrow> b)"
proof (cases op)
  case (Observe event)
  show ?thesis
  proof (cases rule: policy_apply_cases [of P event])
    case (dropped P1 q)
    then show ?thesis
      using boundary_reasons [OF dropped(1) assms, of r event] by (simp add: Observe)
  next
    case (kept P1 q)
    then show ?thesis
      using boundary_reasons [OF kept(1) assms, of r event] by (simp add: Observe)
  qed
qed (simp add: forget_focus_attribution_def)

lemma final_latch:
  "p_current_focus_excluded (final policy_step P ops) =
     last_focus_verdict (p_excluded_apps P) (p_current_focus_excluded P) ops"
proof (induction ops rule: rev_induct)
  case (snoc op ops)
  have "p_excluded_apps (final policy_step P ops) = p_excluded_apps P"
    using final_config [of P ops] by (simp add: same_config_def)
  then show ?case
    using snoc by (simp add: step_latch last_focus_verdict_def List.map_filter_def split: option.split)
qed (simp add: last_focus_verdict_def List.map_filter_def)

lemma final_reasons:
  assumes "p_sensitive_context_suppression P"
  shows "r \<in> p_active_sensitive_reasons (final policy_step P ops) \<longleftrightarrow>
     reason_open (p_active_sensitive_reasons P) ops r"
proof (induction ops rule: rev_induct)
  case (snoc op ops)
  have "p_sensitive_context_suppression (final policy_step P ops)"
    using assms final_config [of P ops] by (simp add: same_config_def)
  then show ?case
    using snoc by (simp add: step_reasons reason_open_def List.map_filter_def split: option.split)
qed (simp add: reason_open_def List.map_filter_def)

text \<open>
  \<open>Policy::apply_exclusion_boundary\<close>: rows that name no window fail closed.  With an
  exclusion configured, an input row without a window or a sensitive-context boundary passes
  exactly when the most recent focus change (dropped rows counted, nothing before a forget
  counted) was to an application that is not excluded.
\<close>

theorem unattributed_rows_fail_closed:
  assumes "p_excluded_apps P \<noteq> {}" and "latch_attributed (e_payload event)"
  shows "snd (policy_step (final policy_step P ops) (Observe event)) \<noteq> [] \<longleftrightarrow>
     last_focus_verdict (p_excluded_apps P) (p_current_focus_excluded P) ops = Some False"
proof -
  let ?Q = "final policy_step P ops"
  have "p_excluded_apps ?Q \<noteq> {}"
    using assms(1) final_config [of P ops] by (simp add: same_config_def)
  then have "snd (snd (apply_exclusion_boundary ?Q (e_payload event))) \<longleftrightarrow>
      p_current_focus_excluded ?Q = Some False"
    using assms(2)
    by (cases "e_payload event")
       (auto simp: latch_attributed_def policy_defs latched_focus_excluded_def
         split: option.splits)
  then show ?thesis
    by (cases rule: policy_apply_cases [of ?Q event]) (simp_all add: final_latch)
qed

definition sample_window :: "string \<Rightarrow> string \<Rightarrow> window_ref" where
  "sample_window exe title = \<lparr>w_hwnd = 7, w_exe = exe, w_title = title, w_pid = 42\<rparr>"

definition sample_event :: "event_payload \<Rightarrow> event_envelope" where
  "sample_event payload =
     \<lparr>e_schema_version = SCHEMA_VERSION, e_session_id = 1, e_seq = 1, e_ts_unix_ms = 1000,
      e_source = source.System, e_is_sensitive = False, e_payload = payload\<rparr>"

definition sample_key :: "string \<Rightarrow> window_ref option \<Rightarrow> event_envelope" where
  "sample_key k w = sample_event (Key k default_modifiers w None)"

lemmas sample_defs = sample_window_def sample_event_def sample_key_def

definition sample_policy :: policy where
  "sample_policy = policy_with_excluded_apps policy_identity [''Bank.exe'']"

theorem unattributed_rows_fail_closed_witness:
  "let focus = Observe (sample_event
         (FocusChanged (sample_window ''notes.exe'' ''n'') None 0 0 False))
   in snd (policy_step (final policy_step sample_policy [focus])
             (Observe (sample_key ''A'' None))) \<noteq> [] \<and>
      snd (policy_step (final policy_step sample_policy [focus, ForgetFocus])
             (Observe (sample_key ''A'' None))) = []"
proof -
  have apps: "p_excluded_apps sample_policy = {''bank.exe''}"
    "p_current_focus_excluded sample_policy = None"
    by code_simp+
  have other: "exe_basename_lower ''notes.exe'' \<noteq> ''bank.exe''" by code_simp
  note run = unattributed_rows_fail_closed [of sample_policy "sample_key ''A'' None"]
  show ?thesis
    unfolding Let_def
    using run [of "[Observe (sample_event
         (FocusChanged (sample_window ''notes.exe'' ''n'') None 0 0 False))]"]
      run [of "[Observe (sample_event
         (FocusChanged (sample_window ''notes.exe'' ''n'') None 0 0 False)), ForgetFocus]"] other
    by (simp add: apps sample_defs latch_attributed_def last_focus_verdict_def
        List.map_filter_def del: policy_step.simps final.simps)
qed

section \<open>Sensitive contexts\<close>

definition content_free :: "event_payload \<Rightarrow> bool" where
  "content_free p \<longleftrightarrow>
     list_all (\<lambda>w. w_title w = redacted) (windows_of p) \<and>
     (case p of
        Key k m _ _ \<Rightarrow> k \<in> {redacted, []} \<and> m = default_modifiers
      | NotificationsReceived app _ \<Rightarrow> app \<in> {None, Some redacted}
      | ClipboardUsed _ _ _ tc bs \<Rightarrow> tc = None \<and> bs = None
      | _ \<Rightarrow> True)"

lemma redact_title_redacts [simp]: "w_title (fst (redact_title w)) = redacted"
  by (simp add: redact_title_def)

lemma redact_title_if_needed_redacted [simp]:
  "w_title w = redacted \<Longrightarrow> redact_title_if_needed fs w = (w, False)"
  by (simp add: redact_title_if_needed_def redact_title_def)

lemma on_some_redacted [simp]:
  "pred_option (\<lambda>w. w_title w = redacted) v \<Longrightarrow> on_some (redact_title_if_needed fs) v = (v, False)"
  by (cases v) (simp_all add: on_some_def)

lemma redact_sensitive_content_free: "content_free (fst (redact_for_sensitive_context p))"
  by (cases p) (auto simp: redact_for_sensitive_context_def content_free_def on_some_def
      redact_optional_label_def split: option.splits)

lemma redact_titles_content_free:
  "content_free p \<Longrightarrow> redact_titles_containing fs p = (p, False)"
  by (cases p) (auto simp: redact_titles_containing_def content_free_def pred_option_def
      redact_optional_label_if_needed_def redact_optional_label_def split: option.splits)

lemma redact_by_rules_content_free: "content_free p \<Longrightarrow> content_free (fst (redact_by_rules P p))"
  by (cases p)
     (auto simp: redact_by_rules_def redact_titles_content_free redact_keys_containing_def
       content_free_def)

lemma omit_key_content_free: "content_free p \<Longrightarrow> content_free (fst (omit_key_content_of p))"
  by (cases p) (auto simp: omit_key_content_of_def content_free_def)

lemma ruled_content_free: "content_free p \<Longrightarrow> content_free (ruled_payload P p)"
  by (simp add: ruled_payload_def redact_by_rules_content_free omit_key_content_free)

lemma boundary_sensitive_boundary:
  "apply_exclusion_boundary P p = (P1, q, True) \<Longrightarrow> sensitive_boundary q = sensitive_boundary p"
  by (cases p) (auto simp: policy_defs Let_def split: if_splits)

lemma boundary_sensitive_active:
  "apply_exclusion_boundary P p = (P1, q, True) \<Longrightarrow>
   sensitive_context_active P1 = sensitive_context_active P"
  by (cases p) (auto simp: policy_defs sensitive_context_active_def Let_def split: if_splits)

text \<open>
  C32 (\<open>Policy::apply_after_exclusions\<close>): between the boundary that opens a sensitive context
  and the one that closes it no content is stored.  While some reason was entered and not
  exited since, in the raw stream (boundary rows dropped by an exclusion count), every row
  that passes and is not itself a boundary has all its window titles redacted, its key name
  redacted or empty with default modifiers, its notification label redacted and its
  clipboard sizes removed.
\<close>

theorem sensitive_context_stores_no_content:
  assumes "p_sensitive_context_suppression P"
    and "reason_open (p_active_sensitive_reasons P) ops reason"
    and "\<not> sensitive_boundary (e_payload event)"
    and "row \<in> set (snd (policy_step (final policy_step P ops) (Observe event)))"
  shows "content_free (e_payload row)"
proof -
  let ?Q = "final policy_step P ops"
  have active: "sensitive_context_active ?Q"
    using assms(1,2) final_config [of P ops] final_reasons [OF assms(1), of reason ops]
    by (auto simp: same_config_def sensitive_context_active_def)
  show ?thesis
  proof (cases rule: policy_apply_cases [of ?Q event])
    case (kept P1 q)
    note boundary_sensitive_boundary [OF kept(1)] boundary_sensitive_active [OF kept(1)]
    with assms(3,4) active kept(2) show ?thesis
      by (auto simp: after_ordinary suppressed_payload_def
          intro: ruled_content_free redact_sensitive_content_free)
  qed (use assms(4) in simp)
qed

theorem sensitive_context_stores_no_content_witness:
  "let P = with_sensitive_context_suppression policy_identity True;
       ops = [Observe (sample_event (SensitiveContextEntered PasswordField))];
       event = sample_key ''h'' (Some (sample_window ''bank.exe'' ''Log in''))
   in \<exists>row. snd (policy_step (final policy_step P ops) (Observe event)) = [row] \<and>
            content_free (e_payload row)"
proof -
  let ?P = "with_sensitive_context_suppression policy_identity True"
  let ?ops = "[Observe (sample_event (SensitiveContextEntered PasswordField))]"
  let ?event = "sample_key ''h'' (Some (sample_window ''bank.exe'' ''Log in''))"
  define out where "out = snd (policy_step (final policy_step ?P ?ops) (Observe ?event))"
  have "length out = 1" unfolding out_def by code_simp
  then obtain row where row: "out = [row]" by (auto simp: length_Suc_conv)
  have "content_free (e_payload row)"
  proof (rule sensitive_context_stores_no_content)
    show "p_sensitive_context_suppression ?P" by code_simp
    show "reason_open (p_active_sensitive_reasons ?P) ?ops PasswordField" by code_simp
    show "\<not> sensitive_boundary (e_payload ?event)" by code_simp
    show "row \<in> set (snd (policy_step (final policy_step ?P ?ops) (Observe ?event)))"
      using row unfolding out_def by (simp only:) simp
  qed
  with row show ?thesis unfolding Let_def out_def by blast
qed

text \<open>
  \<open>Policy::active_sensitive_reasons\<close>: the reasons re-announced after a session
  replacement are the active ones without \<open>SecureInput\<close>: a context held open by secure
  input alone is active and re-announces nothing.
\<close>

theorem active_sensitive_reasons_omits_secure_input:
  "set (active_sensitive_reasons P) =
     (if p_sensitive_context_suppression P
      then p_active_sensitive_reasons P - {SecureInput} else {})"
proof (rule set_eqI)
  fix r
  show "r \<in> set (active_sensitive_reasons P) \<longleftrightarrow> r \<in>
     (if p_sensitive_context_suppression P
      then p_active_sensitive_reasons P - {SecureInput} else {})"
    by (cases r) (simp_all add: active_sensitive_reasons_def)
qed

section \<open>Lean capture and the redaction rules\<close>

fun key_name :: "event_payload \<Rightarrow> string option" where
  "key_name (Key k _ _ _) = Some k"
| "key_name _ = None"

lemma omit_key_name: "key_name (fst (omit_key_content_of p)) \<in> {None, Some []}"
  by (cases p) (simp_all add: omit_key_content_of_def)

lemma store_key_frame [simp]:
  "p_title_redaction_fragments (with_store_key_content P b) = p_title_redaction_fragments P"
  "p_key_redaction_fragments (with_store_key_content P b) = p_key_redaction_fragments P"
  "p_sensitive_context_suppression (with_store_key_content P b) = p_sensitive_context_suppression P"
  "p_omit_key_content (with_store_key_content P b) = (\<not> b)"
  "p_excluded_apps (with_store_key_content P b) = p_excluded_apps P"
  "p_excluded_notification_keys (with_store_key_content P b) = p_excluded_notification_keys P"
  "p_current_focus_excluded (with_store_key_content P b) = p_current_focus_excluded P"
  "p_active_sensitive_reasons (with_store_key_content P b) = p_active_sensitive_reasons P"
  "with_store_key_content (with_store_key_content P c) b = with_store_key_content P b"
  by (simp_all add: with_store_key_content_def)

lemma store_key_verdicts [simp]:
  "excludes_exe (with_store_key_content P b) exe = excludes_exe P exe"
  "latched_focus_excluded (with_store_key_content P b) = latched_focus_excluded P"
  "redact_by_rules (with_store_key_content P b) p = redact_by_rules P p"
  by (simp_all add: excludes_exe_def latched_focus_excluded_def redact_by_rules_def split_def
      Let_def split: option.split)

lemma store_key_unattributed [simp]:
  "unattributed_or_excluded (with_store_key_content P b) w = unattributed_or_excluded P w"
  by (simp add: unattributed_or_excluded_def split: option.split)

lemma store_key_updates [simp]:
  "note_sensitive_entered (with_store_key_content P b) r
     = with_store_key_content (note_sensitive_entered P r) b"
  "note_sensitive_exited (with_store_key_content P b) r
     = with_store_key_content (note_sensitive_exited P r) b"
  "(with_store_key_content P b)\<lparr>p_current_focus_excluded := v\<rparr>
     = with_store_key_content (P\<lparr>p_current_focus_excluded := v\<rparr>) b"
  by (simp_all add: note_sensitive_entered_def note_sensitive_exited_def
      with_store_key_content_def)

lemma store_key_boundary [simp]:
  "apply_exclusion_boundary (with_store_key_content P b) p =
     (with_store_key_content (fst (apply_exclusion_boundary P p)) b,
      snd (apply_exclusion_boundary P p))"
  by (cases p) (simp_all add: apply_exclusion_boundary_def Let_def split: option.split)

lemma after_flag:
  "e_is_sensitive (snd (apply_after_exclusions P event)) =
     (if p_sensitive_context_suppression P \<and> sensitive_boundary (e_payload event)
      then e_is_sensitive event
      else e_is_sensitive event \<or>
           (sensitive_context_active P \<and> snd (redact_for_sensitive_context (e_payload event))) \<or>
           key_was_capture_redacted (suppressed_payload P (e_payload event)) \<or>
           snd (redact_by_rules P (suppressed_payload P (e_payload event))))"
  by (cases "e_payload event"; simp add: apply_after_exclusions_def suppressed_payload_def
      sensitive_context_active_def Let_def split_def)

lemma after_state:
  "fst (apply_after_exclusions P event) =
     (if p_sensitive_context_suppression P
      then (case e_payload event of
              SensitiveContextEntered r \<Rightarrow> note_sensitive_entered P r
            | SensitiveContextExited r \<Rightarrow> note_sensitive_exited P r
            | _ \<Rightarrow> P)
      else P)"
  by (cases "e_payload event"; simp add: apply_after_exclusions_def Let_def split_def)

lemma store_key_after [simp]:
  "fst (apply_after_exclusions (with_store_key_content P b) event)
     = with_store_key_content (fst (apply_after_exclusions P event)) b"
  "e_is_sensitive (snd (apply_after_exclusions (with_store_key_content P b) event))
     = e_is_sensitive (snd (apply_after_exclusions P event))"
  by (simp_all add: after_state after_flag suppressed_payload_def sensitive_context_active_def
      split: event_payload.split)

lemma store_key_step:
  "fst (policy_step (with_store_key_content P b) op)
     = with_store_key_content (fst (policy_step P op)) b"
  "map e_is_sensitive (snd (policy_step (with_store_key_content P b) op))
     = map e_is_sensitive (snd (policy_step P op))"
  by (cases op; simp add: policy_apply_def split_def Let_def;
      simp add: forget_focus_attribution_def)+

lemma store_key_run:
  "final policy_step (with_store_key_content P b) ops
     = with_store_key_content (final policy_step P ops) b"
  "map e_is_sensitive (outputs policy_step (with_store_key_content P b) ops)
     = map e_is_sensitive (outputs policy_step P ops)"
  by (induction ops arbitrary: P) (simp_all add: store_key_step)

definition key_names_omitted :: "event_envelope \<Rightarrow> bool" where
  "key_names_omitted row \<longleftrightarrow> key_name (e_payload row) \<in> {None, Some []}"

lemma lean_step:
  "p_omit_key_content P \<Longrightarrow> row \<in> set (snd (policy_step P op)) \<Longrightarrow> key_names_omitted row"
proof (cases op)
  case (Observe event)
  assume lean: "p_omit_key_content P" and row: "row \<in> set (snd (policy_step P op))"
  show ?thesis
  proof (cases rule: policy_apply_cases [of P event])
    case (kept P1 q)
    have lean1: "p_omit_key_content P1"
      using lean boundary_config [of P "e_payload event"] kept(1) by (simp add: same_config_def)
    show ?thesis
    proof (cases "p_sensitive_context_suppression P1 \<and> sensitive_boundary q")
      case True
      then have "key_name q = None" by (cases q) simp_all
      then show ?thesis
        using True row kept(2) by (simp add: Observe after_boundary key_names_omitted_def)
    next
      case False
      then show ?thesis
        using row kept(2) lean1 omit_key_name
        by (simp add: Observe after_ordinary key_names_omitted_def ruled_payload_def)
    qed
  qed (use row in \<open>simp add: Observe\<close>)
qed simp

interpretation lean: filter_machine policy_step p_omit_key_content key_names_omitted
  using step_config lean_step by unfold_locales (auto simp: same_config_def)

text \<open>
  \<open>Policy::with_store_key_content\<close>: under lean capture no row carries a key name, and
  nothing else about the decision changes: the same rows pass, with the same sensitivity
  flags, and the policy ends in the same state up to the lean flag.
\<close>

theorem lean_capture_stores_no_key_names:
  "list_all key_names_omitted (outputs policy_step (with_store_key_content P False) ops) \<and>
   map e_is_sensitive (outputs policy_step (with_store_key_content P False) ops)
     = map e_is_sensitive (outputs policy_step (with_store_key_content P True) ops) \<and>
   final policy_step (with_store_key_content P False) ops
     = with_store_key_content (final policy_step (with_store_key_content P True) ops) False"
  using lean.outputs_good [of "with_store_key_content P False"]
  by (simp add: store_key_run list_all_iff)

subsection \<open>Title and key rules\<close>

definition titles_hidden :: "string list \<Rightarrow> event_payload \<Rightarrow> bool" where
  "titles_hidden fragments p \<longleftrightarrow>
     list_all (\<lambda>w. w_title w = redacted \<or> \<not> matches_fragment fragments (w_title w)) (windows_of p) \<and>
     (case p of
        NotificationsReceived (Some label) _ \<Rightarrow>
          label = redacted \<or> \<not> matches_fragment fragments label
      | _ \<Rightarrow> True)"

lemma redact_titles_hidden: "titles_hidden fs (fst (redact_titles_containing fs p))"
  by (cases p)
     (auto simp: titles_hidden_def redact_titles_containing_def redact_title_if_needed_def
       redact_title_def on_some_def redact_optional_label_if_needed_def
       redact_optional_label_def Let_def split_def split: option.splits if_splits)

lemma titles_hidden_keys: "titles_hidden fs p \<Longrightarrow> titles_hidden fs (fst (redact_keys_containing ks p))"
  by (cases p) (auto simp: titles_hidden_def redact_keys_containing_def)

lemma titles_hidden_omit: "titles_hidden fs p \<Longrightarrow> titles_hidden fs (fst (omit_key_content_of p))"
  by (cases p) (auto simp: titles_hidden_def omit_key_content_of_def)

lemma ruled_titles_hidden: "titles_hidden (p_title_redaction_fragments P) (ruled_payload P p)"
  by (simp add: ruled_payload_def redact_by_rules_def Let_def split_def redact_titles_hidden
      titles_hidden_keys titles_hidden_omit)

lemma sensitive_boundary_titles_hidden: "sensitive_boundary p \<Longrightarrow> titles_hidden fs p"
  by (cases p) (simp_all add: titles_hidden_def)

lemma step_titles_hidden:
  assumes "row \<in> set (snd (policy_step P op))"
  shows "titles_hidden (p_title_redaction_fragments P) (e_payload row)"
proof (cases op)
  case (Observe event)
  show ?thesis
  proof (cases rule: policy_apply_cases [of P event])
    case (kept P1 q)
    have "p_title_redaction_fragments P1 = p_title_redaction_fragments P"
      using boundary_config [of P "e_payload event"] kept(1) by (simp add: same_config_def)
    then show ?thesis
      using assms kept(2) ruled_titles_hidden [of P1]
      by (cases "p_sensitive_context_suppression P1 \<and> sensitive_boundary q")
         (simp_all add: Observe after_boundary after_ordinary sensitive_boundary_titles_hidden)
  qed (use assms in \<open>simp add: Observe\<close>)
qed (use assms in simp)

interpretation title_rule:
  filter_machine policy_step "\<lambda>P. p_title_redaction_fragments P = fragments"
    "\<lambda>row. titles_hidden fragments (e_payload row)"
  for fragments
  using step_config step_titles_hidden by unfold_locales (auto simp: same_config_def)

text \<open>
  \<open>Policy::with_title_redactions\<close>: in every row the policy lets through, a window title
  or a notification label either is the redaction mark or contains no configured fragment.
\<close>

theorem title_rule_covers_every_row:
  "list_all (\<lambda>row. titles_hidden (p_title_redaction_fragments P) (e_payload row))
     (outputs policy_step P ops)"
  using title_rule.outputs_good [of P "p_title_redaction_fragments P"] by (simp add: list_all_iff)

text \<open>
  C40 (\<open>Policy::apply_after_exclusions\<close>): what happens to a key name, exactly.  Outside lean
  capture and sensitive contexts the name of a passing key row is replaced by the mark when
  it contains a key fragment, unless the title rule has just changed the row's window title:
  then the key rule does not run and the name is stored as it is.
\<close>

theorem key_rule_runs_unless_title_rule_fired:
  assumes "\<not> p_omit_key_content P" and "\<not> sensitive_context_active P"
    and "e_payload event = Key k m w kc" and "policy_apply P event = (P', Some row)"
  shows "key_name (e_payload row) =
     (if matches_fragment (p_key_redaction_fragments P) k \<and>
         \<not> (\<exists>v. w = Some v \<and> w_title v \<noteq> redacted \<and>
               matches_fragment (p_title_redaction_fragments P) (w_title v))
      then Some redacted else Some k)"
proof (cases rule: policy_apply_cases [of P event])
  case (kept P1 q)
  have "P1 = P" "q = Key k m w kc"
    using kept(1) assms(3) by (auto simp: apply_exclusion_boundary_def)
  with assms kept(2) have "e_payload row = ruled_payload P (Key k m w kc)"
    by (auto simp: after_ordinary suppressed_payload_def)
  with assms(1) show ?thesis
    by (cases w) (auto simp: ruled_payload_def redact_by_rules_def redact_titles_containing_def
        on_some_def redact_title_if_needed_def redact_title_def redact_keys_containing_def Let_def
        split: if_splits)
qed (use assms(4) in simp)

definition two_rules :: policy where
  "two_rules = with_key_redactions (with_title_redactions policy_identity [''Vault'']) [''F2'']"

theorem key_rule_runs_unless_title_rule_fired_witness:
  "let row = snd (apply_after_exclusions two_rules
       (sample_key ''F2'' (Some (sample_window ''a.exe'' ''My Vault''))))
   in key_name (e_payload row) = Some ''F2'' \<and>
      key_name (e_payload (snd (apply_after_exclusions two_rules
        (sample_key ''F2'' (Some (sample_window ''a.exe'' ''Notes'')))))) = Some redacted"
proof -
  have keep: "apply_exclusion_boundary two_rules (e_payload (sample_key ''F2'' (Some w)))
      = (two_rules, e_payload (sample_key ''F2'' (Some w)), True)" for w
    by (simp add: sample_defs apply_exclusion_boundary_def unattributed_or_excluded_def
        excludes_exe_def two_rules_def policy_identity_def with_key_redactions_def
        with_title_redactions_def)
  have through: "policy_apply two_rules (sample_key ''F2'' (Some w)) =
      (fst (apply_after_exclusions two_rules (sample_key ''F2'' (Some w))),
       Some (snd (apply_after_exclusions two_rules (sample_key ''F2'' (Some w)))))" for w
    unfolding policy_apply_def keep by (simp add: split_def Let_def)
  have name: "key_name (e_payload (snd (apply_after_exclusions two_rules (sample_key ''F2'' (Some w))))) =
     (if matches_fragment [''F2''] ''F2'' \<and>
         \<not> (w_title w \<noteq> redacted \<and> matches_fragment [''Vault''] (w_title w))
      then Some redacted else Some ''F2'')" for w
    using key_rule_runs_unless_title_rule_fired [OF _ _ _ through [of w]]
    by (simp add: two_rules_def policy_identity_def with_key_redactions_def
        with_title_redactions_def sensitive_context_active_def sample_defs)
  have "matches_fragment [''F2''] ''F2''" "matches_fragment [''Vault''] ''My Vault''"
    "\<not> matches_fragment [''Vault''] ''Notes''" "''My Vault'' \<noteq> redacted"
    by code_simp+
  then show ?thesis
    unfolding Let_def name by (simp add: sample_window_def)
qed

definition inert :: "policy \<Rightarrow> bool" where
  "inert P \<longleftrightarrow> p_title_redaction_fragments P = [] \<and> p_key_redaction_fragments P = [] \<and>
     \<not> p_sensitive_context_suppression P \<and> \<not> p_omit_key_content P \<and> p_excluded_apps P = {} \<and>
     p_excluded_notification_keys P = {} \<and> p_current_focus_excluded P \<noteq> Some True"

lemma inert_boundary:
  "inert P \<Longrightarrow> \<exists>P1. inert P1 \<and> apply_exclusion_boundary P p = (P1, p, True)"
  by (cases p)
     (auto simp: inert_def policy_defs excludes_exe_def latched_focus_excluded_def Let_def
       split: option.split)

lemma no_fragments [simp]:
  "redact_titles_containing [] p = (p, False)" "redact_keys_containing [] p = (p, False)"
  by (cases p; simp add: redact_titles_containing_def redact_keys_containing_def
      redact_title_if_needed_def redact_optional_label_if_needed_def matches_fragment_def
      on_some_def split: option.split)+

lemma inert_after:
  "inert P \<Longrightarrow> apply_after_exclusions P event =
     (P, event\<lparr>e_is_sensitive :=
            e_is_sensitive event \<or> key_was_capture_redacted (e_payload event)\<rparr>)"
  by (simp add: inert_def apply_after_exclusions_def redact_by_rules_def Let_def)

lemma inert_step:
  assumes "inert P"
  shows "inert (fst (policy_step P (Observe event)))"
    and "snd (policy_step P (Observe event)) = [event\<lparr>e_is_sensitive :=
            e_is_sensitive event \<or> key_was_capture_redacted (e_payload event)\<rparr>]"
proof -
  obtain P1 where "inert P1"
    "apply_exclusion_boundary P (e_payload event) = (P1, e_payload event, True)"
    using inert_boundary [OF assms] by blast
  then have "policy_apply P event = (P1, Some (event\<lparr>e_is_sensitive :=
            e_is_sensitive event \<or> key_was_capture_redacted (e_payload event)\<rparr>))"
    by (simp add: policy_apply_def inert_after)
  with \<open>inert P1\<close> show "inert (fst (policy_step P (Observe event)))"
    "snd (policy_step P (Observe event)) = [event\<lparr>e_is_sensitive :=
            e_is_sensitive event \<or> key_was_capture_redacted (e_payload event)\<rparr>]"
    by simp_all
qed

lemma inert_run:
  "inert P \<Longrightarrow> outputs policy_step P (map Observe events) =
     map (\<lambda>event. event\<lparr>e_is_sensitive :=
            e_is_sensitive event \<or> key_was_capture_redacted (e_payload event)\<rparr>) events"
  by (induction events arbitrary: P) (simp_all add: inert_step del: policy_step.simps)

text \<open>
  \<open>Policy::identity\<close>: the default policy stores every row with its payload as captured;
  only the focus latch moves and only capture-time redactions raise the sensitivity flag.
\<close>

theorem identity_policy_keeps_every_row:
  "outputs policy_step policy_identity (map Observe events) =
     map (\<lambda>event. event\<lparr>e_is_sensitive :=
            e_is_sensitive event \<or> key_was_capture_redacted (e_payload event)\<rparr>) events"
  by (rule inert_run) (simp add: inert_def policy_identity_def)

section \<open>Building the exclusion sets\<close>

lemma policy_with_excluded_apps_sets:
  "p_excluded_apps (policy_with_excluded_apps P apps) =
     p_excluded_apps P \<union> (exe_basename_lower ` set apps - {[]})"
  "p_excluded_notification_keys (policy_with_excluded_apps P apps) =
     p_excluded_notification_keys P \<union> notification_match_key ` (exe_basename_lower ` set apps - {[]})"
  by (induction P apps rule: policy_with_excluded_apps.induct) (auto simp: Let_def)

end
