(* ===== verification/Clock.thy ===== *)
theory Clock
  imports Event_Model
begin

text \<open>
  The session clock of \<open>gilbreth-core\<close> (crates/gilbreth-core/src/lib.rs): the projection of
  monotonic instants to wall-clock milliseconds (\<open>SessionTimebase\<close>), the single sequence
  authority (\<open>Sequencer\<close>), and the instant-to-wall-clock conversion of actions that cross
  the elevated helper's pipe (\<open>ActionCaptureWire\<close>).  \<open>Instant::now\<close> and \<open>SystemTime::now\<close>
  are inputs.
\<close>

section \<open>Durations as integers\<close>

definition duration_ms_i64 :: "duration \<Rightarrow> int" where
  "duration_ms_i64 d =
     (if int (as_millis d) \<le> i64_max then int (as_millis d) else i64_max)"

definition duration_ms :: "duration \<Rightarrow> nat" where
  "duration_ms d = (if as_millis d \<le> u64_max then as_millis d else u64_max)"

definition u64_to_i64 :: "nat \<Rightarrow> int" where
  "u64_to_i64 value = (if int value \<le> i64_max then int value else i64_max)"

text \<open>\<open>elapsed\<close> is \<open>SystemTime::now().duration_since(UNIX_EPOCH)\<close>, \<open>None\<close> before the epoch.\<close>

definition unix_now_ms :: "duration option \<Rightarrow> int" where
  "unix_now_ms elapsed = duration_ms_i64 (case elapsed of Some d \<Rightarrow> d | None \<Rightarrow> 0)"

definition instant_to_unix_ms :: "instant \<Rightarrow> instant \<Rightarrow> int \<Rightarrow> int" where
  "instant_to_unix_ms captured_at now_instant now_unix_ms =
     sat_sub_i64 now_unix_ms (duration_ms_i64 (duration_since now_instant captured_at))"

definition unix_ms_to_instant :: "int \<Rightarrow> instant \<Rightarrow> int \<Rightarrow> instant" where
  "unix_ms_to_instant captured_unix_ms now_instant now_unix_ms =
     (let lag_ms = max (sat_sub_i64 now_unix_ms captured_unix_ms) 0
      in case checked_sub_instant now_instant (from_millis (nat lag_ms)) of
           Some t \<Rightarrow> t
         | None \<Rightarrow> now_instant)"

section \<open>The timebase\<close>

record session_timebase =
  base_instant :: instant
  base_utc_ms :: int

record drift_correction =
  old_base_utc_ms :: int
  new_base_utc_ms :: int
  measured_drift_ms :: int
  clamp_ms :: int
  threshold_ms :: int

definition timebase_new :: "instant \<Rightarrow> int \<Rightarrow> session_timebase" where
  "timebase_new i u = \<lparr>base_instant = i, base_utc_ms = u\<rparr>"

definition timebase_timestamp_for :: "session_timebase \<Rightarrow> instant \<Rightarrow> int" where
  "timebase_timestamp_for tb captured_at =
     (case checked_duration_since captured_at (base_instant tb) of
        Some delta \<Rightarrow> sat_add_i64 (base_utc_ms tb) (duration_ms_i64 delta)
      | None \<Rightarrow> sat_sub_i64 (base_utc_ms tb)
                 (duration_ms_i64 (duration_since (base_instant tb) captured_at)))"

definition timebase_resync ::
    "session_timebase \<Rightarrow> instant \<Rightarrow> int \<Rightarrow> int \<Rightarrow> int option
     \<Rightarrow> session_timebase \<times> drift_correction option" where
  "timebase_resync tb now_instant now_utc_ms threshold min_timestamp_ms =
     (let threshold = max threshold 0;
          projected = timebase_timestamp_for tb now_instant;
          drift = sat_sub_i64 now_utc_ms projected
      in if \<bar>drift\<bar> \<le> threshold then (tb, None)
         else let new_base = (case min_timestamp_ms of None \<Rightarrow> now_utc_ms
                                | Some m \<Rightarrow> max now_utc_ms m)
              in (\<lparr>base_instant = now_instant, base_utc_ms = new_base\<rparr>,
                  Some \<lparr>old_base_utc_ms = base_utc_ms tb, new_base_utc_ms = new_base,
                        measured_drift_ms = drift, clamp_ms = sat_sub_i64 new_base now_utc_ms,
                        threshold_ms = threshold\<rparr>))"

section \<open>The sequencer\<close>

record sequencer =
  q_session_id :: int
  q_next_seq :: nat
  q_timebase :: session_timebase
  q_last_ts_unix_ms :: "int option"

definition sequencer_new :: "int \<Rightarrow> session_timebase \<Rightarrow> sequencer" where
  "sequencer_new session_id tb =
     \<lparr>q_session_id = session_id, q_next_seq = 1, q_timebase = tb, q_last_ts_unix_ms = None\<rparr>"

definition started_at :: "sequencer \<Rightarrow> int" where
  "started_at q = base_utc_ms (q_timebase q)"

definition clamp_timestamp :: "sequencer \<Rightarrow> int \<Rightarrow> int" where
  "clamp_timestamp q ts = (case q_last_ts_unix_ms q of None \<Rightarrow> ts | Some l \<Rightarrow> max ts l)"

definition timestamp_for :: "sequencer \<Rightarrow> instant \<Rightarrow> int" where
  "timestamp_for q i = clamp_timestamp q (timebase_timestamp_for (q_timebase q) i)"

definition projected_timestamp_for :: "sequencer \<Rightarrow> instant \<Rightarrow> int" where
  "projected_timestamp_for q i = timebase_timestamp_for (q_timebase q) i"

definition sequencer_resync ::
    "sequencer \<Rightarrow> instant \<Rightarrow> int \<Rightarrow> int \<Rightarrow> sequencer \<times> drift_correction option" where
  "sequencer_resync q now_instant now_utc_ms threshold =
     (let (tb, c) = timebase_resync (q_timebase q) now_instant now_utc_ms threshold
                      (q_last_ts_unix_ms q)
      in (q\<lparr>q_timebase := tb\<rparr>, c))"

text \<open>What \<open>stamp\<close> and \<open>stamp_action\<close> do to the sequencer itself.\<close>

definition advance :: "sequencer \<Rightarrow> int \<Rightarrow> sequencer" where
  "advance q ts = q\<lparr>q_next_seq := sat_add_u64 (q_next_seq q) 1, q_last_ts_unix_ms := Some ts\<rparr>"

definition stamp :: "sequencer \<Rightarrow> captured \<Rightarrow> sequencer \<times> event_envelope" where
  "stamp q captured =
     (let ts = clamp_timestamp q (timebase_timestamp_for (q_timebase q) (c_captured_at captured))
      in (advance q ts,
          \<lparr>e_schema_version = SCHEMA_VERSION, e_session_id = q_session_id q,
           e_seq = q_next_seq q, e_ts_unix_ms = ts, e_source = c_source captured,
           e_is_sensitive = False, e_payload = c_payload captured\<rparr>))"

definition stamp_action :: "sequencer \<Rightarrow> action_capture \<Rightarrow> sequencer \<times> stamped_action" where
  "stamp_action q capture =
     (let ts = clamp_timestamp q (timebase_timestamp_for (q_timebase q) (a_captured_at capture))
      in (advance q ts,
          action_body.extend (action_body.truncate capture)
            \<lparr>a_session_id = q_session_id q, a_seq = q_next_seq q, a_ts_unix_ms = ts\<rparr>))"

section \<open>Actions on the wire\<close>

definition from_capture_at :: "action_capture \<Rightarrow> int \<Rightarrow> action_capture_wire" where
  "from_capture_at capture captured_unix_ms =
     action_body.extend (action_body.truncate capture) \<lparr>a_captured_unix_ms = captured_unix_ms\<rparr>"

definition into_capture_at :: "action_capture_wire \<Rightarrow> instant \<Rightarrow> int \<Rightarrow> action_capture" where
  "into_capture_at w now_instant now_unix_ms =
     action_body.extend (action_body.truncate w)
       \<lparr>a_captured_at = unix_ms_to_instant (a_captured_unix_ms w) now_instant now_unix_ms\<rparr>"

text \<open>\<open>from_capture\<close> and \<open>into_capture\<close> with the two clock readings they take as arguments.\<close>

definition from_capture :: "action_capture \<Rightarrow> instant \<Rightarrow> int \<Rightarrow> action_capture_wire" where
  "from_capture capture now_instant now_unix_ms =
     from_capture_at capture (instant_to_unix_ms (a_captured_at capture) now_instant now_unix_ms)"

section \<open>Lemmas\<close>

lemma duration_ms_i64_bounds [simp]: "0 \<le> duration_ms_i64 d" "duration_ms_i64 d \<le> i64_max"
  by (simp_all add: duration_ms_i64_def i64_max_def)

lemma duration_ms_i64_mono: "a \<le> b \<Longrightarrow> duration_ms_i64 a \<le> duration_ms_i64 b"
  using as_millis_mono [of a b] by (auto simp: duration_ms_i64_def)

lemma duration_ms_mono: "a \<le> b \<Longrightarrow> duration_ms a \<le> duration_ms b"
  using as_millis_mono [of a b] by (auto simp: duration_ms_def)

lemma duration_ms_le: "duration_ms d \<le> as_millis d"
  by (simp add: duration_ms_def)

lemma duration_ms_add_le: "duration_ms a + as_millis b \<le> as_millis (a + b)"
  using as_millis_add_le [of a b] duration_ms_le [of a] by linarith

lemma duration_ms_0 [simp]: "duration_ms 0 = 0"
  by (simp add: duration_ms_def as_millis_def)

text \<open>The projection is monotone in the instant and stays an \<open>i64\<close>.\<close>

lemma timebase_mono: "s \<le> t \<Longrightarrow> timebase_timestamp_for tb s \<le> timebase_timestamp_for tb t"
proof -
  assume st: "s \<le> t"
  have up: "sat_sub_i64 u (duration_ms_i64 a) \<le> sat_add_i64 u (duration_ms_i64 b)" for u a b
    by (simp add: sat_sub_i64_def sat_add_i64_def)
       (rule sat_i64_mono, use duration_ms_i64_bounds(1) [of a] duration_ms_i64_bounds(1) [of b]
         in linarith)
  show ?thesis
    using st
    by (auto simp: timebase_timestamp_for_def checked_duration_since_def duration_since_def up
        intro!: sat_add_i64_mono sat_sub_i64_antimono duration_ms_i64_mono)
qed

lemma timebase_in_i64 [simp]: "in_i64 (timebase_timestamp_for tb t)"
  by (simp add: timebase_timestamp_for_def split: option.splits)

lemma timebase_at_base: "in_i64 (base_utc_ms tb) \<Longrightarrow>
    timebase_timestamp_for tb (base_instant tb) = base_utc_ms tb"
  by (simp add: timebase_timestamp_for_def checked_duration_since_def duration_ms_i64_def
      as_millis_def sat_add_i64_def i64_max_def)

lemma clamp_ge_last: "q_last_ts_unix_ms q = Some l \<Longrightarrow> l \<le> clamp_timestamp q ts"
  by (simp add: clamp_timestamp_def)

lemma clamp_ge: "ts \<le> clamp_timestamp q ts"
  by (simp add: clamp_timestamp_def split: option.splits)

subsection \<open>Operations of the writer on the sequencer\<close>

datatype seq_op =
    OpStamp captured
  | OpStampAction action_capture
  | OpResync instant int int

text \<open>The stamps a run hands out, as pairs of sequence number and timestamp.\<close>

definition seq_step :: "sequencer \<Rightarrow> seq_op \<Rightarrow> sequencer \<times> (nat \<times> int) list" where
  "seq_step q op = (case op of
       OpStamp c \<Rightarrow> (let (q', e) = stamp q c in (q', [(e_seq e, e_ts_unix_ms e)]))
     | OpStampAction a \<Rightarrow> (let (q', e) = stamp_action q a in (q', [(a_seq e, a_ts_unix_ms e)]))
     | OpResync now utc th \<Rightarrow> (fst (sequencer_resync q now utc th), []))"

lemma seq_step_simps [simp]:
  "seq_step q (OpStamp c) =
     (advance q (timestamp_for q (c_captured_at c)),
      [(q_next_seq q, timestamp_for q (c_captured_at c))])"
  "seq_step q (OpStampAction a) =
     (advance q (timestamp_for q (a_captured_at a)),
      [(q_next_seq q, timestamp_for q (a_captured_at a))])"
  "seq_step q (OpResync now utc th) = (fst (sequencer_resync q now utc th), [])"
  by (simp_all add: seq_step_def stamp_def stamp_action_def Let_def timestamp_for_def
      action_body.defs)

lemma resync_frame [simp]:
  "q_next_seq (fst (sequencer_resync q n u t)) = q_next_seq q"
  "q_last_ts_unix_ms (fst (sequencer_resync q n u t)) = q_last_ts_unix_ms q"
  "q_session_id (fst (sequencer_resync q n u t)) = q_session_id q"
  by (simp_all add: sequencer_resync_def split: prod.splits)

lemma advance_simps [simp]:
  "q_next_seq (advance q ts) = sat_add_u64 (q_next_seq q) 1"
  "q_last_ts_unix_ms (advance q ts) = Some ts"
  "q_session_id (advance q ts) = q_session_id q"
  "q_timebase (advance q ts) = q_timebase q"
  by (simp_all add: advance_def)

lemma timestamp_for_ge_last: "q_last_ts_unix_ms q = Some l \<Longrightarrow> l \<le> timestamp_for q i"
  by (simp add: timestamp_for_def clamp_ge_last)

text \<open>Every timestamp of a run is at least the last one handed out before the run.\<close>

lemma outputs_ge_last:
  "q_last_ts_unix_ms q = Some l \<Longrightarrow> p \<in> set (outputs seq_step q ops) \<Longrightarrow> l \<le> snd p"
proof (induction ops arbitrary: q l)
  case (Cons op ops)
  have "l \<le> timestamp_for q i" for i
    using Cons.prems(1) by (rule timestamp_for_ge_last)
  moreover have "timestamp_for q i \<le> snd p"
    if "p \<in> set (outputs seq_step (advance q (timestamp_for q i)) ops)" for i
    using Cons.IH [of "advance q (timestamp_for q i)" "timestamp_for q i"] that by simp
  ultimately show ?case
    using Cons.prems Cons.IH [of "fst (sequencer_resync q _ _ _)" l]
    by (cases op) (auto intro: order_trans)
qed simp

lemma outputs_sorted: "sorted (map snd (outputs seq_step q ops))"
proof (induction ops arbitrary: q)
  case (Cons op ops)
  show ?case
    using Cons.IH outputs_ge_last [of "advance q _"]
    by (cases op) (fastforce simp del: sorted_wrt.simps simp: sorted_simps(2))+
qed simp

text \<open>As long as the counter does not saturate, the numbers are consecutive.\<close>

fun stamps :: "seq_op list \<Rightarrow> nat" where
  "stamps [] = 0"
| "stamps (OpResync _ _ _ # ops) = stamps ops"
| "stamps (_ # ops) = Suc (stamps ops)"

lemma outputs_consecutive:
  "q_next_seq q + stamps ops \<le> u64_max \<Longrightarrow>
   map fst (outputs seq_step q ops) = [q_next_seq q ..< q_next_seq q + stamps ops]"
proof (induction ops arbitrary: q rule: stamps.induct)
  case (2 n u t ops)
  then show ?case by simp
qed (auto simp: sat_add_u64_def upt_conv_Cons)

section \<open>Properties\<close>

text \<open>
  C33 (\<open>Sequencer\<close>): whatever mix of motion events, actions and clock resynchronisations the
  writer performs on a fresh session, the rows it stamps are numbered 1, 2, 3, \<dots> without a
  hole, and their timestamps never go backwards.
\<close>

theorem session_rows_consecutive_and_monotone:
  "stamps ops < u64_max \<Longrightarrow>
   map fst (outputs seq_step (sequencer_new session_id tb) ops) = [1 ..< Suc (stamps ops)] \<and>
   sorted (map snd (outputs seq_step (sequencer_new session_id tb) ops))"
  using outputs_consecutive [of "sequencer_new session_id tb" ops]
  by (simp add: sequencer_new_def outputs_sorted)

theorem session_rows_consecutive_and_monotone_witness:
  "let ops = [OpStamp (captured_new source.System 5000000 CapturePaused),
              OpResync 6000000 900 0,
              OpStamp (captured_new source.System 6000000 CaptureResumed)];
       rows = outputs seq_step (sequencer_new 7 (timebase_new 0 1000)) ops
   in rows = [(1, 1005), (2, 1005)] \<and> map fst rows = [1 ..< 3] \<and> sorted (map snd rows)"
proof -
  let ?ops = "[OpStamp (captured_new source.System 5000000 CapturePaused), OpResync 6000000 900 0,
               OpStamp (captured_new source.System 6000000 CaptureResumed)]"
  have "stamps ?ops < u64_max" by (simp add: u64_max_def)
  note run = session_rows_consecutive_and_monotone [OF this, of 7 "timebase_new 0 1000"]
  have "[Suc 0..<3] = [1, 2]" by (simp add: numeral_3_eq_3)
  with run show ?thesis
    by (simp add: sequencer_new_def timebase_new_def captured_new_def timestamp_for_def
        clamp_timestamp_def timebase_timestamp_for_def checked_duration_since_def
        duration_ms_i64_def as_millis_def ns_per_ms_def sat_defs sequencer_resync_def
        timebase_resync_def duration_since_def)
qed

text \<open>
  \<open>Sequencer::resync\<close>: a resynchronisation corrects the clock exactly when the measured
  drift exceeds the threshold; otherwise nothing changes.  After a correction the session
  clock reads the wall clock, held back only as far as the last stamped timestamp, and the
  report carries that new base and the measured drift.
\<close>

theorem resync_corrects_beyond_threshold:
  assumes "in_i64 now_utc_ms" "\<And>l. q_last_ts_unix_ms q = Some l \<Longrightarrow> in_i64 l"
  shows "let drift = sat_sub_i64 now_utc_ms (projected_timestamp_for q now);
             target = clamp_timestamp q now_utc_ms
         in case sequencer_resync q now now_utc_ms threshold of
              (q', None) \<Rightarrow> \<bar>drift\<bar> \<le> max threshold 0 \<and> q' = q
            | (q', Some d) \<Rightarrow> \<bar>drift\<bar> > max threshold 0 \<and> measured_drift_ms d = drift \<and>
                new_base_utc_ms d = target \<and> timestamp_for q' now = target \<and>
                old_base_utc_ms d = started_at q \<and> started_at q' = target"
proof -
  let ?target = "clamp_timestamp q now_utc_ms"
  have "in_i64 ?target"
    using assms by (auto simp: clamp_timestamp_def max_def split: option.splits)
  then have "timebase_timestamp_for \<lparr>base_instant = now, base_utc_ms = ?target\<rparr> now = ?target"
    using timebase_at_base [of "\<lparr>base_instant = now, base_utc_ms = ?target\<rparr>"] by simp
  then show ?thesis
    by (auto simp: Let_def sequencer_resync_def timebase_resync_def projected_timestamp_for_def
        timestamp_for_def clamp_timestamp_def started_at_def split: option.splits)
qed

theorem resync_corrects_beyond_threshold_witness:
  "snd (sequencer_resync (sequencer_new 1 (timebase_new 0 1000)) 2000000 1500 100) \<noteq> None \<and>
   timestamp_for (fst (sequencer_resync (sequencer_new 1 (timebase_new 0 1000)) 2000000 1500 100))
     2000000 = 1500"
proof -
  have "in_i64 1500" by (simp add: in_i64_def sat_defs)
  moreover have "\<And>l. q_last_ts_unix_ms (sequencer_new 1 (timebase_new 0 1000)) = Some l \<Longrightarrow> in_i64 l"
    by (simp add: sequencer_new_def)
  ultimately show ?thesis
    using resync_corrects_beyond_threshold
      [of 1500 "sequencer_new 1 (timebase_new 0 1000)" 2000000 100]
    by (simp add: Let_def sequencer_new_def timebase_new_def timebase_resync_def sequencer_resync_def
        timebase_timestamp_for_def checked_duration_since_def duration_ms_i64_def as_millis_def
        ns_per_ms_def sat_defs projected_timestamp_for_def clamp_timestamp_def)
qed

text \<open>
  \<open>ActionCaptureWire\<close>: an action sent over the helper's pipe and rebuilt \<open>e\<close> milliseconds
  later by a process that reads the same clocks keeps every field, and its capture instant is
  restored to within one millisecond, never before the original.
\<close>

theorem action_wire_roundtrip:
  assumes "a_captured_at a \<le> now"
    and "in_i64 now_unix_ms" "in_i64 (now_unix_ms + int e)"
    and "in_i64 (now_unix_ms - int (as_millis (now - a_captured_at a)))"
    and "int (as_millis (now - a_captured_at a)) + int e \<le> i64_max"
  shows "let b = into_capture_at (from_capture a now now_unix_ms)
                   (now + from_millis e) (now_unix_ms + int e)
         in action_body.truncate b = action_body.truncate a \<and>
            a_captured_at a \<le> a_captured_at b \<and>
            a_captured_at b - a_captured_at a < ns_per_ms"
proof -
  let ?lag = "as_millis (now - a_captured_at a)"
  have sent: "instant_to_unix_ms (a_captured_at a) now now_unix_ms = now_unix_ms - int ?lag"
    using assms by (simp add: instant_to_unix_ms_def duration_since_def duration_ms_i64_def
        sat_sub_i64_def)
  have lag: "max (sat_sub_i64 (now_unix_ms + int e) (now_unix_ms - int ?lag)) 0 = int (?lag + e)"
    using assms by (simp add: sat_sub_i64_def in_i64_def i64_min_def)
  have split: "now - a_captured_at a
      = ?lag * ns_per_ms + (now - a_captured_at a) mod ns_per_ms"
    by (simp add: as_millis_def)
  have rest: "(now - a_captured_at a) mod ns_per_ms < ns_per_ms"
    by (simp add: ns_per_ms_def)
  have le: "?lag * ns_per_ms \<le> now - a_captured_at a"
    using split by linarith
  then have le_now: "?lag * ns_per_ms \<le> now"
    by simp
  have "unix_ms_to_instant (now_unix_ms - int ?lag) (now + from_millis e) (now_unix_ms + int e)
      = now - ?lag * ns_per_ms"
    unfolding unix_ms_to_instant_def lag Let_def
    using le_now
    by (simp add: checked_sub_instant_def from_millis_def add_mult_distrib nat_add_distrib)
  moreover have "a_captured_at a \<le> now - ?lag * ns_per_ms"
    "now - ?lag * ns_per_ms - a_captured_at a < ns_per_ms"
    using split rest le assms(1) by linarith+
  ultimately show ?thesis
    by (simp add: Let_def into_capture_at_def from_capture_def from_capture_at_def sent
        action_body.defs)
qed

definition sample_action :: action_capture where
  "sample_action =
     \<lparr>a_action = \<lparr>aa_action_type = action_type.Invoke,
        aa_selector_path = \<lparr>s_backend = ''uia'', s_hops = []\<rparr>,
        aa_trust_basis = PidMatch\<rparr>,
      a_record_session_id = 9, a_exe = Some ''app.exe'', a_is_sensitive = False, a_has_name = True,
      a_pattern_action = None, a_framework = ''win32'', a_framework_class = framework_class.Native,
      a_depth = 2, a_leaf_rect = None, a_payload = action_payload.Invoke None None,
      a_captured_at = 1500000\<rparr>"

theorem action_wire_roundtrip_witness:
  "a_captured_at (into_capture_at (from_capture sample_action 5000000 100) 25000000 120) = 2000000"
proof -
  have "let b = into_capture_at (from_capture sample_action 5000000 100)
                  (5000000 + from_millis 20) (100 + int 20)
        in action_body.truncate b = action_body.truncate sample_action \<and>
           a_captured_at sample_action \<le> a_captured_at b \<and>
           a_captured_at b - a_captured_at sample_action < ns_per_ms"
    by (rule action_wire_roundtrip)
       (simp_all add: sample_action_def in_i64_def sat_defs as_millis_def ns_per_ms_def)
  then show ?thesis
    by (simp add: sample_action_def into_capture_at_def from_capture_def from_capture_at_def
        action_body.defs instant_to_unix_ms_def unix_ms_to_instant_def duration_ms_i64_def
        time_defs sat_defs)
qed

end
