(* ===== verification/Foreground_State.thy ===== *)
theory Foreground_State
  imports Clock
begin

text \<open>
  The foreground dwell machine \<open>ForegroundState\<close> (crates/gilbreth-core/src/lib.rs): which
  window holds focus since when, and when each window last lost it.  Its rows are
  \<open>FocusChanged\<close> events; the theorems say that the dwell they report is attributed to the
  right window, exactly once, and that the unfocused time is measured from the last loss of
  focus the machine still remembers.
\<close>

section \<open>State and operations\<close>

record focused_window =
  fw_window :: window_ref
  fw_focused_at :: instant

record foreground_state =
  f_current :: "focused_window option"
  f_last_unfocused_at :: "nat \<Rightarrow> instant option"

definition foreground_default :: foreground_state where
  "foreground_default = \<lparr>f_current = None, f_last_unfocused_at = Map.empty\<rparr>"

definition focus_changed ::
    "window_ref \<Rightarrow> window_ref option \<Rightarrow> nat \<Rightarrow> nat \<Rightarrow> instant \<Rightarrow> captured" where
  "focus_changed window prev previous_focused_for_ms window_unfocused_for_ms captured_at =
     captured_new source.Foreground captured_at
       (FocusChanged window prev previous_focused_for_ms window_unfocused_for_ms False)"

definition seed_window_at ::
    "foreground_state \<Rightarrow> window_ref \<Rightarrow> instant \<Rightarrow> foreground_state \<times> captured option" where
  "seed_window_at F window now =
     (F\<lparr>f_current := Some \<lparr>fw_window = window, fw_focused_at = now\<rparr>\<rparr>,
      Some (focus_changed window None 0 0 now))"

definition on_window_at ::
    "foreground_state \<Rightarrow> window_ref \<Rightarrow> instant \<Rightarrow> foreground_state \<times> captured option" where
  "on_window_at F window now =
     (if (case f_current F of Some c \<Rightarrow> w_hwnd (fw_window c) = w_hwnd window | None \<Rightarrow> False)
      then (F, None)
      else
        let window_unfocused_for_ms =
              (case f_last_unfocused_at F (w_hwnd window) of
                 Some lost \<Rightarrow> duration_ms (duration_since now lost) | None \<Rightarrow> 0);
            previous = f_current F;
            F1 = F\<lparr>f_current := Some \<lparr>fw_window = window, fw_focused_at = now\<rparr>\<rparr>
        in case previous of
             Some p \<Rightarrow>
               (F1\<lparr>f_last_unfocused_at :=
                     (f_last_unfocused_at F1)(w_hwnd (fw_window p) \<mapsto> now)\<rparr>,
                Some (focus_changed window (Some (fw_window p))
                        (duration_ms (duration_since now (fw_focused_at p)))
                        window_unfocused_for_ms now))
           | None \<Rightarrow> (F1, Some (focus_changed window None 0 window_unfocused_for_ms now)))"

definition end_current_at_with_duration_limit ::
    "foreground_state \<Rightarrow> instant \<Rightarrow> duration option \<Rightarrow> foreground_state \<times> captured option" where
  "end_current_at_with_duration_limit F now max_duration =
     (case f_current F of
        None \<Rightarrow> (F, None)
      | Some c \<Rightarrow>
          (let elapsed = duration_since now (fw_focused_at c);
               elapsed = (case max_duration of Some m \<Rightarrow> min elapsed m | None \<Rightarrow> elapsed)
           in (F\<lparr>f_current := None,
                 f_last_unfocused_at := (f_last_unfocused_at F)(w_hwnd (fw_window c) \<mapsto> now)\<rparr>,
               Some (focus_changed (fw_window c) (Some (fw_window c)) (duration_ms elapsed) 0 now))))"

definition end_current_at :: "foreground_state \<Rightarrow> instant \<Rightarrow> foreground_state \<times> captured option" where
  "end_current_at F now = end_current_at_with_duration_limit F now None"

definition end_current_at_with_max_duration ::
    "foreground_state \<Rightarrow> instant \<Rightarrow> duration \<Rightarrow> foreground_state \<times> captured option" where
  "end_current_at_with_max_duration F now max_duration =
     end_current_at_with_duration_limit F now (Some max_duration)"

definition on_window_destroyed :: "foreground_state \<Rightarrow> nat \<Rightarrow> foreground_state" where
  "on_window_destroyed F hwnd = F\<lparr>f_last_unfocused_at := (f_last_unfocused_at F)(hwnd := None)\<rparr>"

definition current_focused_at :: "foreground_state \<Rightarrow> instant option" where
  "current_focused_at F = map_option fw_focused_at (f_current F)"

definition current_window :: "foreground_state \<Rightarrow> window_ref option" where
  "current_window F = map_option fw_window (f_current F)"

definition clear_unfocused_correlations :: "foreground_state \<Rightarrow> foreground_state" where
  "clear_unfocused_correlations F = F\<lparr>f_last_unfocused_at := Map.empty\<rparr>"

section \<open>Runs\<close>

datatype foreground_op =
    SeedWindow window_ref instant
  | OnWindow window_ref instant
  | EndCurrent instant "duration option"
  | WindowDestroyed nat
  | ClearCorrelations

primrec foreground_step ::
    "foreground_state \<Rightarrow> foreground_op \<Rightarrow> foreground_state \<times> captured list" where
  "foreground_step F (SeedWindow w now) = map_prod id (case_option [] (\<lambda>r. [r])) (seed_window_at F w now)"
| "foreground_step F (OnWindow w now) = map_prod id (case_option [] (\<lambda>r. [r])) (on_window_at F w now)"
| "foreground_step F (EndCurrent now m) =
     map_prod id (case_option [] (\<lambda>r. [r])) (end_current_at_with_duration_limit F now m)"
| "foreground_step F (WindowDestroyed h) = (on_window_destroyed F h, [])"
| "foreground_step F ClearCorrelations = (clear_unfocused_correlations F, [])"

text \<open>The instant an operation carries, and what a row says.\<close>

fun op_time :: "foreground_op \<Rightarrow> instant option" where
  "op_time (SeedWindow _ now) = Some now"
| "op_time (OnWindow _ now) = Some now"
| "op_time (EndCurrent now _) = Some now"
| "op_time _ = None"

fun uncapped :: "foreground_op \<Rightarrow> bool" where
  "uncapped (EndCurrent _ (Some _)) = False"
| "uncapped _ = True"

fun focus_parts :: "event_payload \<Rightarrow> (window_ref \<times> window_ref option \<times> nat \<times> nat) option" where
  "focus_parts (FocusChanged w prev dwell unfocused _) = Some (w, prev, dwell, unfocused)"
| "focus_parts _ = None"

definition row_window :: "captured \<Rightarrow> window_ref option" where
  "row_window r = map_option fst (focus_parts (c_payload r))"

definition row_prev :: "captured \<Rightarrow> window_ref option" where
  "row_prev r = (case focus_parts (c_payload r) of Some (_, prev, _, _) \<Rightarrow> prev | None \<Rightarrow> None)"

definition row_dwell :: "captured \<Rightarrow> nat" where
  "row_dwell r = (case focus_parts (c_payload r) of Some (_, _, d, _) \<Rightarrow> d | None \<Rightarrow> 0)"

definition row_unfocused :: "captured \<Rightarrow> nat" where
  "row_unfocused r = (case focus_parts (c_payload r) of Some (_, _, _, u) \<Rightarrow> u | None \<Rightarrow> 0)"

lemma focus_changed_row [simp]:
  "row_window (focus_changed w p d u t) = Some w" "row_prev (focus_changed w p d u t) = p"
  "row_dwell (focus_changed w p d u t) = d" "row_unfocused (focus_changed w p d u t) = u"
  "c_captured_at (focus_changed w p d u t) = t"
  by (simp_all add: row_window_def row_prev_def row_dwell_def row_unfocused_def
      focus_changed_def captured_new_def)

lemmas foreground_defs = seed_window_at_def on_window_at_def
  end_current_at_with_duration_limit_def on_window_destroyed_def clear_unfocused_correlations_def

section \<open>Dwell is attributed once, to the window that had it\<close>

text \<open>
  Two adjacent rows: either the second attributes no dwell, or it attributes to the window
  the first row brought to the front at most the time between them (all of it, when the
  segment's end was not capped).
\<close>

definition dwell_link :: "bool \<Rightarrow> captured \<Rightarrow> captured \<Rightarrow> bool" where
  "dwell_link exact r s \<longleftrightarrow>
     (row_prev s = None \<and> row_dwell s = 0) \<or>
     (row_prev s = row_window r \<and> row_prev s \<noteq> None \<and>
      (let gap = duration_ms (duration_since (c_captured_at s) (c_captured_at r))
       in row_dwell s \<le> gap \<and> (exact \<longrightarrow> row_dwell s = gap)))"

text \<open>The open segment begins at the last row: the invariant that links the rows.\<close>

definition opens :: "captured \<Rightarrow> foreground_state \<Rightarrow> bool" where
  "opens r F \<longleftrightarrow> (case f_current F of
     None \<Rightarrow> True | Some c \<Rightarrow> row_window r = Some (fw_window c) \<and> c_captured_at r = fw_focused_at c)"

lemma step_link:
  assumes "opens r F" and "snd (foreground_step F op) = s # ss"
  shows "ss = []" and "opens s (fst (foreground_step F op))" and "dwell_link (uncapped op) r s"
  using assms
  by (cases op; auto simp: foreground_defs opens_def dwell_link_def Let_def
      intro: duration_ms_mono split: option.splits if_splits)+

lemma step_first:
  assumes "f_current F = None" and "snd (foreground_step F op) = s # ss"
  shows "ss = []" and "opens s (fst (foreground_step F op))"
    and "row_prev s = None" and "row_dwell s = 0"
  using assms by (cases op; auto simp: foreground_defs opens_def Let_def split: option.splits)+

lemma step_silent:
  "snd (foreground_step F op) = [] \<Longrightarrow> f_current (fst (foreground_step F op)) = f_current F"
  by (cases op) (auto simp: foreground_defs Let_def split: option.splits if_splits)

lemma link_weaken: "dwell_link e r s \<Longrightarrow> (e' \<longrightarrow> e) \<Longrightarrow> dwell_link e' r s"
  by (auto simp: dwell_link_def Let_def)

lemma run_links:
  "opens r F \<Longrightarrow> successively (dwell_link (list_all uncapped ops)) (r # outputs foreground_step F ops)"
proof (induction ops arbitrary: r F)
  case (Cons op ops)
  show ?case
  proof (cases "snd (foreground_step F op)")
    case Nil
    have "opens r (fst (foreground_step F op))"
      using Cons.prems step_silent [OF Nil] by (simp add: opens_def)
    from Cons.IH [OF this] Nil show ?thesis
      by (auto elim!: successively_mono intro: link_weaken)
  next
    case row: (Cons s ss)
    note link = step_link [OF \<open>opens r F\<close> row]
    from Cons.IH [OF link(2)] have "successively (dwell_link (list_all uncapped (op # ops)))
        (s # outputs foreground_step (fst (foreground_step F op)) ops)"
      by (auto elim!: successively_mono intro: link_weaken)
    moreover have "dwell_link (list_all uncapped (op # ops)) r s"
      using link(3) by (rule link_weaken) simp
    ultimately show ?thesis using link(1) row by simp
  qed
qed simp

lemma run_links_closed:
  "f_current F = None \<Longrightarrow>
   successively (dwell_link (list_all uncapped ops)) (outputs foreground_step F ops) \<and>
   (case outputs foreground_step F ops of
      [] \<Rightarrow> True | r # _ \<Rightarrow> row_prev r = None \<and> row_dwell r = 0)"
proof (induction ops arbitrary: F)
  case (Cons op ops)
  show ?case
  proof (cases "snd (foreground_step F op)")
    case Nil
    have closed: "f_current (fst (foreground_step F op)) = None"
      using Cons.prems step_silent [OF Nil] by simp
    show ?thesis
      using Cons.IH [OF closed] Nil by (auto elim!: successively_mono intro: link_weaken)
  next
    case row: (Cons s ss)
    note first = step_first [OF Cons.prems row]
    show ?thesis
      using run_links [OF first(2), of ops] first row
      by (auto elim!: successively_mono intro: link_weaken)
  qed
qed simp

text \<open>
  \<open>ForegroundState\<close>: in every run the first row attributes no dwell, and each later row
  either attributes none or attributes it to the window the row before it brought to the
  front, for at most the time between the two rows, and exactly that time when no segment
  end was capped.
\<close>

theorem dwell_rows_form_a_chain:
  "let rows = outputs foreground_step foreground_default ops
   in successively (dwell_link (list_all uncapped ops)) rows \<and>
      (case rows of [] \<Rightarrow> True | r # _ \<Rightarrow> row_prev r = None \<and> row_dwell r = 0)"
  using run_links_closed [of foreground_default ops]
  by (simp add: foreground_default_def Let_def)

lemma step_times:
  "snd (foreground_step F op) = [] \<or>
   (\<exists>s. snd (foreground_step F op) = [s] \<and> op_time op = Some (c_captured_at s))"
  by (cases op) (auto simp: foreground_defs Let_def split: option.splits)

lemma run_times_subset:
  "c_captured_at ` set (outputs foreground_step F ops) \<subseteq> set (List.map_filter op_time ops)"
proof (induction ops arbitrary: F)
  case (Cons op ops)
  show ?case
    using step_times [of F op] Cons.IH [of "fst (foreground_step F op)"]
    by (auto simp: List.map_filter_def split: option.splits)
qed simp

lemma run_times_sorted:
  "sorted (List.map_filter op_time ops) \<Longrightarrow> sorted (map c_captured_at (outputs foreground_step F ops))"
proof (induction ops arbitrary: F)
  case (Cons op ops)
  let ?rest = "outputs foreground_step (fst (foreground_step F op)) ops"
  have tail: "sorted (List.map_filter op_time ops)"
    using Cons.prems by (simp add: List.map_filter_def split: if_splits)
  show ?case
  proof (cases "snd (foreground_step F op)")
    case Nil
    then show ?thesis using Cons.IH [OF tail] by simp
  next
    case row: (Cons s ss)
    then have time: "op_time op = Some (c_captured_at s)" "ss = []"
      using step_times [of F op] by auto
    have "c_captured_at s \<le> c_captured_at q" if "q \<in> set ?rest" for q
      using that Cons.prems time run_times_subset [of "fst (foreground_step F op)" ops]
      by (auto simp: List.map_filter_simps)
    then show ?thesis using Cons.IH [OF tail] row time by simp
  qed
qed simp

lemma chain_dwell_bound:
  "successively (dwell_link e) (r # rows) \<Longrightarrow> sorted (map c_captured_at (r # rows)) \<Longrightarrow>
   sum_list (map row_dwell rows) \<le> as_millis (c_captured_at (last (r # rows)) - c_captured_at r)"
proof (induction rows arbitrary: r)
  case (Cons s rows)
  let ?t = "c_captured_at (last (s # rows))"
  have "row_dwell s \<le> as_millis (c_captured_at s - c_captured_at r)"
    using Cons.prems(1) by (auto simp: dwell_link_def duration_ms_def duration_since_def Let_def
        split: if_splits)
  moreover have "sum_list (map row_dwell rows) \<le> as_millis (?t - c_captured_at s)"
    using Cons.prems by (intro Cons.IH) auto
  moreover have "c_captured_at s \<le> ?t" "c_captured_at r \<le> c_captured_at s"
    using Cons.prems(2) by auto
  then have "as_millis (c_captured_at s - c_captured_at r) + as_millis (?t - c_captured_at s)
      \<le> as_millis (?t - c_captured_at r)"
    using as_millis_add_le [of "c_captured_at s - c_captured_at r" "?t - c_captured_at s"] by simp
  ultimately show ?case by simp
qed simp

text \<open>
  C36 (\<open>ForegroundState\<close>): focus time is never counted twice.  When the instants the
  operations carry do not decrease, the dwell of all rows together is at most the time from
  the first row to the last.
\<close>

theorem dwell_never_exceeds_elapsed:
  assumes "sorted (List.map_filter op_time ops)"
    and "outputs foreground_step foreground_default ops = r # rows"
  shows "sum_list (map row_dwell (r # rows))
           \<le> as_millis (c_captured_at (last (r # rows)) - c_captured_at r)"
proof -
  have "f_current foreground_default = None" by (simp add: foreground_default_def)
  from run_links_closed [OF this, of ops] show ?thesis
    using assms chain_dwell_bound [of _ r rows]
      run_times_sorted [of ops foreground_default]
    by auto
qed

definition sample_ref :: "nat \<Rightarrow> window_ref" where
  "sample_ref h = \<lparr>w_hwnd = h, w_exe = ''app.exe'', w_title = [], w_pid = h\<rparr>"

theorem dwell_never_exceeds_elapsed_witness:
  "let ops = [SeedWindow (sample_ref 1) 0, OnWindow (sample_ref 2) 3000000,
              OnWindow (sample_ref 2) 4000000, EndCurrent 9000000 (Some 2000000)];
       rows = outputs foreground_step foreground_default ops
   in map row_dwell rows = [0, 3, 2] \<and>
      sum_list (map row_dwell rows) \<le> as_millis (9000000 - 0)"
proof -
  let ?ops = "[SeedWindow (sample_ref 1) 0, OnWindow (sample_ref 2) 3000000,
              OnWindow (sample_ref 2) 4000000, EndCurrent 9000000 (Some 2000000)]"
  obtain r rows where rows: "outputs foreground_step foreground_default ?ops = r # rows"
    by (simp add: seed_window_at_def)
  have times: "sorted (List.map_filter op_time ?ops)" by (simp add: List.map_filter_def)
  note bound = dwell_never_exceeds_elapsed [OF times rows]
  have "c_captured_at (hd (r # rows)) = 0"
    unfolding rows [symmetric] by (simp add: seed_window_at_def)
  then have start: "c_captured_at r = 0" by simp
  have ends: "c_captured_at (last (r # rows)) = 9000000" "map row_dwell (r # rows) = [0, 3, 2]"
    unfolding rows [symmetric]
    by (simp_all add: foreground_defs foreground_default_def sample_ref_def Let_def
        duration_ms_def as_millis_def ns_per_ms_def duration_since_def u64_max_def)
  show ?thesis
    using bound unfolding Let_def rows ends start by simp
qed

section \<open>Unfocused time\<close>

text \<open>
  The reference reads a run's trace backwards: the instant of the last row that took focus
  from the window, unless the window was destroyed or the correlations cleared since.
\<close>

fun loss_event :: "nat \<Rightarrow> foreground_op \<times> captured list \<Rightarrow> instant option option" where
  "loss_event h (WindowDestroyed h', _) = (if h' = h then Some None else None)"
| "loss_event h (ClearCorrelations, _) = Some None"
| "loss_event h (_, rows) =
     (case rows of
        [] \<Rightarrow> None
      | r # _ \<Rightarrow> (case row_prev r of
          Some v \<Rightarrow> if w_hwnd v = h then Some (Some (c_captured_at r)) else None
        | None \<Rightarrow> None))"

definition last_loss :: "nat \<Rightarrow> (foreground_op \<times> captured list) list \<Rightarrow> instant option" where
  "last_loss h tr = (case List.map_filter (loss_event h) (rev tr) of [] \<Rightarrow> None | v # _ \<Rightarrow> v)"

lemma step_loss:
  "f_last_unfocused_at (fst (foreground_step F op)) h =
     (case loss_event h (op, snd (foreground_step F op)) of
        None \<Rightarrow> f_last_unfocused_at F h | Some v \<Rightarrow> v)"
  by (cases op) (auto simp: foreground_defs Let_def split: option.splits)

lemma final_loss:
  "f_last_unfocused_at (final foreground_step foreground_default ops) h
     = last_loss h (trace foreground_step foreground_default ops)"
proof (induction ops rule: rev_induct)
  case (snoc op ops)
  then show ?case
    by (simp add: step_loss last_loss_def List.map_filter_def split: option.split
        del: foreground_step.simps loss_event.simps)
qed (simp add: last_loss_def foreground_default_def List.map_filter_def)

text \<open>
  \<open>ForegroundState::on_window_at\<close>: the unfocused time a focus row reports is measured
  from the last row that took focus away from that window, and is zero when there is none or
  when the window was destroyed or the correlations were cleared since: a privacy pause
  leaves no measurable trace.
\<close>

theorem unfocused_time_since_last_loss:
  assumes "row \<in> set (snd (foreground_step (final foreground_step foreground_default ops)
                             (OnWindow w now)))"
  shows "row_unfocused row =
     (case last_loss (w_hwnd w) (trace foreground_step foreground_default ops) of
        None \<Rightarrow> 0 | Some lost \<Rightarrow> duration_ms (duration_since now lost))"
  using assms final_loss [of ops "w_hwnd w"]
  by (auto simp: on_window_at_def Let_def split: option.splits if_splits)

theorem unfocused_time_since_last_loss_witness:
  "let ops = [SeedWindow (sample_ref 1) 0, OnWindow (sample_ref 2) 3000000];
       rows = (\<lambda>ops. snd (foreground_step (final foreground_step foreground_default ops)
                            (OnWindow (sample_ref 1) 8000000)))
   in map row_unfocused (rows ops) = [5] \<and>
      (\<forall>row \<in> set (rows (ops @ [ClearCorrelations])). row_unfocused row = 0)"
proof -
  let ?ops = "[SeedWindow (sample_ref 1) 0, OnWindow (sample_ref 2) 3000000]"
  have "map row_unfocused (snd (foreground_step (final foreground_step foreground_default ?ops)
                            (OnWindow (sample_ref 1) 8000000))) = [5]"
    by (simp_all add: foreground_defs foreground_default_def sample_ref_def Let_def
        duration_ms_def as_millis_def ns_per_ms_def duration_since_def u64_max_def)
  moreover have "row_unfocused row = 0"
    if "row \<in> set (snd (foreground_step (final foreground_step foreground_default
          (?ops @ [ClearCorrelations])) (OnWindow (sample_ref 1) 8000000)))" for row
    using unfocused_time_since_last_loss [OF that]
    by (simp add: last_loss_def List.map_filter_def)
  ultimately show ?thesis unfolding Let_def by blast
qed

end
