(* ===== verification/Process_Churn.thy ===== *)
theory Process_Churn
  imports Event_Model "HOL-Library.List_Lexorder" "HOL-Library.Product_Lexorder"
    "HOL-Library.Char_ord"
begin

text \<open>
  The background-process churn filter \<open>ProcessNoiseFilter\<close>
  (crates/gilbreth-core/src/lib.rs): transitions that no focus rescued are counted per
  basename and flushed as one summary row an hour.  The counter map is an association list
  with distinct keys; its order stands for the hash map's unspecified iteration order, and
  the summary is proved independent of it.  A \<open>u32\<close> counter wraps.
\<close>

section \<open>State and operations\<close>

definition CHURN_SUMMARY_INTERVAL :: duration where
  "CHURN_SUMMARY_INTERVAL = from_secs 3600"
definition CHURN_SUSTAINED_WINDOW :: duration where
  "CHURN_SUSTAINED_WINDOW = from_secs 600"
definition CHURN_SUSTAINED_HITS :: nat where "CHURN_SUSTAINED_HITS = 30"
definition CHURN_SUMMARY_TOP_ENTRIES :: nat where "CHURN_SUMMARY_TOP_ENTRIES = 3"

definition wrap_u32 :: "nat \<Rightarrow> nat" where "wrap_u32 n = n mod Suc u32_max"
definition wrap_u64 :: "nat \<Rightarrow> nat" where "wrap_u64 n = n mod Suc u64_max"

record process_noise_filter =
  n_window_started :: instant
  n_dropped_by_basename :: "(string \<times> nat) list"
  n_recent_hits :: "string \<Rightarrow> instant list option"
  n_sustained :: "string set"

definition noise_new :: "instant \<Rightarrow> process_noise_filter" where
  "noise_new now =
     \<lparr>n_window_started = now, n_dropped_by_basename = [], n_recent_hits = Map.empty,
      n_sustained = {}\<rparr>"

definition push_hit :: "instant list \<Rightarrow> instant \<Rightarrow> instant list" where
  "push_hit hits now =
     dropWhile (\<lambda>front. duration_since now front > CHURN_SUSTAINED_WINDOW) (hits @ [now])"

definition keep_after_counting ::
    "process_noise_filter \<Rightarrow> string \<Rightarrow> instant \<Rightarrow> process_noise_filter \<times> bool" where
  "keep_after_counting n basename now =
     (let count = (case map_of (n_dropped_by_basename n) basename of Some c \<Rightarrow> c | None \<Rightarrow> 0);
          hits = push_hit (case n_recent_hits n basename of Some h \<Rightarrow> h | None \<Rightarrow> []) now
      in (n\<lparr>n_dropped_by_basename :=
              AList.update basename (wrap_u32 (count + 1)) (n_dropped_by_basename n),
            n_recent_hits := (n_recent_hits n)(basename \<mapsto> hits),
            n_sustained := (if length hits \<ge> CHURN_SUSTAINED_HITS
                            then insert basename (n_sustained n) else n_sustained n)\<rparr>,
          False))"

text \<open>Descending counts, names breaking ties: \<open>sort_by\<close> is stable and the key is injective.\<close>

definition churn_rank :: "string \<times> nat \<Rightarrow> int \<times> string" where
  "churn_rank entry = (- int (snd entry), fst entry)"

definition churn_top :: "process_noise_filter \<Rightarrow> process_churn_entry list" where
  "churn_top n =
     map (\<lambda>(exe, count). \<lparr>pc_exe = exe, pc_dropped = count, pc_sustained = exe \<in> n_sustained n\<rparr>)
       (take CHURN_SUMMARY_TOP_ENTRIES (sort_key churn_rank (n_dropped_by_basename n)))"

definition take_summary ::
    "process_noise_filter \<Rightarrow> instant \<Rightarrow> process_noise_filter \<times> event_payload option" where
  "take_summary n now =
     (let window_ms = wrap_u64 (as_millis (duration_since now (n_window_started n)));
          dropped = wrap_u32 (sum_list (map snd (n_dropped_by_basename n)))
      in if dropped = 0 then (n\<lparr>n_window_started := now\<rparr>, None)
         else
           (noise_new now,
            Some (ProcessChurnSummary window_ms dropped
                    (wrap_u32 (length (n_dropped_by_basename n))) (churn_top n))))"

definition summary_if_due ::
    "process_noise_filter \<Rightarrow> instant \<Rightarrow> process_noise_filter \<times> event_payload option" where
  "summary_if_due n now =
     (if duration_since now (n_window_started n) < CHURN_SUMMARY_INTERVAL then (n, None)
      else take_summary n now)"

section \<open>What the filter has counted\<close>

text \<open>A window's history: the basenames counted since the last flush, with their instants.\<close>

definition count_hits :: "process_noise_filter \<Rightarrow> (string \<times> instant) list \<Rightarrow> process_noise_filter" where
  "count_hits n hits = foldl (\<lambda>n (basename, now). fst (keep_after_counting n basename now)) n hits"

definition hits_of :: "(string \<times> instant) list \<Rightarrow> string \<Rightarrow> instant list" where
  "hits_of hits exe = map snd (filter (\<lambda>h. fst h = exe) hits)"

definition recent :: "(string \<times> instant) list \<Rightarrow> string \<Rightarrow> instant list" where
  "recent hits exe =
     filter (\<lambda>t. last (hits_of hits exe) - t \<le> CHURN_SUSTAINED_WINDOW) (hits_of hits exe)"

definition sustained_churn :: "(string \<times> instant) list \<Rightarrow> string \<Rightarrow> bool" where
  "sustained_churn hits exe \<longleftrightarrow>
     (\<exists>k \<le> length hits. length (recent (take k hits) exe) \<ge> CHURN_SUSTAINED_HITS)"

lemma count_hits_simps [simp]:
  "count_hits n [] = n"
  "count_hits n (hits @ [h]) = fst (keep_after_counting (count_hits n hits) (fst h) (snd h))"
  by (simp_all add: count_hits_def split_def)

text \<open>The filter after counting is the history, read three ways.\<close>

definition filter_rep :: "instant \<Rightarrow> (string \<times> instant) list \<Rightarrow> process_noise_filter \<Rightarrow> bool" where
  "filter_rep start hits n \<longleftrightarrow>
     n_window_started n = start \<and>
     distinct (map fst (n_dropped_by_basename n)) \<and>
     fst ` set (n_dropped_by_basename n) = fst ` set hits \<and>
     (\<forall>(exe, c) \<in> set (n_dropped_by_basename n). c = count_list (map fst hits) exe) \<and>
     sum_list (map snd (n_dropped_by_basename n)) = length hits \<and>
     (\<forall>exe. (case n_recent_hits n exe of Some h \<Rightarrow> h | None \<Rightarrow> []) = recent hits exe) \<and>
     (\<forall>exe. exe \<in> n_sustained n \<longleftrightarrow> sustained_churn hits exe)"

lemma filter_rep_new: "filter_rep start [] (noise_new start)"
  by (simp add: filter_rep_def noise_new_def recent_def hits_of_def
      sustained_churn_def CHURN_SUSTAINED_HITS_def)

lemma hits_of_snoc [simp]:
  "hits_of [] exe = []"
  "hits_of (hits @ [(e, t)]) exe = (if e = exe then hits_of hits exe @ [t] else hits_of hits exe)"
  by (simp_all add: hits_of_def)

lemma recent_other: "exe \<noteq> e \<Longrightarrow> recent (hits @ [(e, t)]) exe = recent hits exe"
  by (simp add: recent_def)

lemma dropWhile_sorted_filter:
  "sorted ts \<Longrightarrow> dropWhile (\<lambda>t. now - t > (w::nat)) ts = filter (\<lambda>t. now - t \<le> w) ts"
proof (induction ts)
  case (Cons t ts)
  show ?case
  proof (cases "now - t > w")
    case False
    then have "filter (\<lambda>t. now - t \<le> w) ts = ts"
      using Cons.prems by (auto simp: filter_id_conv)
    with False show ?thesis by simp
  qed (use Cons in simp)
qed simp

lemma hits_of_sorted: "sorted (map snd hits) \<Longrightarrow> sorted (hits_of hits exe)"
  by (induction hits) (auto simp: hits_of_def)

lemma recent_same:
  assumes "sorted (map snd (hits @ [(e, t)]))"
  shows "recent (hits @ [(e, t)]) e = push_hit (recent hits e) t"
proof -
  let ?mine = "hits_of hits e"
  have sorted: "sorted (?mine @ [t])"
    using hits_of_sorted [OF assms, of e] by simp
  have "sorted (recent hits e)" "\<forall>s \<in> set (recent hits e). s \<le> t"
    using sorted by (simp_all add: recent_def sorted_append sorted_wrt_filter)
  then have "push_hit (recent hits e) t
      = filter (\<lambda>s. t - s \<le> CHURN_SUSTAINED_WINDOW) (recent hits e @ [t])"
    unfolding push_hit_def duration_since_def
    by (intro dropWhile_sorted_filter) (simp add: sorted_append)
  moreover have "filter (\<lambda>s. t - s \<le> CHURN_SUSTAINED_WINDOW) (recent hits e)
      = filter (\<lambda>s. t - s \<le> CHURN_SUSTAINED_WINDOW) ?mine"
  proof -
    have "last ?mine - s \<le> CHURN_SUSTAINED_WINDOW"
      if "s \<in> set ?mine" "t - s \<le> CHURN_SUSTAINED_WINDOW" for s
    proof -
      have "?mine \<noteq> []" using that(1) by auto
      then have "last ?mine \<le> t" using sorted by (simp add: sorted_append)
      then show ?thesis using that(2) by linarith
    qed
    then show ?thesis by (auto simp: recent_def intro!: filter_cong)
  qed
  ultimately show ?thesis by (simp add: recent_def)
qed

lemma sustained_snoc:
  "sustained_churn (hits @ [h]) exe \<longleftrightarrow>
   sustained_churn hits exe \<or> length (recent (hits @ [h]) exe) \<ge> CHURN_SUSTAINED_HITS"
  by (auto simp: sustained_churn_def le_Suc_eq)

lemma wrap_u32_id [simp]: "n \<le> u32_max \<Longrightarrow> wrap_u32 n = n"
  by (simp add: wrap_u32_def)

lemma count_list_snoc: "count_list (xs @ [x]) y = (if x = y then Suc (count_list xs y) else count_list xs y)"
  by simp

lemma map_of_counts:
  assumes "filter_rep start hits n"
  shows "map_of (n_dropped_by_basename n) exe =
     (if exe \<in> fst ` set hits then Some (count_list (map fst hits) exe) else None)"
proof (cases "exe \<in> fst ` set hits")
  case True
  then have "exe \<in> fst ` set (n_dropped_by_basename n)"
    using assms by (simp add: filter_rep_def)
  then obtain c where c: "(exe, c) \<in> set (n_dropped_by_basename n)"
    by auto
  then have "c = count_list (map fst hits) exe"
    using assms by (auto simp: filter_rep_def)
  with c show ?thesis
    using assms True by (simp add: filter_rep_def map_of_eq_Some_iff)
qed (use assms in \<open>auto simp: filter_rep_def map_of_eq_None_iff\<close>)

lemma filter_rep_count:
  assumes "filter_rep start hits n" and "length hits < u32_max"
    and "sorted (map snd (hits @ [(exe, t)]))"
  shows "filter_rep start (hits @ [(exe, t)]) (fst (keep_after_counting n exe t))"
proof -
  let ?count = "case map_of (n_dropped_by_basename n) exe of Some c \<Rightarrow> c | None \<Rightarrow> 0"
  let ?al = "AList.update exe (Suc ?count) (n_dropped_by_basename n)"
  have count: "?count = count_list (map fst hits) exe"
    using map_of_counts [OF assms(1), of exe] by (auto simp: count_list_0_iff)
  have "?count \<le> length hits"
    using count count_le_length [of "map fst hits" exe] by simp
  then have wrap: "wrap_u32 (?count + 1) = Suc ?count" using assms(2) by simp
  have distinct: "distinct (map fst (n_dropped_by_basename n))"
    using assms(1) by (simp add: filter_rep_def)
  have sum: "sum_list (map snd ?al) = Suc (length hits)"
  proof (cases "map_of (n_dropped_by_basename n) exe")
    case None
    then have "exe \<notin> fst ` set (n_dropped_by_basename n)" by (simp add: map_of_eq_None_iff)
    from sum_list_update_fresh [OF this, of "Suc 0"] show ?thesis
      using None assms(1) by (simp add: filter_rep_def)
  next
    case (Some c)
    then show ?thesis
      using assms(1) sum_list_update_bump [OF distinct Some] by (simp add: filter_rep_def)
  qed
  have counts: "c = count_list (map fst (hits @ [(exe, t)])) e" if "(e, c) \<in> set ?al" for e c
  proof -
    have "map_of ?al e = Some c"
      using that distinct by (simp add: distinct_update)
    then show ?thesis
      using count map_of_counts [OF assms(1), of e]
      by (auto simp: update_conv' split: if_splits)
  qed
  have keys: "fst ` set ?al = fst ` set (hits @ [(exe, t)])"
    using assms(1) dom_update [of exe "Suc ?count" "n_dropped_by_basename n"]
    by (auto simp: filter_rep_def)
  have recents: "(case (n_recent_hits (fst (keep_after_counting n exe t))) e of
        Some h \<Rightarrow> h | None \<Rightarrow> []) = recent (hits @ [(exe, t)]) e" for e
    using assms(1) recent_same [OF assms(3)] recent_other [of e exe hits t]
    by (auto simp: keep_after_counting_def Let_def filter_rep_def split: if_splits)
  have sustained: "e \<in> n_sustained (fst (keep_after_counting n exe t))
      \<longleftrightarrow> sustained_churn (hits @ [(exe, t)]) e" for e
  proof -
    have "sustained_churn hits e \<or> length (recent hits e) \<ge> CHURN_SUSTAINED_HITS
        \<longleftrightarrow> sustained_churn hits e"
      by (auto simp: sustained_churn_def)
    then show ?thesis
      using assms(1) recent_same [OF assms(3)] recent_other [of e exe hits t]
      by (cases "e = exe")
         (auto simp: sustained_snoc keep_after_counting_def Let_def filter_rep_def)
  qed
  have al: "n_dropped_by_basename (fst (keep_after_counting n exe t)) = ?al"
    "n_window_started (fst (keep_after_counting n exe t)) = n_window_started n"
    by (simp_all only: keep_after_counting_def Let_def wrap) simp_all
  have "n_window_started n = start" using assms(1) by (simp add: filter_rep_def)
  moreover have "\<forall>(e, c) \<in> set ?al. c = count_list (map fst (hits @ [(exe, t)])) e"
    using counts by blast
  ultimately show ?thesis
    unfolding filter_rep_def al recents sustained keys using distinct sum
    by (simp add: distinct_update)
qed

lemma filter_rep_hits:
  "length hits \<le> u32_max \<Longrightarrow> sorted (map snd hits) \<Longrightarrow>
   filter_rep start hits (count_hits (noise_new start) hits)"
proof (induction hits rule: rev_induct)
  case (snoc h hits)
  have "filter_rep start hits (count_hits (noise_new start) hits)"
    using snoc by (simp add: sorted_append)
  then show ?case
    using filter_rep_count [of start hits _ "fst h" "snd h"] snoc.prems by simp
qed (simp add: filter_rep_new)

section \<open>The summary\<close>

text \<open>Which of two entries the summary ranks first.\<close>

definition ranks_before :: "process_churn_entry \<Rightarrow> string \<times> nat \<Rightarrow> bool" where
  "ranks_before e other \<longleftrightarrow>
     pc_dropped e > snd other \<or> (pc_dropped e = snd other \<and> pc_exe e \<le> fst other)"

lemma churn_rank_inj: "inj churn_rank"
  by (rule injI) (auto simp: churn_rank_def prod_eq_iff)

lemma churn_rank_le: "churn_rank a \<le> churn_rank b \<longleftrightarrow>
    snd a > snd b \<or> (snd a = snd b \<and> fst a \<le> fst b)"
  by (auto simp: churn_rank_def less_eq_prod_def)

lemma take_sorted_before:
  assumes "sorted (map f xs)" and "x \<in> set (take k xs)" and "y \<in> set xs - set (take k xs)"
  shows "f x \<le> f y"
proof -
  have "y \<in> set (drop k xs)"
    using assms(3) by (metis Diff_iff Un_iff append_take_drop_id set_append)
  moreover have "sorted (map f (take k xs) @ map f (drop k xs))"
    using assms(1) by (metis append_take_drop_id map_append)
  ultimately show ?thesis using assms(2) by (auto simp: sorted_append)
qed

text \<open>
  The reference summary of a history: totals of the history itself and the three largest
  counts.
\<close>

definition summarises :: "(string \<times> instant) list \<Rightarrow> event_payload \<Rightarrow> bool" where
  "summarises hits summary = (case summary of
     ProcessChurnSummary _ dropped distinct_exes heaviest \<Rightarrow>
       dropped = length hits \<and>
       distinct_exes = card (fst ` set hits) \<and>
       length heaviest = min 3 (card (fst ` set hits)) \<and>
       distinct (map pc_exe heaviest) \<and>
       (\<forall>e \<in> set heaviest.
          pc_exe e \<in> fst ` set hits \<and>
          pc_dropped e = count_list (map fst hits) (pc_exe e) \<and>
          (pc_sustained e \<longleftrightarrow> sustained_churn hits (pc_exe e)) \<and>
          (\<forall>exe \<in> fst ` set hits - pc_exe ` set heaviest.
             ranks_before e (exe, count_list (map fst hits) exe)))
   | _ \<Rightarrow> False)"

lemma filter_rep_length:
  assumes "filter_rep start hits n"
  shows "length (n_dropped_by_basename n) = card (fst ` set hits)"
proof -
  have "distinct (map fst (n_dropped_by_basename n))"
    "fst ` set (n_dropped_by_basename n) = fst ` set hits"
    using assms by (simp_all add: filter_rep_def)
  then show ?thesis using distinct_card by fastforce
qed

lemma churn_top_summarises:
  assumes "filter_rep start hits n"
  shows "summarises hits (ProcessChurnSummary ms (length hits) (card (fst ` set hits)) (churn_top n))"
proof -
  let ?al = "n_dropped_by_basename n"
  let ?sorted = "sort_key churn_rank ?al"
  let ?best = "take 3 ?sorted"
  have distinct: "distinct (map fst ?sorted)"
    using assms by (simp add: filter_rep_def distinct_map)
  have len: "length ?al = card (fst ` set hits)"
    by (rule filter_rep_length [OF assms])
  have keys: "fst ` set ?al = fst ` set hits"
    and counts: "\<forall>(exe, c) \<in> set ?al. c = count_list (map fst hits) exe"
    using assms by (simp_all add: filter_rep_def)
  have entries: "exe \<in> fst ` set hits" "c = count_list (map fst hits) exe"
    if "(exe, c) \<in> set ?al" for exe c
    using that counts by (auto simp flip: keys intro: image_eqI [of _ _ "(exe, c)"])
  have exes: "map pc_exe (churn_top n) = map fst ?best"
    by (simp add: churn_top_def CHURN_SUMMARY_TOP_ENTRIES_def split_def)
  have before: "ranks_before e (exe, count_list (map fst hits) exe)"
    if e: "e \<in> set (churn_top n)" and exe: "exe \<in> fst ` set hits - pc_exe ` set (churn_top n)" for e exe
  proof -
    obtain x where x: "x \<in> set ?best" "pc_exe e = fst x" "pc_dropped e = snd x"
      using e by (auto simp: churn_top_def CHURN_SUMMARY_TOP_ENTRIES_def)
    have "exe \<in> fst ` set ?al" using exe by (simp add: keys)
    then obtain c where "(exe, c) \<in> set ?al" by auto
    with entries(2) have y: "(exe, count_list (map fst hits) exe) \<in> set ?al" by blast
    have "exe \<notin> fst ` set ?best"
      using exe by (metis DiffD2 exes set_map)
    then have "churn_rank x \<le> churn_rank (exe, count_list (map fst hits) exe)"
      using x(1) y
      by (intro take_sorted_before [of churn_rank ?sorted _ 3])
         (auto simp: image_iff)
    then show ?thesis using x by (auto simp: churn_rank_le ranks_before_def)
  qed
  have "pc_exe e \<in> fst ` set hits \<and> pc_dropped e = count_list (map fst hits) (pc_exe e) \<and>
      (pc_sustained e \<longleftrightarrow> sustained_churn hits (pc_exe e))" if e: "e \<in> set (churn_top n)" for e
  proof -
    obtain x where "x \<in> set ?al" "e = \<lparr>pc_exe = fst x, pc_dropped = snd x,
        pc_sustained = fst x \<in> n_sustained n\<rparr>"
      using e set_take_subset [of 3 ?sorted]
      by (auto simp: churn_top_def CHURN_SUMMARY_TOP_ENTRIES_def split_def)
    then show ?thesis
      using assms entries [of "fst x" "snd x"] by (simp add: filter_rep_def)
  qed
  moreover have "length (churn_top n) = min 3 (card (fst ` set hits))"
    using len by (simp add: churn_top_def CHURN_SUMMARY_TOP_ENTRIES_def min.commute)
  moreover have "distinct (map pc_exe (churn_top n))"
    using distinct unfolding exes by (simp add: take_map [symmetric])
  ultimately show ?thesis
    using before by (simp add: summarises_def)
qed

text \<open>
  \<open>ProcessNoiseFilter\<close>: whatever transitions a window counted, in time order, its summary
  row accounts for all of them: the total and the number of distinct names, and the three
  names with the largest counts (ties by name) with their exact counts, flagged sustained
  exactly when thirty hits of that name fell within ten minutes; and the filter starts over.
\<close>

theorem churn_summary_reports_the_window:
  assumes "hits \<noteq> []" and "length hits \<le> u32_max" and "sorted (map snd hits)"
  shows "\<exists>summary. take_summary (count_hits (noise_new start) hits) now
                    = (noise_new now, Some summary) \<and> summarises hits summary"
proof -
  let ?n = "count_hits (noise_new start) hits"
  have rep: "filter_rep start hits ?n" by (rule filter_rep_hits) (use assms in auto)
  have len: "length (n_dropped_by_basename ?n) = card (fst ` set hits)"
    by (rule filter_rep_length [OF rep])
  moreover have "card (fst ` set hits) \<le> length hits"
    using card_length [of "map fst hits"] by simp
  moreover have "sum_list (map snd (n_dropped_by_basename ?n)) = length hits"
    using rep by (simp add: filter_rep_def)
  ultimately show ?thesis
    using assms churn_top_summarises [OF rep] by (simp add: take_summary_def Let_def)
qed

definition sample_hits :: "(string \<times> instant) list" where
  "sample_hits = [(''a.exe'', 1), (''b.exe'', 2), (''c.exe'', 3), (''b.exe'', 4), (''d.exe'', 5)]"

theorem churn_summary_reports_the_window_witness:
  "\<exists>summary. take_summary (count_hits (noise_new 0) sample_hits) 9
               = (noise_new 9, Some summary) \<and> summarises sample_hits summary"
  using churn_summary_reports_the_window [of sample_hits 0 9]
  by (simp add: sample_hits_def u32_max_def)

lemma sort_key_inj_mset:
  assumes "inj f" and "mset xs = mset ys"
  shows "sort_key f xs = sort_key f ys"
proof (rule map_injective)
  have "mset (map f (sort_key f xs)) = mset (map f (sort_key f ys))" using assms(2) by simp
  then show "map f (sort_key f xs) = map f (sort_key f ys)"
    by (metis properties_for_sort sorted_sort_key)
qed (rule assms(1))

text \<open>
  \<open>ProcessNoiseFilter::take_summary\<close>: the summary does not depend on the order in which
  the hash map yields its entries.
\<close>

theorem churn_summary_ignores_map_order:
  assumes "mset al = mset (n_dropped_by_basename n)"
  shows "snd (take_summary (n\<lparr>n_dropped_by_basename := al\<rparr>) now) = snd (take_summary n now)"
proof -
  have "sort_key churn_rank al = sort_key churn_rank (n_dropped_by_basename n)"
    using churn_rank_inj assms by (rule sort_key_inj_mset)
  moreover have "sum_list (map snd al) = sum_list (map snd (n_dropped_by_basename n))"
    using assms by (metis mset_map sum_mset_sum_list)
  moreover have "length al = length (n_dropped_by_basename n)"
    using assms by (metis size_mset)
  ultimately show ?thesis
    by (simp add: take_summary_def churn_top_def Let_def)
qed

theorem churn_summary_ignores_map_order_witness:
  "let n = (noise_new 0)\<lparr>n_dropped_by_basename := [(''a.exe'', 1), (''b.exe'', 2)]\<rparr>
   in snd (take_summary (n\<lparr>n_dropped_by_basename := [(''b.exe'', 2), (''a.exe'', 1)]\<rparr>) 5)
        = snd (take_summary n 5) \<and> snd (take_summary n 5) \<noteq> None"
proof -
  let ?n = "(noise_new 0)\<lparr>n_dropped_by_basename := [(''a.exe'', 1), (''b.exe'', 2)]\<rparr>"
  have "mset [(''b.exe'', 2), (''a.exe'', 1)] = mset (n_dropped_by_basename ?n)" by simp
  from churn_summary_ignores_map_order [OF this, of 5] show ?thesis
    by (simp add: Let_def take_summary_def wrap_u32_def u32_max_def)
qed

end
