(* ===== verification/Process_Monitor.thy ===== *)
theory Process_Monitor
  imports Capture_Controls Process_Churn
begin

text \<open>
  Process launch and exit tracking (crates/gilbreth-core/src/lib.rs): \<open>ProcessTracker\<close> diffs
  successive snapshots by pid, \<open>ProcessMonitor\<close> throttles the sweeps, drops excluded
  applications, rescues focused ones and counts the rest.  The live table is an association
  list in pid order; a pid's entry is found with \<open>map_of\<close>.  The snapshot closure is the
  argument that holds what the platform would return.
\<close>

section \<open>Snapshots and identities\<close>

definition PROCESS_POLL_INTERVAL :: duration where "PROCESS_POLL_INTERVAL = from_secs 5"

record process_snapshot_entry =
  ps_pid :: nat
  ps_comm :: string
  ps_path :: "string option"
  ps_start_time_id :: "nat option"

record process_identity =
  pi_pid :: nat
  pi_compare_name :: string
  pi_exe :: string
  pi_exe_source :: process_exe_source
  pi_start_time_id :: "nat option"

definition known_path :: "process_snapshot_entry \<Rightarrow> string option" where
  "known_path entry = (case ps_path entry of
     Some path \<Rightarrow> if trim path \<noteq> [] then Some path else None | None \<Rightarrow> None)"

definition from_entry :: "process_snapshot_entry \<Rightarrow> process_identity" where
  "from_entry entry =
     (let (exe, exe_source) = (case known_path entry of
            Some path \<Rightarrow> (path, FullPath) | None \<Rightarrow> (ps_comm entry, SnapshotName));
          compare_name = (case known_path entry of
            Some path \<Rightarrow> exe_basename_lower path
          | None \<Rightarrow> to_lowercase (trim (ps_comm entry)))
      in \<lparr>pi_pid = ps_pid entry, pi_compare_name = compare_name, pi_exe = exe,
          pi_exe_source = exe_source, pi_start_time_id = ps_start_time_id entry\<rparr>)"

definition is_same_process :: "process_identity \<Rightarrow> process_identity \<Rightarrow> bool" where
  "is_same_process previous next \<longleftrightarrow>
     pi_compare_name previous = pi_compare_name next \<and>
     (case (pi_start_time_id previous, pi_start_time_id next) of
        (Some p, Some n) \<Rightarrow> p = n | _ \<Rightarrow> True)"

definition refreshed_with :: "process_identity \<Rightarrow> process_identity \<Rightarrow> process_identity" where
  "refreshed_with previous next =
     (if pi_start_time_id next = None
      then next\<lparr>pi_start_time_id := pi_start_time_id previous\<rparr> else next)"

datatype process_transition = Started process_identity | Exited process_identity

primrec transition_identity :: "process_transition \<Rightarrow> process_identity" where
  "transition_identity (Started identity) = identity"
| "transition_identity (Exited identity) = identity"

definition basename :: "process_transition \<Rightarrow> string" where
  "basename tr =
     (let identity = transition_identity tr in
      if pi_compare_name identity = [] then exe_basename_lower (pi_exe identity)
      else pi_compare_name identity)"

definition into_captured :: "process_transition \<Rightarrow> instant \<Rightarrow> captured" where
  "into_captured tr captured_at =
     captured_new source.System captured_at
       (case tr of
          Started i \<Rightarrow> ProcessStarted (pi_pid i) (pi_exe i) (pi_exe_source i)
        | Exited i \<Rightarrow> ProcessExited (pi_pid i) (pi_exe i) (pi_exe_source i))"

section \<open>The tracker\<close>

record process_tracker =
  t_seeded :: bool
  t_live :: "(nat \<times> process_identity) list"

definition tracker_default :: process_tracker where
  "tracker_default = \<lparr>t_seeded = False, t_live = []\<rparr>"

definition named_entry :: "process_snapshot_entry \<Rightarrow> bool" where
  "named_entry entry \<longleftrightarrow>
     trim (ps_comm entry) \<noteq> [] \<or> (case ps_path entry of Some p \<Rightarrow> trim p \<noteq> [] | None \<Rightarrow> False)"

text \<open>Collecting into a hash map: a later entry of the same pid overwrites an earlier one.\<close>

definition entries_of :: "process_snapshot_entry list \<Rightarrow> (nat \<times> process_identity) list" where
  "entries_of snapshot =
     foldl (\<lambda>entries e. AList.update (ps_pid e) (from_entry e) entries) []
       (filter named_entry snapshot)"

text \<open>One pid: what it emits and what it leaves in the next live table.\<close>

definition diff_pid ::
    "(nat \<times> process_identity) list \<Rightarrow> (nat \<times> process_identity) list \<Rightarrow> nat
     \<Rightarrow> process_transition list \<times> process_identity option" where
  "diff_pid live entries pid =
     (case (map_of live pid, map_of entries pid) of
        (Some previous, Some next) \<Rightarrow>
          if is_same_process previous next then ([], Some (refreshed_with previous next))
          else ([Exited previous, Started next], Some next)
      | (Some previous, None) \<Rightarrow> ([Exited previous], None)
      | (None, Some next) \<Rightarrow> ([Started next], Some next)
      | (None, None) \<Rightarrow> ([], None))"

definition apply_snapshot ::
    "process_tracker \<Rightarrow> process_snapshot_entry list \<Rightarrow> process_tracker \<times> process_transition list" where
  "apply_snapshot T snapshot =
     (let entries = entries_of snapshot in
      if entries = [] then (T, [])
      else if \<not> t_seeded T then (T\<lparr>t_live := entries, t_seeded := True\<rparr>, [])
      else
        let pids = sort (remdups (map fst entries @ map fst (t_live T)));
            diffs = map (diff_pid (t_live T) entries) pids
        in (T\<lparr>t_live := List.map_filter (\<lambda>pid.
                map_option (Pair pid) (snd (diff_pid (t_live T) entries pid))) pids\<rparr>,
            concat (map fst diffs)))"

section \<open>The monitor\<close>

record process_monitor =
  mo_tracker :: process_tracker
  mo_noise :: process_noise_filter
  mo_last_sweep :: "instant option"

definition monitor_new :: "instant \<Rightarrow> process_monitor" where
  "monitor_new now =
     \<lparr>mo_tracker = tracker_default, mo_noise = noise_new now, mo_last_sweep = None\<rparr>"

fun route_transitions ::
    "capture_controls \<Rightarrow> instant \<Rightarrow> process_noise_filter \<Rightarrow> process_transition list
     \<Rightarrow> process_noise_filter \<times> captured list" where
  "route_transitions k now noise [] = (noise, [])"
| "route_transitions k now noise (tr # trs) =
     (if app_excluded k (basename tr) then route_transitions k now noise trs
      else
        let (noise', keep) =
              (if \<not> process_filter_enabled k then (noise, True)
               else if foreground_exe_seen k (basename tr) then (noise, True)
               else keep_after_counting noise (basename tr) now);
            (noise'', rows) = route_transitions k now noise' trs
        in (noise'', if keep then into_captured tr now # rows else rows))"

definition summary_row :: "instant \<Rightarrow> event_payload option \<Rightarrow> captured list" where
  "summary_row now summary =
     (case summary of Some payload \<Rightarrow> [captured_new source.System now payload] | None \<Rightarrow> [])"

definition poll ::
    "process_monitor \<Rightarrow> instant \<Rightarrow> capture_controls \<Rightarrow> process_snapshot_entry list option
     \<Rightarrow> process_monitor \<times> captured list" where
  "poll M now k snapshot =
     (let due = (case mo_last_sweep M of
            Some prior \<Rightarrow> duration_since now prior \<ge> PROCESS_POLL_INTERVAL | None \<Rightarrow> True)
      in if \<not> due then (M, [])
         else
           let (tracker, transitions) = (case snapshot of
                  Some (e # es) \<Rightarrow> apply_snapshot (mo_tracker M) (e # es)
                | _ \<Rightarrow> (mo_tracker M, []));
               (noise, rows) = route_transitions k now (mo_noise M) transitions;
               (noise', summary) = summary_if_due noise now
           in (M\<lparr>mo_last_sweep := Some now, mo_tracker := tracker, mo_noise := noise'\<rparr>,
               rows @ summary_row now summary))"

definition flush :: "process_monitor \<Rightarrow> instant \<Rightarrow> process_monitor \<times> captured list" where
  "flush M now =
     (let (noise, summary) = take_summary (mo_noise M) now
      in (M\<lparr>mo_noise := noise\<rparr>, summary_row now summary))"

section \<open>Transitions of a pid alternate\<close>

text \<open>
  Replaying transitions over the table of running names: a start needs the pid to be free,
  an exit needs the pid to run under the exiting name.
\<close>

fun replay :: "(nat \<Rightarrow> string option) \<Rightarrow> process_transition list \<Rightarrow> (nat \<Rightarrow> string option) option" where
  "replay m [] = Some m"
| "replay m (Started i # trs) =
     (if m (pi_pid i) = None then replay (m(pi_pid i \<mapsto> pi_compare_name i)) trs else None)"
| "replay m (Exited i # trs) =
     (if m (pi_pid i) = Some (pi_compare_name i) then replay (m(pi_pid i := None)) trs else None)"

definition running :: "process_tracker \<Rightarrow> nat \<Rightarrow> string option" where
  "running T pid = map_option pi_compare_name (map_of (t_live T) pid)"

definition tracker_wf :: "process_tracker \<Rightarrow> bool" where
  "tracker_wf T \<longleftrightarrow> (\<forall>(pid, i) \<in> set (t_live T). pi_pid i = pid)"

lemma replay_append:
  "replay m (xs @ ys) = Option.bind (replay m xs) (\<lambda>m'. replay m' ys)"
  by (induction m xs rule: replay.induct) (simp_all del: fun_upd_apply)

lemma from_entry_pid [simp]: "pi_pid (from_entry e) = ps_pid e"
  by (simp add: from_entry_def Let_def split: option.split)

lemma set_update_subset: "set (AList.update k v al) \<subseteq> insert (k, v) (set al)"
  by (induction al) auto

lemma entries_wf: "(pid, i) \<in> set (entries_of snapshot) \<Longrightarrow> pi_pid i = pid"
proof -
  have "(pid, i) \<in> set (foldl (\<lambda>entries e. AList.update (ps_pid e) (from_entry e) entries) al es)
      \<Longrightarrow> (pid, i) \<in> set al \<or> pi_pid i = pid" for al es
  proof (induction es arbitrary: al)
    case (Cons e es)
    then show ?case using set_update_subset [of "ps_pid e" "from_entry e" al] by fastforce
  qed simp
  then show "(pid, i) \<in> set (entries_of snapshot) \<Longrightarrow> pi_pid i = pid"
    by (fastforce simp: entries_of_def)
qed

lemma map_of_map_filter:
  "map_of (List.map_filter (\<lambda>p. map_option (Pair p) (g p)) ps) q = (if q \<in> set ps then g q else None)"
  by (induction ps) (auto simp: List.map_filter_simps split: option.split)

lemma map_filter_wf:
  "(pid, i) \<in> set (List.map_filter (\<lambda>p. map_option (Pair p) (g p)) ps) \<Longrightarrow> g pid = Some i"
  by (induction ps) (auto simp: List.map_filter_simps split: option.splits)

lemma refreshed_with_frame [simp]:
  "pi_pid (refreshed_with p n) = pi_pid n"
  "pi_compare_name (refreshed_with p n) = pi_compare_name n"
  by (simp_all add: refreshed_with_def)

lemma diff_pid_wf:
  assumes "\<And>i. map_of live pid = Some i \<Longrightarrow> pi_pid i = pid"
    and "\<And>i. map_of entries pid = Some i \<Longrightarrow> pi_pid i = pid"
  shows "snd (diff_pid live entries pid) = Some i \<Longrightarrow> pi_pid i = pid"
  using assms by (auto simp: diff_pid_def split: option.splits if_splits)

lemma replay_diff_pid:
  assumes "\<And>i. map_of live pid = Some i \<Longrightarrow> pi_pid i = pid"
    and "\<And>i. map_of entries pid = Some i \<Longrightarrow> pi_pid i = pid"
    and "m pid = map_option pi_compare_name (map_of live pid)"
  shows "replay m (fst (diff_pid live entries pid)) =
     Some (m(pid := map_option pi_compare_name (snd (diff_pid live entries pid))))"
  using assms
  by (auto simp: diff_pid_def is_same_process_def fun_upd_idem_iff split: option.splits if_splits)

lemma replay_diffs:
  assumes "\<And>pid i. map_of live pid = Some i \<Longrightarrow> pi_pid i = pid"
    and "\<And>pid i. map_of entries pid = Some i \<Longrightarrow> pi_pid i = pid"
    and "distinct pids" and "\<forall>pid \<in> set pids. m pid = map_option pi_compare_name (map_of live pid)"
  shows "replay m (concat (map (\<lambda>pid. fst (diff_pid live entries pid)) pids)) =
     Some (\<lambda>pid. if pid \<in> set pids
                 then map_option pi_compare_name (snd (diff_pid live entries pid)) else m pid)"
  using assms(3,4)
proof (induction pids arbitrary: m)
  case (Cons pid pids)
  let ?m = "m(pid := map_option pi_compare_name (snd (diff_pid live entries pid)))"
  have "replay m (fst (diff_pid live entries pid)) = Some ?m"
    by (rule replay_diff_pid) (use assms Cons.prems in auto)
  moreover have "replay ?m (concat (map (\<lambda>pid. fst (diff_pid live entries pid)) pids)) =
     Some (\<lambda>q. if q \<in> set pids
                 then map_option pi_compare_name (snd (diff_pid live entries q)) else ?m q)"
    by (rule Cons.IH) (use Cons.prems in auto)
  moreover have "(\<lambda>q. if q \<in> set pids
        then map_option pi_compare_name (snd (diff_pid live entries q)) else ?m q) =
      (\<lambda>q. if q \<in> set (pid # pids)
        then map_option pi_compare_name (snd (diff_pid live entries q)) else m q)"
    using Cons.prems(1) by auto
  ultimately show ?case by (simp add: replay_append)
qed simp

lemma map_of_wf: "tracker_wf T \<Longrightarrow> map_of (t_live T) pid = Some i \<Longrightarrow> pi_pid i = pid"
  by (auto simp: tracker_wf_def dest: map_of_SomeD)

lemma apply_snapshot_wf:
  assumes "tracker_wf T" shows "tracker_wf (fst (apply_snapshot T snapshot))"
proof -
  have "snd (diff_pid (t_live T) (entries_of snapshot) pid) = Some i \<Longrightarrow> pi_pid i = pid" for pid i
    using assms by (rule diff_pid_wf [OF map_of_wf]) (auto dest: map_of_SomeD entries_wf)
  then show ?thesis
    using assms entries_wf [of _ _ snapshot]
    by (auto simp: apply_snapshot_def tracker_wf_def Let_def dest!: map_filter_wf)
qed

lemma apply_snapshot_seeded:
  "t_seeded T \<Longrightarrow> t_seeded (fst (apply_snapshot T snapshot))"
  by (simp add: apply_snapshot_def Let_def)

lemma apply_snapshot_replay:
  assumes "tracker_wf T" and "t_seeded T"
  shows "replay (running T) (snd (apply_snapshot T snapshot))
           = Some (running (fst (apply_snapshot T snapshot)))"
proof (cases "entries_of snapshot = []")
  case False
  let ?entries = "entries_of snapshot"
  let ?pids = "sort (remdups (map fst ?entries @ map fst (t_live T)))"
  have outside: "running T pid = None" if "pid \<notin> set ?pids" for pid
    using that by (auto simp: running_def map_of_eq_None_iff)
  have "replay (running T) (concat (map (\<lambda>pid. fst (diff_pid (t_live T) ?entries pid)) ?pids)) =
     Some (\<lambda>pid. if pid \<in> set ?pids
             then map_option pi_compare_name (snd (diff_pid (t_live T) ?entries pid))
             else running T pid)"
    by (rule replay_diffs)
       (use assms in \<open>auto simp: running_def dest: map_of_wf map_of_SomeD entries_wf\<close>)
  moreover have "running (fst (apply_snapshot T snapshot)) =
      (\<lambda>pid. if pid \<in> set ?pids
             then map_option pi_compare_name (snd (diff_pid (t_live T) ?entries pid))
             else running T pid)"
    using False assms(2) outside
    by (auto simp: fun_eq_iff running_def apply_snapshot_def map_of_map_filter Let_def)
  ultimately show ?thesis
    using False assms(2) by (simp add: apply_snapshot_def Let_def comp_def)
qed (simp add: apply_snapshot_def Let_def)

interpretation tracker: machine apply_snapshot "\<lambda>T. tracker_wf T \<and> t_seeded T" "\<lambda>_ _. True"
  by unfold_locales (simp_all add: apply_snapshot_wf apply_snapshot_seeded)

lemma run_replay:
  "tracker_wf T \<and> t_seeded T \<Longrightarrow>
   replay (running T) (outputs apply_snapshot T snapshots)
     = Some (running (final apply_snapshot T snapshots))"
proof (induction snapshots arbitrary: T)
  case (Cons snapshot snapshots)
  then show ?case
    using tracker.step_inv [of T snapshot] by (simp add: replay_append apply_snapshot_replay)
qed simp

lemma seeding:
  assumes "entries_of first \<noteq> []"
  shows "tracker_wf (fst (apply_snapshot tracker_default first))"
    and "t_seeded (fst (apply_snapshot tracker_default first))"
    and "snd (apply_snapshot tracker_default first) = []"
  using assms entries_wf [of _ _ first]
  by (auto simp: apply_snapshot_def tracker_default_def tracker_wf_def)

text \<open>
  C34 (\<open>ProcessTracker::apply_snapshot\<close>): after the silent seed, the transitions of any
  sequence of sweeps are an honest history.  Replayed in order, every start finds its pid
  free and every exit finds its pid running under that name, reuse of a pid included, and
  the replay ends in exactly the tracker's table of running processes.
\<close>

theorem process_transitions_replay:
  assumes "entries_of first \<noteq> []"
  shows "snd (apply_snapshot tracker_default first) = [] \<and>
    (let T = fst (apply_snapshot tracker_default first)
     in replay (running T) (outputs apply_snapshot T snapshots)
          = Some (running (final apply_snapshot T snapshots)))"
  using run_replay seeding [OF assms] by (simp add: Let_def)

definition sample_process :: "nat \<Rightarrow> string \<Rightarrow> nat \<Rightarrow> process_snapshot_entry" where
  "sample_process pid comm start =
     \<lparr>ps_pid = pid, ps_comm = comm, ps_path = None, ps_start_time_id = Some start\<rparr>"

theorem process_transitions_replay_witness:
  "let T = fst (apply_snapshot tracker_default [sample_process 4 ''init'' 3]);
       sweeps = [[sample_process 4 ''init'' 3, sample_process 9 ''sh'' 5],
                 [sample_process 4 ''init'' 3, sample_process 9 ''sh'' 8]]
   in length (outputs apply_snapshot T sweeps) = 3 \<and>
      replay (running T) (outputs apply_snapshot T sweeps)
        = Some (running (final apply_snapshot T sweeps))"
proof -
  have entries: "entries_of [sample_process 4 ''init'' 3] \<noteq> []" by code_simp
  have "length (outputs apply_snapshot (fst (apply_snapshot tracker_default
      [sample_process 4 ''init'' 3]))
      [[sample_process 4 ''init'' 3, sample_process 9 ''sh'' 5],
       [sample_process 4 ''init'' 3, sample_process 9 ''sh'' 8]]) = 3"
    by code_simp
  then show ?thesis
    using process_transitions_replay [OF entries,
        of "[[sample_process 4 ''init'' 3, sample_process 9 ''sh'' 5],
             [sample_process 4 ''init'' 3, sample_process 9 ''sh'' 8]]"]
    unfolding Let_def by blast
qed

section \<open>Excluded applications\<close>

lemma trim_end_append_space: "list_all is_space sp \<Longrightarrow> trim_end (x @ sp) = trim_end x"
  using dropWhile_append2 [of "rev sp" is_space "rev x"]
  by (simp add: trim_end_def list_all_iff)

lemma trim_append_space:
  assumes "list_all is_space sp" shows "trim (x @ sp) = trim x"
proof (cases "list_all is_space x")
  case True
  then have "trim_start (x @ sp) = []" "trim_start x = []"
    using assms by (auto simp: trim_start_def list_all_iff)
  then show ?thesis by (simp add: trim_def)
next
  case False
  then have "trim_start (x @ sp) = trim_start x @ sp"
    by (auto simp: trim_start_def list_all_iff dropWhile_append)
  then show ?thesis using assms by (simp add: trim_def trim_end_append_space)
qed

lemma trim_space_append: "list_all is_space sp \<Longrightarrow> trim (sp @ x) = trim x"
  by (simp add: trim_def trim_start_def list_all_iff)

lemma space_no_sep: "is_space c \<Longrightarrow> \<not> path_sep c"
  by (auto simp: is_space_def path_sep_def Let_def)

lemma trim_after_last_trim: "trim (after_last path_sep (trim s)) = trim (after_last path_sep s)"
proof -
  have no_sep: "list_all is_space sp \<Longrightarrow> \<forall>c \<in> set sp. \<not> path_sep c" for sp
    by (auto simp: list_all_iff space_no_sep)
  have front: "trim (after_last path_sep (sp @ x)) = trim (after_last path_sep x)"
    if sp: "list_all is_space sp" for sp x
  proof (cases "\<exists>c \<in> set x. path_sep c")
    case True
    then show ?thesis by (auto simp: after_last_def takeWhile_append)
  next
    case False
    then have "after_last path_sep (sp @ x) = sp @ x" "after_last path_sep x = x"
      using no_sep [OF sp] by (auto intro!: after_last_id)
    then show ?thesis using sp by (simp add: trim_space_append)
  qed
  have rear: "trim (after_last path_sep (x @ sp)) = trim (after_last path_sep x)"
    if sp: "list_all is_space sp" for sp x
  proof -
    have "takeWhile (\<lambda>c. \<not> path_sep c) (rev sp @ rev x)
        = rev sp @ takeWhile (\<lambda>c. \<not> path_sep c) (rev x)"
      using no_sep [OF sp] by (intro takeWhile_append2) auto
    then have "after_last path_sep (x @ sp) = after_last path_sep x @ sp"
      by (simp add: after_last_def)
    then show ?thesis using sp by (simp add: trim_append_space)
  qed
  have starts: "\<exists>sp. list_all is_space sp \<and> x = sp @ trim_start x" for x
    using set_takeWhileD [of _ is_space x]
    by (intro exI [of _ "takeWhile is_space x"]) (auto simp: trim_start_def list_all_iff)
  have ends: "\<exists>sp. list_all is_space sp \<and> x = trim_end x @ sp" for x
  proof -
    have "x = rev (dropWhile is_space (rev x)) @ rev (takeWhile is_space (rev x))"
      by (metis rev_append rev_rev_ident takeWhile_dropWhile_id)
    moreover have "list_all is_space (rev (takeWhile is_space (rev x)))"
      using set_takeWhileD [of _ is_space "rev x"] by (auto simp: list_all_iff)
    ultimately show ?thesis unfolding trim_end_def by blast
  qed
  have "trim (after_last path_sep (trim_end x)) = trim (after_last path_sep x)" for x
    using ends [of x] rear by metis
  moreover have "trim (after_last path_sep (trim_start x)) = trim (after_last path_sep x)" for x
    using starts [of x] front by metis
  ultimately show ?thesis by (simp add: trim_def [of s])
qed

lemma after_last_lower: "after_last path_sep (to_lowercase s) = to_lowercase (after_last path_sep s)"
proof -
  have "path_sep (lower_char c) = path_sep c" for c
    by (auto simp: path_sep_def of_char_lower Let_def)
  then show ?thesis
    by (simp add: after_last_def to_lowercase_def rev_map takeWhile_map comp_def)
qed

lemma basename_of_comm: "exe_basename_lower (to_lowercase (trim s)) = exe_basename_lower s"
proof -
  have "to_lowercase (to_lowercase x) = to_lowercase x" for x
    by (simp add: to_lowercase_def)
  then show ?thesis
    by (simp add: exe_basename_lower_def after_last_lower trim_lower trim_after_last_trim)
qed

text \<open>
  An identity's filter name and its stored name agree on the basename the exclusions compare.
\<close>

definition named_consistently :: "process_identity \<Rightarrow> bool" where
  "named_consistently i \<longleftrightarrow>
     exe_basename_lower (basename (Started i)) = exe_basename_lower (pi_exe i)"

lemma named_from_entry: "named_consistently (from_entry e)"
  by (simp add: named_consistently_def basename_def from_entry_def basename_of_comm Let_def
      split: option.split)

lemma named_refreshed:
  "named_consistently n \<Longrightarrow> named_consistently (refreshed_with p n)"
  by (auto simp: named_consistently_def basename_def refreshed_with_def Let_def split: if_splits)

definition table_named :: "(nat \<times> process_identity) list \<Rightarrow> bool" where
  "table_named al \<longleftrightarrow> (\<forall>(pid, i) \<in> set al. named_consistently i)"

lemma entries_named: "table_named (entries_of snapshot)"
proof -
  have run: "table_named al \<Longrightarrow>
      table_named (foldl (\<lambda>entries e. AList.update (ps_pid e) (from_entry e) entries) al es)" for al es
  proof (induction es arbitrary: al)
    case (Cons e es)
    have "table_named (AList.update (ps_pid e) (from_entry e) al)"
      using Cons.prems set_update_subset [of "ps_pid e" "from_entry e" al]
      by (fastforce simp: table_named_def named_from_entry)
    then show ?case using Cons.IH by simp
  qed simp
  show ?thesis
    unfolding entries_of_def by (rule run) (simp add: table_named_def)
qed

lemma diff_pid_named:
  assumes "table_named live" and "table_named entries"
  shows "tr \<in> set (fst (diff_pid live entries pid)) \<Longrightarrow>
           named_consistently (transition_identity tr)"
    and "snd (diff_pid live entries pid) = Some i \<Longrightarrow> named_consistently i"
  using assms
  by (auto simp: diff_pid_def table_named_def split: option.splits if_splits
      dest!: map_of_SomeD intro: named_refreshed)

interpretation tracker_names:
  filter_machine apply_snapshot "\<lambda>T. table_named (t_live T)"
    "\<lambda>tr. named_consistently (transition_identity tr)"
proof unfold_locales
  fix T :: process_tracker and snapshot
  assume live: "table_named (t_live T)"
  note diff = diff_pid_named [OF live entries_named [of snapshot]]
  show "table_named (t_live (fst (apply_snapshot T snapshot)))"
    using live entries_named [of snapshot] diff(2)
    by (auto simp: apply_snapshot_def table_named_def Let_def dest!: map_filter_wf)
  show "named_consistently (transition_identity tr)"
    if "tr \<in> set (snd (apply_snapshot T snapshot))" for tr
    using that diff(1) by (auto simp: apply_snapshot_def Let_def split: if_splits)
qed

section \<open>Runs of the monitor\<close>

datatype monitor_op =
    Poll instant capture_controls "process_snapshot_entry list option"
  | FlushChurn instant

primrec monitor_step :: "process_monitor \<Rightarrow> monitor_op \<Rightarrow> process_monitor \<times> captured list" where
  "monitor_step M (Poll now k snapshot) = poll M now k snapshot"
| "monitor_step M (FlushChurn now) = flush M now"

fun named_exes :: "event_payload \<Rightarrow> string list" where
  "named_exes (ProcessStarted _ exe _) = [exe]"
| "named_exes (ProcessExited _ exe _) = [exe]"
| "named_exes (ProcessChurnSummary _ _ _ heaviest) = map pc_exe heaviest"
| "named_exes _ = []"

definition names_none_of :: "string set \<Rightarrow> captured \<Rightarrow> bool" where
  "names_none_of apps row \<longleftrightarrow>
     list_all (\<lambda>exe. exe_basename_lower exe \<notin> apps) (named_exes (c_payload row))"

definition noise_free :: "string set \<Rightarrow> process_noise_filter \<Rightarrow> bool" where
  "noise_free apps n \<longleftrightarrow>
     (\<forall>(exe, c) \<in> set (n_dropped_by_basename n). exe_basename_lower exe \<notin> apps)"

lemma keep_never: "snd (keep_after_counting n b now) = False"
  by (simp add: keep_after_counting_def Let_def)

lemma noise_free_count:
  "noise_free apps n \<Longrightarrow> exe_basename_lower b \<notin> apps \<Longrightarrow>
   noise_free apps (fst (keep_after_counting n b now))"
  using set_update_subset
  by (fastforce simp: noise_free_def keep_after_counting_def Let_def)

lemma noise_free_summary:
  assumes "noise_free apps n"
  shows "noise_free apps (fst (take_summary n now))"
    and "row \<in> set (summary_row now (snd (take_summary n now))) \<Longrightarrow> names_none_of apps row"
  using assms
  by (auto simp: noise_free_def take_summary_def noise_new_def summary_row_def names_none_of_def
      churn_top_def captured_new_def Let_def list_all_iff dest!: in_set_takeD split: if_splits)

lemma noise_free_due:
  assumes "noise_free apps n"
  shows "noise_free apps (fst (summary_if_due n now))"
    and "row \<in> set (summary_row now (snd (summary_if_due n now))) \<Longrightarrow> names_none_of apps row"
  using assms noise_free_summary [of apps n]
  by (auto simp: summary_if_due_def summary_row_def split: if_splits)

lemma route_transitions_excluded:
  assumes "k_excluded_apps k = apps"
    and "\<forall>tr \<in> set trs. named_consistently (transition_identity tr)" and "noise_free apps n"
  shows "noise_free apps (fst (route_transitions k now n trs)) \<and>
     (\<forall>row \<in> set (snd (route_transitions k now n trs)). names_none_of apps row)"
  using assms(2,3)
proof (induction trs arbitrary: n)
  case (Cons tr trs)
  let ?b = "basename tr"
  have same: "exe_basename_lower ?b = exe_basename_lower (pi_exe (transition_identity tr))"
    using Cons.prems(1) by (simp add: named_consistently_def basename_def)
  show ?case
  proof (cases "app_excluded k ?b")
    case True
    then show ?thesis using Cons by simp
  next
    case False
    then have allowed: "exe_basename_lower ?b \<notin> apps"
      using assms(1) by (simp add: app_excluded_def)
    then have row: "names_none_of apps (into_captured tr now)"
      using same
      by (cases tr) (simp_all add: names_none_of_def into_captured_def captured_new_def)
    have "noise_free apps (fst (keep_after_counting n ?b now))"
      using Cons.prems(2) allowed by (rule noise_free_count)
    then show ?thesis
      using False row Cons.IH [of n] Cons.IH [of "fst (keep_after_counting n ?b now)"] Cons.prems
      by (auto simp: split_def Let_def keep_never)
  qed
qed simp

definition monitor_free :: "string set \<Rightarrow> process_monitor \<Rightarrow> bool" where
  "monitor_free apps M \<longleftrightarrow> noise_free apps (mo_noise M) \<and> table_named (t_live (mo_tracker M))"

lemma poll_excluded:
  assumes "monitor_free apps M" and "k_excluded_apps k = apps"
  shows "monitor_free apps (fst (poll M now k snapshot)) \<and>
     (\<forall>row \<in> set (snd (poll M now k snapshot)). names_none_of apps row)"
proof -
  let ?sweep = "case snapshot of Some (e # es) \<Rightarrow> apply_snapshot (mo_tracker M) (e # es)
      | _ \<Rightarrow> (mo_tracker M, [])"
  let ?routed = "route_transitions k now (mo_noise M) (snd ?sweep)"
  have sweep: "table_named (t_live (fst ?sweep))"
    "\<forall>tr \<in> set (snd ?sweep). named_consistently (transition_identity tr)"
    using assms(1) tracker_names.step_inv tracker_names.step_ok
    by (auto simp: monitor_free_def split: option.split list.split)
  have routed: "noise_free apps (fst ?routed)" "\<forall>row \<in> set (snd ?routed). names_none_of apps row"
    using route_transitions_excluded [OF assms(2) sweep(2), of "mo_noise M" now] assms(1)
    by (simp_all add: monitor_free_def)
  show ?thesis
    using assms(1) sweep(1) routed noise_free_due [OF routed(1)]
    by (auto simp: poll_def Let_def split_def monitor_free_def)
qed

fun polls_with :: "string set \<Rightarrow> monitor_op \<Rightarrow> bool" where
  "polls_with apps (Poll _ k _) \<longleftrightarrow> k_excluded_apps k = apps"
| "polls_with apps (FlushChurn _) \<longleftrightarrow> True"

lemma step_excluded:
  assumes "monitor_free apps M" and "polls_with apps op"
  shows "monitor_free apps (fst (monitor_step M op)) \<and>
     (\<forall>row \<in> set (snd (monitor_step M op)). names_none_of apps row)"
proof (cases op)
  case (FlushChurn now)
  then show ?thesis
    using assms(1) noise_free_summary [of apps "mo_noise M"]
    by (auto simp: flush_def split_def Let_def monitor_free_def)
qed (use assms poll_excluded in simp)

lemma run_excluded:
  "monitor_free apps M \<Longrightarrow> list_all (polls_with apps) ops \<Longrightarrow>
   \<forall>row \<in> set (outputs monitor_step M ops). names_none_of apps row"
  by (induction ops arbitrary: M) (auto dest: step_excluded)

text \<open>
  \<open>ProcessMonitor\<close>: no row of the monitor names an excluded application, judged on the
  stored name exactly as the writer's policy judges it: not in a start or exit row, and not
  among the entries of a churn summary.
\<close>

theorem monitor_rows_name_no_excluded_app:
  assumes "list_all (polls_with apps) ops"
  shows "\<forall>row \<in> set (outputs monitor_step (monitor_new start) ops). names_none_of apps row"
  by (rule run_excluded [OF _ assms])
     (simp add: monitor_free_def monitor_new_def noise_free_def noise_new_def table_named_def
       tracker_default_def)

definition sample_controls :: capture_controls where
  "sample_controls = controls_with_excluded_apps
     (set_process_filter_enabled controls_all_enabled False) [''Bank.exe'']"

lemma sample_names:
  "exe_basename_lower ''Bank.exe'' = ''bank.exe''"
  "exe_basename_lower (basename (Started (from_entry (sample_process 8 ''bank.exe'' 2)))) = ''bank.exe''"
  "exe_basename_lower (basename (Started (from_entry (sample_process 9 ''sh'' 5)))) = ''sh''"
  by code_simp+

lemma sample_controls_fields:
  "k_excluded_apps sample_controls = {''bank.exe''}" "\<not> process_filter_enabled sample_controls"
  "k_foreground_seen sample_controls = {}"
  by (simp_all add: sample_controls_def controls_with_excluded_apps_def sample_names(1) Let_def
      controls_all_enabled_def controls_new_def set_process_filter_enabled_def
      process_filter_enabled_def)

lemma sample_routes:
  "app_excluded sample_controls (basename (Started (from_entry (sample_process 8 ''bank.exe'' 2))))"
  "\<not> app_excluded sample_controls (basename (Started (from_entry (sample_process 9 ''sh'' 5))))"
  by (simp_all add: app_excluded_def sample_controls_fields sample_names)

lemma sample_sweeps:
  "apply_snapshot tracker_default [sample_process 4 ''init'' 3]
     = (\<lparr>t_seeded = True, t_live = [(4, from_entry (sample_process 4 ''init'' 3))]\<rparr>, [])"
  "snd (apply_snapshot
        \<lparr>t_seeded = True, t_live = [(4, from_entry (sample_process 4 ''init'' 3))]\<rparr>
        [sample_process 4 ''init'' 3, sample_process 8 ''bank.exe'' 2, sample_process 9 ''sh'' 5])
     = [Started (from_entry (sample_process 8 ''bank.exe'' 2)),
        Started (from_entry (sample_process 9 ''sh'' 5))]"
  by code_simp+

theorem monitor_rows_name_no_excluded_app_witness:
  "let ops = [Poll 0 sample_controls (Some [sample_process 4 ''init'' 3]),
              Poll 5000000000 sample_controls
                (Some [sample_process 4 ''init'' 3, sample_process 8 ''bank.exe'' 2,
                       sample_process 9 ''sh'' 5])];
       rows = outputs monitor_step (monitor_new 0) ops
   in length rows = 1 \<and> (\<forall>row \<in> set rows. names_none_of {''bank.exe''} row)"
proof -
  let ?ops = "[Poll 0 sample_controls (Some [sample_process 4 ''init'' 3]),
              Poll 5000000000 sample_controls
                (Some [sample_process 4 ''init'' 3, sample_process 8 ''bank.exe'' 2,
                       sample_process 9 ''sh'' 5])]"
  have "list_all (polls_with {''bank.exe''}) ?ops" by (simp add: sample_controls_fields)
  note free = monitor_rows_name_no_excluded_app [OF this, of 0]
  have "length (outputs monitor_step (monitor_new 0) ?ops) = 1"
    by (simp add: poll_def monitor_new_def sample_sweeps sample_routes sample_controls_fields split_def Let_def summary_if_due_def
        noise_new_def CHURN_SUMMARY_INTERVAL_def PROCESS_POLL_INTERVAL_def time_defs
        summary_row_def)
  with free show ?thesis unfolding Let_def by blast
qed

section \<open>Every demoted transition is counted once\<close>

definition demoted :: "capture_controls \<Rightarrow> process_transition \<Rightarrow> bool" where
  "demoted k tr \<longleftrightarrow> \<not> app_excluded k (basename tr) \<and> process_filter_enabled k \<and>
     \<not> foreground_exe_seen k (basename tr)"

definition sweep_due :: "process_monitor \<Rightarrow> instant \<Rightarrow> bool" where
  "sweep_due M now \<longleftrightarrow> (case mo_last_sweep M of
     Some prior \<Rightarrow> duration_since now prior \<ge> PROCESS_POLL_INTERVAL | None \<Rightarrow> True)"

definition sweep :: "process_monitor \<Rightarrow> process_snapshot_entry list option
    \<Rightarrow> process_tracker \<times> process_transition list" where
  "sweep M snapshot = (case snapshot of
     Some (e # es) \<Rightarrow> apply_snapshot (mo_tracker M) (e # es) | _ \<Rightarrow> (mo_tracker M, []))"

fun demoted_by :: "process_monitor \<Rightarrow> monitor_op \<Rightarrow> nat" where
  "demoted_by M (Poll now k snapshot) =
     (if sweep_due M now then length (filter (demoted k) (snd (sweep M snapshot))) else 0)"
| "demoted_by M (FlushChurn _) = 0"

fun total_demoted :: "process_monitor \<Rightarrow> monitor_op list \<Rightarrow> nat" where
  "total_demoted M [] = 0"
| "total_demoted M (op # ops) = demoted_by M op + total_demoted (fst (monitor_step M op)) ops"

definition churn_dropped :: "captured \<Rightarrow> nat" where
  "churn_dropped row = (case c_payload row of ProcessChurnSummary _ d _ _ \<Rightarrow> d | _ \<Rightarrow> 0)"

definition noise_total :: "process_noise_filter \<Rightarrow> nat" where
  "noise_total n = sum_list (map snd (n_dropped_by_basename n))"

definition noise_distinct :: "process_noise_filter \<Rightarrow> bool" where
  "noise_distinct n \<longleftrightarrow> distinct (map fst (n_dropped_by_basename n))"

lemma noise_total_count:
  assumes "noise_distinct n" and "noise_total n < u32_max"
  shows "noise_total (fst (keep_after_counting n b now)) = Suc (noise_total n)"
    and "noise_distinct (fst (keep_after_counting n b now))"
proof -
  let ?al = "n_dropped_by_basename n"
  show "noise_distinct (fst (keep_after_counting n b now))"
    using assms(1) by (simp add: noise_distinct_def keep_after_counting_def Let_def distinct_update)
  show "noise_total (fst (keep_after_counting n b now)) = Suc (noise_total n)"
  proof (cases "map_of ?al b")
    case None
    then have "b \<notin> fst ` set ?al" by (simp add: map_of_eq_None_iff)
    from sum_list_update_fresh [OF this, of "Suc 0"] show ?thesis
      using None by (simp add: keep_after_counting_def noise_total_def Let_def wrap_u32_def
          u32_max_def)
  next
    case (Some c)
    then have "c \<in> set (map snd ?al)" by (force dest: map_of_SomeD)
    then have "c \<le> noise_total n" unfolding noise_total_def by (simp add: member_le_sum_list)
    then have "wrap_u32 (Suc c) = Suc c" using assms(2) by simp
    with sum_list_update_bump [OF assms(1) [unfolded noise_distinct_def] Some] show ?thesis
      using Some by (simp add: keep_after_counting_def noise_total_def Let_def)
  qed
qed

lemma noise_total_summary:
  assumes "noise_total n \<le> u32_max" and "noise_distinct n"
  shows "noise_total (fst (take_summary n now)) +
           sum_list (map churn_dropped (summary_row now (snd (take_summary n now)))) = noise_total n"
    and "noise_total (fst (take_summary n now)) = 0"
    and "noise_distinct (fst (take_summary n now))"
  using assms
  by (auto simp: take_summary_def noise_total_def noise_distinct_def noise_new_def summary_row_def
      captured_new_def churn_dropped_def Let_def)

lemma noise_total_due:
  assumes "noise_total n \<le> u32_max" and "noise_distinct n"
  shows "noise_total (fst (summary_if_due n now)) +
      sum_list (map churn_dropped (summary_row now (snd (summary_if_due n now)))) = noise_total n"
    and "noise_distinct (fst (summary_if_due n now))"
  using assms noise_total_summary [OF assms]
  by (auto simp: summary_if_due_def summary_row_def)

lemma into_captured_dropped [simp]: "churn_dropped (into_captured tr now) = 0"
  by (cases tr) (simp_all add: into_captured_def captured_new_def churn_dropped_def)

lemma route_total:
  assumes "noise_distinct n" and "noise_total n + length (filter (demoted k) trs) \<le> u32_max"
  shows "noise_total (fst (route_transitions k now n trs))
           = noise_total n + length (filter (demoted k) trs) \<and>
         noise_distinct (fst (route_transitions k now n trs)) \<and>
         sum_list (map churn_dropped (snd (route_transitions k now n trs))) = 0"
  using assms
proof (induction trs arbitrary: n)
  case (Cons tr trs)
  show ?case
  proof (cases "demoted k tr")
    case True
    have "noise_total n < u32_max" using Cons.prems(2) True by simp
    note count = noise_total_count [OF Cons.prems(1) this, of "basename tr" now]
    then show ?thesis
      using True Cons.prems(2) Cons.IH [OF count(2)]
      by (auto simp: demoted_def split_def Let_def keep_never)
  next
    case False
    then show ?thesis
      using Cons by (auto simp: demoted_def split_def Let_def)
  qed
qed simp

lemma poll_shape:
  "poll M now k snapshot =
     (if sweep_due M now then
        (let routed = route_transitions k now (mo_noise M) (snd (sweep M snapshot));
             due = summary_if_due (fst routed) now
         in (M\<lparr>mo_last_sweep := Some now, mo_tracker := fst (sweep M snapshot),
               mo_noise := fst due\<rparr>, snd routed @ summary_row now (snd due)))
      else (M, []))"
  by (simp add: poll_def sweep_due_def sweep_def split_def Let_def)

lemma step_total:
  assumes "noise_distinct (mo_noise M)" and "noise_total (mo_noise M) + demoted_by M op \<le> u32_max"
  shows "noise_total (mo_noise (fst (monitor_step M op))) +
           sum_list (map churn_dropped (snd (monitor_step M op)))
             = noise_total (mo_noise M) + demoted_by M op \<and>
         noise_distinct (mo_noise (fst (monitor_step M op)))"
proof (cases op)
  case (Poll now k snapshot)
  show ?thesis
  proof (cases "sweep_due M now")
    case True
    note routed = route_total [of "mo_noise M" k "snd (sweep M snapshot)" now]
    note due = noise_total_due [of "fst (route_transitions k now (mo_noise M) (snd (sweep M snapshot)))" now]
    have route: "noise_total (mo_noise M) + length (filter (demoted k) (snd (sweep M snapshot))) \<le> u32_max"
      using assms(2) True by (simp add: Poll)
    then have silent: "sum_list (map churn_dropped
        (snd (route_transitions k now (mo_noise M) (snd (sweep M snapshot))))) = 0"
      using routed assms(1) by blast
    show ?thesis
      using assms(1) True routed route due by (simp add: Poll poll_shape Let_def silent)
  qed (use assms in \<open>simp add: Poll poll_shape\<close>)
next
  case (FlushChurn now)
  then show ?thesis
    using assms noise_total_summary [of "mo_noise M" now] by (simp add: flush_def split_def Let_def)
qed

lemma run_total:
  assumes "noise_distinct (mo_noise M)"
    and "noise_total (mo_noise M) + total_demoted M ops \<le> u32_max"
  shows "noise_total (mo_noise (final monitor_step M ops)) +
           sum_list (map churn_dropped (outputs monitor_step M ops))
             = noise_total (mo_noise M) + total_demoted M ops \<and>
         noise_distinct (mo_noise (final monitor_step M ops))"
  using assms
proof (induction ops arbitrary: M)
  case (Cons op ops)
  note step = step_total [of M op]
  note rest = Cons.IH [of "fst (monitor_step M op)"]
  show ?case using Cons.prems step rest by (simp del: monitor_step.simps)
qed simp

text \<open>
  \<open>ProcessMonitor\<close>: demotion loses nothing but detail.  Over any run that ends with the
  shutdown flush, throttled sweeps and failed snapshots included, the summaries' totals add
  up to the number of transitions that were neither excluded nor kept as rows.
\<close>

theorem demoted_transitions_counted_once:
  assumes "total_demoted (monitor_new start) ops \<le> u32_max"
  shows "sum_list (map churn_dropped
           (outputs monitor_step (monitor_new start) (ops @ [FlushChurn stop])))
         = total_demoted (monitor_new start) ops"
proof -
  let ?M = "final monitor_step (monitor_new start) ops"
  have "noise_distinct (mo_noise (monitor_new start))" "noise_total (mo_noise (monitor_new start)) = 0"
    by (simp_all add: monitor_new_def noise_new_def noise_distinct_def noise_total_def)
  with run_total [of "monitor_new start" ops] assms
  have run: "noise_total (mo_noise ?M) +
      sum_list (map churn_dropped (outputs monitor_step (monitor_new start) ops))
        = total_demoted (monitor_new start) ops" "noise_distinct (mo_noise ?M)"
    by simp_all
  then have "noise_total (mo_noise ?M) \<le> u32_max" using assms by linarith
  note flush = noise_total_summary [OF this run(2), of stop]
  have "snd (flush ?M stop) = summary_row stop (snd (take_summary (mo_noise ?M) stop))"
    by (simp add: flush_def split_def Let_def)
  then show ?thesis
    using flush run(1) by (simp add: outputs_append)
qed

theorem demoted_transitions_counted_once_witness:
  "let k = set_process_filter_enabled sample_controls True;
       ops = [Poll 0 k (Some [sample_process 4 ''init'' 3]),
              Poll 5000000000 k
                (Some [sample_process 4 ''init'' 3, sample_process 8 ''bank.exe'' 2,
                       sample_process 9 ''sh'' 5])]
   in total_demoted (monitor_new 0) ops = 1 \<and>
      sum_list (map churn_dropped
        (outputs monitor_step (monitor_new 0) (ops @ [FlushChurn 6000000000]))) = 1"
proof -
  let ?k = "set_process_filter_enabled sample_controls True"
  let ?ops = "[Poll 0 ?k (Some [sample_process 4 ''init'' 3]),
              Poll 5000000000 ?k
                (Some [sample_process 4 ''init'' 3, sample_process 8 ''bank.exe'' 2,
                       sample_process 9 ''sh'' 5])]"
  have k: "app_excluded ?k = app_excluded sample_controls" "process_filter_enabled ?k"
    "\<not> foreground_exe_seen ?k b" for b
    by (simp_all add: fun_eq_iff app_excluded_def set_process_filter_enabled_def
        process_filter_enabled_def foreground_exe_seen_def sample_controls_fields)
  have total: "total_demoted (monitor_new 0) ?ops = 1"
    by (simp add: poll_shape monitor_new_def sweep_def sweep_due_def sample_sweeps demoted_def k
        sample_routes Let_def PROCESS_POLL_INTERVAL_def time_defs)
  then show ?thesis
    using demoted_transitions_counted_once [of 0 ?ops 6000000000]
    unfolding Let_def by (simp add: u32_max_def del: outputs.simps)
qed

end
