(* ===== verification/Power_Monitor.thy ===== *)
theory Power_Monitor
  imports Clock
begin

text \<open>
  The power-boundary machine \<open>PowerMonitor\<close> (module \<open>power\<close> of crates/gilbreth-core/src/lib.rs):
  sleep and wake edges, the divergence of the two clocks that reveals a sleep no edge
  reported, and the status samples.  A method returning an optional \<open>PowerBoundary\<close> is a
  function to the new state and the option.
\<close>

section \<open>Data\<close>

definition POWER_RESUME_DEBOUNCE :: duration where "POWER_RESUME_DEBOUNCE = from_secs 2"
definition MISSED_POWER_BOUNDARY_THRESHOLD_MS :: nat where
  "MISSED_POWER_BOUNDARY_THRESHOLD_MS = 30000"
definition STATUS_SAMPLE_INTERVAL :: duration where "STATUS_SAMPLE_INTERVAL = from_secs 1"

datatype power_edge = WillSleep | DidWake

record power_edge_sample =
  pe_at :: instant
  pe_continuous_ms :: "nat option"
  pe_edge :: power_edge

record power_status_snapshot =
  st_ac_online :: "bool option"
  st_battery_percent :: "nat option"
  st_battery_saver :: "bool option"

record power_boundary =
  pb_close_foreground :: bool
  pb_rows :: "captured list"

type_synonym status_key = "bool option \<times> bool option \<times> nat option"

record power_monitor =
  w_suspended :: bool
  w_last_resume_at :: "instant option"
  w_divergence_sample :: "(instant \<times> nat) option"
  w_status_key :: "status_key option"
  w_status_baselined :: bool
  w_last_status_at :: "instant option"

definition power_new :: power_monitor where
  "power_new =
     \<lparr>w_suspended = False, w_last_resume_at = None, w_divergence_sample = None,
      w_status_key = None, w_status_baselined = False, w_last_status_at = None\<rparr>"

section \<open>Clocks\<close>

definition rebaseline :: "power_monitor \<Rightarrow> instant \<Rightarrow> nat option \<Rightarrow> power_monitor" where
  "rebaseline M at continuous_ms =
     (case continuous_ms of
        Some continuous \<Rightarrow> M\<lparr>w_divergence_sample := Some (at, continuous)\<rparr>
      | None \<Rightarrow> M)"

definition divergence_ms ::
    "power_monitor \<Rightarrow> instant \<Rightarrow> nat option \<Rightarrow> power_monitor \<times> nat option" where
  "divergence_ms M now continuous_ms =
     (case continuous_ms of
        None \<Rightarrow> (M, None)
      | Some current \<Rightarrow>
          (case w_divergence_sample M of
             None \<Rightarrow> (M\<lparr>w_divergence_sample := Some (now, current)\<rparr>, None)
           | Some (last_at, last_continuous) \<Rightarrow>
               (let instant_delta = duration_ms (duration_since now last_at);
                    continuous_delta = current - last_continuous
                in (M, Some (continuous_delta - instant_delta)))))"

definition recovered_row :: "instant \<Rightarrow> nat \<Rightarrow> captured" where
  "recovered_row at gap_ms =
     captured_new source.System at (PowerBoundaryRecovered gap_ms 0)"

section \<open>Edges\<close>

definition on_will_sleep ::
    "power_monitor \<Rightarrow> power_edge_sample \<Rightarrow> power_monitor \<times> power_boundary option" where
  "on_will_sleep M sample =
     (if w_suspended M
      then (rebaseline M (pe_at sample) (pe_continuous_ms sample), None)
      else
        (rebaseline (M\<lparr>w_suspended := True, w_last_resume_at := None\<rparr>)
           (pe_at sample) (pe_continuous_ms sample),
         Some \<lparr>pb_close_foreground = True,
               pb_rows = [captured_new source.System (pe_at sample)
                            (PowerSuspend (pe_continuous_ms sample))]\<rparr>))"

definition on_did_wake ::
    "power_monitor \<Rightarrow> power_edge_sample \<Rightarrow> power_monitor \<times> power_boundary option" where
  "on_did_wake M sample =
     (let at = pe_at sample; continuous = pe_continuous_ms sample in
      if \<not> w_suspended M \<and>
         (case w_last_resume_at M of
            Some previous \<Rightarrow> duration_since at previous \<le> POWER_RESUME_DEBOUNCE
          | None \<Rightarrow> False)
      then (rebaseline (M\<lparr>w_last_resume_at := Some at\<rparr>) at continuous, None)
      else
        let matched_suspend = w_suspended M;
            (M1, rows) =
              (if \<not> matched_suspend then
                 (case divergence_ms M at continuous of
                    (M1, Some gap_ms) \<Rightarrow>
                      (M1, if gap_ms > MISSED_POWER_BOUNDARY_THRESHOLD_MS
                           then [recovered_row at gap_ms] else [])
                  | (M1, None) \<Rightarrow> (M1, []))
               else (M, []))
        in (rebaseline (M1\<lparr>w_suspended := False, w_last_resume_at := Some at\<rparr>) at continuous,
            Some \<lparr>pb_close_foreground = (\<not> matched_suspend),
                  pb_rows = rows @ [captured_new source.System at
                                      (PowerResume continuous matched_suspend)]\<rparr>))"

definition poll_divergence ::
    "power_monitor \<Rightarrow> instant \<Rightarrow> nat option \<Rightarrow> power_monitor \<times> power_boundary option" where
  "poll_divergence M now continuous_ms =
     (case divergence_ms M now continuous_ms of
        (M1, None) \<Rightarrow> (M1, None)
      | (M1, Some gap_ms) \<Rightarrow>
          (let M2 = rebaseline M1 now continuous_ms in
           if gap_ms \<le> MISSED_POWER_BOUNDARY_THRESHOLD_MS then (M2, None)
           else if w_suspended M2 then
             (M2\<lparr>w_suspended := False, w_last_resume_at := Some now\<rparr>,
              Some \<lparr>pb_close_foreground = False,
                    pb_rows = [captured_new source.System now (PowerResume continuous_ms True)]\<rparr>)
           else
             (M2\<lparr>w_last_resume_at := Some now\<rparr>,
              Some \<lparr>pb_close_foreground = True, pb_rows = [recovered_row now gap_ms]\<rparr>)))"

section \<open>Status\<close>

definition status_key_of :: "power_status_snapshot \<Rightarrow> status_key" where
  "status_key_of snap =
     (st_ac_online snap, st_battery_saver snap, map_option (\<lambda>p. p div 10) (st_battery_percent snap))"

definition status_due :: "power_monitor \<Rightarrow> instant \<Rightarrow> bool" where
  "status_due M now =
     (case w_last_status_at M of
        Some prior \<Rightarrow> duration_since now prior \<ge> STATUS_SAMPLE_INTERVAL | None \<Rightarrow> True)"

definition poll_status ::
    "power_monitor \<Rightarrow> instant \<Rightarrow> bool \<Rightarrow> power_status_snapshot option
     \<Rightarrow> power_monitor \<times> captured list" where
  "poll_status M now force snapshot =
     (if \<not> force \<and> \<not> status_due M now then (M, [])
      else
        let M1 = M\<lparr>w_last_status_at := Some now\<rparr> in
        case snapshot of
          None \<Rightarrow> (M1, [])
        | Some snap \<Rightarrow>
            (let key = status_key_of snap in
             if \<not> w_status_baselined M1
             then (M1\<lparr>w_status_baselined := True, w_status_key := Some key\<rparr>, [])
             else if w_status_key M1 = Some key then (M1, [])
             else (M1\<lparr>w_status_key := Some key\<rparr>,
                   [captured_new source.System now
                      (PowerStatusChanged (st_ac_online snap) (st_battery_percent snap)
                         (st_battery_saver snap))])))"

definition power_reseed :: "power_monitor \<Rightarrow> power_monitor" where
  "power_reseed M =
     M\<lparr>w_suspended := False, w_last_resume_at := None, w_status_baselined := True,
       w_status_key := None, w_last_status_at := None\<rparr>"

section \<open>Runs\<close>

datatype power_op =
    PowerEdge power_edge_sample
  | PollDivergence instant "nat option"
  | PollStatus instant bool "power_status_snapshot option"
  | ReseedPower

definition boundary_rows :: "power_boundary option \<Rightarrow> captured list" where
  "boundary_rows b = (case b of Some boundary \<Rightarrow> pb_rows boundary | None \<Rightarrow> [])"

text \<open>The edge dispatch is the pump's: a suspend edge and a wake edge each have their method.\<close>

definition on_edge :: "power_monitor \<Rightarrow> power_edge_sample \<Rightarrow> power_monitor \<times> power_boundary option" where
  "on_edge M sample =
     (case pe_edge sample of
        WillSleep \<Rightarrow> on_will_sleep M sample | DidWake \<Rightarrow> on_did_wake M sample)"

primrec power_step :: "power_monitor \<Rightarrow> power_op \<Rightarrow> power_monitor \<times> captured list" where
  "power_step M (PowerEdge sample) = map_prod id boundary_rows (on_edge M sample)"
| "power_step M (PollDivergence now c) = map_prod id boundary_rows (poll_divergence M now c)"
| "power_step M (PollStatus now force snap) = poll_status M now force snap"
| "power_step M ReseedPower = (power_reseed M, [])"

lemmas power_defs = on_edge_def on_will_sleep_def on_did_wake_def poll_divergence_def
  poll_status_def power_reseed_def divergence_ms_def rebaseline_def recovered_row_def
  boundary_rows_def captured_new_def

section \<open>Boundaries alternate\<close>

text \<open>
  What the rows of a run say: a suspend only while awake, a resume flagged matched exactly
  while suspended, and a recovered boundary only while awake.  A reseed forgets.
\<close>

fun row_allowed :: "bool \<Rightarrow> event_payload \<Rightarrow> bool" where
  "row_allowed asleep (PowerSuspend _) = (\<not> asleep)"
| "row_allowed asleep (PowerResume _ matched) = (matched = asleep)"
| "row_allowed asleep (PowerBoundaryRecovered _ capped) = (\<not> asleep \<and> capped = 0)"
| "row_allowed asleep _ = True"

fun row_asleep :: "bool \<Rightarrow> event_payload \<Rightarrow> bool" where
  "row_asleep asleep (PowerSuspend _) = True"
| "row_asleep asleep (PowerResume _ _) = False"
| "row_asleep asleep _ = asleep"

fun rows_alternate :: "bool \<Rightarrow> captured list \<Rightarrow> bool" where
  "rows_alternate asleep [] = True"
| "rows_alternate asleep (r # rs) =
     (row_allowed asleep (c_payload r) \<and> rows_alternate (row_asleep asleep (c_payload r)) rs)"

definition rows_end :: "bool \<Rightarrow> captured list \<Rightarrow> bool" where
  "rows_end asleep rs = foldl (\<lambda>a r. row_asleep a (c_payload r)) asleep rs"

fun history_alternates :: "bool \<Rightarrow> (power_op \<times> captured list) list \<Rightarrow> bool" where
  "history_alternates asleep [] = True"
| "history_alternates asleep ((op, rs) # tr) =
     (if op = ReseedPower then rs = [] \<and> history_alternates False tr
      else rows_alternate asleep rs \<and> history_alternates (rows_end asleep rs) tr)"

lemma rebaseline_frame [simp]:
  "w_suspended (rebaseline M at c) = w_suspended M"
  "w_status_key (rebaseline M at c) = w_status_key M"
  "w_status_baselined (rebaseline M at c) = w_status_baselined M"
  "w_last_status_at (rebaseline M at c) = w_last_status_at M"
  by (simp_all add: rebaseline_def split: option.split)

lemma divergence_frame [simp]:
  "w_suspended (fst (divergence_ms M now c)) = w_suspended M"
  "w_status_key (fst (divergence_ms M now c)) = w_status_key M"
  "w_status_baselined (fst (divergence_ms M now c)) = w_status_baselined M"
  "w_last_status_at (fst (divergence_ms M now c)) = w_last_status_at M"
  by (simp_all add: divergence_ms_def Let_def split: option.split)

lemma step_alternates:
  assumes "op \<noteq> ReseedPower"
  shows "rows_alternate (w_suspended M) (snd (power_step M op))"
    and "rows_end (w_suspended M) (snd (power_step M op)) = w_suspended (fst (power_step M op))"
  using assms
  by (cases op; auto simp: power_defs rows_end_def Let_def
      split: option.splits power_edge.splits if_splits)+

lemma run_alternates: "history_alternates (w_suspended M) (trace power_step M ops)"
proof (induction ops arbitrary: M)
  case (Cons op ops)
  show ?case
    using step_alternates [of op M] Cons [of "fst (power_step M op)"]
    by (cases "op = ReseedPower") (simp_all add: power_reseed_def del: power_step.simps,
        simp add: power_reseed_def)
qed simp

text \<open>
  \<open>PowerMonitor\<close>: whatever edges, clock samples and status polls arrive, lost and
  duplicated ones included, the rows tell a consistent history: suspends and resumes
  alternate, a resume is flagged matched exactly when a suspend row precedes it with no
  resume between, and a recovered boundary appears only while awake and attributes no dwell.
\<close>

theorem power_history_alternates:
  "history_alternates False (trace power_step power_new ops)"
  using run_alternates [of power_new ops] by (simp add: power_new_def)

section \<open>Divergence\<close>

lemma duration_ms_exact: "as_millis d \<le> u64_max \<Longrightarrow> duration_ms d = as_millis d"
  by (simp add: duration_ms_def)

lemma missed_sleep_cases:
  assumes "w_divergence_sample M = Some (t0, c0)" and "t1 \<le> t2"
    and "c1 + as_millis (t2 - t1) \<le> u64_max"
  defines "slept \<equiv> (c1 - c0) - duration_ms (duration_since t1 t0)"
    and "M1 \<equiv> fst (poll_divergence M t1 (Some c1))"
    and "reported \<equiv> boundary_rows (snd (poll_divergence M t1 (Some c1)))"
  shows "reported =
      (if slept \<le> MISSED_POWER_BOUNDARY_THRESHOLD_MS then []
       else if w_suspended M then [captured_new source.System t1 (PowerResume (Some c1) True)]
       else [recovered_row t1 slept])"
    and "snd (poll_divergence M1 t2 (Some (c1 + as_millis (t2 - t1)))) = None"
    and "reported \<noteq> [] \<Longrightarrow> t2 - t1 \<le> POWER_RESUME_DEBOUNCE \<Longrightarrow>
         snd (on_did_wake M1 \<lparr>pe_at = t2, pe_continuous_ms = c, pe_edge = DidWake\<rparr>) = None"
proof -
  show "reported =
      (if slept \<le> MISSED_POWER_BOUNDARY_THRESHOLD_MS then []
       else if w_suspended M then [captured_new source.System t1 (PowerResume (Some c1) True)]
       else [recovered_row t1 slept])"
    using assms(1) by (simp add: reported_def slept_def poll_divergence_def divergence_ms_def
        boundary_rows_def rebaseline_def Let_def)
  have sample: "w_divergence_sample M1 = Some (t1, c1)"
    using assms(1) by (simp add: M1_def poll_divergence_def divergence_ms_def rebaseline_def Let_def)
  have "as_millis (t2 - t1) \<le> u64_max" using assms(3) by simp
  then show "snd (poll_divergence M1 t2 (Some (c1 + as_millis (t2 - t1)))) = None"
    using sample by (simp add: poll_divergence_def divergence_ms_def duration_ms_exact
        duration_since_def Let_def)
  show "snd (on_did_wake M1 \<lparr>pe_at = t2, pe_continuous_ms = c, pe_edge = DidWake\<rparr>) = None"
    if "reported \<noteq> []" "t2 - t1 \<le> POWER_RESUME_DEBOUNCE"
  proof -
    have "\<not> w_suspended M1 \<and> w_last_resume_at M1 = Some t1"
      using that(1) assms(1)
      by (auto simp: reported_def M1_def poll_divergence_def divergence_ms_def boundary_rows_def
          rebaseline_def Let_def split: if_splits)
    then show ?thesis using that(2) by (simp add: on_did_wake_def duration_since_def)
  qed
qed

text \<open>
  \<open>PowerMonitor::poll_divergence\<close>: a sleep no edge reported is reported once.  The pass
  after it emits one boundary exactly when the clocks diverged by more than the threshold: a
  matched resume if the suspend was seen, else a recovered boundary with the exact slept
  time.  A following pass across which the clocks agree emits nothing, and a late wake edge
  within the debounce is swallowed.
\<close>

theorem missed_sleep_reported_once:
  assumes "w_divergence_sample M = Some (t0, c0)" and "t1 \<le> t2"
    and "c1 + as_millis (t2 - t1) \<le> u64_max"
  shows "let slept = (c1 - c0) - duration_ms (duration_since t1 t0);
             (M1, boundary) = poll_divergence M t1 (Some c1);
             reported = boundary_rows boundary
         in reported =
              (if slept \<le> MISSED_POWER_BOUNDARY_THRESHOLD_MS then []
               else if w_suspended M
               then [captured_new source.System t1 (PowerResume (Some c1) True)]
               else [recovered_row t1 slept]) \<and>
            snd (poll_divergence M1 t2 (Some (c1 + as_millis (t2 - t1)))) = None \<and>
            (reported \<noteq> [] \<and> t2 - t1 \<le> POWER_RESUME_DEBOUNCE \<longrightarrow>
               snd (on_did_wake M1 \<lparr>pe_at = t2, pe_continuous_ms = c, pe_edge = DidWake\<rparr>) = None)"
  using missed_sleep_cases [OF assms] by (simp add: Let_def split_def)

theorem missed_sleep_reported_once_witness:
  "let M = power_new\<lparr>w_divergence_sample := Some (0, 100)\<rparr>;
       polled = poll_divergence M 1000000 (Some 60101)
   in boundary_rows (snd polled) = [recovered_row 1000000 60000] \<and>
      snd (poll_divergence (fst polled) 3000000 (Some 60103)) = None \<and>
      snd (on_did_wake (fst polled)
             \<lparr>pe_at = 3000000, pe_continuous_ms = None, pe_edge = DidWake\<rparr>) = None"
proof -
  let ?M = "power_new\<lparr>w_divergence_sample := Some (0, 100)\<rparr>"
  have M: "w_divergence_sample ?M = Some (0, 100)" by simp
  have t: "(1000000 :: nat) \<le> 3000000" "as_millis (3000000 - 1000000) = 2"
    by (simp_all add: as_millis_def ns_per_ms_def)
  have c: "60101 + as_millis (3000000 - 1000000) \<le> u64_max"
    by (simp add: u64_max_def as_millis_def ns_per_ms_def)
  note once = missed_sleep_reported_once [OF M t(1) c, unfolded Let_def split_def]
  have ms: "duration_ms (duration_since 1000000 0) = 1"
    by (simp add: duration_ms_def as_millis_def ns_per_ms_def duration_since_def u64_max_def)
  have rows: "boundary_rows (snd (poll_divergence ?M 1000000 (Some 60101)))
      = [recovered_row 1000000 60000]"
    unfolding once [THEN conjunct1] ms by (simp add: MISSED_POWER_BOUNDARY_THRESHOLD_MS_def power_new_def)
  moreover have "snd (on_did_wake (fst (poll_divergence ?M 1000000 (Some 60101)))
             \<lparr>pe_at = 3000000, pe_continuous_ms = None, pe_edge = DidWake\<rparr>) = None"
    using once [of None] rows by (simp add: POWER_RESUME_DEBOUNCE_def time_defs)
  moreover have "snd (poll_divergence (fst (poll_divergence ?M 1000000 (Some 60101))) 3000000
      (Some 60103)) = None"
    using once unfolding t(2) by simp
  ultimately show ?thesis unfolding Let_def by blast
qed

section \<open>Status rows are the changes\<close>

fun sampled_key :: "power_monitor \<Rightarrow> power_op \<Rightarrow> status_key list" where
  "sampled_key M (PollStatus now force (Some snap)) =
     (if force \<or> status_due M now then [status_key_of snap] else [])"
| "sampled_key M _ = []"

fun sampled_keys :: "power_monitor \<Rightarrow> power_op list \<Rightarrow> status_key list" where
  "sampled_keys M [] = []"
| "sampled_keys M (op # ops) = sampled_key M op @ sampled_keys (fst (power_step M op)) ops"

fun row_key :: "event_payload \<Rightarrow> status_key list" where
  "row_key (PowerStatusChanged ac percent saver) = [(ac, saver, map_option (\<lambda>p. p div 10) percent)]"
| "row_key _ = []"

definition row_keys :: "captured list \<Rightarrow> status_key list" where
  "row_keys rows = concat (map (row_key \<circ> c_payload) rows)"

lemma row_keys_simps [simp]:
  "row_keys [] = []" "row_keys (r # rs) = row_key (c_payload r) @ row_keys rs"
  "row_keys (rs @ qs) = row_keys rs @ row_keys qs"
  by (simp_all add: row_keys_def)

text \<open>The status half of a step: other operations leave the key alone.\<close>

lemma step_status:
  assumes "op \<noteq> ReseedPower"
  shows "sampled_key M op = [] \<Longrightarrow>
           row_keys (snd (power_step M op)) = [] \<and>
           w_status_key (fst (power_step M op)) = w_status_key M \<and>
           w_status_baselined (fst (power_step M op)) = w_status_baselined M"
    and "sampled_key M op = k # ks \<Longrightarrow> ks = [] \<and>
           row_keys (snd (power_step M op)) =
             (if w_status_baselined M \<and> w_status_key M \<noteq> Some k then [k] else []) \<and>
           w_status_key (fst (power_step M op)) = Some k \<and>
           w_status_baselined (fst (power_step M op))"
  using assms
  by (cases op; auto simp: power_defs status_key_of_def Let_def
      split: option.splits power_edge.splits if_splits)+

lemma run_status_baselined:
  "ReseedPower \<notin> set ops \<Longrightarrow> w_status_baselined M \<Longrightarrow> w_status_key M = Some k \<Longrightarrow>
   k # row_keys (outputs power_step M ops) = remdups_adj (k # sampled_keys M ops)"
proof (induction ops arbitrary: M k)
  case (Cons op ops)
  have op: "op \<noteq> ReseedPower" "ReseedPower \<notin> set ops" using Cons.prems(1) by auto
  show ?case
  proof (cases "sampled_key M op")
    case Nil
    then show ?thesis
      using step_status(1) [OF op(1) Nil] Cons.IH [OF op(2)] Cons.prems by simp
  next
    case key: (Cons k' ks)
    then show ?thesis
      using step_status(2) [OF op(1) key] Cons.IH [OF op(2), of "fst (power_step M op)" k']
        Cons.prems
      by (auto simp del: power_step.simps)
  qed
qed simp

lemma run_status_fresh:
  "ReseedPower \<notin> set ops \<Longrightarrow> \<not> w_status_baselined M \<Longrightarrow>
   row_keys (outputs power_step M ops) = tl (remdups_adj (sampled_keys M ops))"
proof (induction ops arbitrary: M)
  case (Cons op ops)
  have op: "op \<noteq> ReseedPower" "ReseedPower \<notin> set ops" using Cons.prems(1) by auto
  show ?case
  proof (cases "sampled_key M op")
    case Nil
    then show ?thesis
      using step_status(1) [OF op(1) Nil] Cons.IH [OF op(2)] Cons.prems by simp
  next
    case key: (Cons k ks)
    note step = step_status(2) [OF op(1) key]
    then have "k # row_keys (outputs power_step (fst (power_step M op)) ops)
        = remdups_adj (k # sampled_keys (fst (power_step M op)) ops)"
      by (intro run_status_baselined op) auto
    then have "tl (k # row_keys (outputs power_step (fst (power_step M op)) ops))
        = tl (remdups_adj (k # sampled_keys (fst (power_step M op)) ops))"
      by (rule arg_cong)
    then show ?thesis using step key Cons.prems(2) by (simp del: power_step.simps)
  qed
qed simp

text \<open>
  \<open>PowerMonitor::poll_status\<close>: the status rows of a session are exactly the changes of
  the sampled status: the first sample is silent, and each later sample, throttled ones not
  counted, emits a row when its key (power source, saver, tens of percent) differs from the
  sample before it.
\<close>

theorem status_rows_are_the_changes:
  assumes "ReseedPower \<notin> set ops"
  shows "row_keys (outputs power_step power_new ops)
           = tl (remdups_adj (sampled_keys power_new ops))"
  by (rule run_status_fresh [OF assms]) (simp add: power_new_def)

definition sample_status :: "bool \<Rightarrow> nat \<Rightarrow> power_status_snapshot" where
  "sample_status ac percent =
     \<lparr>st_ac_online = Some ac, st_battery_percent = Some percent, st_battery_saver = None\<rparr>"

theorem status_rows_are_the_changes_witness:
  "let ops = [PollStatus 0 False (Some (sample_status True 88)),
              PollStatus 2000000000 False (Some (sample_status True 81)),
              PollStatus 4000000000 False (Some (sample_status False 79)),
              PollStatus 4000000001 False (Some (sample_status True 90))]
   in row_keys (outputs power_step power_new ops) = [(Some False, None, Some 7)]"
proof -
  let ?ops = "[PollStatus 0 False (Some (sample_status True 88)),
              PollStatus 2000000000 False (Some (sample_status True 81)),
              PollStatus 4000000000 False (Some (sample_status False 79)),
              PollStatus 4000000001 False (Some (sample_status True 90))]"
  have "ReseedPower \<notin> set ?ops" by simp
  note changes = status_rows_are_the_changes [OF this]
  have "sampled_keys power_new ?ops =
      [(Some True, None, Some 8), (Some True, None, Some 8), (Some False, None, Some 7)]"
    by (simp add: poll_status_def status_due_def power_new_def status_key_of_def sample_status_def
        STATUS_SAMPLE_INTERVAL_def time_defs Let_def)
  then show ?thesis unfolding Let_def changes by simp
qed

end
