(* ===== verification/Store_Flush.thy ===== *)
theory Store_Flush
  imports Capture_Controls "HOL-Library.Sublist"
begin

text \<open>
  Committing a batch (crates/gilbreth-store/src/lib.rs): the insert transaction, the bounded
  retry of a busy database and the flush that empties the batch and accounts for its rows.
  SQLite is a parameter: what the transaction's begin, each row and the commit answer at each
  attempt, and what the stop token and the retry sleep answer between attempts.
\<close>

section \<open>The database's answers\<close>

datatype sqlite_error = DatabaseBusy | DatabaseLocked | OperationInterrupted | OtherError

text \<open>What one row of a transaction comes to: inserted, skipped, or an error that ends it.\<close>

datatype row_outcome = RowInserted | RowSkipped | RowAborts sqlite_error

record insert_report =
  i_inserted :: nat
  i_skipped :: nat

record 'row sqlite =
  sq_begin :: "nat \<Rightarrow> sqlite_error option"
  sq_row :: "nat \<Rightarrow> 'row \<Rightarrow> row_outcome"
  sq_commit :: "nat \<Rightarrow> sqlite_error option"
  sq_cancelled :: "nat \<Rightarrow> bool"
  sq_slept :: "nat \<Rightarrow> bool"

fun is_sqlite_busy_or_locked :: "sqlite_error \<Rightarrow> bool" where
  "is_sqlite_busy_or_locked DatabaseBusy = True"
| "is_sqlite_busy_or_locked DatabaseLocked = True"
| "is_sqlite_busy_or_locked _ = False"

fun is_sqlite_interrupted :: "sqlite_error \<Rightarrow> bool" where
  "is_sqlite_interrupted OperationInterrupted = True"
| "is_sqlite_interrupted _ = False"

text \<open>
  One event row: an envelope that does not serialise is skipped, a busy or interrupted
  statement ends the transaction, any other failed statement is skipped.
\<close>

definition event_row_outcome ::
    "(event_envelope \<Rightarrow> bool) \<Rightarrow> (event_envelope \<Rightarrow> sqlite_error option) \<Rightarrow> event_envelope \<Rightarrow> row_outcome"
where
  "event_row_outcome serialises execute event =
     (if \<not> serialises event then RowSkipped
      else case execute event of
             None \<Rightarrow> RowInserted
           | Some error \<Rightarrow>
               if is_sqlite_busy_or_locked error \<or> is_sqlite_interrupted error
               then RowAborts error else RowSkipped)"

text \<open>
  One action row: the recording must be open, the selector and payload must serialise and pass
  the value-free guard, the selector is interned, marked and looked up, the row inserted and
  the recording's count bumped.  Statements whose error the code propagates end the
  transaction whatever the error.
\<close>

record action_replies =
  ar_recording_open :: "sqlite_error + bool"
  ar_serialises :: bool
  ar_value_free :: bool
  ar_intern_selector :: "sqlite_error option"
  ar_mark_has_name :: "sqlite_error option"
  ar_select_selector :: "sqlite_error option"
  ar_insert_action :: "sqlite_error option"
  ar_bump_count :: "sqlite_error option"

definition propagates :: "sqlite_error \<Rightarrow> bool" where
  "propagates error \<longleftrightarrow> is_sqlite_busy_or_locked error \<or> is_sqlite_interrupted error"

definition action_row_outcome :: "(stamped_action \<Rightarrow> action_replies) \<Rightarrow> stamped_action \<Rightarrow> row_outcome" where
  "action_row_outcome replies action =
     (let r = replies action in
      case ar_recording_open r of
        Inl error \<Rightarrow> RowAborts error
      | Inr False \<Rightarrow> RowSkipped
      | Inr True \<Rightarrow>
          if \<not> ar_serialises r then RowSkipped
          else if \<not> ar_value_free r then RowSkipped
          else case ar_intern_selector r of
            Some error \<Rightarrow> if propagates error then RowAborts error else RowSkipped
          | None \<Rightarrow>
              (case (if a_has_name action then ar_mark_has_name r else None) of
                 Some error \<Rightarrow> RowAborts error
               | None \<Rightarrow>
                   (case ar_select_selector r of
                      Some error \<Rightarrow> if propagates error then RowAborts error else RowSkipped
                    | None \<Rightarrow>
                        (case ar_insert_action r of
                           Some error \<Rightarrow> if propagates error then RowAborts error else RowSkipped
                         | None \<Rightarrow>
                             (case ar_bump_count r of
                                Some error \<Rightarrow> RowAborts error | None \<Rightarrow> RowInserted)))))"

section \<open>One transaction\<close>

text \<open>The row loop: the report, and the rows inserted, which only a commit makes durable.\<close>

fun insert_loop ::
    "('row \<Rightarrow> row_outcome) \<Rightarrow> insert_report \<Rightarrow> 'row list
     \<Rightarrow> sqlite_error + insert_report \<times> 'row list" where
  "insert_loop outcome report [] = Inr (report, [])"
| "insert_loop outcome report (row # rows) =
     (case outcome row of
        RowAborts error \<Rightarrow> Inl error
      | RowSkipped \<Rightarrow> insert_loop outcome (report\<lparr>i_skipped := i_skipped report + 1\<rparr>) rows
      | RowInserted \<Rightarrow>
          (case insert_loop outcome (report\<lparr>i_inserted := i_inserted report + 1\<rparr>) rows of
             Inl error \<Rightarrow> Inl error
           | Inr (report', kept) \<Rightarrow> Inr (report', row # kept)))"

definition insert_rows ::
    "'row sqlite \<Rightarrow> nat \<Rightarrow> 'row list \<Rightarrow> sqlite_error + insert_report \<times> 'row list" where
  "insert_rows db attempt rows =
     (let report = \<lparr>i_inserted = 0, i_skipped = 0\<rparr> in
      if rows = [] then Inr (report, [])
      else case sq_begin db attempt of
             Some error \<Rightarrow> Inl error
           | None \<Rightarrow>
               (case insert_loop (sq_row db attempt) report rows of
                  Inl error \<Rightarrow> Inl error
                | Inr result \<Rightarrow>
                    (case sq_commit db attempt of Some error \<Rightarrow> Inl error | None \<Rightarrow> Inr result)))"

section \<open>Retry\<close>

definition SQLITE_BUSY_RETRY_ATTEMPTS :: nat where "SQLITE_BUSY_RETRY_ATTEMPTS = 12"

text \<open>
  The loop of the event and of the action flush.  The retry delay is the release build's 250
  ms, so the sleep always runs; \<open>busy_attempts\<close> numbers the attempts from zero.
\<close>

function insert_batch_with_retry ::
    "'row sqlite \<Rightarrow> 'row list \<Rightarrow> nat \<Rightarrow> sqlite_error + insert_report \<times> 'row list" where
  "insert_batch_with_retry db batch busy_attempts =
     (case insert_rows db busy_attempts batch of
        Inr result \<Rightarrow> Inr result
      | Inl error \<Rightarrow>
          if is_sqlite_busy_or_locked error then
            if busy_attempts \<ge> SQLITE_BUSY_RETRY_ATTEMPTS then Inl error
            else if \<not> sq_slept db busy_attempts then Inl error
            else insert_batch_with_retry db batch (busy_attempts + 1)
          else if sq_cancelled db busy_attempts \<and> is_sqlite_interrupted error then
            if busy_attempts \<ge> SQLITE_BUSY_RETRY_ATTEMPTS then Inl error
            else insert_batch_with_retry db batch (busy_attempts + 1)
          else Inl error)"
  by pat_completeness auto

termination
  by (relation "measure (\<lambda>(db, batch, busy). SQLITE_BUSY_RETRY_ATTEMPTS - busy)") auto

declare insert_batch_with_retry.simps [simp del]

section \<open>Flush\<close>

record writer_report =
  wr_events_written :: nat
  wr_events_skipped :: nat
  wr_actions_written :: nat
  wr_actions_skipped :: nat

text \<open>The batch, the rows the database holds and the running report.\<close>

definition flush_batch ::
    "event_envelope sqlite \<Rightarrow> event_envelope list \<Rightarrow> event_envelope list \<Rightarrow> writer_report
     \<Rightarrow> event_envelope list \<times> event_envelope list \<times> writer_report" where
  "flush_batch db stored batch report =
     (if batch = [] then (stored, batch, report)
      else case insert_batch_with_retry db batch 0 of
             Inr (inserted, kept) \<Rightarrow>
               (stored @ kept, [],
                report\<lparr>wr_events_written := wr_events_written report + i_inserted inserted,
                       wr_events_skipped := wr_events_skipped report + i_skipped inserted\<rparr>)
           | Inl error \<Rightarrow>
               (stored, [],
                report\<lparr>wr_events_skipped := wr_events_skipped report + length batch\<rparr>))"

definition flush_action_batch ::
    "stamped_action sqlite \<Rightarrow> stamped_action list \<Rightarrow> stamped_action list \<Rightarrow> writer_report
     \<Rightarrow> stamped_action list \<times> stamped_action list \<times> writer_report" where
  "flush_action_batch db stored batch report =
     (if batch = [] then (stored, batch, report)
      else case insert_batch_with_retry db batch 0 of
             Inr (inserted, kept) \<Rightarrow>
               (stored @ kept, [],
                report\<lparr>wr_actions_written := wr_actions_written report + i_inserted inserted,
                       wr_actions_skipped := wr_actions_skipped report + i_skipped inserted\<rparr>)
           | Inl error \<Rightarrow>
               (stored, [],
                report\<lparr>wr_actions_skipped := wr_actions_skipped report + length batch\<rparr>))"

section \<open>Lemmas\<close>

lemma insert_loop_counts:
  "insert_loop outcome report rows = Inr (report', kept) \<Longrightarrow>
     i_inserted report' = i_inserted report + length kept \<and>
     i_inserted report' + i_skipped report' = i_inserted report + i_skipped report + length rows \<and>
     kept = filter (\<lambda>row. outcome row = RowInserted) rows"
proof (induction outcome report rows arbitrary: report' kept rule: insert_loop.induct)
  case (2 outcome report row rows)
  then show ?case by (cases "outcome row") (auto split: sum.splits)
qed simp

lemma insert_rows_counts:
  assumes "insert_rows db attempt rows = Inr (report, kept)"
  shows "i_inserted report = length kept" and "i_inserted report + i_skipped report = length rows"
    and "kept = filter (\<lambda>row. sq_row db attempt row = RowInserted) rows"
proof -
  have "insert_loop (sq_row db attempt) \<lparr>i_inserted = 0, i_skipped = 0\<rparr> rows = Inr (report, kept)"
    using assms by (auto simp: insert_rows_def Let_def split: if_splits option.splits sum.splits)
  note counts = insert_loop_counts [OF this]
  from counts show "kept = filter (\<lambda>row. sq_row db attempt row = RowInserted) rows" by blast
  from counts [THEN conjunct1] show "i_inserted report = length kept" by simp
  from counts [THEN conjunct2, THEN conjunct1]
  show "i_inserted report + i_skipped report = length rows" by simp
qed

text \<open>An attempt after which the loop tries again.\<close>

definition retries :: "'row sqlite \<Rightarrow> 'row list \<Rightarrow> nat \<Rightarrow> bool" where
  "retries db batch n \<longleftrightarrow>
     (case insert_rows db n batch of
        Inr _ \<Rightarrow> False
      | Inl error \<Rightarrow> (is_sqlite_busy_or_locked error \<and> sq_slept db n) \<or>
          (\<not> is_sqlite_busy_or_locked error \<and> sq_cancelled db n \<and> is_sqlite_interrupted error))"

lemma retry_step:
  "insert_batch_with_retry db batch n =
     (if retries db batch n \<and> n < SQLITE_BUSY_RETRY_ATTEMPTS
      then insert_batch_with_retry db batch (Suc n) else insert_rows db n batch)"
  by (subst insert_batch_with_retry.simps)
     (auto simp: retries_def split: sum.splits)

lemma retry_reaches:
  assumes "n \<le> SQLITE_BUSY_RETRY_ATTEMPTS"
  shows "\<exists>k. n \<le> k \<and> k \<le> SQLITE_BUSY_RETRY_ATTEMPTS \<and> (\<forall>j. n \<le> j \<and> j < k \<longrightarrow> retries db batch j) \<and>
      (k = SQLITE_BUSY_RETRY_ATTEMPTS \<or> \<not> retries db batch k) \<and>
      insert_batch_with_retry db batch n = insert_rows db k batch"
  using assms
proof (induction "SQLITE_BUSY_RETRY_ATTEMPTS - n" arbitrary: n)
  case 0
  then show ?case using retry_step [of db batch n] by (intro exI [of _ n]) auto
next
  case (Suc m)
  show ?case
  proof (cases "retries db batch n")
    case True
    have "m = SQLITE_BUSY_RETRY_ATTEMPTS - Suc n" "Suc n \<le> SQLITE_BUSY_RETRY_ATTEMPTS"
      using Suc.hyps(2) by simp_all
    from Suc.hyps(1) [OF this] obtain k where k: "Suc n \<le> k" "k \<le> SQLITE_BUSY_RETRY_ATTEMPTS"
      "\<forall>j. Suc n \<le> j \<and> j < k \<longrightarrow> retries db batch j"
      "k = SQLITE_BUSY_RETRY_ATTEMPTS \<or> \<not> retries db batch k"
      "insert_batch_with_retry db batch (Suc n) = insert_rows db k batch" by blast
    have "\<forall>j. n \<le> j \<and> j < k \<longrightarrow> retries db batch j"
      using True k(3) by (metis Suc_leI le_neq_implies_less)
    with k True Suc.hyps(2) show ?thesis
      using retry_step [of db batch n] by (intro exI [of _ k]) auto
  qed (use Suc retry_step [of db batch n] in \<open>intro exI [of _ n]; auto\<close>)
qed

text \<open>
  C39 (\<open>insert_batch_with_retry\<close>): the flush's retry is bounded and returns.  Its result is the
  answer of one attempt, at most the thirteenth: every earlier attempt asked for a retry, and
  that one did not, unless it was the last.
\<close>

theorem retry_is_bounded:
  "\<exists>k \<le> SQLITE_BUSY_RETRY_ATTEMPTS.
     insert_batch_with_retry db batch 0 = insert_rows db k batch \<and>
     list_all (retries db batch) [0..<k] \<and>
     (retries db batch k \<longrightarrow> k = SQLITE_BUSY_RETRY_ATTEMPTS)"
  using retry_reaches [of 0 db batch] by (auto simp: list_all_iff)

definition busy_twice :: "nat sqlite" where
  "busy_twice = \<lparr>sq_begin = (\<lambda>n. if n < 2 then Some DatabaseBusy else None),
     sq_row = (\<lambda>_ _. RowInserted), sq_commit = (\<lambda>_. None), sq_cancelled = (\<lambda>_. False),
     sq_slept = (\<lambda>_. True)\<rparr>"

theorem retry_is_bounded_witness:
  "insert_batch_with_retry busy_twice [7] 0 = Inr (\<lparr>i_inserted = 1, i_skipped = 0\<rparr>, [7])"
proof -
  obtain k where k: "k \<le> SQLITE_BUSY_RETRY_ATTEMPTS"
    "insert_batch_with_retry busy_twice [7] 0 = insert_rows busy_twice k [7]"
    "retries busy_twice [7] k \<longrightarrow> k = SQLITE_BUSY_RETRY_ATTEMPTS"
    using retry_is_bounded [of busy_twice "[7]"] by blast
  have "\<not> k < 2"
  proof
    assume "k < 2"
    then have "retries busy_twice [7] k" by (simp add: retries_def insert_rows_def busy_twice_def)
    with k(3) \<open>k < 2\<close> show False by (simp add: SQLITE_BUSY_RETRY_ATTEMPTS_def)
  qed
  then show ?thesis unfolding k(2) by (simp add: insert_rows_def busy_twice_def Let_def)
qed

text \<open>A flush empties the batch and accounts for each of its rows, written or skipped.\<close>

lemma retry_result:
  assumes "insert_batch_with_retry db batch 0 = Inr (report, kept)"
  shows "i_inserted report = length kept" and "i_inserted report + i_skipped report = length batch"
    and "subseq kept batch"
proof -
  obtain k where "insert_rows db k batch = Inr (report, kept)"
    using assms retry_reaches [of 0 db batch] by auto
  from insert_rows_counts [OF this]
  show "i_inserted report = length kept" "i_inserted report + i_skipped report = length batch"
    "subseq kept batch" by simp_all
qed

lemma flush_batch_counts:
  assumes "flush_batch db stored batch report = (stored', batch', report')"
  shows "batch' = []" and "\<exists>kept. stored' = stored @ kept \<and> subseq kept batch"
    and "wr_events_written report' + wr_events_skipped report'
          = wr_events_written report + wr_events_skipped report + length batch"
    and "length stored' + wr_events_written report = length stored + wr_events_written report'"
    and "wr_actions_written report' = wr_actions_written report"
    and "wr_actions_skipped report' = wr_actions_skipped report"
  using assms
  by (auto simp: flush_batch_def split: if_splits sum.splits dest: retry_result)

lemma flush_action_batch_counts:
  assumes "flush_action_batch db stored batch report = (stored', batch', report')"
  shows "batch' = []" and "\<exists>kept. stored' = stored @ kept \<and> subseq kept batch"
    and "wr_actions_written report' + wr_actions_skipped report'
          = wr_actions_written report + wr_actions_skipped report + length batch"
    and "length stored' + wr_actions_written report = length stored + wr_actions_written report'"
    and "wr_events_written report' = wr_events_written report"
    and "wr_events_skipped report' = wr_events_skipped report"
  using assms
  by (auto simp: flush_action_batch_def split: if_splits sum.splits dest: retry_result)

end
