(* ===== verification/Open_Focus.thy ===== *)
theory Open_Focus
  imports Clock
begin

text \<open>
  The writer's open-focus segment (crates/gilbreth-store/src/lib.rs): the segment mirrored
  from the stored stream, the single \<open>open_focus\<close> database row the beat writes, and the
  repair that turns a row left by a crash into one recovered event.  Whether a database
  statement succeeds is an argument of the operation that issues it.
\<close>

section \<open>State and operations\<close>

record open_segment =
  os_session_id :: int
  os_exe :: string
  os_started_ts :: int

record open_focus_state =
  of_segment :: "open_segment option"
  of_row_written :: bool

text \<open>The database row; the table holds at most one.\<close>

record open_focus_row =
  or_session_id :: int
  or_exe :: string
  or_started_ts :: int
  or_high_water_ts :: int

definition open_focus_default :: open_focus_state where
  "open_focus_default = \<lparr>of_segment = None, of_row_written = False\<rparr>"

definition exe_basename :: "string \<Rightarrow> string" where
  "exe_basename path =
     (let name = after_last path_sep path in if name = [] then path else name)"

definition clear_open_focus ::
    "bool \<Rightarrow> open_focus_state \<Rightarrow> open_focus_row option \<Rightarrow> open_focus_state \<times> open_focus_row option"
where
  "clear_open_focus delete_ok state row =
     (let state = state\<lparr>of_segment := None\<rparr> in
      if of_row_written state then
        if delete_ok then (state\<lparr>of_row_written := False\<rparr>, None) else (state, row)
      else (state, row))"

definition note_open_focus_event ::
    "bool \<Rightarrow> open_focus_state \<Rightarrow> open_focus_row option \<Rightarrow> event_envelope
     \<Rightarrow> open_focus_state \<times> open_focus_row option" where
  "note_open_focus_event delete_ok state row event =
     (case e_payload event of
        FocusChanged window prev _ _ _ \<Rightarrow>
          if prev = Some window then clear_open_focus delete_ok state row
          else
            (let (state, row) =
                   (if of_row_written state then clear_open_focus delete_ok state row
                    else (state, row))
             in (state\<lparr>of_segment := Some \<lparr>os_session_id = e_session_id event,
                         os_exe = exe_basename (w_exe window),
                         os_started_ts = e_ts_unix_ms event\<rparr>\<rparr>, row))
      | PowerSuspend _ \<Rightarrow> clear_open_focus delete_ok state row
      | SessionLock _ \<Rightarrow> clear_open_focus delete_ok state row
      | SessionDisconnect _ _ \<Rightarrow> clear_open_focus delete_ok state row
      | CapturePaused \<Rightarrow> clear_open_focus delete_ok state row
      | _ \<Rightarrow> (state, row))"

definition beat_open_focus ::
    "bool \<Rightarrow> sequencer \<Rightarrow> instant \<Rightarrow> open_focus_state \<Rightarrow> open_focus_row option
     \<Rightarrow> open_focus_state \<times> open_focus_row option" where
  "beat_open_focus upsert_ok seq now state row =
     (case of_segment state of
        None \<Rightarrow> (state, row)
      | Some segment \<Rightarrow>
          (let high_water = max (timestamp_for seq now) (os_started_ts segment) in
           if upsert_ok then
             (state\<lparr>of_row_written := True\<rparr>,
              Some \<lparr>or_session_id = os_session_id segment, or_exe = os_exe segment,
                    or_started_ts = os_started_ts segment, or_high_water_ts = high_water\<rparr>)
           else (state, row)))"

text \<open>
  The repair transaction at the next open.  \<open>session_ended\<close> is the query of the session's end
  (\<open>None\<close> without such a session) and \<open>max_seq\<close> its highest sequence number; the result is
  the row left in the table and the synthesized event.
\<close>

definition repair_open_focus ::
    "bool option \<Rightarrow> int \<Rightarrow> open_focus_row option \<Rightarrow> open_focus_row option \<times> event_envelope option"
where
  "repair_open_focus session_ended max_seq row =
     (case row of
        None \<Rightarrow> (None, None)
      | Some r \<Rightarrow>
          if session_ended \<noteq> Some False then (None, None)
          else
            let high_water_ts = max (or_high_water_ts r) (or_started_ts r);
                recovered_ms = high_water_ts - or_started_ts r;
                next_seq = max_seq + 1;
                window = \<lparr>w_hwnd = 0, w_exe = or_exe r, w_title = [], w_pid = 0\<rparr>
            in (None,
                Some \<lparr>e_schema_version = SCHEMA_VERSION, e_session_id = or_session_id r,
                      e_seq = (if next_seq < 0 then u64_max else nat next_seq),
                      e_ts_unix_ms = high_water_ts, e_source = source.Foreground,
                      e_is_sensitive = False,
                      e_payload = FocusChanged window (Some window)
                                    (if recovered_ms < 0 then 0 else nat recovered_ms) 0 True\<rparr>))"

section \<open>Runs\<close>

datatype open_focus_op =
    NoteEvent event_envelope
  | ClearFocus
  | Beat sequencer instant bool

text \<open>Deletes are assumed to succeed in a run; a failed upsert is the flag of its beat.\<close>

type_synonym open_focus = "open_focus_state \<times> open_focus_row option"

fun open_focus_step :: "open_focus \<Rightarrow> open_focus_op \<Rightarrow> open_focus \<times> unit list" where
  "open_focus_step (state, row) (NoteEvent event) = (note_open_focus_event True state row event, [])"
| "open_focus_step (state, row) ClearFocus = (clear_open_focus True state row, [])"
| "open_focus_step (state, row) (Beat seq now ok) = (beat_open_focus ok seq now state row, [])"

lemmas open_focus_defs = clear_open_focus_def note_open_focus_event_def beat_open_focus_def

text \<open>The row in the database is a mark of the open segment, and a written row is remembered.\<close>

definition row_of_segment :: "open_focus \<Rightarrow> bool" where
  "row_of_segment s = (case snd s of
     None \<Rightarrow> True
   | Some row \<Rightarrow> of_row_written (fst s) \<and>
       (case of_segment (fst s) of
          None \<Rightarrow> False
        | Some segment \<Rightarrow>
            or_session_id row = os_session_id segment \<and> or_exe row = os_exe segment \<and>
            or_started_ts row = os_started_ts segment \<and>
            os_started_ts segment \<le> or_high_water_ts row))"

lemma step_row_of_segment: "row_of_segment s \<Longrightarrow> row_of_segment (fst (open_focus_step s op))"
  by (cases s; cases op)
     (auto simp: row_of_segment_def open_focus_defs Let_def
       split: option.splits event_payload.split if_splits)

interpretation open_focus: machine open_focus_step row_of_segment "\<lambda>_ _. True"
  by unfold_locales (simp_all add: step_row_of_segment)

text \<open>The open segment as the stored stream tells it, read backwards.\<close>

fun segment_event :: "open_focus_op \<Rightarrow> open_segment option option" where
  "segment_event ClearFocus = Some None"
| "segment_event (Beat _ _ _) = None"
| "segment_event (NoteEvent event) =
     (case e_payload event of
        FocusChanged window prev _ _ _ \<Rightarrow>
          Some (if prev = Some window then None
                else Some \<lparr>os_session_id = e_session_id event,
                           os_exe = exe_basename (w_exe window),
                           os_started_ts = e_ts_unix_ms event\<rparr>)
      | PowerSuspend _ \<Rightarrow> Some None
      | SessionLock _ \<Rightarrow> Some None
      | SessionDisconnect _ _ \<Rightarrow> Some None
      | CapturePaused \<Rightarrow> Some None
      | _ \<Rightarrow> None)"

definition stream_segment :: "open_focus_op list \<Rightarrow> open_segment option" where
  "stream_segment ops =
     (case List.map_filter segment_event (rev ops) of [] \<Rightarrow> None | v # _ \<Rightarrow> v)"

lemma step_segment:
  "of_segment (fst (fst (open_focus_step s op))) =
     (case segment_event op of None \<Rightarrow> of_segment (fst s) | Some v \<Rightarrow> v)"
  by (cases s; cases op)
     (auto simp: open_focus_defs Let_def split: option.split event_payload.split)

lemma final_segment:
  "of_segment (fst (final open_focus_step (open_focus_default, None) ops)) = stream_segment ops"
proof (induction ops rule: rev_induct)
  case (snoc op ops)
  then show ?case
    by (simp add: step_segment stream_segment_def List.map_filter_def split: option.split
        del: open_focus_step.simps segment_event.simps)
qed (simp add: stream_segment_def open_focus_default_def List.map_filter_def)


end
