(* ===== verification/Writer_Heartbeat.thy ===== *)
theory Writer_Heartbeat
  imports Clock Capture_Controls
begin

text \<open>
  The writer's heartbeat (crates/gilbreth-store/src/lib.rs): which event was last, the quiet
  periods that explain a gap, the stale warning, and the durable drop counters whose totals
  survive restarts and restart from zero at a secure erase.
\<close>

section \<open>State\<close>

text \<open>One durable counter: the heartbeat keeps one for capture drops and one for stale rows.\<close>

record durable_counter =
  du_base :: "nat option"
  du_persisted :: "nat option"
  du_offset :: nat
  du_reset_pending :: bool

record writer_heartbeat =
  hb_last_event_at :: "instant option"
  hb_last_event_kind :: "string option"
  hb_last_gap_explainer_at :: "instant option"
  hb_last_gap_explainer_kind :: "string option"
  hb_main_db_size_warned :: bool
  hb_capture_dropped :: durable_counter
  hb_stale_pre_erase_dropped :: durable_counter
  hb_session_locked :: bool
  hb_session_disconnected :: bool
  hb_power_suspended :: bool

definition durable_default :: durable_counter where
  "durable_default =
     \<lparr>du_base = None, du_persisted = None, du_offset = 0, du_reset_pending = False\<rparr>"

definition heartbeat_default :: writer_heartbeat where
  "heartbeat_default =
     \<lparr>hb_last_event_at = None, hb_last_event_kind = None, hb_last_gap_explainer_at = None,
      hb_last_gap_explainer_kind = None, hb_main_db_size_warned = False,
      hb_capture_dropped = durable_default, hb_stale_pre_erase_dropped = durable_default,
      hb_session_locked = False, hb_session_disconnected = False, hb_power_suspended = False\<rparr>"

section \<open>Marking events\<close>

definition event_kind_explains_heartbeat_gap :: "string \<Rightarrow> bool" where
  "event_kind_explains_heartbeat_gap kind \<longleftrightarrow>
     kind \<in> {''power_suspend'', ''power_resume'', ''power_boundary_recovered'', ''session_lock'',
             ''session_unlock'', ''session_connect'', ''session_disconnect'',
             ''sensitive_context_entered'', ''sensitive_context_exited''}"

definition mark_event_at :: "writer_heartbeat \<Rightarrow> string \<Rightarrow> instant \<Rightarrow> writer_heartbeat" where
  "mark_event_at hb kind now =
     (let hb = hb\<lparr>hb_last_event_at := Some now, hb_last_event_kind := Some kind\<rparr>;
          hb = (if kind = ''session_lock'' then hb\<lparr>hb_session_locked := True\<rparr>
                else if kind = ''session_unlock'' then hb\<lparr>hb_session_locked := False\<rparr>
                else if kind = ''session_disconnect'' then hb\<lparr>hb_session_disconnected := True\<rparr>
                else if kind = ''session_connect'' then hb\<lparr>hb_session_disconnected := False\<rparr>
                else if kind = ''power_suspend'' then hb\<lparr>hb_power_suspended := True\<rparr>
                else if kind = ''power_resume'' \<or> kind = ''power_boundary_recovered''
                then hb\<lparr>hb_power_suspended := False\<rparr>
                else hb)
      in if event_kind_explains_heartbeat_gap kind
         then hb\<lparr>hb_last_gap_explainer_at := Some now, hb_last_gap_explainer_kind := Some kind\<rparr>
         else hb)"

definition in_quiet_period :: "writer_heartbeat \<Rightarrow> bool" where
  "in_quiet_period hb \<longleftrightarrow>
     hb_session_locked hb \<or> hb_session_disconnected hb \<or> hb_power_suspended hb"

definition last_event_age_ms_at :: "writer_heartbeat \<Rightarrow> instant \<Rightarrow> int" where
  "last_event_age_ms_at hb now =
     (case hb_last_event_at hb of
        None \<Rightarrow> -1 | Some last_event_at \<Rightarrow> duration_ms_i64 (duration_since now last_event_at))"

record heartbeat_stale_warning =
  sw_last_event_age_ms :: int
  sw_last_event_kind :: "string option"

definition stale_warning_at ::
    "writer_heartbeat \<Rightarrow> instant \<Rightarrow> duration option \<Rightarrow> heartbeat_stale_warning option" where
  "stale_warning_at hb now warn_after =
     (case warn_after of
        None \<Rightarrow> None
      | Some warn_after \<Rightarrow>
          (case hb_last_event_at hb of
             None \<Rightarrow> None
           | Some last_event_at \<Rightarrow>
               if duration_since now last_event_at \<le> warn_after then None
               else if in_quiet_period hb then None
               else if (case hb_last_gap_explainer_at hb of
                          Some explainer_at \<Rightarrow> explainer_at \<ge> last_event_at | None \<Rightarrow> False)
               then None
               else Some \<lparr>sw_last_event_age_ms = last_event_age_ms_at hb now,
                          sw_last_event_kind = hb_last_event_kind hb\<rparr>))"

section \<open>The warning against the history\<close>

definition marked :: "(string \<times> instant) list \<Rightarrow> writer_heartbeat" where
  "marked history = foldl (\<lambda>hb (kind, now). mark_event_at hb kind now) heartbeat_default history"

text \<open>The last of a set of kinds, and whether it opens the period.\<close>

definition period_open :: "string \<Rightarrow> string set \<Rightarrow> (string \<times> instant) list \<Rightarrow> bool" where
  "period_open opens closes history =
     (case filter (\<lambda>kind. kind = opens \<or> kind \<in> closes) (rev (map fst history)) of
        [] \<Rightarrow> False | kind # _ \<Rightarrow> kind = opens)"

definition quiet_history :: "(string \<times> instant) list \<Rightarrow> bool" where
  "quiet_history history \<longleftrightarrow>
     period_open ''session_lock'' {''session_unlock''} history \<or>
     period_open ''session_disconnect'' {''session_connect''} history \<or>
     period_open ''power_suspend'' {''power_resume'', ''power_boundary_recovered''} history"

definition explained :: "(string \<times> instant) list \<Rightarrow> bool" where
  "explained history \<longleftrightarrow>
     list_ex (\<lambda>(kind, at). event_kind_explains_heartbeat_gap kind \<and> at \<ge> snd (last history)) history"

lemma marked_simps [simp]:
  "marked [] = heartbeat_default"
  "marked (history @ [(kind, at)]) = mark_event_at (marked history) kind at"
  by (simp_all add: marked_def)

lemma marked_quiet: "in_quiet_period (marked history) = quiet_history history"
proof -
  have "hb_session_locked (marked history) = period_open ''session_lock'' {''session_unlock''} history
      \<and> hb_session_disconnected (marked history)
          = period_open ''session_disconnect'' {''session_connect''} history
      \<and> hb_power_suspended (marked history)
          = period_open ''power_suspend'' {''power_resume'', ''power_boundary_recovered''} history"
  proof (induction history rule: rev_induct)
    case (snoc h history)
    obtain kind at where "h = (kind, at)" by fastforce
    with snoc show ?case by (auto simp: mark_event_at_def period_open_def Let_def)
  qed (simp add: heartbeat_default_def period_open_def)
  then show ?thesis by (simp add: in_quiet_period_def quiet_history_def)
qed

lemma marked_last:
  "history \<noteq> [] \<Longrightarrow> hb_last_event_at (marked history) = Some (snd (last history)) \<and>
     hb_last_event_kind (marked history) = Some (fst (last history))"
  by (induction history rule: rev_induct) (auto simp: mark_event_at_def Let_def split_def)

lemma marked_explainer:
  "sorted (map snd history) \<Longrightarrow>
   (case hb_last_gap_explainer_at (marked history) of
      Some explainer_at \<Rightarrow>
        (\<exists>h \<in> set history. event_kind_explains_heartbeat_gap (fst h) \<and> snd h = explainer_at) \<and>
        (\<forall>h \<in> set history. event_kind_explains_heartbeat_gap (fst h) \<longrightarrow> snd h \<le> explainer_at)
    | None \<Rightarrow> \<forall>h \<in> set history. \<not> event_kind_explains_heartbeat_gap (fst h))"
proof (induction history rule: rev_induct)
  case (snoc h history)
  obtain kind at where "h = (kind, at)" by fastforce
  with snoc show ?case
    by (auto simp: mark_event_at_def Let_def sorted_append split: option.splits)
qed (simp add: heartbeat_default_def)

lemma explained_iff:
  assumes "sorted (map snd history)"
  shows "explained history \<longleftrightarrow>
     (case hb_last_gap_explainer_at (marked history) of
        Some explainer_at \<Rightarrow> explainer_at \<ge> snd (last history) | None \<Rightarrow> False)"
  using marked_explainer [OF assms]
  by (fastforce simp: explained_def list_ex_iff split_def split: option.splits)

text \<open>
  \<open>WriterHeartbeat::stale_warning_at\<close>: the stale warning tells the truth about the
  stored stream.  After events marked at non-decreasing instants it fires exactly when the
  gap since the last event exceeds the limit, no lock, disconnect or suspend is still open,
  and no event at the last instant explains the gap; and it reports that gap and event.
\<close>

theorem stale_warning_iff:
  assumes "history \<noteq> []" and "sorted (map snd history)"
  shows "stale_warning_at (marked history) now (Some limit) =
     (if now - snd (last history) > limit \<and> \<not> quiet_history history \<and> \<not> explained history
      then Some \<lparr>sw_last_event_age_ms = duration_ms_i64 (now - snd (last history)),
                 sw_last_event_kind = Some (fst (last history))\<rparr>
      else None)"
  using marked_last [OF assms(1)] marked_quiet [of history] explained_iff [OF assms(2)]
  by (auto simp: stale_warning_at_def last_event_age_ms_at_def duration_since_def)

theorem stale_warning_iff_witness:
  "stale_warning_at (marked [(''session_lock'', 5), (''process_started'', 6)]) 90 (Some 10) = None \<and>
   stale_warning_at (marked [(''session_lock'', 5), (''session_unlock'', 6), (''key'', 7)]) 90
     (Some 10) \<noteq> None"
proof -
  let ?h = "[(''session_lock'', 5), (''process_started'', 6)] :: (string \<times> instant) list"
  let ?k = "[(''session_lock'', 5), (''session_unlock'', 6), (''key'', 7)] :: (string \<times> instant) list"
  have "?h \<noteq> []" "sorted (map snd ?h)" "?k \<noteq> []" "sorted (map snd ?k)" by simp_all
  moreover have "quiet_history ?h" "\<not> quiet_history ?k" "\<not> explained ?k"
    by (simp_all add: quiet_history_def period_open_def explained_def
        event_kind_explains_heartbeat_gap_def)
  ultimately show ?thesis
    using stale_warning_iff [of ?h 90 10] stale_warning_iff [of ?k 90 10]
    by (simp del: marked_simps)
qed

section \<open>Durable counters\<close>

text \<open>
  \<open>persist_capture_events_dropped\<close> and \<open>persist_stale_pre_erase_rows_dropped\<close> have one body
  over their own fields, meta key and counter.  \<open>meta\<close> is the stored value (\<open>read_meta_u64\<close>
  reads a missing or malformed one as zero), \<open>execute_ok\<close> whether the upsert succeeds.
\<close>

definition read_meta_u64 :: "nat option \<Rightarrow> nat" where
  "read_meta_u64 meta = (case meta of Some value \<Rightarrow> value | None \<Rightarrow> 0)"

definition persist_durable ::
    "bool \<Rightarrow> nat \<Rightarrow> durable_counter \<Rightarrow> nat option \<Rightarrow> durable_counter \<times> nat option" where
  "persist_durable execute_ok counter du meta =
     (let du = (if du_reset_pending du
                then du\<lparr>du_reset_pending := False, du_offset := counter, du_base := Some 0,
                        du_persisted := None\<rparr>
                else du);
          base = (case du_base du of Some base \<Rightarrow> base | None \<Rightarrow> read_meta_u64 meta);
          du = du\<lparr>du_base := Some base\<rparr>;
          run_dropped = counter - du_offset du;
          new_total = sat_add_u64 base run_dropped
      in if du_persisted du = Some new_total then (du, meta)
         else if execute_ok then (du\<lparr>du_persisted := Some new_total\<rparr>, Some new_total)
         else (du, meta))"

definition persist_capture_events_dropped ::
    "bool \<Rightarrow> diagnostics_counters \<Rightarrow> writer_heartbeat \<Rightarrow> nat option
     \<Rightarrow> writer_heartbeat \<times> nat option" where
  "persist_capture_events_dropped execute_ok diagnostics hb meta =
     (let (du, meta) = persist_durable execute_ok (unat (dc_capture_events_dropped diagnostics))
                         (hb_capture_dropped hb) meta
      in (hb\<lparr>hb_capture_dropped := du\<rparr>, meta))"

definition persist_stale_pre_erase_rows_dropped ::
    "bool \<Rightarrow> diagnostics_counters \<Rightarrow> writer_heartbeat \<Rightarrow> nat option
     \<Rightarrow> writer_heartbeat \<times> nat option" where
  "persist_stale_pre_erase_rows_dropped execute_ok diagnostics hb meta =
     (let (du, meta) = persist_durable execute_ok
                         (unat (dc_stale_pre_erase_rows_dropped diagnostics))
                         (hb_stale_pre_erase_dropped hb) meta
      in (hb\<lparr>hb_stale_pre_erase_dropped := du\<rparr>, meta))"

text \<open>The rebase at the delete boundary of a secure erase, which also empties \<open>meta\<close>.\<close>

definition rebase_durable :: "nat \<Rightarrow> durable_counter \<Rightarrow> durable_counter" where
  "rebase_durable counter du =
     du\<lparr>du_offset := counter, du_base := Some 0, du_persisted := None, du_reset_pending := False\<rparr>"

datatype durable_op = DropOne | Persist bool | EraseMeta

text \<open>State: the in-memory counter, the heartbeat's half and the stored value.\<close>

type_synonym durable_state = "nat \<times> durable_counter \<times> nat option"

primrec durable_step :: "durable_op \<Rightarrow> durable_state \<Rightarrow> durable_state" where
  "durable_step DropOne s = (case s of (counter, du, meta) \<Rightarrow> (counter + 1, du, meta))"
| "durable_step (Persist ok) s =
     (case s of (counter, du, meta) \<Rightarrow> (counter, persist_durable ok counter du meta))"
| "durable_step EraseMeta s =
     (case s of (counter, du, meta) \<Rightarrow> (counter, rebase_durable counter du, None))"

definition durable_run :: "nat option \<Rightarrow> durable_op list \<Rightarrow> durable_state" where
  "durable_run meta ops = foldl (\<lambda>s op. durable_step op s) (0, durable_default, meta) ops"

text \<open>What the stored total means: drops since the last erase, on top of earlier runs if none.\<close>

fun dropped_total :: "nat option \<Rightarrow> durable_op list \<Rightarrow> nat" where
  "dropped_total meta [] = read_meta_u64 meta"
| "dropped_total meta (DropOne # ops) = Suc (dropped_total meta ops)"
| "dropped_total meta (Persist _ # ops) = dropped_total meta ops"
| "dropped_total meta (EraseMeta # ops) = 0"

definition durable_inv :: "nat option \<Rightarrow> nat \<Rightarrow> durable_state \<Rightarrow> bool" where
  "durable_inv meta0 dropped s \<longleftrightarrow>
     (case s of (counter, du, meta) \<Rightarrow>
       \<not> du_reset_pending du \<and> du_offset du \<le> counter \<and>
       (case du_base du of
          Some base \<Rightarrow> base + (counter - du_offset du) = dropped
        | None \<Rightarrow> meta = meta0 \<and> read_meta_u64 meta0 + (counter - du_offset du) = dropped) \<and>
       (case du_persisted du of Some value \<Rightarrow> meta = Some value | None \<Rightarrow> True))"

lemma durable_step_inv:
  "durable_inv meta0 (dropped_total meta0 ops) s \<Longrightarrow>
   durable_inv meta0 (dropped_total meta0 (op # ops)) (durable_step op s)"
  by (cases op)
     (auto simp: durable_inv_def persist_durable_def rebase_durable_def Let_def
       split: prod.splits option.splits if_splits)

lemma durable_run_inv: "durable_inv meta (dropped_total meta (rev ops)) (durable_run meta ops)"
proof (induction ops rule: rev_induct)
  case (snoc op ops)
  then show ?case by (simp add: durable_run_def durable_step_inv)
qed (simp add: durable_run_def durable_inv_def durable_default_def)

text \<open>
  \<open>persist_capture_events_dropped\<close>, \<open>persist_stale_pre_erase_rows_dropped\<close>: the stored
  total is honest.  After any sequence of drops, persists that may fail and secure erases, a
  successful persist leaves in \<open>meta\<close> the drops of the earlier runs plus those of this one,
  and after an erase only the drops since the last erase; the total saturates at \<open>u64::MAX\<close>.
\<close>

theorem persisted_drops_are_honest:
  "snd (snd (durable_run meta (ops @ [Persist True])))
     = Some (min u64_max (dropped_total meta (rev ops)))"
proof -
  obtain counter du stored where run: "durable_run meta ops = (counter, du, stored)"
    by (cases "durable_run meta ops") auto
  have "durable_inv meta (dropped_total meta (rev ops)) (counter, du, stored)"
    using durable_run_inv [of meta ops] by (simp add: run)
  moreover have "durable_run meta (ops @ [Persist True])
      = (counter, persist_durable True counter du stored)"
    using run by (simp add: durable_run_def)
  ultimately show ?thesis
    by (auto simp: durable_inv_def persist_durable_def sat_add_u64_def Let_def
        split: option.splits)
qed

end
