(* ===== verification/Writer_Queue.thy ===== *)
theory Writer_Queue
  imports Privacy_Policy Store_Flush Open_Focus Writer_Heartbeat
begin

text \<open>
  The writer's queue (crates/gilbreth-store/src/lib.rs): what happens to one captured event or
  one Record Routine action, from the stale-row gate and the exclusion boundary through
  sequencing and the remaining policy to the batch and its flush, and the commands that
  change the writer's state.  What the clock reads and what the database answers during one
  step is the environment record of that step; one step's clock readings are one value.
\<close>

section \<open>State\<close>

record writer_env =
  en_now :: instant
  en_utc_ms :: int
  en_events :: "event_envelope sqlite"
  en_actions :: "stamped_action sqlite"
  en_delete_ok :: bool
  en_persist_ok :: bool
  en_db_bytes :: nat

record writer_record_state =
  rs_active_record_session_id :: "int option"
  rs_paused_record_session_id :: "int option"
  rs_last_surfaced_request_id :: "int option"
  rs_cap_prompted_windows :: "int \<Rightarrow> int option"
  rs_excluded_gap_open :: bool

definition record_state_default :: writer_record_state where
  "record_state_default =
     \<lparr>rs_active_record_session_id = None, rs_paused_record_session_id = None,
      rs_last_surfaced_request_id = None, rs_cap_prompted_windows = Map.empty,
      rs_excluded_gap_open = False\<rparr>"

text \<open>
  The runtime borrows the store; the \<open>rt_stored\<close> fields and the two \<open>rt_meta\<close> values are the
  part of the database the writer's own operations change.
\<close>

record writer_runtime =
  rt_stored_events :: "event_envelope list"
  rt_stored_actions :: "stamped_action list"
  rt_stored_open_focus :: "open_focus_row option"
  rt_meta_capture_dropped :: "nat option"
  rt_meta_stale_dropped :: "nat option"
  rt_sequencer :: sequencer
  rt_policy :: policy
  rt_batch :: "event_envelope list"
  rt_action_batch :: "stamped_action list"
  rt_report :: writer_report
  rt_heartbeat :: writer_heartbeat
  rt_record_state :: writer_record_state
  rt_open_focus :: open_focus_state
  rt_diagnostics :: diagnostics_counters
  rt_panic_action_cutoff :: "(int \<times> instant) option"
  rt_erase_completion_boundary_ms :: "int option"
  rt_batch_size :: nat
  rt_timebase_drift_threshold_ms :: int

definition on_record_state ::
    "(writer_record_state \<Rightarrow> writer_record_state) \<Rightarrow> writer_runtime \<Rightarrow> writer_runtime" where
  "on_record_state f rt = rt\<lparr>rt_record_state := f (rt_record_state rt)\<rparr>"

section \<open>The panic fence\<close>

definition panic_arm :: "int \<Rightarrow> instant \<Rightarrow> (int \<times> instant) option \<Rightarrow> (int \<times> instant) option" where
  "panic_arm record_session_id captured_at current = Some (record_session_id, captured_at)"

definition panic_clear :: "int \<Rightarrow> (int \<times> instant) option \<Rightarrow> (int \<times> instant) option" where
  "panic_clear record_session_id current =
     (case current of
        Some (current_id, _) \<Rightarrow> if current_id = record_session_id then None else current
      | None \<Rightarrow> None)"

definition panic_rejects :: "(int \<times> instant) option \<Rightarrow> action_capture \<Rightarrow> bool" where
  "panic_rejects current action =
     (case current of
        Some (record_session_id, cutoff) \<Rightarrow>
          record_session_id = a_record_session_id action \<and> a_captured_at action \<ge> cutoff
      | None \<Rightarrow> False)"

section \<open>Events\<close>

definition capture_predates_erase_boundary :: "int \<Rightarrow> int \<Rightarrow> bool" where
  "capture_predates_erase_boundary capture_ts boundary_ms \<longleftrightarrow> capture_ts < boundary_ms"

definition resync_for_event_if_needed ::
    "sequencer \<Rightarrow> event_payload \<Rightarrow> instant \<Rightarrow> int \<Rightarrow> int \<Rightarrow> sequencer \<times> drift_correction option" where
  "resync_for_event_if_needed seq payload now_instant now_utc_ms threshold =
     (case payload of
        PowerResume _ _ \<Rightarrow> sequencer_resync seq now_instant now_utc_ms threshold
      | PowerBoundaryRecovered _ _ \<Rightarrow> sequencer_resync seq now_instant now_utc_ms threshold
      | _ \<Rightarrow> (seq, None))"

definition is_focus_change :: "event_payload \<Rightarrow> bool" where
  "is_focus_change payload = (case payload of FocusChanged _ _ _ _ _ \<Rightarrow> True | _ \<Rightarrow> False)"

definition stale_pre_erase :: "captured \<Rightarrow> writer_runtime \<Rightarrow> bool" where
  "stale_pre_erase captured rt =
     (case rt_erase_completion_boundary_ms rt of
        Some boundary_ms \<Rightarrow>
          capture_predates_erase_boundary
            (projected_timestamp_for (rt_sequencer rt) (c_captured_at captured)) boundary_ms
      | None \<Rightarrow> False)"

text \<open>The gap reset: a focus change to an allowed application ends an excluded run.\<close>

definition note_focus_for_gap :: "captured \<Rightarrow> writer_runtime \<Rightarrow> writer_runtime" where
  "note_focus_for_gap captured rt =
     (case c_payload captured of
        FocusChanged window _ _ _ _ \<Rightarrow>
          if \<not> excludes_exe (rt_policy rt) (w_exe window)
          then on_record_state (\<lambda>rs. rs\<lparr>rs_excluded_gap_open := False\<rparr>) rt else rt
      | _ \<Rightarrow> rt)"

text \<open>Up to the batch: the new runtime and the event to push, if the row survives.\<close>

definition admit_captured ::
    "writer_env \<Rightarrow> captured \<Rightarrow> writer_runtime \<Rightarrow> writer_runtime \<times> event_envelope option" where
  "admit_captured env captured rt =
     (if stale_pre_erase captured rt
      then (rt\<lparr>rt_diagnostics :=
                 fst (increment_stale_pre_erase_rows_dropped (rt_diagnostics rt))\<rparr>, None)
      else
        let rt = note_focus_for_gap captured rt;
            rt = rt\<lparr>rt_sequencer := fst (resync_for_event_if_needed (rt_sequencer rt)
                       (c_payload captured) (en_now env) (en_utc_ms env)
                       (rt_timebase_drift_threshold_ms rt))\<rparr>;
            was_focus_change = is_focus_change (c_payload captured);
            (policy, kept) = apply_exclusions_to_captured (rt_policy rt) captured;
            rt = rt\<lparr>rt_policy := policy\<rparr>
        in case kept of
             None \<Rightarrow>
               if was_focus_change then
                 (let (of_state, row) = clear_open_focus (en_delete_ok env) (rt_open_focus rt)
                                          (rt_stored_open_focus rt)
                  in (rt\<lparr>rt_open_focus := of_state, rt_stored_open_focus := row\<rparr>, None))
               else (rt, None)
           | Some captured \<Rightarrow>
               (let rt = rt\<lparr>rt_heartbeat := mark_event_at (rt_heartbeat rt)
                              (payload_kind (c_payload captured)) (en_now env)\<rparr>;
                    (seq, event) = stamp (rt_sequencer rt) captured;
                    (policy, event) = apply_after_exclusions (rt_policy rt) event;
                    (of_state, row) = note_open_focus_event (en_delete_ok env) (rt_open_focus rt)
                                        (rt_stored_open_focus rt) event
                in (rt\<lparr>rt_sequencer := seq, rt_policy := policy, rt_open_focus := of_state,
                       rt_stored_open_focus := row\<rparr>, Some event)))"

definition flush_events :: "writer_env \<Rightarrow> writer_runtime \<Rightarrow> writer_runtime" where
  "flush_events env rt =
     (let (stored, batch, report) =
            flush_batch (en_events env) (rt_stored_events rt) (rt_batch rt) (rt_report rt)
      in rt\<lparr>rt_stored_events := stored, rt_batch := batch, rt_report := report\<rparr>)"

definition flush_actions :: "writer_env \<Rightarrow> writer_runtime \<Rightarrow> writer_runtime" where
  "flush_actions env rt =
     (let (stored, batch, report) =
            flush_action_batch (en_actions env) (rt_stored_actions rt) (rt_action_batch rt)
              (rt_report rt)
      in rt\<lparr>rt_stored_actions := stored, rt_action_batch := batch, rt_report := report\<rparr>)"

definition flush_all_batches :: "writer_env \<Rightarrow> writer_runtime \<Rightarrow> writer_runtime" where
  "flush_all_batches env rt = flush_actions env (flush_events env rt)"

definition push_event :: "writer_env \<Rightarrow> event_envelope \<Rightarrow> writer_runtime \<Rightarrow> writer_runtime" where
  "push_event env event rt =
     (let rt = rt\<lparr>rt_batch := rt_batch rt @ [event]\<rparr>
      in if length (rt_batch rt) \<ge> rt_batch_size rt then flush_events env rt else rt)"

definition queue_captured :: "writer_env \<Rightarrow> captured \<Rightarrow> writer_runtime \<Rightarrow> writer_runtime" where
  "queue_captured env captured rt =
     (case admit_captured env captured rt of
        (rt, None) \<Rightarrow> rt
      | (rt, Some event) \<Rightarrow> push_event env event rt)"

section \<open>Actions\<close>

text \<open>The marker of an excluded run: nothing of the action but its instant and recording.\<close>

definition gap_capture :: "action_capture \<Rightarrow> action_capture" where
  "gap_capture action =
     \<lparr>a_action = \<lparr>aa_action_type = action_type.UiActionOther,
        aa_selector_path = \<lparr>s_backend = ''privacy_gap'', s_hops = []\<rparr>,
        aa_trust_basis = ScopedInvokeSender\<rparr>,
      a_record_session_id = a_record_session_id action, a_exe = None, a_is_sensitive = False,
      a_has_name = False, a_pattern_action = Some EXCLUDED_APP_GAP_PATTERN,
      a_framework = ''privacy_gap'', a_framework_class = framework_class.Unknown, a_depth = 0,
      a_leaf_rect = None, a_payload = action_payload.UiActionOther None None None,
      a_captured_at = a_captured_at action\<rparr>"

text \<open>The four fences in front of an action, in the code's order.\<close>

definition action_fenced :: "action_capture \<Rightarrow> writer_runtime \<Rightarrow> bool" where
  "action_fenced action rt \<longleftrightarrow>
     rs_active_record_session_id (rt_record_state rt) \<noteq> Some (a_record_session_id action) \<or>
     panic_rejects (rt_panic_action_cutoff rt) action \<or>
     rs_paused_record_session_id (rt_record_state rt) = Some (a_record_session_id action) \<or>
     (sensitive_context_active (rt_policy rt) \<and> \<not> excludes_action (rt_policy rt) action)"

definition stamp_into ::
    "writer_env \<Rightarrow> string \<Rightarrow> action_capture \<Rightarrow> writer_runtime \<Rightarrow> writer_runtime \<times> stamped_action option"
where
  "stamp_into env kind action rt =
     (let rt = rt\<lparr>rt_heartbeat := mark_event_at (rt_heartbeat rt) kind (en_now env)\<rparr>;
          (seq, stamped) = stamp_action (rt_sequencer rt) action
      in (rt\<lparr>rt_sequencer := seq\<rparr>, Some stamped))"

definition admit_action ::
    "writer_env \<Rightarrow> action_capture \<Rightarrow> writer_runtime \<Rightarrow> writer_runtime \<times> stamped_action option" where
  "admit_action env action rt =
     (if action_fenced action rt
      then (rt\<lparr>rt_report := (rt_report rt)\<lparr>wr_actions_skipped := wr_actions_skipped (rt_report rt) + 1\<rparr>\<rparr>,
            None)
      else if excludes_action (rt_policy rt) action then
        (let (rt', marker) =
               (if rs_excluded_gap_open (rt_record_state rt) then (rt, None)
                else stamp_into env ''ui_action_gap'' (gap_capture action) rt)
         in (on_record_state (\<lambda>rs. rs\<lparr>rs_excluded_gap_open := True\<rparr>) rt', marker))
      else stamp_into env ''ui_action'' (action\<lparr>a_is_sensitive := False\<rparr>)
             (on_record_state (\<lambda>rs. rs\<lparr>rs_excluded_gap_open := False\<rparr>) rt))"

definition push_action :: "writer_env \<Rightarrow> stamped_action \<Rightarrow> writer_runtime \<Rightarrow> writer_runtime" where
  "push_action env action rt =
     (let rt = rt\<lparr>rt_action_batch := rt_action_batch rt @ [action]\<rparr>
      in if length (rt_action_batch rt) \<ge> rt_batch_size rt then flush_actions env rt else rt)"

definition queue_action :: "writer_env \<Rightarrow> action_capture \<Rightarrow> writer_runtime \<Rightarrow> writer_runtime" where
  "queue_action env action rt =
     (case admit_action env action rt of
        (rt, None) \<Rightarrow> rt
      | (rt, Some stamped) \<Rightarrow> push_action env stamped rt)"

primrec queue_writer_input :: "writer_env \<Rightarrow> writer_input \<Rightarrow> writer_runtime \<Rightarrow> writer_runtime" where
  "queue_writer_input env (Motion captured) rt = queue_captured env captured rt"
| "queue_writer_input env (Action action) rt = queue_action env action rt"
| "queue_writer_input env (ActionDiag _) rt = rt"
| "queue_writer_input env (RejectedAction _) rt = rt"

section \<open>Commands and timers\<close>

text \<open>What a drain reads from the input channel is the list of inputs it processes.\<close>

definition drain_writer_inputs ::
    "(writer_env \<times> writer_input) list \<Rightarrow> writer_runtime \<Rightarrow> writer_runtime" where
  "drain_writer_inputs inputs rt = foldl (\<lambda>rt (env, input). queue_writer_input env input rt) rt inputs"

lemma drain_nothing [simp]: "drain_writer_inputs [] rt = rt"
  by (simp add: drain_writer_inputs_def)

definition clear_runtime_focus :: "writer_env \<Rightarrow> writer_runtime \<Rightarrow> writer_runtime" where
  "clear_runtime_focus env rt =
     (let (of_state, row) =
            clear_open_focus (en_delete_ok env) (rt_open_focus rt) (rt_stored_open_focus rt)
      in rt\<lparr>rt_open_focus := of_state, rt_stored_open_focus := row\<rparr>)"

definition forget_focus_command ::
    "writer_env \<Rightarrow> (writer_env \<times> writer_input) list \<Rightarrow> writer_runtime \<Rightarrow> writer_runtime" where
  "forget_focus_command env drained rt =
     (let rt = drain_writer_inputs drained rt
      in clear_runtime_focus env (rt\<lparr>rt_policy := forget_focus_attribution (rt_policy rt)\<rparr>))"

text \<open>The store's verdict is an argument: the identifier of the opened recording, or failure.\<close>

definition start_recording ::
    "int option \<Rightarrow> int option \<Rightarrow> bool \<Rightarrow> writer_runtime \<Rightarrow> writer_runtime \<times> int option" where
  "start_recording opened request_id confirm_ok rt =
     (if request_id \<noteq> None \<and> \<not> confirm_ok then (rt, None)
      else case opened of
        None \<Rightarrow> (rt, None)
      | Some record_session_id \<Rightarrow>
          (on_record_state (\<lambda>rs. rs\<lparr>
              rs_active_record_session_id := Some record_session_id,
              rs_paused_record_session_id := None,
              rs_cap_prompted_windows := (rs_cap_prompted_windows rs)(record_session_id := None),
              rs_last_surfaced_request_id :=
                (if rs_last_surfaced_request_id rs = request_id then None
                 else rs_last_surfaced_request_id rs)\<rparr>) rt, Some record_session_id))"

definition stop_recording ::
    "writer_env \<Rightarrow> (writer_env \<times> writer_input) list \<Rightarrow> bool \<Rightarrow> int \<Rightarrow> writer_runtime
     \<Rightarrow> writer_runtime" where
  "stop_recording env drained close_ok record_session_id rt =
     (let rt = flush_all_batches env (drain_writer_inputs drained rt)
      in if \<not> close_ok then rt
         else on_record_state (\<lambda>rs. rs\<lparr>
                rs_active_record_session_id :=
                  (if rs_active_record_session_id rs = Some record_session_id then None
                   else rs_active_record_session_id rs),
                rs_paused_record_session_id :=
                  (if rs_paused_record_session_id rs = Some record_session_id then None
                   else rs_paused_record_session_id rs),
                rs_cap_prompted_windows :=
                  (rs_cap_prompted_windows rs)(record_session_id := None)\<rparr>) rt)"

definition pause_recording :: "bool \<Rightarrow> int \<Rightarrow> writer_runtime \<Rightarrow> writer_runtime" where
  "pause_recording pause_ok record_session_id rt =
     (if \<not> pause_ok then rt
      else on_record_state (\<lambda>rs. rs\<lparr>rs_paused_record_session_id := Some record_session_id\<rparr>) rt)"

definition resume_recording :: "bool \<Rightarrow> int \<Rightarrow> writer_runtime \<Rightarrow> writer_runtime" where
  "resume_recording resume_ok record_session_id rt =
     (if \<not> resume_ok then rt
      else on_record_state (\<lambda>rs. rs\<lparr>
             rs_paused_record_session_id :=
               (if rs_paused_record_session_id rs = Some record_session_id then None
                else rs_paused_record_session_id rs)\<rparr>) rt)"

definition decline_record_request :: "int \<Rightarrow> writer_runtime \<Rightarrow> writer_runtime" where
  "decline_record_request request_id rt =
     on_record_state (\<lambda>rs. rs\<lparr>
       rs_last_surfaced_request_id :=
         (if rs_last_surfaced_request_id rs = Some request_id then None
          else rs_last_surfaced_request_id rs)\<rparr>) rt"

definition beat_runtime_focus :: "writer_env \<Rightarrow> bool \<Rightarrow> writer_runtime \<Rightarrow> writer_runtime" where
  "beat_runtime_focus env upsert_ok rt =
     (let (of_state, row) = beat_open_focus upsert_ok (rt_sequencer rt) (en_now env)
                              (rt_open_focus rt) (rt_stored_open_focus rt)
      in rt\<lparr>rt_open_focus := of_state, rt_stored_open_focus := row\<rparr>)"

subsection \<open>The heartbeat\<close>

definition MAIN_DB_SIZE_WARN_BYTES :: nat where "MAIN_DB_SIZE_WARN_BYTES = 2147483648"

definition persist_diagnostics_counters :: "writer_env \<Rightarrow> writer_runtime \<Rightarrow> writer_runtime" where
  "persist_diagnostics_counters env rt =
     (let (hb, capture) = persist_capture_events_dropped (en_persist_ok env) (rt_diagnostics rt)
                            (rt_heartbeat rt) (rt_meta_capture_dropped rt);
          (hb, stale) = persist_stale_pre_erase_rows_dropped (en_persist_ok env)
                          (rt_diagnostics rt) hb (rt_meta_stale_dropped rt)
      in rt\<lparr>rt_heartbeat := hb, rt_meta_capture_dropped := capture,
            rt_meta_stale_dropped := stale\<rparr>)"

text \<open>The warnings themselves are log lines; what they leave in the state is here.\<close>

definition log_writer_heartbeat :: "writer_env \<Rightarrow> writer_runtime \<Rightarrow> writer_runtime" where
  "log_writer_heartbeat env rt =
     (let rt = rt\<lparr>rt_sequencer := fst (sequencer_resync (rt_sequencer rt) (en_now env)
                    (en_utc_ms env) (rt_timebase_drift_threshold_ms rt))\<rparr>;
          rt = persist_diagnostics_counters env rt
      in rt\<lparr>rt_heartbeat := (rt_heartbeat rt)\<lparr>hb_main_db_size_warned :=
                               en_db_bytes env > MAIN_DB_SIZE_WARN_BYTES\<rparr>\<rparr>)"

subsection \<open>Secure erase, archive and reset\<close>

definition reemit_active_sensitive_contexts ::
    "writer_env \<Rightarrow> instant \<Rightarrow> writer_runtime \<Rightarrow> writer_runtime" where
  "reemit_active_sensitive_contexts env now rt =
     foldl (\<lambda>rt reason. queue_captured env
              (captured_new source.System now (SensitiveContextEntered reason)) rt)
       rt (active_sensitive_reasons (rt_policy rt))"

text \<open>What the committed delete leaves of the store and of the heartbeat's durable counters.\<close>

definition erase_store :: "writer_runtime \<Rightarrow> writer_runtime" where
  "erase_store rt =
     rt\<lparr>rt_stored_events := [], rt_stored_actions := [], rt_stored_open_focus := None,
        rt_meta_capture_dropped := None, rt_meta_stale_dropped := None\<rparr>"

definition rebase_heartbeat :: "writer_runtime \<Rightarrow> writer_runtime" where
  "rebase_heartbeat rt =
     rt\<lparr>rt_heartbeat := (rt_heartbeat rt)\<lparr>
          hb_capture_dropped := rebase_durable
            (unat (dc_capture_events_dropped (rt_diagnostics rt))) (hb_capture_dropped (rt_heartbeat rt)),
          hb_stale_pre_erase_dropped := rebase_durable
            (unat (dc_stale_pre_erase_rows_dropped (rt_diagnostics rt)))
            (hb_stale_pre_erase_dropped (rt_heartbeat rt))\<rparr>\<rparr>"

definition close_record_state :: "writer_runtime \<Rightarrow> writer_runtime" where
  "close_record_state = on_record_state (\<lambda>rs. rs\<lparr>rs_active_record_session_id := None,
     rs_paused_record_session_id := None, rs_cap_prompted_windows := Map.empty\<rparr>)"

definition replace_session :: "int \<Rightarrow> session_timebase \<Rightarrow> int option \<Rightarrow> writer_runtime \<Rightarrow> writer_runtime" where
  "replace_session new_session_id timebase boundary_ms rt =
     rt\<lparr>rt_sequencer := sequencer_new new_session_id timebase,
        rt_erase_completion_boundary_ms := boundary_ms,
        rt_open_focus := open_focus_default\<rparr>"

datatype secure_erase_outcome =
    Completed | DeleteFailed | DeleteCommittedScrubIncomplete | ReplacementSessionFailed

datatype archive_reset_outcome =
    Completed | ArchiveFailed | DeleteFailed | DeleteCommittedScrubIncomplete
  | ReplacementSessionFailed

text \<open>
  \<open>drained\<close> is what the quiet drain reads; \<open>finalize_ok\<close>, \<open>archive_ok\<close>, \<open>delete\<close> (failed, or
  committed with the scrub complete or not) and \<open>replacement\<close> are the store's verdicts;
  \<open>completed_at\<close> is the clock read after the replacement session.
\<close>

definition delete_committed :: "bool \<Rightarrow> secure_erase_outcome" where
  "delete_committed scrubbed =
     (if scrubbed then secure_erase_outcome.Completed
      else secure_erase_outcome.DeleteCommittedScrubIncomplete)"

definition reset_committed :: "bool \<Rightarrow> archive_reset_outcome" where
  "reset_committed scrubbed =
     (if scrubbed then archive_reset_outcome.Completed
      else archive_reset_outcome.DeleteCommittedScrubIncomplete)"

definition secure_erase ::
    "writer_env \<Rightarrow> (writer_env \<times> writer_input) list \<Rightarrow> bool \<Rightarrow> bool option
     \<Rightarrow> (int \<times> session_timebase) option \<Rightarrow> instant \<Rightarrow> writer_runtime
     \<Rightarrow> writer_runtime \<times> secure_erase_outcome" where
  "secure_erase env drained finalize_ok delete replacement completed_at rt =
     (if rs_active_record_session_id (rt_record_state rt) \<noteq> None
      then (rt, secure_erase_outcome.DeleteFailed)
      else
        let rt = flush_all_batches env (drain_writer_inputs drained rt)
        in if \<not> finalize_ok then (rt, secure_erase_outcome.DeleteFailed)
           else
             let rt = close_record_state rt
             in case delete of
                  None \<Rightarrow> (rt, secure_erase_outcome.DeleteFailed)
                | Some scrubbed \<Rightarrow>
                    let rt = rebase_heartbeat (erase_store rt)
                    in case replacement of
                         None \<Rightarrow> (rt, secure_erase_outcome.ReplacementSessionFailed)
                       | Some (new_session_id, timebase) \<Rightarrow>
                           let boundary_ms =
                                 projected_timestamp_for (sequencer_new new_session_id timebase)
                                   completed_at
                           in (reemit_active_sensitive_contexts env completed_at
                                 (replace_session new_session_id timebase (Some boundary_ms) rt),
                               delete_committed scrubbed))"

definition archive_and_reset ::
    "writer_env \<Rightarrow> (writer_env \<times> writer_input) list \<Rightarrow> bool \<Rightarrow> bool \<Rightarrow> bool option
     \<Rightarrow> (int \<times> session_timebase) option \<Rightarrow> instant \<Rightarrow> writer_runtime
     \<Rightarrow> writer_runtime \<times> archive_reset_outcome" where
  "archive_and_reset env drained finalize_ok archive_ok delete replacement completed_at rt =
     (if rs_active_record_session_id (rt_record_state rt) \<noteq> None
      then (rt, archive_reset_outcome.ArchiveFailed)
      else
        let rt = flush_all_batches env (drain_writer_inputs drained rt)
        in if \<not> finalize_ok then (rt, archive_reset_outcome.ArchiveFailed)
           else
             let rt = close_record_state rt
             in if \<not> archive_ok then (rt, archive_reset_outcome.ArchiveFailed)
                else case delete of
                  None \<Rightarrow> (rt, archive_reset_outcome.DeleteFailed)
                | Some scrubbed \<Rightarrow>
                    let rt = erase_store rt
                    in case replacement of
                         None \<Rightarrow> (rt, archive_reset_outcome.ReplacementSessionFailed)
                       | Some (new_session_id, timebase) \<Rightarrow>
                           (reemit_active_sensitive_contexts env completed_at
                              (replace_session new_session_id timebase None rt),
                            reset_committed scrubbed))"

subsection \<open>The stop\<close>

text \<open>
  After the loop: drain until quiet, flush, remove the open-focus row, and, when the store
  closes the recordings and the session, persist the counters and report.
\<close>

definition writer_stop ::
    "writer_env \<Rightarrow> (writer_env \<times> writer_input) list \<Rightarrow> bool \<Rightarrow> bool \<Rightarrow> writer_runtime
     \<Rightarrow> writer_runtime \<times> writer_report option" where
  "writer_stop env drained finalize_ok end_ok rt =
     (let rt = clear_runtime_focus env (flush_all_batches env (drain_writer_inputs drained rt))
      in if \<not> finalize_ok \<or> \<not> end_ok then (rt, None)
         else (persist_diagnostics_counters env rt, Some (rt_report rt)))"

section \<open>Runs\<close>

text \<open>
  The inputs a command drains from the queue before it acts are queue steps of their own in
  a run, so the command steps drain nothing.
\<close>

datatype writer_op =
    QueueInput writer_env writer_input
  | FlushTick writer_env
  | BeatTick writer_env bool
  | HeartbeatTick writer_env
  | ForgetFocusCommand writer_env
  | StartRecording "int option" "int option" bool
  | StopRecording writer_env bool int
  | PauseRecording bool int
  | ResumeRecording bool int
  | DeclineRecordRequest int
  | ArmPanic int instant
  | ClearPanic int

text \<open>A step also names what it stamped: the rows a run numbered, in order.\<close>

type_synonym stamped_row = "event_envelope + stamped_action"

definition stamped_by :: "writer_op \<Rightarrow> writer_runtime \<Rightarrow> stamped_row list" where
  "stamped_by op rt = (case op of
     QueueInput env (Motion captured) \<Rightarrow>
       (case snd (admit_captured env captured rt) of Some e \<Rightarrow> [Inl e] | None \<Rightarrow> [])
   | QueueInput env (Action action) \<Rightarrow>
       (case snd (admit_action env action rt) of Some a \<Rightarrow> [Inr a] | None \<Rightarrow> [])
   | _ \<Rightarrow> [])"

primrec writer_effect :: "writer_op \<Rightarrow> writer_runtime \<Rightarrow> writer_runtime" where
  "writer_effect (QueueInput env input) rt = queue_writer_input env input rt"
| "writer_effect (FlushTick env) rt = flush_all_batches env rt"
| "writer_effect (BeatTick env ok) rt = beat_runtime_focus env ok rt"
| "writer_effect (HeartbeatTick env) rt = log_writer_heartbeat env rt"
| "writer_effect (ForgetFocusCommand env) rt = forget_focus_command env [] rt"
| "writer_effect (StartRecording opened request ok) rt = fst (start_recording opened request ok rt)"
| "writer_effect (StopRecording env ok rid) rt = stop_recording env [] ok rid rt"
| "writer_effect (PauseRecording ok rid) rt = pause_recording ok rid rt"
| "writer_effect (ResumeRecording ok rid) rt = resume_recording ok rid rt"
| "writer_effect (DeclineRecordRequest rid) rt = decline_record_request rid rt"
| "writer_effect (ArmPanic rid at) rt =
     rt\<lparr>rt_panic_action_cutoff := panic_arm rid at (rt_panic_action_cutoff rt)\<rparr>"
| "writer_effect (ClearPanic rid) rt =
     rt\<lparr>rt_panic_action_cutoff := panic_clear rid (rt_panic_action_cutoff rt)\<rparr>"

definition writer_step :: "writer_runtime \<Rightarrow> writer_op \<Rightarrow> writer_runtime \<times> stamped_row list" where
  "writer_step rt op = (writer_effect op rt, stamped_by op rt)"

definition events_of :: "stamped_row list \<Rightarrow> event_envelope list" where
  "events_of rows = List.map_filter (case_sum Some (\<lambda>_. None)) rows"

definition actions_of :: "stamped_row list \<Rightarrow> stamped_action list" where
  "actions_of rows = List.map_filter (case_sum (\<lambda>_. None) Some) rows"

definition row_seq :: "stamped_row \<Rightarrow> nat" where
  "row_seq row = (case row of Inl e \<Rightarrow> e_seq e | Inr a \<Rightarrow> a_seq a)"

lemma events_of_simps [simp]:
  "events_of [] = []" "events_of (Inl e # rows) = e # events_of rows"
  "events_of (Inr a # rows) = events_of rows" "events_of (xs @ ys) = events_of xs @ events_of ys"
  by (simp_all add: events_of_def List.map_filter_def)

lemma actions_of_simps [simp]:
  "actions_of [] = []" "actions_of (Inr a # rows) = a # actions_of rows"
  "actions_of (Inl e # rows) = actions_of rows"
  "actions_of (xs @ ys) = actions_of xs @ actions_of ys"
  by (simp_all add: actions_of_def List.map_filter_def)

section \<open>Frames\<close>

named_theorems writer_frame \<open>what an operation leaves alone\<close>

lemma on_record_state_frame [writer_frame, simp]:
  "rt_stored_events (on_record_state f rt) = rt_stored_events rt"
  "rt_stored_actions (on_record_state f rt) = rt_stored_actions rt"
  "rt_stored_open_focus (on_record_state f rt) = rt_stored_open_focus rt"
  "rt_sequencer (on_record_state f rt) = rt_sequencer rt"
  "rt_policy (on_record_state f rt) = rt_policy rt"
  "rt_batch (on_record_state f rt) = rt_batch rt"
  "rt_action_batch (on_record_state f rt) = rt_action_batch rt"
  "rt_report (on_record_state f rt) = rt_report rt"
  "rt_open_focus (on_record_state f rt) = rt_open_focus rt"
  "rt_panic_action_cutoff (on_record_state f rt) = rt_panic_action_cutoff rt"
  "rt_erase_completion_boundary_ms (on_record_state f rt) = rt_erase_completion_boundary_ms rt"
  "rt_batch_size (on_record_state f rt) = rt_batch_size rt"
  "rt_record_state (on_record_state f rt) = f (rt_record_state rt)"
  by (simp_all add: on_record_state_def)

lemma note_focus_frame [writer_frame, simp]:
  "rt_stored_events (note_focus_for_gap c rt) = rt_stored_events rt"
  "rt_stored_actions (note_focus_for_gap c rt) = rt_stored_actions rt"
  "rt_stored_open_focus (note_focus_for_gap c rt) = rt_stored_open_focus rt"
  "rt_sequencer (note_focus_for_gap c rt) = rt_sequencer rt"
  "rt_policy (note_focus_for_gap c rt) = rt_policy rt"
  "rt_batch (note_focus_for_gap c rt) = rt_batch rt"
  "rt_action_batch (note_focus_for_gap c rt) = rt_action_batch rt"
  "rt_report (note_focus_for_gap c rt) = rt_report rt"
  "rt_open_focus (note_focus_for_gap c rt) = rt_open_focus rt"
  "rt_panic_action_cutoff (note_focus_for_gap c rt) = rt_panic_action_cutoff rt"
  "rt_erase_completion_boundary_ms (note_focus_for_gap c rt) = rt_erase_completion_boundary_ms rt"
  "rt_batch_size (note_focus_for_gap c rt) = rt_batch_size rt"
  by (simp_all add: note_focus_for_gap_def split: event_payload.split)

lemma flush_frame [writer_frame, simp]:
  "rt_sequencer (flush_events env rt) = rt_sequencer rt"
  "rt_policy (flush_events env rt) = rt_policy rt"
  "rt_stored_actions (flush_events env rt) = rt_stored_actions rt"
  "rt_action_batch (flush_events env rt) = rt_action_batch rt"
  "rt_record_state (flush_events env rt) = rt_record_state rt"
  "rt_panic_action_cutoff (flush_events env rt) = rt_panic_action_cutoff rt"
  "rt_sequencer (flush_actions env rt) = rt_sequencer rt"
  "rt_policy (flush_actions env rt) = rt_policy rt"
  "rt_stored_events (flush_actions env rt) = rt_stored_events rt"
  "rt_batch (flush_actions env rt) = rt_batch rt"
  "rt_record_state (flush_actions env rt) = rt_record_state rt"
  "rt_panic_action_cutoff (flush_actions env rt) = rt_panic_action_cutoff rt"
  by (simp_all add: flush_events_def flush_actions_def split_def Let_def)

lemma push_frame [writer_frame, simp]:
  "rt_sequencer (push_event env e rt) = rt_sequencer rt"
  "rt_policy (push_event env e rt) = rt_policy rt"
  "rt_stored_actions (push_event env e rt) = rt_stored_actions rt"
  "rt_action_batch (push_event env e rt) = rt_action_batch rt"
  "rt_record_state (push_event env e rt) = rt_record_state rt"
  "rt_panic_action_cutoff (push_event env e rt) = rt_panic_action_cutoff rt"
  "rt_sequencer (push_action env a rt) = rt_sequencer rt"
  "rt_policy (push_action env a rt) = rt_policy rt"
  "rt_stored_events (push_action env a rt) = rt_stored_events rt"
  "rt_batch (push_action env a rt) = rt_batch rt"
  "rt_record_state (push_action env a rt) = rt_record_state rt"
  "rt_panic_action_cutoff (push_action env a rt) = rt_panic_action_cutoff rt"
  by (simp_all add: push_event_def push_action_def Let_def)

lemma admit_captured_frame [writer_frame, simp]:
  "rt_stored_events (fst (admit_captured env c rt)) = rt_stored_events rt"
  "rt_stored_actions (fst (admit_captured env c rt)) = rt_stored_actions rt"
  "rt_batch (fst (admit_captured env c rt)) = rt_batch rt"
  "rt_action_batch (fst (admit_captured env c rt)) = rt_action_batch rt"
  "rt_report (fst (admit_captured env c rt)) = rt_report rt"
  "rt_panic_action_cutoff (fst (admit_captured env c rt)) = rt_panic_action_cutoff rt"
  by (simp_all add: admit_captured_def Let_def split_def split: option.split)

lemma stamp_into_frame [writer_frame, simp]:
  "rt_stored_events (fst (stamp_into env k a rt)) = rt_stored_events rt"
  "rt_stored_actions (fst (stamp_into env k a rt)) = rt_stored_actions rt"
  "rt_batch (fst (stamp_into env k a rt)) = rt_batch rt"
  "rt_action_batch (fst (stamp_into env k a rt)) = rt_action_batch rt"
  "rt_report (fst (stamp_into env k a rt)) = rt_report rt"
  "rt_policy (fst (stamp_into env k a rt)) = rt_policy rt"
  "rt_record_state (fst (stamp_into env k a rt)) = rt_record_state rt"
  "rt_panic_action_cutoff (fst (stamp_into env k a rt)) = rt_panic_action_cutoff rt"
  by (simp_all add: stamp_into_def Let_def split_def)

lemma admit_action_frame [writer_frame, simp]:
  "rt_stored_events (fst (admit_action env a rt)) = rt_stored_events rt"
  "rt_stored_actions (fst (admit_action env a rt)) = rt_stored_actions rt"
  "rt_batch (fst (admit_action env a rt)) = rt_batch rt"
  "rt_action_batch (fst (admit_action env a rt)) = rt_action_batch rt"
  "wr_events_written (rt_report (fst (admit_action env a rt))) = wr_events_written (rt_report rt)"
  "wr_events_skipped (rt_report (fst (admit_action env a rt))) = wr_events_skipped (rt_report rt)"
  "wr_actions_written (rt_report (fst (admit_action env a rt))) = wr_actions_written (rt_report rt)"
  "rt_policy (fst (admit_action env a rt)) = rt_policy rt"
  "rt_panic_action_cutoff (fst (admit_action env a rt)) = rt_panic_action_cutoff rt"
  by (simp_all add: admit_action_def Let_def split_def)

section \<open>Accounting\<close>

text \<open>
  One step's account: what is stored or waiting afterwards is, in order, part of what was
  before plus what the step stamped, and the report counts every row once.
\<close>

definition account :: "writer_runtime \<Rightarrow> stamped_row list \<Rightarrow> writer_runtime \<Rightarrow> bool" where
  "account rt rows rt' \<longleftrightarrow>
     subseq (rt_stored_events rt' @ rt_batch rt')
       (rt_stored_events rt @ rt_batch rt @ events_of rows) \<and>
     subseq (rt_stored_actions rt' @ rt_action_batch rt')
       (rt_stored_actions rt @ rt_action_batch rt @ actions_of rows) \<and>
     length (rt_stored_events rt') + wr_events_written (rt_report rt)
       = length (rt_stored_events rt) + wr_events_written (rt_report rt') \<and>
     wr_events_written (rt_report rt') + wr_events_skipped (rt_report rt') + length (rt_batch rt')
       = wr_events_written (rt_report rt) + wr_events_skipped (rt_report rt)
         + length (rt_batch rt) + length (events_of rows) \<and>
     length (rt_stored_actions rt') + wr_actions_written (rt_report rt)
       = length (rt_stored_actions rt) + wr_actions_written (rt_report rt')"

lemma account_refl [simp]: "account rt [] rt"
  by (simp add: account_def)

lemma subseq_chain:
  "subseq y (x @ b) \<Longrightarrow> subseq z (y @ c) \<Longrightarrow> subseq z (x @ b @ c)"
  using list_emb_append_mono [of "(=)" y "x @ b" c c] subseq_order.order_trans [of z "y @ c" "x @ b @ c"]
  by simp

lemma account_trans:
  assumes "account rt rows rt'" and "account rt' rows' rt''"
  shows "account rt (rows @ rows') rt''"
proof -
  have "subseq (rt_stored_events rt'' @ rt_batch rt'')
       ((rt_stored_events rt @ rt_batch rt) @ events_of rows @ events_of rows')"
    by (rule subseq_chain [of "rt_stored_events rt' @ rt_batch rt'"])
       (use assms in \<open>simp_all add: account_def\<close>)
  moreover have "subseq (rt_stored_actions rt'' @ rt_action_batch rt'')
       ((rt_stored_actions rt @ rt_action_batch rt) @ actions_of rows @ actions_of rows')"
    by (rule subseq_chain [of "rt_stored_actions rt' @ rt_action_batch rt'"])
       (use assms in \<open>simp_all add: account_def\<close>)
  ultimately show ?thesis
    using assms by (simp add: account_def)
qed

lemma account_flush_events: "account rt [] (flush_events env rt)"
proof (cases "flush_batch (en_events env) (rt_stored_events rt) (rt_batch rt) (rt_report rt)")
  case (fields stored batch report)
  note counts = flush_batch_counts [OF fields]
  then show ?thesis
    using fields by (auto simp: account_def flush_events_def intro: list_emb_append_mono)
qed

lemma account_flush_actions: "account rt [] (flush_actions env rt)"
proof (cases "flush_action_batch (en_actions env) (rt_stored_actions rt) (rt_action_batch rt)
    (rt_report rt)")
  case (fields stored batch report)
  note counts = flush_action_batch_counts [OF fields]
  then show ?thesis
    using fields by (auto simp: account_def flush_actions_def intro: list_emb_append_mono)
qed

lemma account_flush_all: "account rt [] (flush_all_batches env rt)"
  using account_trans [OF account_flush_events account_flush_actions]
  by (simp add: flush_all_batches_def)

lemma account_push_event: "account rt [Inl e] (push_event env e rt)"
proof -
  have "account rt [Inl e] (rt\<lparr>rt_batch := rt_batch rt @ [e]\<rparr>)"
    by (simp add: account_def)
  then show ?thesis
    using account_trans [OF _ account_flush_events, of rt "[Inl e]"]
    by (simp add: push_event_def Let_def)
qed

lemma account_push_action: "account rt [Inr a] (push_action env a rt)"
proof -
  have "account rt [Inr a] (rt\<lparr>rt_action_batch := rt_action_batch rt @ [a]\<rparr>)"
    by (simp add: account_def)
  then show ?thesis
    using account_trans [OF _ account_flush_actions, of rt "[Inr a]"]
    by (simp add: push_action_def Let_def)
qed

lemma account_same:
  assumes "rt_stored_events rt' = rt_stored_events rt" "rt_stored_actions rt' = rt_stored_actions rt"
    "rt_batch rt' = rt_batch rt" "rt_action_batch rt' = rt_action_batch rt"
    "wr_events_written (rt_report rt') = wr_events_written (rt_report rt)"
    "wr_events_skipped (rt_report rt') = wr_events_skipped (rt_report rt)"
    "wr_actions_written (rt_report rt') = wr_actions_written (rt_report rt)"
  shows "account rt [] rt'"
  by (simp add: account_def assms)

lemma account_queue_captured:
  "account rt (case snd (admit_captured env c rt) of Some e \<Rightarrow> [Inl e] | None \<Rightarrow> [])
     (queue_captured env c rt)"
proof -
  have admit: "account rt [] (fst (admit_captured env c rt))" by (rule account_same) simp_all
  show ?thesis
    using account_trans [OF admit account_push_event] admit
    by (cases "admit_captured env c rt") (auto simp: queue_captured_def split: option.split)
qed

lemma account_queue_action:
  "account rt (case snd (admit_action env a rt) of Some s \<Rightarrow> [Inr s] | None \<Rightarrow> [])
     (queue_action env a rt)"
proof -
  have admit: "account rt [] (fst (admit_action env a rt))" by (rule account_same) simp_all
  show ?thesis
    using account_trans [OF admit account_push_action] admit
    by (cases "admit_action env a rt") (auto simp: queue_action_def split: option.split)
qed

lemma account_step: "account rt (snd (writer_step rt op)) (fst (writer_step rt op))"
proof (cases op)
  case (QueueInput env input)
  then show ?thesis
    using account_queue_captured account_queue_action
    by (cases input) (auto simp: writer_step_def stamped_by_def)
next
  case (FlushTick env)
  then show ?thesis using account_flush_all by (simp add: writer_step_def stamped_by_def)
next
  case (StopRecording env ok rid)
  have "account (flush_all_batches env rt) [] (stop_recording env [] ok rid rt)"
    by (rule account_same) (simp_all add: stop_recording_def Let_def)
  then show ?thesis
    using account_trans [OF account_flush_all]
    by (simp add: StopRecording writer_step_def stamped_by_def)
qed (simp_all add: writer_step_def stamped_by_def, (rule account_same; simp add:
      beat_runtime_focus_def log_writer_heartbeat_def persist_diagnostics_counters_def forget_focus_command_def clear_runtime_focus_def
      start_recording_def pause_recording_def resume_recording_def decline_record_request_def
      split_def Let_def split: option.split)+)

lemma account_run: "account rt (outputs writer_step rt ops) (final writer_step rt ops)"
  by (induction ops arbitrary: rt) (auto intro: account_trans account_step)

section \<open>Numbering\<close>

lemma apply_after_seq [simp]:
  "e_seq (snd (apply_after_exclusions P e)) = e_seq e"
  "e_session_id (snd (apply_after_exclusions P e)) = e_session_id e"
  by (cases "e_payload e"; simp add: apply_after_exclusions_def Let_def split_def)+

lemma resync_event_frame [simp]:
  "q_next_seq (fst (resync_for_event_if_needed q p n u t)) = q_next_seq q"
  "q_session_id (fst (resync_for_event_if_needed q p n u t)) = q_session_id q"
  by (cases p; simp add: resync_for_event_if_needed_def)+

lemma stamp_simps [simp]:
  "e_seq (snd (stamp q c)) = q_next_seq q" "e_session_id (snd (stamp q c)) = q_session_id q"
  "e_payload (snd (stamp q c)) = c_payload c"
  "q_next_seq (fst (stamp q c)) = sat_add_u64 (q_next_seq q) 1"
  "q_session_id (fst (stamp q c)) = q_session_id q"
  by (simp_all add: stamp_def Let_def)

lemma stamp_action_simps [simp]:
  "a_seq (snd (stamp_action q a)) = q_next_seq q"
  "a_session_id (snd (stamp_action q a)) = q_session_id q"
  "action_body.truncate (snd (stamp_action q a)) = action_body.truncate a"
  "q_next_seq (fst (stamp_action q a)) = sat_add_u64 (q_next_seq q) 1"
  "q_session_id (fst (stamp_action q a)) = q_session_id q"
  by (simp_all add: stamp_action_def Let_def action_body.defs)

text \<open>What a step does to the session counter, and the session its rows carry.\<close>

definition row_session :: "stamped_row \<Rightarrow> int" where
  "row_session row = (case row of Inl e \<Rightarrow> e_session_id e | Inr a \<Rightarrow> a_session_id a)"

definition numbered :: "sequencer \<Rightarrow> stamped_row list \<Rightarrow> sequencer \<Rightarrow> bool" where
  "numbered q rows q' \<longleftrightarrow> q_session_id q' = q_session_id q \<and>
     ((rows = [] \<and> q_next_seq q' = q_next_seq q) \<or>
      (\<exists>row. rows = [row] \<and> row_seq row = q_next_seq q \<and> row_session row = q_session_id q \<and>
             q_next_seq q' = sat_add_u64 (q_next_seq q) 1))"

lemma numbered_captured:
  "numbered (rt_sequencer rt)
     (case snd (admit_captured env c rt) of Some e \<Rightarrow> [Inl e] | None \<Rightarrow> [])
     (rt_sequencer (fst (admit_captured env c rt)))"
  by (auto simp: numbered_def admit_captured_def row_seq_def row_session_def Let_def split_def
      split: option.split)

lemma numbered_action:
  "numbered (rt_sequencer rt)
     (case snd (admit_action env a rt) of Some s \<Rightarrow> [Inr s] | None \<Rightarrow> [])
     (rt_sequencer (fst (admit_action env a rt)))"
  by (auto simp: numbered_def admit_action_def stamp_into_def row_seq_def row_session_def Let_def
      split_def split: option.split)

lemma queue_sequencer [simp]:
  "rt_sequencer (queue_captured env c rt) = rt_sequencer (fst (admit_captured env c rt))"
  "rt_sequencer (queue_action env a rt) = rt_sequencer (fst (admit_action env a rt))"
  by (simp_all add: queue_captured_def queue_action_def split_def split: option.split)

lemma numbered_step:
  "numbered (rt_sequencer rt) (snd (writer_step rt op)) (rt_sequencer (fst (writer_step rt op)))"
proof (cases op)
  case (QueueInput env input)
  then show ?thesis
    using numbered_captured [of rt env] numbered_action [of rt env]
    by (cases input) (auto simp: writer_step_def stamped_by_def numbered_def)
qed (auto simp: numbered_def writer_step_def stamped_by_def flush_all_batches_def
    stop_recording_def beat_runtime_focus_def log_writer_heartbeat_def persist_diagnostics_counters_def forget_focus_command_def
    clear_runtime_focus_def start_recording_def pause_recording_def resume_recording_def
    decline_record_request_def split_def Let_def split: option.split)

lemma numbered_run:
  "q_next_seq (rt_sequencer rt) + length (outputs writer_step rt ops) \<le> u64_max \<Longrightarrow>
   map row_seq (outputs writer_step rt ops) =
     [q_next_seq (rt_sequencer rt) ..<
      q_next_seq (rt_sequencer rt) + length (outputs writer_step rt ops)]"
proof (induction ops arbitrary: rt)
  case (Cons op ops)
  show ?case
    using numbered_step [of rt op] Cons.IH [of "fst (writer_step rt op)"] Cons.prems
    by (auto simp: numbered_def sat_add_u64_def upt_conv_Cons simp del: upt_Suc)
qed simp

definition writer_new :: "sequencer \<Rightarrow> policy \<Rightarrow> nat \<Rightarrow> int \<Rightarrow> writer_runtime" where
  "writer_new seq policy batch_size threshold =
     \<lparr>rt_stored_events = [], rt_stored_actions = [], rt_stored_open_focus = None,
      rt_meta_capture_dropped = None, rt_meta_stale_dropped = None,
      rt_sequencer = seq, rt_policy = policy, rt_batch = [], rt_action_batch = [],
      rt_report = \<lparr>wr_events_written = 0, wr_events_skipped = 0, wr_actions_written = 0,
                   wr_actions_skipped = 0\<rparr>,
      rt_heartbeat = heartbeat_default, rt_record_state = record_state_default,
      rt_open_focus = open_focus_default, rt_diagnostics = diagnostics_new,
      rt_panic_action_cutoff = None, rt_erase_completion_boundary_ms = None,
      rt_batch_size = batch_size, rt_timebase_drift_threshold_ms = threshold\<rparr>"

text \<open>
  C3 (\<open>queue_captured\<close>, \<open>queue_action\<close>, \<open>flush_batch\<close>): the writer stores what it numbers,
  once and in order.  Over any run of inputs, flushes, retries, commands and beats in a fresh
  session, events and actions share one numbering without holes; the events stored or waiting
  are, in order, rows that were numbered, so a retried batch is never stored twice; the
  report counts exactly the stored events; and every numbered event is stored, counted as
  skipped or still waiting.
\<close>

theorem writer_accounts_for_every_row:
  assumes "length (outputs writer_step
      (writer_new (sequencer_new session_id tb) policy batch_size threshold) ops) < u64_max"
  shows "let rt = writer_new (sequencer_new session_id tb) policy batch_size threshold;
             rows = outputs writer_step rt ops; rt' = final writer_step rt ops
         in map row_seq rows = [1 ..< Suc (length rows)] \<and>
            subseq (rt_stored_events rt' @ rt_batch rt') (events_of rows) \<and>
            subseq (rt_stored_actions rt' @ rt_action_batch rt') (actions_of rows) \<and>
            length (rt_stored_events rt') = wr_events_written (rt_report rt') \<and>
            length (rt_stored_actions rt') = wr_actions_written (rt_report rt') \<and>
            wr_events_written (rt_report rt') + wr_events_skipped (rt_report rt')
              + length (rt_batch rt') = length (events_of rows)"
proof -
  let ?rt = "writer_new (sequencer_new session_id tb) policy batch_size threshold"
  have "map row_seq (outputs writer_step ?rt ops) = [1 ..< Suc (length (outputs writer_step ?rt ops))]"
    using numbered_run [of ?rt ops] assms by (simp add: writer_new_def sequencer_new_def)
  then show ?thesis
    using account_run [of ?rt ops] by (simp add: account_def Let_def) (simp add: writer_new_def)
qed

definition willing :: "'row sqlite" where
  "willing = \<lparr>sq_begin = (\<lambda>_. None), sq_row = (\<lambda>_ _. RowInserted), sq_commit = (\<lambda>_. None),
     sq_cancelled = (\<lambda>_. False), sq_slept = (\<lambda>_. True)\<rparr>"

definition sample_env :: writer_env where
  "sample_env = \<lparr>en_now = 9, en_utc_ms = 1000, en_events = willing, en_actions = willing,
     en_delete_ok = True, en_persist_ok = True, en_db_bytes = 0\<rparr>"

definition sample_captured :: "instant \<Rightarrow> event_payload \<Rightarrow> captured" where
  "sample_captured at payload = captured_new source.System at payload"

definition sample_runtime :: "policy \<Rightarrow> writer_runtime" where
  "sample_runtime P =
     writer_new (sequencer_new 5 \<lparr>base_instant = 0, base_utc_ms = 1000\<rparr>) P 2 2000"

definition two_power_rows :: "writer_op list" where
  "two_power_rows = [QueueInput sample_env (Motion (sample_captured 3 CapturePaused)),
     QueueInput sample_env (Motion (sample_captured 4 CapturePaused)), FlushTick sample_env]"

lemma plain_row_passes:
  assumes "rt_erase_completion_boundary_ms rt = None"
  shows "\<exists>e. snd (writer_step rt (QueueInput env (Motion (sample_captured at CapturePaused)))) = [Inl e]"
    and "rt_erase_completion_boundary_ms
      (fst (writer_step rt (QueueInput env (Motion (sample_captured at CapturePaused))))) = None"
  using assms
  by (simp_all add: writer_step_def stamped_by_def queue_writer_input_def queue_captured_def
      admit_captured_def stale_pre_erase_def note_focus_for_gap_def sample_captured_def
      captured_new_def apply_exclusions_to_captured_def apply_exclusion_boundary_def
      push_event_def flush_events_def Let_def split_def)

theorem writer_accounts_for_every_row_witness:
  "let rt = sample_runtime policy_identity; rows = outputs writer_step rt two_power_rows
   in map row_seq rows = [1, 2] \<and>
      length (rt_stored_events (final writer_step rt two_power_rows)) \<le> 2"
proof -
  let ?rt = "sample_runtime policy_identity"
  have start: "rt_erase_completion_boundary_ms ?rt = None"
    by (simp add: sample_runtime_def writer_new_def)
  obtain e f where rows: "outputs writer_step ?rt two_power_rows = [Inl e, Inl f]"
    using plain_row_passes [OF start, of sample_env 3]
      plain_row_passes(1) [OF plain_row_passes(2) [OF start, of sample_env 3], of sample_env 4]
    by (auto simp: two_power_rows_def writer_step_def stamped_by_def)
  show ?thesis
    using writer_accounts_for_every_row [of 5 "\<lparr>base_instant = 0, base_utc_ms = 1000\<rparr>"
        policy_identity 2 2000 two_power_rows, folded sample_runtime_def]
    unfolding Let_def rows by (simp add: u64_max_def upt_conv_Cons)
qed

end
