(* ===== verification/Writer_Laws.thy ===== *)
theory Writer_Laws
  imports Writer_Queue
begin

text \<open>
  What the writer promises over whole runs of its queue: no row of an excluded application
  is kept and no content of one influences anything the writer keeps; an action is recorded
  exactly while its recording is open, not paused and not fenced by the panic cutoff; one
  gap marker stands for a run of excluded actions; a secure erase leaves nothing but the
  replacement session.
\<close>

lemmas writer_op_defs = writer_step_def stamped_by_def flush_all_batches_def stop_recording_def
  beat_runtime_focus_def log_writer_heartbeat_def persist_diagnostics_counters_def forget_focus_command_def clear_runtime_focus_def
  start_recording_def pause_recording_def resume_recording_def decline_record_request_def

section \<open>The policy of a running writer\<close>

lemma flush_policy [simp]:
  "rt_policy (flush_events env rt) = rt_policy rt"
  "rt_policy (flush_actions env rt) = rt_policy rt"
  "rt_record_state (flush_events env rt) = rt_record_state rt"
  "rt_record_state (flush_actions env rt) = rt_record_state rt"
  by (simp_all add: flush_events_def flush_actions_def split_def Let_def)

lemma queue_as_admit [simp]:
  "rt_policy (queue_captured env c rt) = rt_policy (fst (admit_captured env c rt))"
  "rt_policy (queue_action env a rt) = rt_policy rt"
  "rt_record_state (queue_captured env c rt) = rt_record_state (fst (admit_captured env c rt))"
  "rt_record_state (queue_action env a rt) = rt_record_state (fst (admit_action env a rt))"
  "rt_panic_action_cutoff (queue_captured env c rt) = rt_panic_action_cutoff rt"
  "rt_panic_action_cutoff (queue_action env a rt) = rt_panic_action_cutoff rt"
  by (simp_all add: queue_captured_def queue_action_def push_event_def push_action_def split_def
      Let_def split: option.split)

lemma admit_captured_config: "same_config (rt_policy rt) (rt_policy (fst (admit_captured env c rt)))"
proof -
  have "same_config (rt_policy rt) (fst (apply_exclusions_to_captured (rt_policy rt) c))"
    using boundary_config by (simp add: apply_exclusions_to_captured_def split_def Let_def)
  then show ?thesis
    by (auto simp: admit_captured_def Let_def split_def split: option.split
        intro: same_config_trans after_config)
qed

lemma writer_step_config: "same_config (rt_policy rt) (rt_policy (fst (writer_step rt op)))"
proof (cases op)
  case (QueueInput env input)
  then show ?thesis
    using admit_captured_config by (cases input) (simp_all add: writer_step_def)
qed (simp_all add: writer_op_defs Let_def split_def forget_focus_attribution_def same_config_def
    split: option.split)

section \<open>Excluded applications\<close>

definition row_exclusion_free :: "string set \<Rightarrow> stamped_row \<Rightarrow> bool" where
  "row_exclusion_free apps row =
     (case row of
        Inl event \<Rightarrow> exclusion_free apps event
      | Inr action \<Rightarrow>
          (case a_exe action of Some exe \<Rightarrow> exe_basename_lower exe \<notin> apps | None \<Rightarrow> True))"

lemma admitted_event_exclusion_free:
  assumes "snd (admit_captured env c rt) = Some e"
  shows "exclusion_free (p_excluded_apps (rt_policy rt)) e"
proof -
  let ?P = "rt_policy rt"
  obtain P1 q keep where b: "apply_exclusion_boundary ?P (c_payload c) = (P1, q, keep)"
    using prod_cases3 by blast
  have "keep \<and> attributed_exes (e_payload e) = attributed_exes q \<and>
      payload_kind (e_payload e) = payload_kind q"
    using assms b
    by (auto simp: admit_captured_def apply_exclusions_to_captured_def Let_def split_def
        split: if_splits)
  then show ?thesis
    using b boundary_exclusion_free [of ?P "c_payload c" P1 q]
    by (auto simp: exclusion_free_def envelope_kind_def)
qed

lemma stamp_action_exe [simp]:
  "a_exe (snd (stamp_action q a)) = a_exe a"
  "a_record_session_id (snd (stamp_action q a)) = a_record_session_id a"
  "a_pattern_action (snd (stamp_action q a)) = a_pattern_action a"
  by (simp_all add: stamp_action_def Let_def action_body.defs)

lemma stamp_into_snd [simp]:
  "snd (stamp_into env k a rt) = Some (snd (stamp_action (rt_sequencer rt) a))"
  by (simp add: stamp_into_def Let_def split_def)

lemma admitted_action_cases:
  assumes "snd (admit_action env a rt) = Some s"
  shows "\<not> action_fenced a rt"
    and "excludes_action (rt_policy rt) a \<Longrightarrow>
      \<not> rs_excluded_gap_open (rt_record_state rt) \<and>
      s = snd (stamp_action (rt_sequencer rt) (gap_capture a))"
    and "\<not> excludes_action (rt_policy rt) a \<Longrightarrow>
      s = snd (stamp_action (rt_sequencer rt) (a\<lparr>a_is_sensitive := False\<rparr>))"
  using assms by (auto simp: admit_action_def Let_def split_def split: if_splits)

lemma admitted_action_exclusion_free:
  assumes "snd (admit_action env a rt) = Some s"
  shows "row_exclusion_free (p_excluded_apps (rt_policy rt)) (Inr s)"
  using admitted_action_cases [OF assms]
  by (cases "excludes_action (rt_policy rt) a")
     (auto simp: row_exclusion_free_def gap_capture_def excludes_action_def excludes_exe_def
       split: option.splits)

lemma stamped_cases [consumes 1, case_names event action]:
  assumes "row \<in> set (snd (writer_step rt op))"
  obtains (event) env c e where "op = QueueInput env (Motion c)" "row = Inl e"
      "snd (admit_captured env c rt) = Some e" "snd (writer_step rt op) = [Inl e]"
    | (action) env a s where "op = QueueInput env (Action a)" "row = Inr s"
      "snd (admit_action env a rt) = Some s" "snd (writer_step rt op) = [Inr s]"
proof (cases op)
  case (QueueInput env input)
  then show thesis
    using assms that
    by (cases input) (auto simp: writer_step_def stamped_by_def split: option.splits)
qed (use assms in \<open>simp_all add: writer_step_def stamped_by_def\<close>)

lemma writer_step_exclusion_free:
  "row \<in> set (snd (writer_step rt op)) \<Longrightarrow> row_exclusion_free (p_excluded_apps (rt_policy rt)) row"
  by (cases rule: stamped_cases, assumption)
     (auto simp: row_exclusion_free_def dest: admitted_event_exclusion_free
       dest!: admitted_action_exclusion_free)

interpretation writer_exclusions:
  filter_machine writer_step "\<lambda>rt. p_excluded_apps (rt_policy rt) = apps" "row_exclusion_free apps"
  for apps
  using writer_step_config writer_step_exclusion_free
  by unfold_locales (auto simp: same_config_def)

lemma in_events_of [simp]: "e \<in> set (events_of rows) \<longleftrightarrow> Inl e \<in> set rows"
  by (induction rows) (auto simp: events_of_def List.map_filter_def split: sum.splits)

lemma in_actions_of [simp]: "a \<in> set (actions_of rows) \<longleftrightarrow> Inr a \<in> set rows"
  by (induction rows) (auto simp: actions_of_def List.map_filter_def split: sum.splits)

lemma subseq_set: "subseq xs ys \<Longrightarrow> set xs \<subseteq> set ys"
  by (induction rule: list_emb.induct) auto


section \<open>Noninterference\<close>

text \<open>
  An input about an excluded application, and what the writer may still learn from it: of an
  event its instant and whether focus moved, of an action its instant and its recording.
\<close>

fun about_excluded :: "string set \<Rightarrow> event_payload \<Rightarrow> bool" where
  "about_excluded apps (ProcessStarted _ exe _) \<longleftrightarrow> exe_basename_lower exe \<in> apps"
| "about_excluded apps (ProcessExited _ exe _) \<longleftrightarrow> exe_basename_lower exe \<in> apps"
| "about_excluded apps (NotificationsReceived _ _) \<longleftrightarrow> apps \<noteq> {}"
| "about_excluded apps payload \<longleftrightarrow>
     (case windows_of payload of w # _ \<Rightarrow> exe_basename_lower (w_exe w) \<in> apps | [] \<Rightarrow> False)"

fun hidden_input :: "string set \<Rightarrow> writer_input \<Rightarrow> bool" where
  "hidden_input apps (Motion captured) \<longleftrightarrow> about_excluded apps (c_payload captured)"
| "hidden_input apps (Action action) \<longleftrightarrow>
     (case a_exe action of Some exe \<Rightarrow> exe_basename_lower exe \<in> apps | None \<Rightarrow> False)"
| "hidden_input apps _ \<longleftrightarrow> False"

fun same_outline :: "writer_input \<Rightarrow> writer_input \<Rightarrow> bool" where
  "same_outline (Motion c) (Motion d) \<longleftrightarrow>
     c_captured_at c = c_captured_at d \<and>
     is_focus_change (c_payload c) = is_focus_change (c_payload d)"
| "same_outline (Action a) (Action b) \<longleftrightarrow>
     a_captured_at a = a_captured_at b \<and> a_record_session_id a = a_record_session_id b"
| "same_outline _ _ \<longleftrightarrow> False"

fun alike :: "string set \<Rightarrow> writer_op \<Rightarrow> writer_op \<Rightarrow> bool" where
  "alike apps (QueueInput env i) (QueueInput env' j) \<longleftrightarrow>
     env = env' \<and> (i = j \<or> hidden_input apps i \<and> hidden_input apps j \<and> same_outline i j)"
| "alike apps op op' \<longleftrightarrow> op = op'"

definition hidden_event :: "writer_env \<Rightarrow> bool \<Rightarrow> writer_runtime \<Rightarrow> writer_runtime" where
  "hidden_event env focus rt =
     (if focus
      then clear_runtime_focus env
             (rt\<lparr>rt_policy := (rt_policy rt)\<lparr>p_current_focus_excluded := Some True\<rparr>\<rparr>)
      else rt)"

lemma hidden_boundary:
  assumes "about_excluded (p_excluded_apps P) payload"
  shows "apply_exclusion_boundary P payload =
      ((if is_focus_change payload then P\<lparr>p_current_focus_excluded := Some True\<rparr> else P),
       payload, False)"
    and "resync_for_event_if_needed q payload n u t = (q, None)"
  using assms
  by (cases payload; auto simp: apply_exclusion_boundary_def unattributed_or_excluded_def
      excludes_exe_def is_focus_change_def resync_for_event_if_needed_def Let_def
      split: option.splits)+

lemma hidden_gap:
  "about_excluded (p_excluded_apps (rt_policy rt)) (c_payload c) \<Longrightarrow> note_focus_for_gap c rt = rt"
  by (cases "c_payload c") (auto simp: note_focus_for_gap_def excludes_exe_def)

lemma admit_hidden_event:
  assumes "about_excluded (p_excluded_apps (rt_policy rt)) (c_payload c)"
  shows "admit_captured env c rt =
     ((if stale_pre_erase c rt
       then rt\<lparr>rt_diagnostics := fst (increment_stale_pre_erase_rows_dropped (rt_diagnostics rt))\<rparr>
       else hidden_event env (is_focus_change (c_payload c)) rt), None)"
  using hidden_boundary [OF assms] hidden_gap [OF assms]
  by (auto simp: admit_captured_def apply_exclusions_to_captured_def hidden_event_def
      clear_runtime_focus_def Let_def split_def)

lemma admit_hidden_action:
  assumes "excludes_action (rt_policy rt) a" and "excludes_action (rt_policy rt) b"
    and "same_outline (Action a) (Action b)"
  shows "admit_action env a rt = admit_action env b rt"
proof -
  have "action_fenced a rt = action_fenced b rt" "gap_capture a = gap_capture b"
    using assms by (auto simp: action_fenced_def panic_rejects_def gap_capture_def split: option.split)
  then show ?thesis using assms(1,2) by (simp add: admit_action_def)
qed

lemma admit_hidden_alike:
  assumes "hidden_input (p_excluded_apps (rt_policy rt)) (Motion c)"
    and "hidden_input (p_excluded_apps (rt_policy rt)) (Motion d)"
    and "same_outline (Motion c) (Motion d)"
  shows "admit_captured env c rt = admit_captured env d rt"
proof -
  have "stale_pre_erase c rt = stale_pre_erase d rt"
    using assms(3) by (simp add: stale_pre_erase_def split: option.split)
  then show ?thesis using assms by (simp add: admit_hidden_event)
qed

lemma alike_input:
  assumes "hidden_input (p_excluded_apps (rt_policy rt)) i"
    and "hidden_input (p_excluded_apps (rt_policy rt)) j" and "same_outline i j"
  shows "writer_step rt (QueueInput env i) = writer_step rt (QueueInput env j)"
  using assms
proof (cases "(i, j)" rule: same_outline.cases)
  case (1 c d)
  then have "admit_captured env c rt = admit_captured env d rt"
    using assms by (intro admit_hidden_alike) simp_all
  with 1 show ?thesis by (simp add: writer_step_def stamped_by_def queue_captured_def)
next
  case (2 a b)
  then have "admit_action env a rt = admit_action env b rt"
    using assms by (intro admit_hidden_action)
      (auto simp: excludes_action_def excludes_exe_def split: option.splits)
  with 2 show ?thesis by (simp add: writer_step_def stamped_by_def queue_action_def)
qed simp_all

lemma alike_step:
  assumes "alike (p_excluded_apps (rt_policy rt)) op op'"
  shows "writer_step rt op = writer_step rt op'"
  using assms alike_input by (cases "(p_excluded_apps (rt_policy rt), op, op')" rule: alike.cases) auto

lemma alike_run:
  assumes "list_all2 (alike apps) ops ops'" and "p_excluded_apps (rt_policy rt) = apps"
  shows "final writer_step rt ops = final writer_step rt ops' \<and>
    outputs writer_step rt ops = outputs writer_step rt ops'"
  using assms
proof (induction arbitrary: rt rule: list_all2_induct)
  case (Cons op ops op' ops')
  have "p_excluded_apps (rt_policy (fst (writer_step rt op'))) = apps"
    using Cons.prems writer_step_config [of rt op'] by (simp add: same_config_def)
  then show ?case
    using Cons.IH alike_step [of rt op op'] Cons.hyps Cons.prems by simp
qed simp


definition sample_click :: "string \<Rightarrow> string \<Rightarrow> instant \<Rightarrow> action_capture" where
  "sample_click exe control at =
     \<lparr>a_action = \<lparr>aa_action_type = action_type.Invoke,
        aa_selector_path = \<lparr>s_backend = ''uia'',
          s_hops = [\<lparr>h_control_type = 50000, h_automation_id = control, h_class_name = ''Button'',
                     h_ordinal = 0\<rparr>]\<rparr>,
        aa_trust_basis = PidMatch\<rparr>,
      a_record_session_id = 3, a_exe = Some exe, a_is_sensitive = False, a_has_name = False,
      a_pattern_action = None, a_framework = ''win32'', a_framework_class = framework_class.Native,
      a_depth = 2, a_leaf_rect = None, a_payload = Invoke None None, a_captured_at = at\<rparr>"

definition sample_session :: "string \<Rightarrow> string \<Rightarrow> string \<Rightarrow> writer_op list" where
  "sample_session exe title control =
     [StartRecording (Some 3) None True,
      QueueInput sample_env (Motion (sample_captured 2
        (FocusChanged (sample_window exe title) None 0 0 False))),
      QueueInput sample_env (Action (sample_click exe control 5))]"


section \<open>Recordings\<close>

text \<open>
  A register of the state whose value the latest input that writes it decides: \<open>mark\<close> is
  what an input writes, \<open>reading\<close> is the register.
\<close>

definition latest :: "('i \<Rightarrow> 'v option) \<Rightarrow> 'v \<Rightarrow> 'i list \<Rightarrow> 'v" where
  "latest mark start ops =
     (case List.map_filter mark (rev ops) of [] \<Rightarrow> start | v # _ \<Rightarrow> v)"

lemma latest_simps [simp]:
  "latest mark start [] = start"
  "latest mark start (ops @ [op]) =
     (case mark op of None \<Rightarrow> latest mark start ops | Some v \<Rightarrow> v)"
  by (simp_all add: latest_def List.map_filter_def split: option.split)

locale register =
  fixes step :: "'s \<Rightarrow> 'i \<Rightarrow> 's \<times> 'o list" and mark :: "'i \<Rightarrow> 'v option" and reading :: "'s \<Rightarrow> 'v"
  assumes step_reading:
    "reading (fst (step s x)) = (case mark x of None \<Rightarrow> reading s | Some v \<Rightarrow> v)"
begin

lemma final_reading: "reading (final step s xs) = latest mark (reading s) xs"
  by (induction xs rule: rev_induct) (simp_all add: step_reading split: option.split)

end

fun recording_mark :: "int \<Rightarrow> writer_op \<Rightarrow> bool option" where
  "recording_mark rid (StartRecording opened request confirm_ok) =
     (if request \<noteq> None \<and> \<not> confirm_ok then None else map_option (\<lambda>r. r = rid) opened)"
| "recording_mark rid (StopRecording _ close_ok r) = (if close_ok \<and> r = rid then Some False else None)"
| "recording_mark rid _ = None"

fun paused_mark :: "int \<Rightarrow> writer_op \<Rightarrow> bool option" where
  "paused_mark rid (StartRecording opened request confirm_ok) =
     (if request \<noteq> None \<and> \<not> confirm_ok then None else map_option (\<lambda>r. False) opened)"
| "paused_mark rid (StopRecording _ close_ok r) = (if close_ok \<and> r = rid then Some False else None)"
| "paused_mark rid (PauseRecording pause_ok r) = (if pause_ok then Some (r = rid) else None)"
| "paused_mark rid (ResumeRecording resume_ok r) = (if resume_ok \<and> r = rid then Some False else None)"
| "paused_mark rid _ = None"

fun panic_mark :: "int \<Rightarrow> writer_op \<Rightarrow> instant option option" where
  "panic_mark rid (ArmPanic r at) = Some (if r = rid then Some at else None)"
| "panic_mark rid (ClearPanic r) = (if r = rid then Some None else None)"
| "panic_mark rid _ = None"

definition panic_cutoff_for :: "int \<Rightarrow> writer_runtime \<Rightarrow> instant option" where
  "panic_cutoff_for rid rt =
     (case rt_panic_action_cutoff rt of
        Some (r, at) \<Rightarrow> if r = rid then Some at else None | None \<Rightarrow> None)"

lemma admit_record_state [simp]:
  "rs_active_record_session_id (rt_record_state (fst (admit_captured env c rt)))
     = rs_active_record_session_id (rt_record_state rt)"
  "rs_paused_record_session_id (rt_record_state (fst (admit_captured env c rt)))
     = rs_paused_record_session_id (rt_record_state rt)"
  "rs_active_record_session_id (rt_record_state (fst (admit_action env a rt)))
     = rs_active_record_session_id (rt_record_state rt)"
  "rs_paused_record_session_id (rt_record_state (fst (admit_action env a rt)))
     = rs_paused_record_session_id (rt_record_state rt)"
  by (auto simp: admit_captured_def admit_action_def note_focus_for_gap_def on_record_state_def
      Let_def split_def split: option.split event_payload.split)

lemma queue_input_registers [simp]:
  "rs_active_record_session_id (rt_record_state (queue_writer_input env i rt))
     = rs_active_record_session_id (rt_record_state rt)"
  "rs_paused_record_session_id (rt_record_state (queue_writer_input env i rt))
     = rs_paused_record_session_id (rt_record_state rt)"
  "rt_panic_action_cutoff (queue_writer_input env i rt) = rt_panic_action_cutoff rt"
  by (cases i; simp)+

lemma recording_register:
  "rs_active_record_session_id (rt_record_state (fst (writer_step rt op))) = Some rid \<longleftrightarrow>
     (case recording_mark rid op of
        None \<Rightarrow> rs_active_record_session_id (rt_record_state rt) = Some rid | Some b \<Rightarrow> b)"
  by (cases op) (auto simp: writer_op_defs Let_def split_def split: option.split)

lemma paused_register:
  "rs_paused_record_session_id (rt_record_state (fst (writer_step rt op))) = Some rid \<longleftrightarrow>
     (case paused_mark rid op of
        None \<Rightarrow> rs_paused_record_session_id (rt_record_state rt) = Some rid | Some b \<Rightarrow> b)"
  by (cases op) (auto simp: writer_op_defs Let_def split_def split: option.split)

lemma panic_register:
  "panic_cutoff_for rid (fst (writer_step rt op)) =
     (case panic_mark rid op of None \<Rightarrow> panic_cutoff_for rid rt | Some v \<Rightarrow> v)"
  by (cases op) (auto simp: writer_op_defs panic_cutoff_for_def panic_arm_def panic_clear_def
      Let_def split_def split: option.split)

interpretation recording_open:
  register writer_step "recording_mark rid"
    "\<lambda>rt. rs_active_record_session_id (rt_record_state rt) = Some rid" for rid
  by unfold_locales (rule recording_register)

interpretation recording_paused:
  register writer_step "paused_mark rid"
    "\<lambda>rt. rs_paused_record_session_id (rt_record_state rt) = Some rid" for rid
  by unfold_locales (rule paused_register)

interpretation panic_fence: register writer_step "panic_mark rid" "panic_cutoff_for rid" for rid
  by unfold_locales (rule panic_register)

lemma action_stamped_iff:
  assumes "\<not> excludes_action (rt_policy rt) a"
  shows "snd (writer_step rt (QueueInput env (Action a))) \<noteq> [] \<longleftrightarrow>
     rs_active_record_session_id (rt_record_state rt) = Some (a_record_session_id a) \<and>
     rs_paused_record_session_id (rt_record_state rt) \<noteq> Some (a_record_session_id a) \<and>
     (case panic_cutoff_for (a_record_session_id a) rt of
        None \<Rightarrow> True | Some at \<Rightarrow> a_captured_at a < at) \<and>
     \<not> sensitive_context_active (rt_policy rt)"
  using assms
  by (auto simp: writer_step_def stamped_by_def admit_action_def action_fenced_def
      panic_rejects_def panic_cutoff_for_def split: option.splits if_splits)

text \<open>
  C6 (\<open>queue_action\<close>, \<open>PanicActionCutoff\<close>): when an action is recorded, exactly.  An action of
  an application that is not excluded becomes a row if and only if its recording is the one
  most recently started and was not stopped since, was not paused since without a resume,
  the action was captured before the instant of the panic cutoff standing for that
  recording, if there is one, and no sensitive context is active.
\<close>

theorem action_recorded_iff:
  assumes "\<not> excludes_action P a"
  shows "let rt = final writer_step (writer_new seq P batch_size threshold) ops;
             rid = a_record_session_id a
         in snd (writer_step rt (QueueInput env (Action a))) \<noteq> [] \<longleftrightarrow>
            latest (recording_mark rid) False ops \<and> \<not> latest (paused_mark rid) False ops \<and>
            (case latest (panic_mark rid) None ops of
               None \<Rightarrow> True | Some at \<Rightarrow> a_captured_at a < at) \<and>
            \<not> sensitive_context_active (rt_policy rt)"
proof -
  let ?start = "writer_new seq P batch_size threshold"
  let ?rt = "final writer_step ?start ops"
  have "p_excluded_apps (rt_policy ?rt) = p_excluded_apps P"
    by (rule writer_exclusions.final_inv) (simp add: writer_new_def)
  then have free: "\<not> excludes_action (rt_policy ?rt) a"
    using assms by (simp add: excludes_action_def excludes_exe_def split: option.splits)
  have start: "rs_active_record_session_id (rt_record_state ?start) = None"
    "rs_paused_record_session_id (rt_record_state ?start) = None" "panic_cutoff_for rid ?start = None"
    for rid
    by (simp_all add: writer_new_def record_state_default_def panic_cutoff_for_def)
  show ?thesis
    unfolding Let_def action_stamped_iff [OF free] recording_open.final_reading
      recording_paused.final_reading panic_fence.final_reading
    by (simp add: start)
qed

theorem action_recorded_iff_witness:
  "let rt = final writer_step (sample_runtime sample_policy)
              [StartRecording (Some 3) None True, ArmPanic 3 6];
       attempt = (\<lambda>at. snd (writer_step rt (QueueInput sample_env
                        (Action (sample_click ''notes.exe'' ''save'' at)))))
   in attempt 5 \<noteq> [] \<and> attempt 6 = []"
proof -
  have "p_excluded_apps sample_policy = {''bank.exe''}" "exe_basename_lower ''notes.exe'' \<noteq> ''bank.exe''"
    by code_simp+
  then have free: "\<not> excludes_action sample_policy (sample_click ''notes.exe'' ''save'' at)" for at
    by (simp add: excludes_action_def excludes_exe_def sample_click_def)
  have calm: "\<not> sensitive_context_active (rt_policy (final writer_step (sample_runtime sample_policy)
              [StartRecording (Some 3) None True, ArmPanic 3 6]))"
    by (simp add: writer_op_defs Let_def sample_runtime_def writer_new_def sample_policy_def
        policy_identity_def sensitive_context_active_def exe_basename_lower_def)
  have marks: "latest (recording_mark 3) False [StartRecording (Some 3) None True, ArmPanic 3 6] = True"
    "latest (paused_mark 3) False [StartRecording (Some 3) None True, ArmPanic 3 6] = False"
    "latest (panic_mark 3) None [StartRecording (Some 3) None True, ArmPanic 3 6] = Some 6"
    by code_simp+
  have fields: "a_record_session_id (sample_click exe control at) = 3"
    "a_captured_at (sample_click exe control at) = at" for exe control at
    by (simp_all add: sample_click_def)
  have iff: "snd (writer_step (final writer_step (sample_runtime sample_policy)
        [StartRecording (Some 3) None True, ArmPanic 3 6])
      (QueueInput sample_env (Action (sample_click ''notes.exe'' ''save'' at)))) \<noteq> [] \<longleftrightarrow> at < 6" for at
    using action_recorded_iff [OF free, of "sequencer_new 5 \<lparr>base_instant = 0, base_utc_ms = 1000\<rparr>"
        2 2000 "[StartRecording (Some 3) None True, ArmPanic 3 6]", folded sample_runtime_def] calm
    by (simp add: Let_def fields marks del: final.simps)
  show ?thesis
    using iff [of 5] iff [of 6] by (simp add: Let_def del: final.simps)
qed

section \<open>Gap markers\<close>

definition is_gap_marker :: "stamped_action \<Rightarrow> bool" where
  "is_gap_marker action \<longleftrightarrow>
     a_exe action = None \<and> a_pattern_action action = Some EXCLUDED_APP_GAP_PATTERN \<and>
     s_hops (aa_selector_path (a_action action)) = [] \<and> a_leaf_rect action = None \<and>
     a_payload action = action_payload.UiActionOther None None None"

text \<open>Inputs that do not end an excluded run.\<close>

fun continues_gap :: "string set \<Rightarrow> writer_op \<Rightarrow> bool" where
  "continues_gap apps (QueueInput _ (Motion captured)) =
     (case c_payload captured of
        FocusChanged window _ _ _ _ \<Rightarrow> exe_basename_lower (w_exe window) \<in> apps
      | _ \<Rightarrow> True)"
| "continues_gap apps (QueueInput _ (Action action)) =
     (case a_exe action of Some exe \<Rightarrow> exe_basename_lower exe \<in> apps | None \<Rightarrow> False)"
| "continues_gap apps _ = True"

lemma gap_open_captured:
  assumes "continues_gap (p_excluded_apps (rt_policy rt)) (QueueInput env (Motion c))"
  shows "rs_excluded_gap_open (rt_record_state (fst (admit_captured env c rt)))
    = rs_excluded_gap_open (rt_record_state rt)"
proof -
  have "note_focus_for_gap c rt = rt"
    using assms by (simp add: note_focus_for_gap_def excludes_exe_def split: event_payload.splits)
  then show ?thesis
    by (simp add: admit_captured_def Let_def split_def split: option.split)
qed

lemma marker_step:
  assumes "continues_gap (p_excluded_apps (rt_policy rt)) op"
  shows "list_all is_gap_marker (actions_of (snd (writer_step rt op)))"
    and "length (actions_of (snd (writer_step rt op))) + of_bool (rs_excluded_gap_open (rt_record_state rt))
       \<le> of_bool (rs_excluded_gap_open (rt_record_state (fst (writer_step rt op))))"
proof -
  show "list_all is_gap_marker (actions_of (snd (writer_step rt op)))"
  proof (unfold list_all_iff, rule ballI)
    fix s assume "s \<in> set (actions_of (snd (writer_step rt op)))"
    then have "Inr s \<in> set (snd (writer_step rt op))" by simp
    then show "is_gap_marker s"
    proof (cases rule: stamped_cases)
      case (action env a s')
      then have "excludes_action (rt_policy rt) a"
        using assms by (auto simp: excludes_action_def excludes_exe_def split: option.splits)
      with admitted_action_cases(2) [OF action(3)] action(2) show ?thesis
        by (simp add: is_gap_marker_def gap_capture_def stamp_action_def Let_def action_body.defs)
    qed simp
  qed
  show "length (actions_of (snd (writer_step rt op))) + of_bool (rs_excluded_gap_open (rt_record_state rt))
       \<le> of_bool (rs_excluded_gap_open (rt_record_state (fst (writer_step rt op))))"
  proof (cases op)
    case (QueueInput env input)
    show ?thesis
    proof (cases input)
      case (Motion c)
      then show ?thesis
        using assms gap_open_captured [of rt env c]
        by (auto simp: QueueInput writer_step_def stamped_by_def split: option.splits)
    next
      case (Action a)
      then have "excludes_action (rt_policy rt) a"
        using assms by (auto simp: QueueInput excludes_action_def excludes_exe_def split: option.splits)
      then show ?thesis
        by (auto simp: QueueInput Action writer_step_def stamped_by_def admit_action_def Let_def
            split_def)
    qed (simp_all add: QueueInput writer_step_def stamped_by_def)
  qed (simp_all add: writer_op_defs Let_def split_def split: option.split)
qed

lemma marker_run:
  assumes "list_all (continues_gap apps) ops" and "p_excluded_apps (rt_policy rt) = apps"
  shows "list_all is_gap_marker (actions_of (outputs writer_step rt ops)) \<and>
    length (actions_of (outputs writer_step rt ops)) + of_bool (rs_excluded_gap_open (rt_record_state rt))
      \<le> of_bool (rs_excluded_gap_open (rt_record_state (final writer_step rt ops)))"
  using assms
proof (induction ops arbitrary: rt)
  case (Cons op ops)
  have "p_excluded_apps (rt_policy (fst (writer_step rt op))) = apps"
    using Cons.prems writer_step_config [of rt op] by (simp add: same_config_def)
  with Cons.IH [of "fst (writer_step rt op)"] Cons.prems marker_step [of rt op] show ?case
    by fastforce
qed simp



section \<open>A clean stop\<close>

definition row_remembered :: "writer_runtime \<Rightarrow> bool" where
  "row_remembered rt \<longleftrightarrow>
     (rt_stored_open_focus rt = None \<or> of_row_written (rt_open_focus rt))"

lemma clear_open_focus_remembered:
  "row = None \<or> of_row_written st \<Longrightarrow> clear_open_focus ok st row = (st', row') \<Longrightarrow>
   (row' = None \<or> of_row_written st') \<and> (ok \<longrightarrow> row' = None)"
  by (auto simp: clear_open_focus_def Let_def split: if_splits)

lemma note_open_focus_remembered:
  assumes "row = None \<or> of_row_written st" and "note_open_focus_event ok st row e = (st', row')"
  shows "row' = None \<or> of_row_written st'"
  using assms
  by (auto simp: note_open_focus_event_def clear_open_focus_def Let_def
      split: event_payload.splits if_splits)

lemma flush_remembered [simp]:
  "row_remembered (flush_events env rt) = row_remembered rt"
  "row_remembered (flush_actions env rt) = row_remembered rt"
  "row_remembered (on_record_state f rt) = row_remembered rt"
  by (simp_all add: row_remembered_def flush_events_def flush_actions_def on_record_state_def
      split_def Let_def)

lemma admit_remembered:
  assumes "row_remembered rt"
  shows "row_remembered (fst (admit_captured env c rt))" and "row_remembered (fst (admit_action env a rt))"
proof -
  show "row_remembered (fst (admit_action env a rt))"
    using assms by (simp add: row_remembered_def admit_action_def stamp_into_def
        on_record_state_def Let_def split_def)
  show "row_remembered (fst (admit_captured env c rt))"
    using assms clear_open_focus_remembered [OF _ prod.collapse [symmetric]]
      note_open_focus_remembered [OF _ prod.collapse [symmetric]]
    by (auto simp: row_remembered_def admit_captured_def note_focus_for_gap_def on_record_state_def
        Let_def split_def split: option.split event_payload.split)
qed

lemma step_remembered: "row_remembered rt \<Longrightarrow> row_remembered (fst (writer_step rt op))"
proof (cases op)
  case (QueueInput env input)
  assume "row_remembered rt"
  then show ?thesis
    using admit_remembered
    by (cases input)
       (auto simp: QueueInput writer_step_def queue_captured_def queue_action_def push_event_def
         push_action_def Let_def split_def row_remembered_def flush_events_def flush_actions_def
         split: option.split)
next
  case (BeatTick env ok)
  assume "row_remembered rt"
  then show ?thesis
    by (auto simp: BeatTick writer_op_defs row_remembered_def beat_open_focus_def Let_def split_def
        split: option.split)
next
  case (ForgetFocusCommand env)
  assume "row_remembered rt"
  then show ?thesis
    using clear_open_focus_remembered [OF _ prod.collapse [symmetric]]
    by (auto simp: ForgetFocusCommand writer_op_defs row_remembered_def Let_def split_def)
next
  case (StopRecording env ok rid)
  assume "row_remembered rt"
  then show ?thesis
    by (simp add: StopRecording writer_step_def stop_recording_def flush_all_batches_def Let_def)
qed (simp_all add: writer_op_defs row_remembered_def Let_def split_def on_record_state_def
    flush_events_def flush_actions_def split: option.split)

interpretation open_row: machine writer_step row_remembered "\<lambda>_ _. True"
  by unfold_locales (simp_all add: step_remembered)

text \<open>What a drain reads is a run of queue steps.\<close>

definition queue_ops :: "(writer_env \<times> writer_input) list \<Rightarrow> writer_op list" where
  "queue_ops inputs = map (\<lambda>(env, input). QueueInput env input) inputs"

lemma drain_as_run: "drain_writer_inputs inputs rt = final writer_step rt (queue_ops inputs)"
  by (induction inputs arbitrary: rt)
     (auto simp: drain_writer_inputs_def queue_ops_def writer_step_def)

lemma clear_runtime_frame [simp]:
  "rt_stored_events (clear_runtime_focus env rt) = rt_stored_events rt"
  "rt_stored_actions (clear_runtime_focus env rt) = rt_stored_actions rt"
  "rt_batch (clear_runtime_focus env rt) = rt_batch rt"
  "rt_action_batch (clear_runtime_focus env rt) = rt_action_batch rt"
  "rt_report (clear_runtime_focus env rt) = rt_report rt"
  by (simp_all add: clear_runtime_focus_def Let_def split_def)

lemma persist_counters_frame [simp]:
  "rt_stored_events (persist_diagnostics_counters env rt) = rt_stored_events rt"
  "rt_stored_actions (persist_diagnostics_counters env rt) = rt_stored_actions rt"
  "rt_stored_open_focus (persist_diagnostics_counters env rt) = rt_stored_open_focus rt"
  "rt_batch (persist_diagnostics_counters env rt) = rt_batch rt"
  "rt_action_batch (persist_diagnostics_counters env rt) = rt_action_batch rt"
  "rt_report (persist_diagnostics_counters env rt) = rt_report rt"
  by (simp_all add: persist_diagnostics_counters_def Let_def split_def)

lemma flush_all_empties [simp]:
  "rt_batch (flush_all_batches env rt) = []" "rt_action_batch (flush_all_batches env rt) = []"
  by (auto simp: flush_all_batches_def flush_events_def flush_actions_def flush_batch_def
      flush_action_batch_def Let_def split_def split: sum.split)

text \<open>
  C7 (\<open>run_writer_with_commands\<close>): a clean stop leaves nothing behind.  After any run and the
  shutdown drain both batches are empty, the report counts every event numbered during the
  run or the drain as written or skipped and exactly the stored ones as written, and no
  open-focus row is left for the crash repair of the next start.
\<close>

theorem clean_stop_leaves_nothing_behind:
  assumes "en_delete_ok env"
  shows "let rt = writer_new seq P batch_size threshold;
             rows = outputs writer_step rt (ops @ queue_ops drained);
             (rt', report) = writer_stop env drained True True (final writer_step rt ops)
         in rt_batch rt' = [] \<and> rt_action_batch rt' = [] \<and> rt_stored_open_focus rt' = None \<and>
            report = Some (rt_report rt') \<and>
            length (rt_stored_events rt') = wr_events_written (rt_report rt') \<and>
            length (rt_stored_actions rt') = wr_actions_written (rt_report rt') \<and>
            wr_events_written (rt_report rt') + wr_events_skipped (rt_report rt')
              = length (events_of rows)"
proof -
  let ?rt = "writer_new seq P batch_size threshold"
  let ?drained = "final writer_step ?rt (ops @ queue_ops drained)"
  let ?flushed = "flush_all_batches env ?drained"
  have stop: "writer_stop env drained True True (final writer_step ?rt ops)
      = (persist_diagnostics_counters env (clear_runtime_focus env ?flushed), Some (rt_report ?flushed))"
    by (simp add: writer_stop_def drain_as_run)
  have account: "account ?rt (outputs writer_step ?rt (ops @ queue_ops drained)) ?flushed"
    using account_trans [OF account_run account_flush_all, of ?rt "ops @ queue_ops drained" env]
    by (simp only: append_Nil2)
  have "row_remembered ?drained"
    by (rule open_row.final_inv) (simp add: row_remembered_def writer_new_def)
  then have "row_remembered ?flushed" by (simp add: flush_all_batches_def)
  then have "rt_stored_open_focus (clear_runtime_focus env ?flushed) = None"
    using assms clear_open_focus_remembered [OF _ prod.collapse [symmetric]]
    by (auto simp: row_remembered_def clear_runtime_focus_def Let_def split_def)
  then show ?thesis
    using account by (simp add: stop account_def Let_def) (simp add: writer_new_def)
qed

theorem clean_stop_leaves_nothing_behind_witness:
  "rt_stored_open_focus (fst (writer_stop sample_env
     [(sample_env, Motion (sample_captured 4 CapturePaused))] True True
     (final writer_step (sample_runtime policy_identity)
        [QueueInput sample_env (Motion (sample_captured 2
           (FocusChanged (sample_window ''notes.exe'' ''n'') None 0 0 False))),
         BeatTick sample_env True]))) = None"
proof -
  have "en_delete_ok sample_env" by (simp add: sample_env_def)
  from clean_stop_leaves_nothing_behind [OF this, of
      "sequencer_new 5 \<lparr>base_instant = 0, base_utc_ms = 1000\<rparr>" policy_identity 2 2000
      "[QueueInput sample_env (Motion (sample_captured 2
           (FocusChanged (sample_window ''notes.exe'' ''n'') None 0 0 False))),
        BeatTick sample_env True]"
      "[(sample_env, Motion (sample_captured 4 CapturePaused))]", folded sample_runtime_def]
  show ?thesis by (simp only: Let_def split_def)
qed

section \<open>After an erase\<close>

definition reemitted :: "int \<Rightarrow> policy \<Rightarrow> event_envelope \<Rightarrow> bool" where
  "reemitted session_id P event \<longleftrightarrow>
     e_session_id event = session_id \<and>
     e_payload event \<in> SensitiveContextEntered ` set (active_sensitive_reasons P)"

lemma reemit_one:
  assumes "p_sensitive_context_suppression (rt_policy rt)"
    and "r \<in> p_active_sensitive_reasons (rt_policy rt)"
    and "snd (admit_captured env (captured_new source.System now (SensitiveContextEntered r)) rt) = Some e"
  shows "e_payload e = SensitiveContextEntered r \<and> e_session_id e = q_session_id (rt_sequencer rt)"
  using assms
  by (auto simp: admit_captured_def captured_new_def note_focus_for_gap_def
      resync_for_event_if_needed_def apply_exclusions_to_captured_def apply_exclusion_boundary_def
      after_boundary Let_def split_def split: if_splits option.splits)

lemma sensitive_row_payload:
  "p_sensitive_context_suppression P \<Longrightarrow> c_payload c = SensitiveContextEntered r \<Longrightarrow>
   e_payload (snd (apply_after_exclusions P (snd (stamp q c)))) = SensitiveContextEntered r"
  by (simp add: after_boundary)

lemma note_sensitive_row:
  "e_payload e = SensitiveContextEntered r \<Longrightarrow> note_open_focus_event ok state row e = (state, row)"
  by (simp add: note_open_focus_event_def)

lemma reemit_one_frame:
  assumes "p_sensitive_context_suppression (rt_policy rt)"
    and "r \<in> p_active_sensitive_reasons (rt_policy rt)"
  shows "rt_policy (queue_captured env (captured_new source.System now (SensitiveContextEntered r)) rt)
      = rt_policy rt"
    and "rt_stored_open_focus (fst (admit_captured env
          (captured_new source.System now (SensitiveContextEntered r)) rt)) = rt_stored_open_focus rt"
  using assms
  by (auto simp: admit_captured_def captured_new_def note_focus_for_gap_def
      resync_for_event_if_needed_def apply_exclusions_to_captured_def apply_exclusion_boundary_def
      after_state is_focus_change_def note_sensitive_entered_def sensitive_row_payload
      note_sensitive_row insert_absorb Let_def split_def split: option.split)

lemma flush_open_focus [simp]:
  "rt_stored_open_focus (flush_events env rt) = rt_stored_open_focus rt"
  "rt_stored_open_focus (queue_captured env c rt) = rt_stored_open_focus (fst (admit_captured env c rt))"
  "rt_action_batch (flush_actions env rt) = []"
  by (auto simp: flush_events_def flush_actions_def flush_action_batch_def queue_captured_def
      push_event_def split_def Let_def split: option.split sum.split)

text \<open>A store that holds nothing but re-announced boundaries of one session.\<close>

definition erased_store :: "int \<Rightarrow> policy \<Rightarrow> writer_runtime \<Rightarrow> bool" where
  "erased_store session_id P rt \<longleftrightarrow>
     rt_policy rt = P \<and> q_session_id (rt_sequencer rt) = session_id \<and>
     list_all (reemitted session_id P) (rt_stored_events rt @ rt_batch rt) \<and>
     rt_stored_actions rt = [] \<and> rt_action_batch rt = [] \<and> rt_stored_open_focus rt = None"

lemma active_reason_facts:
  "r \<in> set (active_sensitive_reasons P) \<Longrightarrow>
   p_sensitive_context_suppression P \<and> r \<in> p_active_sensitive_reasons P"
  by (auto simp: active_sensitive_reasons_def split: if_splits)

lemma erased_reemit_one:
  assumes "erased_store sid P rt" and "r \<in> set (active_sensitive_reasons P)"
  shows "erased_store sid P
    (queue_captured env (captured_new source.System now (SensitiveContextEntered r)) rt)"
proof -
  let ?c = "captured_new source.System now (SensitiveContextEntered r)"
  let ?rows = "case snd (admit_captured env ?c rt) of Some e \<Rightarrow> [Inl e] | None \<Rightarrow> []"
  let ?rt = "queue_captured env ?c rt"
  have active: "p_sensitive_context_suppression (rt_policy rt)"
    "r \<in> p_active_sensitive_reasons (rt_policy rt)"
    using assms active_reason_facts by (simp_all add: erased_store_def)
  have rows: "list_all (reemitted sid P) (events_of ?rows)" "actions_of ?rows = []"
    using reemit_one [OF active, of env now] assms
    by (auto simp: reemitted_def erased_store_def split: option.split)
  have account: "account rt ?rows ?rt" by (rule account_queue_captured)
  then have "set (rt_stored_events ?rt @ rt_batch ?rt)
      \<subseteq> set (rt_stored_events rt @ rt_batch rt @ events_of ?rows)"
    unfolding account_def by (blast dest: subseq_set)
  then have "list_all (reemitted sid P) (rt_stored_events ?rt @ rt_batch ?rt)"
    using assms(1) rows(1) by (auto simp: erased_store_def list_all_iff)
  moreover have "set (rt_stored_actions ?rt @ rt_action_batch ?rt) \<subseteq> {}"
  proof -
    have "subseq (rt_stored_actions ?rt @ rt_action_batch ?rt)
        (rt_stored_actions rt @ rt_action_batch rt @ actions_of ?rows)"
      using account unfolding account_def by blast
    from subseq_set [OF this] show ?thesis
      using assms(1) unfolding rows(2) erased_store_def by simp
  qed
  moreover have "q_session_id (rt_sequencer ?rt) = q_session_id (rt_sequencer rt)"
    using numbered_captured [of rt env ?c] by (simp add: numbered_def)
  ultimately show ?thesis
    using assms(1) reemit_one_frame [OF active, of env now] by (simp add: erased_store_def)
qed

lemma erased_reemit:
  assumes "erased_store sid P rt"
  shows "erased_store sid P (reemit_active_sensitive_contexts env now rt)"
proof -
  have "set rs \<subseteq> set (active_sensitive_reasons P) \<Longrightarrow> erased_store sid P rt' \<Longrightarrow>
      erased_store sid P (foldl (\<lambda>rt reason. queue_captured env
        (captured_new source.System now (SensitiveContextEntered reason)) rt) rt' rs)" for rs rt'
    by (induction rs arbitrary: rt') (auto intro: erased_reemit_one)
  then show ?thesis
    using assms by (simp add: reemit_active_sensitive_contexts_def erased_store_def)
qed

lemma erase_completed_cases:
  assumes "secure_erase env drained finalize_ok delete (Some (sid, tb)) completed_at rt = (rt', outcome)"
    and "outcome \<in> {secure_erase_outcome.Completed,
      secure_erase_outcome.DeleteCommittedScrubIncomplete}"
  obtains rt1 where "rt_batch rt1 = []" "rt_action_batch rt1 = []"
    "rt' = reemit_active_sensitive_contexts env completed_at
       (replace_session sid tb (Some (projected_timestamp_for (sequencer_new sid tb) completed_at))
         (rebase_heartbeat (erase_store rt1)))"
proof
  let ?rt1 = "close_record_state (flush_all_batches env (drain_writer_inputs drained rt))"
  show "rt_batch ?rt1 = []" "rt_action_batch ?rt1 = []"
    by (auto simp: close_record_state_def flush_all_batches_def flush_events_def flush_actions_def
        flush_batch_def flush_action_batch_def Let_def split_def split: sum.split)
  show "rt' = reemit_active_sensitive_contexts env completed_at
       (replace_session sid tb (Some (projected_timestamp_for (sequencer_new sid tb) completed_at))
         (rebase_heartbeat (erase_store ?rt1)))"
    using assms by (auto simp: secure_erase_def Let_def split: if_splits option.splits)
qed

lemma erased_after_erase:
  assumes "secure_erase env drained finalize_ok delete (Some (sid, tb)) completed_at rt = (rt', outcome)"
    and "outcome \<in> {secure_erase_outcome.Completed,
      secure_erase_outcome.DeleteCommittedScrubIncomplete}"
  shows "erased_store sid (rt_policy rt') rt'"
proof -
  obtain rt1 where rt1: "rt_batch rt1 = []" "rt_action_batch rt1 = []"
    "rt' = reemit_active_sensitive_contexts env completed_at
       (replace_session sid tb (Some (projected_timestamp_for (sequencer_new sid tb) completed_at))
         (rebase_heartbeat (erase_store rt1)))"
    using erase_completed_cases [OF assms] by blast
  have "erased_store sid (rt_policy rt1)
      (replace_session sid tb (Some (projected_timestamp_for (sequencer_new sid tb) completed_at))
         (rebase_heartbeat (erase_store rt1)))"
    using rt1(1,2)
    by (simp add: erased_store_def replace_session_def rebase_heartbeat_def erase_store_def
        sequencer_new_def)
  from erased_reemit [OF this] show ?thesis
    unfolding rt1(3) by (metis erased_store_def)
qed

lemma run_session:
  "list_all (\<lambda>row. row_session row = q_session_id (rt_sequencer rt)) (outputs writer_step rt ops) \<and>
   q_session_id (rt_sequencer (final writer_step rt ops)) = q_session_id (rt_sequencer rt)"
proof (induction ops arbitrary: rt)
  case (Cons op ops)
  show ?case
    using Cons.IH [of "fst (writer_step rt op)"] numbered_step [of rt op] by (auto simp: numbered_def)
qed simp

lemma erase_outcome:
  assumes "rs_active_record_session_id (rt_record_state rt) = None"
  shows "snd (secure_erase env drained True (Some scrubbed) (Some (sid, tb)) completed_at rt)
    = delete_committed scrubbed"
  using assms by (simp add: secure_erase_def Let_def)

lemma committed_outcome:
  "delete_committed scrubbed \<in> {secure_erase_outcome.Completed,
     secure_erase_outcome.DeleteCommittedScrubIncomplete}"
  by (simp add: delete_committed_def)

text \<open>
  C4 (\<open>secure_erase\<close>): what an erase leaves.  With no recording open and the store's statements
  succeeding, the database and the batches afterwards hold no action, no open-focus row and
  no event but the re-announcements of the sensitive contexts still active, whatever was
  stored, waiting or drained before; and every row that is numbered, stored or waiting at any
  later time carries the replacement session.
\<close>

theorem secure_erase_leaves_only_the_new_session:
  assumes "rs_active_record_session_id (rt_record_state rt) = None"
  shows "let (rt', outcome) =
               secure_erase env drained True (Some scrubbed) (Some (sid, tb)) completed_at rt;
             later = final writer_step rt' ops
         in outcome = delete_committed scrubbed \<and>
            list_all (reemitted sid (rt_policy rt')) (rt_stored_events rt' @ rt_batch rt') \<and>
            rt_stored_actions rt' = [] \<and> rt_action_batch rt' = [] \<and>
            rt_stored_open_focus rt' = None \<and>
            list_all (\<lambda>row. row_session row = sid) (outputs writer_step rt' ops) \<and>
            list_all (\<lambda>event. e_session_id event = sid) (rt_stored_events later @ rt_batch later) \<and>
            list_all (\<lambda>action. a_session_id action = sid)
              (rt_stored_actions later @ rt_action_batch later)"
proof -
  obtain rt' outcome where erase:
    "secure_erase env drained True (Some scrubbed) (Some (sid, tb)) completed_at rt = (rt', outcome)"
    by (cases "secure_erase env drained True (Some scrubbed) (Some (sid, tb)) completed_at rt")
  have outcome: "outcome = delete_committed scrubbed"
    using erase_outcome [OF assms, of env drained scrubbed sid tb completed_at] erase by simp
  have erased: "erased_store sid (rt_policy rt') rt'"
    using erased_after_erase [OF erase] committed_outcome outcome by simp
  let ?later = "final writer_step rt' ops"
  have rows: "list_all (\<lambda>row. row_session row = sid) (outputs writer_step rt' ops)"
    using run_session [of rt' ops] erased by (simp add: erased_store_def)
  have account: "account rt' (outputs writer_step rt' ops) ?later" by (rule account_run)
  have "set (rt_stored_events ?later @ rt_batch ?later)
      \<subseteq> set (rt_stored_events rt' @ rt_batch rt' @ events_of (outputs writer_step rt' ops))"
    using account unfolding account_def by (blast dest: subseq_set)
  then have events: "list_all (\<lambda>event. e_session_id event = sid) (rt_stored_events ?later @ rt_batch ?later)"
    using rows erased
    by (fastforce simp: list_all_iff erased_store_def reemitted_def row_session_def)
  have "set (rt_stored_actions ?later @ rt_action_batch ?later)
      \<subseteq> set (rt_stored_actions rt' @ rt_action_batch rt' @ actions_of (outputs writer_step rt' ops))"
    using account unfolding account_def by (blast dest: subseq_set)
  then have actions: "list_all (\<lambda>action. a_session_id action = sid)
      (rt_stored_actions ?later @ rt_action_batch ?later)"
    using rows erased by (fastforce simp: list_all_iff erased_store_def row_session_def)
  show ?thesis
    using outcome erased rows events actions
    by (simp add: erase erased_store_def)
qed

definition guarded_policy :: policy where
  "guarded_policy = policy_identity\<lparr>p_sensitive_context_suppression := True,
     p_active_sensitive_reasons := {SessionLocked}\<rparr>"

theorem secure_erase_leaves_only_the_new_session_witness:
  "let (rt', outcome) = secure_erase sample_env
         [(sample_env, Motion (sample_captured 4 CapturePaused))] True (Some True)
         (Some (6, \<lparr>base_instant = 50, base_utc_ms = 2000\<rparr>)) 60 (sample_runtime guarded_policy)
   in outcome = secure_erase_outcome.Completed \<and> rt_stored_actions rt' = [] \<and>
      list_all (\<lambda>event. e_session_id event = 6) (rt_stored_events rt' @ rt_batch rt')"
proof -
  have idle: "rs_active_record_session_id (rt_record_state (sample_runtime guarded_policy)) = None"
    by (simp add: sample_runtime_def writer_new_def record_state_default_def)
  show ?thesis
    using secure_erase_leaves_only_the_new_session [OF idle, of sample_env
        "[(sample_env, Motion (sample_captured 4 CapturePaused))]" True 6
        "\<lparr>base_instant = 50, base_utc_ms = 2000\<rparr>" 60 "[]"]
    by (simp add: split_def delete_committed_def Let_def)
qed

subsection \<open>Rows captured before the erase\<close>

fun keeps_clock :: "writer_op \<Rightarrow> bool" where
  "keeps_clock (QueueInput _ (Motion captured)) =
     (case c_payload captured of
        PowerResume _ _ \<Rightarrow> False | PowerBoundaryRecovered _ _ \<Rightarrow> False | _ \<Rightarrow> True)"
| "keeps_clock (HeartbeatTick _) = False"
| "keeps_clock _ = True"

lemma stamp_timebase [simp]:
  "q_timebase (fst (stamp q c)) = q_timebase q"
  "q_timebase (fst (stamp_action q a)) = q_timebase q"
  by (simp_all add: stamp_def stamp_action_def advance_def Let_def)

lemma admit_clock:
  assumes "keeps_clock (QueueInput env (Motion c))"
  shows "q_timebase (rt_sequencer (fst (admit_captured env c rt))) = q_timebase (rt_sequencer rt)"
    and "rt_erase_completion_boundary_ms (fst (admit_captured env c rt))
       = rt_erase_completion_boundary_ms rt"
proof -
  have "resync_for_event_if_needed q (c_payload c) n u t = (q, None)" for q n u t
    using assms by (simp add: resync_for_event_if_needed_def split: event_payload.splits)
  then show "q_timebase (rt_sequencer (fst (admit_captured env c rt))) = q_timebase (rt_sequencer rt)"
    by (simp add: admit_captured_def Let_def split_def split: option.split)
  show "rt_erase_completion_boundary_ms (fst (admit_captured env c rt))
       = rt_erase_completion_boundary_ms rt"
    by (simp add: admit_captured_def Let_def split_def split: option.split)
qed

lemma flush_boundary [simp]:
  "rt_erase_completion_boundary_ms (flush_events env rt) = rt_erase_completion_boundary_ms rt"
  "rt_erase_completion_boundary_ms (flush_actions env rt) = rt_erase_completion_boundary_ms rt"
  "rt_erase_completion_boundary_ms (queue_captured env c rt)
     = rt_erase_completion_boundary_ms (fst (admit_captured env c rt))"
  "rt_erase_completion_boundary_ms (queue_action env a rt) = rt_erase_completion_boundary_ms rt"
  by (auto simp: flush_events_def flush_actions_def queue_captured_def queue_action_def
      push_event_def push_action_def admit_action_def stamp_into_def split_def Let_def
      split: option.split)

lemma clock_step:
  assumes "keeps_clock op"
  shows "q_timebase (rt_sequencer (fst (writer_step rt op))) = q_timebase (rt_sequencer rt)"
    and "rt_erase_completion_boundary_ms (fst (writer_step rt op)) = rt_erase_completion_boundary_ms rt"
proof -
  have "q_timebase (rt_sequencer (fst (writer_step rt op))) = q_timebase (rt_sequencer rt) \<and>
    rt_erase_completion_boundary_ms (fst (writer_step rt op)) = rt_erase_completion_boundary_ms rt"
  proof (cases op)
    case (QueueInput env input)
    then show ?thesis
      using assms admit_clock [of env]
      by (cases input) (simp_all add: writer_step_def admit_action_def stamp_into_def Let_def split_def)
  qed (use assms in \<open>simp_all add: writer_op_defs Let_def split_def split: option.split\<close>)
  then show "q_timebase (rt_sequencer (fst (writer_step rt op))) = q_timebase (rt_sequencer rt)"
    "rt_erase_completion_boundary_ms (fst (writer_step rt op)) = rt_erase_completion_boundary_ms rt"
    by simp_all
qed

lemma clock_run:
  "list_all keeps_clock ops \<Longrightarrow>
   q_timebase (rt_sequencer (final writer_step rt ops)) = q_timebase (rt_sequencer rt) \<and>
   rt_erase_completion_boundary_ms (final writer_step rt ops) = rt_erase_completion_boundary_ms rt"
  by (induction ops arbitrary: rt) (simp_all add: clock_step)

lemma clock_reemit:
  "q_timebase (rt_sequencer (reemit_active_sensitive_contexts env now rt)) = q_timebase (rt_sequencer rt) \<and>
   rt_erase_completion_boundary_ms (reemit_active_sensitive_contexts env now rt)
     = rt_erase_completion_boundary_ms rt"
proof -
  have "q_timebase (rt_sequencer (foldl (\<lambda>rt reason. queue_captured env
        (captured_new source.System now (SensitiveContextEntered reason)) rt) rt rs))
      = q_timebase (rt_sequencer rt) \<and>
    rt_erase_completion_boundary_ms (foldl (\<lambda>rt reason. queue_captured env
        (captured_new source.System now (SensitiveContextEntered reason)) rt) rt rs)
      = rt_erase_completion_boundary_ms rt" for rs
    by (induction rs arbitrary: rt) (simp_all add: admit_clock captured_new_def)
  then show ?thesis by (simp add: reemit_active_sensitive_contexts_def)
qed



end
