(* ===== verification/Store_Tables.thy ===== *)
theory Store_Tables
  imports Vocabulary
begin

text \<open>
  The tables of the activity database the deletion and recording statements read and write
  (schema/001_initial.sql, 005_record_routine.sql and 008_deletion_audit.sql): a table is the
  list of its rows in rowid order, with the columns some modelled statement mentions, and a
  database the record of its tables.
\<close>

section \<open>Rows\<close>

record session_row =
  se_session_id :: int
  se_started_at :: int
  se_ended_at :: "int option"

record event_row =
  er_id :: int
  er_session_id :: int
  er_seq :: int
  er_ts :: int
  er_kind :: string

record action_row =
  ar_session_id :: int
  ar_seq :: int
  ar_ts :: int
  ar_record_session_id :: int
  ar_selector_id :: "int option"

text \<open>\<open>pause_intervals_json\<close> is the list it parses to, \<open>None\<close> for a text that does not parse.\<close>

type_synonym pauses = "(int \<times> int option) list"

record recording_row =
  rc_record_session_id :: int
  rc_request_id :: "int option"
  rc_session_id :: int
  rc_started_ts :: int
  rc_ended_ts :: "int option"
  rc_stop_reason :: "record_stop_reason option"
  rc_title :: "string option"
  rc_policy_snapshot_json :: string
  rc_pause_intervals :: "pauses option"
  rc_safety_cap_ms :: int
  rc_visible_indicator :: bool

record request_row =
  rq_request_id :: int
  rq_requested_at :: int
  rq_expires_at :: int
  rq_status :: record_request_status
  rq_candidate_kind :: "string option"
  rq_candidate_json :: string
  rq_fulfilled :: "int option"
  rq_updated_at :: int

record audit_row =
  au_kind :: string
  au_performed_at :: int
  au_session_id :: int
  au_rows_deleted :: int
  au_seq_min :: int
  au_seq_max :: int
  au_cutoff_ms :: "int option"

text \<open>
  \<open>db_selectors\<close> holds the selector identifiers; \<open>db_has_recordings\<close> and \<open>db_has_audit\<close> say
  whether the tables of migrations 005 and 008 exist; the two counters are the
  \<open>sqlite_sequence\<close> entries of the autoincremented keys.
\<close>

record store_db =
  db_sessions :: "session_row list"
  db_events :: "event_row list"
  db_actions :: "action_row list"
  db_recordings :: "recording_row list"
  db_requests :: "request_row list"
  db_selectors :: "int list"
  db_audit :: "audit_row list"
  db_has_recordings :: bool
  db_has_audit :: bool
  db_request_sequence :: int
  db_recording_sequence :: int

definition db_empty :: store_db where
  "db_empty =
     \<lparr>db_sessions = [], db_events = [], db_actions = [], db_recordings = [], db_requests = [],
      db_selectors = [], db_audit = [], db_has_recordings = True, db_has_audit = True,
      db_request_sequence = 0, db_recording_sequence = 0\<rparr>"

section \<open>Constraints\<close>

text \<open>
  What SQLite enforces: the primary keys, and the REFERENCES clauses under
  \<open>PRAGMA foreign_keys = ON\<close>.
\<close>

definition references_ok :: "store_db \<Rightarrow> bool" where
  "references_ok db \<longleftrightarrow>
     list_all (\<lambda>e. er_session_id e \<in> se_session_id ` set (db_sessions db)) (db_events db) \<and>
     list_all (\<lambda>a. ar_session_id a \<in> se_session_id ` set (db_sessions db) \<and>
                   ar_record_session_id a \<in> rc_record_session_id ` set (db_recordings db) \<and>
                   (case ar_selector_id a of None \<Rightarrow> True | Some s \<Rightarrow> s \<in> set (db_selectors db)))
       (db_actions db) \<and>
     list_all (\<lambda>r. rc_session_id r \<in> se_session_id ` set (db_sessions db)) (db_recordings db)"

definition constraints_ok :: "store_db \<Rightarrow> bool" where
  "constraints_ok db \<longleftrightarrow>
     references_ok db \<and> distinct (map se_session_id (db_sessions db)) \<and>
     distinct (map er_id (db_events db)) \<and>
     distinct (map rc_record_session_id (db_recordings db)) \<and>
     distinct (map rq_request_id (db_requests db)) \<and> distinct (db_selectors db)"

end
