(* ===== verification/Json_Value.thy ===== *)
theory Json_Value
  imports Rust_Strings
begin

text \<open>
  A parsed JSON value (\<open>serde_json::Value\<close>): an object is the list of its members in the
  order of the walk, a number is kept as an opaque text.  What the parser, the number
  conversions and the printer of that crate return are parameters, collected in \<open>json_lib\<close>.
\<close>

datatype json =
    JNull
  | JBool bool
  | JNumber string
  | JString string
  | JArray "json list"
  | JObject "(string \<times> json) list"

text \<open>
  \<open>jl_f64_as_i64\<close> is \<open>Number::as_f64\<close> followed by the cast to \<open>i64\<close>; \<open>jl_text\<close> is
  \<open>Value::to_string\<close>; \<open>jl_casefold\<close> is the default case folding of icu_casemap.
\<close>

record json_lib =
  jl_parse :: "string \<Rightarrow> json option"
  jl_as_i64 :: "string \<Rightarrow> int option"
  jl_f64_as_i64 :: "string \<Rightarrow> int option"
  jl_text :: "json \<Rightarrow> string"
  jl_casefold :: "string \<Rightarrow> string"

fun json_array :: "json \<Rightarrow> json list option" where
  "json_array (JArray items) = Some items"
| "json_array _ = None"

fun json_object :: "json \<Rightarrow> (string \<times> json) list option" where
  "json_object (JObject members) = Some members"
| "json_object _ = None"

definition json_as_i64 :: "json_lib \<Rightarrow> json \<Rightarrow> int option" where
  "json_as_i64 lib v = (case v of JNumber n \<Rightarrow> jl_as_i64 lib n | _ \<Rightarrow> None)"

text \<open>\<open>Map::get\<close>.\<close>

definition json_get :: "string \<Rightarrow> (string \<times> json) list \<Rightarrow> json option" where
  "json_get key members = map_of members key"

section \<open>Walks\<close>

text \<open>The first key of an object at any depth that \<open>bad\<close> rejects, in the order of the walk.\<close>

fun first_bad_key :: "(string \<Rightarrow> json \<Rightarrow> bool) \<Rightarrow> json \<Rightarrow> string option"
  and first_bad_member :: "(string \<Rightarrow> json \<Rightarrow> bool) \<Rightarrow> (string \<times> json) list \<Rightarrow> string option"
  and first_bad_element :: "(string \<Rightarrow> json \<Rightarrow> bool) \<Rightarrow> json list \<Rightarrow> string option" where
  "first_bad_key bad (JObject members) = first_bad_member bad members"
| "first_bad_key bad (JArray values) = first_bad_element bad values"
| "first_bad_key bad JNull = None"
| "first_bad_key bad (JBool b) = None"
| "first_bad_key bad (JNumber n) = None"
| "first_bad_key bad (JString s) = None"
| "first_bad_member bad [] = None"
| "first_bad_member bad ((key, v) # members) =
     (if bad key v then Some key
      else case first_bad_key bad v of
             Some found \<Rightarrow> Some found
           | None \<Rightarrow> first_bad_member bad members)"
| "first_bad_element bad [] = None"
| "first_bad_element bad (v # values) =
     (case first_bad_key bad v of
        Some found \<Rightarrow> Some found
      | None \<Rightarrow> first_bad_element bad values)"

end
