(* ===== verification/Record_Requests.thy ===== *)
theory Record_Requests
  imports Store_Tables Json_Value Writer_Queue "HOL-Library.Product_Lexorder"
begin

text \<open>
  Recording requests and recordings in the store (crates/gilbreth-store/src/lib.rs): the
  value-free guard on JSON, the statements on the request and recording tables, the writer's
  commands over them, and its poll, which surfaces pending requests and safety-cap prompts.
  The JSON parser is a parameter.
\<close>

section \<open>The value-free guard\<close>

definition forbidden_json_key :: "string \<Rightarrow> json \<Rightarrow> bool" where
  "forbidden_json_key key v \<longleftrightarrow> to_ascii_lowercase key \<in> {''name'', ''value'', ''text''}"

definition first_forbidden_json_key :: "json \<Rightarrow> string option" where
  "first_forbidden_json_key v = first_bad_key forbidden_json_key v"

definition MAX_SELECTOR_IDENT_LEN :: nat where "MAX_SELECTOR_IDENT_LEN = 256"

definition unbounded_identifier :: "string \<Rightarrow> json \<Rightarrow> bool" where
  "unbounded_identifier key v \<longleftrightarrow>
     to_ascii_lowercase key \<in> {''automation_id'', ''class_name''} \<and>
     (case v of
        JString text \<Rightarrow> length text > MAX_SELECTOR_IDENT_LEN \<or> list_ex is_control text
      | _ \<Rightarrow> False)"

definition first_unbounded_identifier :: "json \<Rightarrow> string option" where
  "first_unbounded_identifier v = first_bad_key unbounded_identifier v"

datatype record_error =
    MalformedJson
  | ForbiddenKey string
  | UnboundedIdentifier string
  | NotRequestable int
  | NotConfirmed int
  | CapNotPositive
  | NoRecordTables
  | NoSuchRecording
  | MalformedPauses
  | ForeignKeyFailed

definition ensure_value_free_json :: "(string \<Rightarrow> json option) \<Rightarrow> string \<Rightarrow> record_error + unit" where
  "ensure_value_free_json parse text =
     (case parse text of
        None \<Rightarrow> Inl MalformedJson
      | Some v \<Rightarrow>
          (case first_forbidden_json_key v of
             Some key \<Rightarrow> Inl (ForbiddenKey key)
           | None \<Rightarrow>
               (case first_unbounded_identifier v of
                  Some key \<Rightarrow> Inl (UnboundedIdentifier key)
                | None \<Rightarrow> Inr ())))"

section \<open>The request table\<close>

definition insert_request ::
    "int \<Rightarrow> int \<Rightarrow> string option \<Rightarrow> string \<Rightarrow> store_db \<Rightarrow> int \<times> store_db" where
  "insert_request requested_at expires_at kind text db =
     (let qid = db_request_sequence db + 1
      in (qid, db\<lparr>db_requests := db_requests db @
                   [\<lparr>rq_request_id = qid, rq_requested_at = requested_at, rq_expires_at = expires_at,
                     rq_status = Requested, rq_candidate_kind = kind, rq_candidate_json = text,
                     rq_fulfilled = None, rq_updated_at = requested_at\<rparr>],
                 db_request_sequence := qid\<rparr>))"

definition create_record_request ::
    "(string \<Rightarrow> json option) \<Rightarrow> int \<Rightarrow> int \<Rightarrow> string option \<Rightarrow> string \<Rightarrow> store_db
     \<Rightarrow> record_error + int \<times> store_db" where
  "create_record_request parse requested_at expires_at kind text db =
     (case ensure_value_free_json parse text of
        Inl e \<Rightarrow> Inl e
      | Inr _ \<Rightarrow> Inr (insert_request requested_at expires_at kind text db))"

definition DAY_MS :: int where "DAY_MS = 86400000"

text \<open>The dashboard's request.\<close>

definition request_recording ::
    "(string \<Rightarrow> json option) \<Rightarrow> string option \<Rightarrow> string \<Rightarrow> int \<Rightarrow> store_db
     \<Rightarrow> record_error + int \<times> store_db" where
  "request_recording parse kind text now_ms db =
     (case ensure_value_free_json parse text of
        Inl e \<Rightarrow> Inl e
      | Inr _ \<Rightarrow>
          if \<not> db_has_recordings db then Inl NoRecordTables
          else Inr (insert_request now_ms (sat_add_i64 now_ms DAY_MS) kind text db))"

text \<open>\<open>UPDATE record_requests SET ... WHERE P\<close>: the number of changed rows and the new table.\<close>

definition update_requests ::
    "(request_row \<Rightarrow> bool) \<Rightarrow> (request_row \<Rightarrow> request_row) \<Rightarrow> store_db \<Rightarrow> nat \<times> store_db" where
  "update_requests P f db =
     (length (filter P (db_requests db)),
      db\<lparr>db_requests := map (\<lambda>q. if P q then f q else q) (db_requests db)\<rparr>)"

definition set_status :: "record_request_status \<Rightarrow> int \<Rightarrow> request_row \<Rightarrow> request_row" where
  "set_status status updated_at q = q\<lparr>rq_status := status, rq_updated_at := updated_at\<rparr>"

definition confirm_record_request :: "int \<Rightarrow> int \<Rightarrow> store_db \<Rightarrow> record_error + store_db" where
  "confirm_record_request qid updated_at db =
     (case update_requests (\<lambda>q. rq_request_id q = qid \<and> rq_status q = Requested)
             (set_status Confirmed updated_at) db of
        (changed, db) \<Rightarrow> if changed = 0 then Inl (NotRequestable qid) else Inr db)"

definition undecided :: "int \<Rightarrow> request_row \<Rightarrow> bool" where
  "undecided qid q \<longleftrightarrow> rq_request_id q = qid \<and> rq_status q \<in> {Requested, Confirmed}"

definition cancel_record_request :: "int \<Rightarrow> int \<Rightarrow> store_db \<Rightarrow> store_db" where
  "cancel_record_request qid updated_at db =
     snd (update_requests (undecided qid) (set_status Cancelled updated_at) db)"

definition fail_record_request :: "int \<Rightarrow> int \<Rightarrow> store_db \<Rightarrow> store_db" where
  "fail_record_request qid updated_at db =
     snd (update_requests (undecided qid) (set_status Failed updated_at) db)"

definition expire_record_requests :: "int \<Rightarrow> store_db \<Rightarrow> nat \<times> store_db" where
  "expire_record_requests now_ms db =
     update_requests (\<lambda>q. rq_status q = Requested \<and> rq_expires_at q < now_ms)
       (set_status Expired now_ms) db"

definition reconcile_confirmed_record_requests :: "int \<Rightarrow> store_db \<Rightarrow> nat \<times> store_db" where
  "reconcile_confirmed_record_requests updated_at db =
     update_requests (\<lambda>q. rq_status q = Confirmed \<and> rq_fulfilled q = None)
       (set_status Expired updated_at) db"

definition pending_requests :: "int \<Rightarrow> store_db \<Rightarrow> request_row list" where
  "pending_requests now_ms db =
     sort_key (\<lambda>q. (rq_requested_at q, rq_request_id q))
       (filter (\<lambda>q. rq_status q = Requested \<and> rq_expires_at q \<ge> now_ms) (db_requests db))"

definition oldest_pending_record_request :: "int \<Rightarrow> store_db \<Rightarrow> request_row option" where
  "oldest_pending_record_request now_ms db =
     (case pending_requests now_ms db of [] \<Rightarrow> None | q # _ \<Rightarrow> Some q)"

definition record_request_status_of :: "int \<Rightarrow> store_db \<Rightarrow> record_request_status option" where
  "record_request_status_of qid db =
     map_option rq_status (find (\<lambda>q. rq_request_id q = qid) (db_requests db))"

section \<open>The recording table\<close>

record open_params =
  op_request_id :: "int option"
  op_session_id :: int
  op_started_ts :: int
  op_title :: "string option"
  op_policy_snapshot_json :: string
  op_safety_cap_ms :: int
  op_visible_indicator :: bool

definition inserted_recording :: "open_params \<Rightarrow> int \<Rightarrow> recording_row" where
  "inserted_recording p rid =
     \<lparr>rc_record_session_id = rid, rc_request_id = op_request_id p, rc_session_id = op_session_id p,
      rc_started_ts = op_started_ts p, rc_ended_ts = None, rc_stop_reason = None,
      rc_title = op_title p, rc_policy_snapshot_json = op_policy_snapshot_json p,
      rc_pause_intervals = Some [], rc_safety_cap_ms = op_safety_cap_ms p,
      rc_visible_indicator = op_visible_indicator p\<rparr>"

definition fulfil :: "int \<Rightarrow> int \<Rightarrow> request_row \<Rightarrow> request_row" where
  "fulfil rid updated_at q =
     q\<lparr>rq_status := Started, rq_fulfilled := Some rid, rq_updated_at := updated_at\<rparr>"

text \<open>One transaction: an error anywhere leaves the tables as they were.\<close>

definition open_record_session ::
    "(string \<Rightarrow> json option) \<Rightarrow> open_params \<Rightarrow> store_db \<Rightarrow> record_error + int \<times> store_db" where
  "open_record_session parse p db =
     (case ensure_value_free_json parse (op_policy_snapshot_json p) of
        Inl e \<Rightarrow> Inl e
      | Inr _ \<Rightarrow>
          if op_safety_cap_ms p \<le> 0 then Inl CapNotPositive
          else if op_session_id p \<notin> se_session_id ` set (db_sessions db) then Inl ForeignKeyFailed
          else
            let rid = db_recording_sequence db + 1;
                db = db\<lparr>db_recordings := db_recordings db @ [inserted_recording p rid],
                        db_recording_sequence := rid\<rparr>
            in case op_request_id p of
                 None \<Rightarrow> Inr (rid, db)
               | Some qid \<Rightarrow>
                   (case update_requests (\<lambda>q. rq_request_id q = qid \<and> rq_status q = Confirmed)
                           (fulfil rid (op_started_ts p)) db of
                      (changed, db) \<Rightarrow>
                        if changed = 0 then Inl (NotConfirmed qid) else Inr (rid, db)))"

definition update_recordings ::
    "(recording_row \<Rightarrow> bool) \<Rightarrow> (recording_row \<Rightarrow> recording_row) \<Rightarrow> store_db \<Rightarrow> nat \<times> store_db" where
  "update_recordings P f db =
     (length (filter P (db_recordings db)),
      db\<lparr>db_recordings := map (\<lambda>r. if P r then f r else r) (db_recordings db)\<rparr>)"

definition end_recording :: "int \<Rightarrow> record_stop_reason \<Rightarrow> recording_row \<Rightarrow> recording_row" where
  "end_recording ended_ts reason r =
     r\<lparr>rc_ended_ts := Some (max (rc_started_ts r) ended_ts), rc_stop_reason := Some reason\<rparr>"

definition close_record_session :: "int \<Rightarrow> int \<Rightarrow> record_stop_reason \<Rightarrow> store_db \<Rightarrow> store_db" where
  "close_record_session rid ended_ts reason db =
     snd (update_recordings (\<lambda>r. rc_record_session_id r = rid \<and> rc_ended_ts r = None)
            (end_recording ended_ts reason) db)"

definition finalize_open_record_sessions ::
    "record_stop_reason \<Rightarrow> int \<Rightarrow> store_db \<Rightarrow> nat \<times> store_db" where
  "finalize_open_record_sessions reason ended_ts db =
     update_recordings (\<lambda>r. rc_ended_ts r = None) (end_recording ended_ts reason) db"

text \<open>At the next open: an orphan ends at its last action.\<close>

definition last_action_ts :: "store_db \<Rightarrow> recording_row \<Rightarrow> int" where
  "last_action_ts db r =
     (let ts = map ar_ts (filter (\<lambda>a. ar_record_session_id a = rc_record_session_id r) (db_actions db))
      in if ts = [] then rc_started_ts r else fold max (tl ts) (hd ts))"

definition finalize_orphan_record_sessions :: "store_db \<Rightarrow> nat \<times> store_db" where
  "finalize_orphan_record_sessions db =
     update_recordings (\<lambda>r. rc_ended_ts r = None)
       (\<lambda>r. end_recording (last_action_ts db r) record_stop_reason.Error r) db"

subsection \<open>Pauses\<close>

definition pause_intervals :: "int \<Rightarrow> store_db \<Rightarrow> record_error + pauses" where
  "pause_intervals rid db =
     (case find (\<lambda>r. rc_record_session_id r = rid) (db_recordings db) of
        None \<Rightarrow> Inl NoSuchRecording
      | Some r \<Rightarrow>
          (case rc_pause_intervals r of None \<Rightarrow> Inl MalformedPauses | Some pauses \<Rightarrow> Inr pauses))"

definition write_pause_intervals :: "int \<Rightarrow> pauses \<Rightarrow> store_db \<Rightarrow> store_db" where
  "write_pause_intervals rid pauses db =
     snd (update_recordings (\<lambda>r. rc_record_session_id r = rid \<and> rc_ended_ts r = None)
            (\<lambda>r. r\<lparr>rc_pause_intervals := Some pauses\<rparr>) db)"

definition pause_open :: "pauses \<Rightarrow> bool" where
  "pause_open pauses \<longleftrightarrow> (case rev pauses of (_, None) # _ \<Rightarrow> True | _ \<Rightarrow> False)"

definition paused_at :: "int \<Rightarrow> pauses \<Rightarrow> pauses" where
  "paused_at paused_ts pauses = (if pause_open pauses then pauses else pauses @ [(paused_ts, None)])"

definition resumed_at :: "int \<Rightarrow> pauses \<Rightarrow> pauses" where
  "resumed_at resumed_ts pauses =
     (case rev pauses of
        (start, None) # earlier \<Rightarrow> rev earlier @ [(start, Some (max resumed_ts start))]
      | _ \<Rightarrow> pauses)"

definition pause_record_session :: "int \<Rightarrow> int \<Rightarrow> store_db \<Rightarrow> record_error + store_db" where
  "pause_record_session rid paused_ts db =
     (case pause_intervals rid db of
        Inl e \<Rightarrow> Inl e
      | Inr pauses \<Rightarrow>
          if pause_open pauses then Inr db
          else Inr (write_pause_intervals rid (paused_at paused_ts pauses) db))"

definition resume_record_session :: "int \<Rightarrow> int \<Rightarrow> store_db \<Rightarrow> record_error + store_db" where
  "resume_record_session rid resumed_ts db =
     (case pause_intervals rid db of
        Inl e \<Rightarrow> Inl e
      | Inr pauses \<Rightarrow> Inr (write_pause_intervals rid (resumed_at resumed_ts pauses) db))"

definition paused_total_ms_at :: "pauses \<Rightarrow> int \<Rightarrow> int" where
  "paused_total_ms_at pauses now_ms =
     foldl (\<lambda>total (start, stop).
              let stop = max (case stop of Some stop \<Rightarrow> stop | None \<Rightarrow> now_ms) start
              in sat_add_i64 total (sat_sub_i64 stop start)) 0 pauses"

definition open_record_sessions :: "store_db \<Rightarrow> recording_row list" where
  "open_record_sessions db =
     sort_key (\<lambda>r. (rc_started_ts r, rc_record_session_id r))
       (filter (\<lambda>r. rc_ended_ts r = None) (db_recordings db))"

section \<open>The writer's commands\<close>

text \<open>
  The store together with the writer's record state.  An error keeps the record state and
  whatever the store had committed.
\<close>

type_synonym recorder = "store_db \<times> writer_record_state"

definition started_state :: "int \<Rightarrow> int option \<Rightarrow> writer_record_state \<Rightarrow> writer_record_state" where
  "started_state rid request_id rs =
     rs\<lparr>rs_active_record_session_id := Some rid, rs_paused_record_session_id := None,
        rs_cap_prompted_windows := (rs_cap_prompted_windows rs)(rid := None),
        rs_last_surfaced_request_id :=
          (if rs_last_surfaced_request_id rs = request_id then None
           else rs_last_surfaced_request_id rs)\<rparr>"

definition start_recording_in ::
    "(string \<Rightarrow> json option) \<Rightarrow> open_params \<Rightarrow> recorder \<Rightarrow> recorder \<times> (record_error + int)" where
  "start_recording_in parse p recorder =
     (case recorder of (db, rs) \<Rightarrow>
        case (case op_request_id p of
                None \<Rightarrow> Inr db
              | Some qid \<Rightarrow> confirm_record_request qid (op_started_ts p) db) of
          Inl e \<Rightarrow> ((db, rs), Inl e)
        | Inr db \<Rightarrow>
            (case open_record_session parse p db of
               Inr (rid, db) \<Rightarrow> ((db, started_state rid (op_request_id p) rs), Inr rid)
             | Inl e \<Rightarrow>
                 ((case op_request_id p of
                     None \<Rightarrow> db
                   | Some qid \<Rightarrow> fail_record_request qid (op_started_ts p) db, rs), Inl e)))"

definition stop_recording_in :: "int \<Rightarrow> int \<Rightarrow> record_stop_reason \<Rightarrow> recorder \<Rightarrow> recorder" where
  "stop_recording_in rid ended_ts reason recorder =
     (case recorder of (db, rs) \<Rightarrow>
        (close_record_session rid ended_ts reason db,
         rs\<lparr>rs_active_record_session_id :=
              (if rs_active_record_session_id rs = Some rid then None
               else rs_active_record_session_id rs),
            rs_paused_record_session_id :=
              (if rs_paused_record_session_id rs = Some rid then None
               else rs_paused_record_session_id rs),
            rs_cap_prompted_windows := (rs_cap_prompted_windows rs)(rid := None)\<rparr>))"

definition pause_recording_in :: "int \<Rightarrow> int \<Rightarrow> recorder \<Rightarrow> recorder" where
  "pause_recording_in rid paused_ts recorder =
     (case recorder of (db, rs) \<Rightarrow>
        case pause_record_session rid paused_ts db of
          Inl _ \<Rightarrow> (db, rs)
        | Inr db \<Rightarrow> (db, rs\<lparr>rs_paused_record_session_id := Some rid\<rparr>))"

definition resume_recording_in :: "int \<Rightarrow> int \<Rightarrow> recorder \<Rightarrow> recorder" where
  "resume_recording_in rid resumed_ts recorder =
     (case recorder of (db, rs) \<Rightarrow>
        case resume_record_session rid resumed_ts db of
          Inl _ \<Rightarrow> (db, rs)
        | Inr db \<Rightarrow>
            (db, rs\<lparr>rs_paused_record_session_id :=
                      (if rs_paused_record_session_id rs = Some rid then None
                       else rs_paused_record_session_id rs)\<rparr>))"

definition decline_request_in :: "int \<Rightarrow> int \<Rightarrow> recorder \<Rightarrow> recorder" where
  "decline_request_in qid updated_at recorder =
     (case recorder of (db, rs) \<Rightarrow>
        (cancel_record_request qid updated_at db,
         rs\<lparr>rs_last_surfaced_request_id :=
              (if rs_last_surfaced_request_id rs = Some qid then None
               else rs_last_surfaced_request_id rs)\<rparr>))"

section \<open>The poll\<close>

record cap_prompt =
  cp_record_session_id :: int
  cp_window_index :: int
  cp_elapsed_active_ms :: int
  cp_safety_cap_ms :: int

text \<open>
  What one poll reads of the world: the clock, the prompt flag at its three readings (\<open>False\<close>
  where no flag is configured), whether each channel is configured and accepts, and whether
  each statement succeeds.
\<close>

record poll_env =
  pe_now_ms :: int
  pe_in_flight_rearm :: bool
  pe_in_flight_request :: bool
  pe_in_flight_cap :: bool
  pe_request_notify :: bool
  pe_request_accepts :: bool
  pe_cap_notify :: bool
  pe_cap_accepts :: "cap_prompt \<Rightarrow> bool"
  pe_expire_ok :: bool
  pe_status_ok :: bool
  pe_pending_ok :: bool
  pe_mark_ok :: bool
  pe_sessions_ok :: bool

definition rearm_surfaced :: "poll_env \<Rightarrow> store_db \<Rightarrow> writer_record_state \<Rightarrow> writer_record_state" where
  "rearm_surfaced env db rs =
     (case rs_last_surfaced_request_id rs of
        None \<Rightarrow> rs
      | Some qid \<Rightarrow>
          if \<not> pe_status_ok env then rs
          else if record_request_status_of qid db = Some Requested then
            (if rs_active_record_session_id rs = None \<and> \<not> pe_in_flight_rearm env
             then rs\<lparr>rs_last_surfaced_request_id := None\<rparr> else rs)
          else rs\<lparr>rs_last_surfaced_request_id := None\<rparr>)"

definition poll_record_request_prompt ::
    "(string \<Rightarrow> json option) \<Rightarrow> poll_env \<Rightarrow> recorder \<Rightarrow> recorder \<times> request_row option" where
  "poll_record_request_prompt parse env recorder =
     (case recorder of (db, rs) \<Rightarrow>
        if rs_active_record_session_id rs \<noteq> None \<or> pe_in_flight_request env \<or>
           \<not> pe_request_notify env \<or> \<not> pe_pending_ok env then (recorder, None)
        else
          case oldest_pending_record_request (pe_now_ms env) db of
            None \<Rightarrow> (recorder, None)
          | Some q \<Rightarrow>
              if rs_last_surfaced_request_id rs = Some (rq_request_id q) then (recorder, None)
              else
                (case ensure_value_free_json parse (rq_candidate_json q) of
                   Inl _ \<Rightarrow>
                     ((if pe_mark_ok env
                       then fail_record_request (rq_request_id q) (pe_now_ms env) db else db, rs), None)
                 | Inr _ \<Rightarrow>
                     if pe_request_accepts env
                     then ((db, rs\<lparr>rs_last_surfaced_request_id := Some (rq_request_id q)\<rparr>), Some q)
                     else (recorder, None)))"

definition cap_prompt_of :: "int \<Rightarrow> recording_row \<Rightarrow> cap_prompt" where
  "cap_prompt_of now_ms r =
     (let paused_total_ms = (case rc_pause_intervals r of
                               Some pauses \<Rightarrow> paused_total_ms_at pauses now_ms | None \<Rightarrow> 0);
          elapsed_active_ms =
            max (sat_sub_i64 (sat_sub_i64 now_ms (rc_started_ts r)) paused_total_ms) 0
      in \<lparr>cp_record_session_id = rc_record_session_id r,
          cp_window_index = elapsed_active_ms div rc_safety_cap_ms r,
          cp_elapsed_active_ms = elapsed_active_ms, cp_safety_cap_ms = rc_safety_cap_ms r\<rparr>)"

definition cap_due :: "int \<Rightarrow> writer_record_state \<Rightarrow> recording_row \<Rightarrow> bool" where
  "cap_due now_ms rs r \<longleftrightarrow>
     rc_safety_cap_ms r > 0 \<and> cp_window_index (cap_prompt_of now_ms r) > 0 \<and>
     (case rs_cap_prompted_windows rs (rc_record_session_id r) of
        None \<Rightarrow> True
      | Some prompted \<Rightarrow> prompted < cp_window_index (cap_prompt_of now_ms r))"

text \<open>The loop over the open sessions; a channel that does not accept leaves the next one to try.\<close>

fun cap_prompt_loop ::
    "poll_env \<Rightarrow> writer_record_state \<Rightarrow> recording_row list \<Rightarrow> writer_record_state \<times> cap_prompt option" where
  "cap_prompt_loop env rs [] = (rs, None)"
| "cap_prompt_loop env rs (r # rows) =
     (let prompt = cap_prompt_of (pe_now_ms env) r
      in if cap_due (pe_now_ms env) rs r \<and> pe_cap_accepts env prompt
         then (rs\<lparr>rs_cap_prompted_windows :=
                    (rs_cap_prompted_windows rs)(rc_record_session_id r \<mapsto> cp_window_index prompt)\<rparr>,
               Some prompt)
         else cap_prompt_loop env rs rows)"

definition poll_cap_prompt ::
    "poll_env \<Rightarrow> store_db \<Rightarrow> writer_record_state \<Rightarrow> writer_record_state \<times> cap_prompt option" where
  "poll_cap_prompt env db rs =
     (if pe_in_flight_cap env \<or> \<not> pe_cap_notify env \<or> \<not> pe_sessions_ok env then (rs, None)
      else cap_prompt_loop env rs (open_record_sessions db))"

definition poll_recording_control ::
    "(string \<Rightarrow> json option) \<Rightarrow> poll_env \<Rightarrow> recorder
     \<Rightarrow> recorder \<times> request_row option \<times> cap_prompt option" where
  "poll_recording_control parse env recorder =
     (case recorder of (db, rs) \<Rightarrow>
        let db = (if pe_expire_ok env then snd (expire_record_requests (pe_now_ms env) db) else db);
            rs = rearm_surfaced env db rs;
            ((db, rs), surfaced) = poll_record_request_prompt parse env (db, rs);
            (rs, prompt) = poll_cap_prompt env db rs
        in ((db, rs), surfaced, prompt))"

end
