(* ===== verification/Record_Laws.thy ===== *)
theory Record_Laws
  imports Record_Requests
begin

text \<open>
  What the recording tables promise: a request moves forward only and starts at most one
  recording, the mailbox surfaces the first request that passes the value-free guard, the
  safety cap counts the time a recording was not paused, and a cap window is prompted once.
\<close>

section \<open>Runs\<close>

datatype record_op =
    Request "string option" string int
  | Start open_params
  | Stop int int record_stop_reason
  | Pause int int
  | Resume int int
  | Decline int int
  | Poll poll_env
  | CloseAll record_stop_reason int
  | Reopen int

type_synonym prompts = "request_row option \<times> cap_prompt option"

text \<open>A new process opens the store: orphans are finalised, and the record state is fresh.\<close>

definition reopen_store :: "int \<Rightarrow> recorder \<Rightarrow> recorder" where
  "reopen_store updated_at recorder =
     (snd (reconcile_confirmed_record_requests updated_at
        (snd (finalize_orphan_record_sessions (fst recorder)))), record_state_default)"

definition requested_store ::
    "(string \<Rightarrow> json option) \<Rightarrow> string option \<Rightarrow> string \<Rightarrow> int \<Rightarrow> store_db \<Rightarrow> store_db" where
  "requested_store parse kind text now db =
     (case request_recording parse kind text now db of Inl _ \<Rightarrow> db | Inr (_, db) \<Rightarrow> db)"

fun record_step :: "(string \<Rightarrow> json option) \<Rightarrow> recorder \<Rightarrow> record_op \<Rightarrow> recorder \<times> prompts list" where
  "record_step parse rec (Request kind text now) =
     ((requested_store parse kind text now (fst rec), snd rec), [])"
| "record_step parse rec (Start p) = (fst (start_recording_in parse p rec), [])"
| "record_step parse rec (Stop rid ts reason) = (stop_recording_in rid ts reason rec, [])"
| "record_step parse rec (Pause rid ts) = (pause_recording_in rid ts rec, [])"
| "record_step parse rec (Resume rid ts) = (resume_recording_in rid ts rec, [])"
| "record_step parse rec (Decline qid ts) = (decline_request_in qid ts rec, [])"
| "record_step parse rec (Poll env) =
     (let (rec, prompts) = poll_recording_control parse env rec in (rec, [prompts]))"
| "record_step parse rec (CloseAll reason ts) =
     ((snd (finalize_open_record_sessions reason ts (fst rec)), snd rec), [])"
| "record_step parse rec (Reopen ts) = (reopen_store ts rec, [])"

text \<open>The writer's command and this one set the same record state.\<close>

lemma start_recording_agrees:
  "rt_record_state (fst (start_recording (Some rid) request_id True rt))
     = started_state rid request_id (rt_record_state rt)"
  by (simp add: start_recording_def started_state_def on_record_state_def)

section \<open>What the statements change\<close>

text \<open>The life of a request.\<close>

inductive request_move :: "record_request_status \<Rightarrow> record_request_status \<Rightarrow> bool" where
  confirm: "request_move Requested Confirmed"
| fulfil: "request_move Confirmed Started"
| expire: "request_move Requested Expired"
| cancel: "s \<in> {Requested, Confirmed} \<Longrightarrow> request_move s Cancelled"
| fail: "s \<in> {Requested, Confirmed} \<Longrightarrow> request_move s Failed"
| abandon: "request_move Confirmed Expired"

inductive_simps request_move_from [simp]: "request_move s s'"

text \<open>
  Every statement of a run is one of these: it updates requests that have not started to a
  status other than started, inserts a request, inserts a recording and fulfils the confirmed
  request it came of, or updates recordings without their identity.
\<close>

definition keeps_identity :: "(recording_row \<Rightarrow> recording_row) \<Rightarrow> bool" where
  "keeps_identity f \<longleftrightarrow>
     (\<forall>r. rc_record_session_id (f r) = rc_record_session_id r \<and> rc_request_id (f r) = rc_request_id r \<and>
          (rc_ended_ts r \<noteq> None \<longrightarrow> rc_ended_ts (f r) \<noteq> None))"

inductive statement :: "store_db \<Rightarrow> store_db \<Rightarrow> bool" where
  status: "status \<noteq> Started \<Longrightarrow> \<forall>q. P q \<longrightarrow> rq_status q \<noteq> Started \<and> request_move (rq_status q) status \<Longrightarrow>
    statement db (snd (update_requests P (set_status status ts) db))"
| request: "statement db (snd (insert_request now expires kind text db))"
| recording: "op_request_id p = None \<Longrightarrow> rid = db_recording_sequence db + 1 \<Longrightarrow>
    statement db (db\<lparr>db_recordings := db_recordings db @ [inserted_recording p rid], db_recording_sequence := rid\<rparr>)"
| start: "op_request_id p = Some qid \<Longrightarrow> rid = db_recording_sequence db + 1 \<Longrightarrow>
    q \<in> set (db_requests db) \<Longrightarrow> rq_request_id q = qid \<Longrightarrow> rq_status q = Confirmed \<Longrightarrow>
    statement db (snd (update_requests (\<lambda>q. rq_request_id q = qid \<and> rq_status q = Confirmed) (fulfil rid ts)
      (db\<lparr>db_recordings := db_recordings db @ [inserted_recording p rid], db_recording_sequence := rid\<rparr>)))"
| update: "keeps_identity f \<Longrightarrow> statement db (snd (update_recordings P f db))"

lemmas keeps_identity_intro = keeps_identity_def [THEN iffD2]

lemma statement_status:
  "statement db (snd (update_requests (\<lambda>q. rq_request_id q = qid \<and> rq_status q = Requested) (set_status Confirmed ts) db))"
  "statement db (cancel_record_request qid ts db)" "statement db (fail_record_request qid ts db)"
  "statement db (snd (expire_record_requests ts db))"
  "statement db (snd (reconcile_confirmed_record_requests ts db))"
  unfolding cancel_record_request_def fail_record_request_def expire_record_requests_def
    reconcile_confirmed_record_requests_def
  by (rule statement.status, simp, auto simp: undecided_def)+

lemma statement_recordings:
  "statement db (close_record_session rid ts reason db)"
  "statement db (snd (finalize_open_record_sessions reason ts db))"
  "statement db (snd (finalize_orphan_record_sessions db))"
  "statement db (write_pause_intervals rid pauses db)"
  unfolding close_record_session_def finalize_open_record_sessions_def finalize_orphan_record_sessions_def
    write_pause_intervals_def
  by (rule statement.update, simp add: keeps_identity_def end_recording_def)+

lemma statements_confirm: "confirm_record_request qid ts db = Inr db' \<Longrightarrow> statement db db'"
  using statement_status(1) [of db qid ts]
  by (auto simp: confirm_record_request_def split: prod.splits if_splits)

lemma statements_open: "open_record_session parse p db = Inr (rid, db') \<Longrightarrow> statement db db'"
proof -
  assume "open_record_session parse p db = Inr (rid, db')"
  then have rid: "rid = db_recording_sequence db + 1"
    and upd: "case op_request_id p of
        None \<Rightarrow> db' = db\<lparr>db_recordings := db_recordings db @ [inserted_recording p rid], db_recording_sequence := rid\<rparr>
      | Some qid \<Rightarrow> \<exists>changed. changed \<noteq> 0 \<and>
          update_requests (\<lambda>q. rq_request_id q = qid \<and> rq_status q = Confirmed) (fulfil rid (op_started_ts p))
            (db\<lparr>db_recordings := db_recordings db @ [inserted_recording p rid], db_recording_sequence := rid\<rparr>)
          = (changed, db')"
    by (auto simp: open_record_session_def Let_def split: sum.splits if_splits option.splits prod.splits)
  show ?thesis
  proof (cases "op_request_id p")
    case None
    then show ?thesis using upd rid by (auto intro: statement.recording)
  next
    case (Some qid)
    then obtain changed where "changed \<noteq> 0" and u: "update_requests (\<lambda>q. rq_request_id q = qid \<and> rq_status q = Confirmed)
        (fulfil rid (op_started_ts p))
        (db\<lparr>db_recordings := db_recordings db @ [inserted_recording p rid], db_recording_sequence := rid\<rparr>) = (changed, db')"
      using upd by auto
    then obtain q where "q \<in> set (db_requests db)" "rq_request_id q = qid" "rq_status q = Confirmed"
      by (auto simp: update_requests_def filter_empty_conv)
    from statement.start [OF Some rid this, of "op_started_ts p"] u show ?thesis by simp
  qed
qed

lemma statements_start: "statement\<^sup>*\<^sup>* (fst rec) (fst (fst (start_recording_in parse p rec)))"
proof -
  obtain db rs where rec: "rec = (db, rs)" by fastforce
  have open_step: "statement\<^sup>*\<^sup>* db' (case open_record_session parse p db' of Inr (rid, d) \<Rightarrow> d
      | Inl e \<Rightarrow> (case op_request_id p of None \<Rightarrow> db' | Some qid \<Rightarrow> fail_record_request qid (op_started_ts p) db'))" for db'
    by (auto split: sum.splits option.splits intro: statements_open statement_status)
  show ?thesis
  proof (cases "op_request_id p")
    case None
    then show ?thesis
      using open_step [of db] by (auto simp: rec start_recording_in_def split: sum.splits)
  next
    case (Some qid)
    show ?thesis
    proof (cases "confirm_record_request qid (op_started_ts p) db")
      case (Inr db')
      then show ?thesis
        using open_step [of db'] Some converse_rtranclp_into_rtranclp [of statement, OF statements_confirm [OF Inr]]
        by (auto simp: rec start_recording_in_def split: sum.splits)
    qed (simp add: rec start_recording_in_def Some)
  qed
qed

lemma statements_poll: "statement\<^sup>*\<^sup>* (fst rec) (fst (fst (poll_recording_control parse env rec)))"
proof -
  obtain db rs where rec: "rec = (db, rs)" by fastforce
  define db1 where "db1 = (if pe_expire_ok env then snd (expire_record_requests (pe_now_ms env) db) else db)"
  have first: "statement\<^sup>*\<^sup>* db db1" by (auto simp: db1_def intro: statement_status)
  have second: "statement\<^sup>*\<^sup>* db1 (fst (fst (poll_record_request_prompt parse env (db1, rs'))))" for rs'
    by (auto simp: poll_record_request_prompt_def intro: statement_status split: option.splits sum.splits)
  have "fst (fst (poll_recording_control parse env rec)) =
      fst (fst (poll_record_request_prompt parse env (db1, rearm_surfaced env db1 rs)))"
    by (simp add: rec poll_recording_control_def Let_def split_def db1_def)
  then show ?thesis using rtranclp_trans [OF first second] rec by simp
qed

lemma statements_step: "statement\<^sup>*\<^sup>* (fst rec) (fst (fst (record_step parse rec op)))"
proof (cases op)
  case (Request kind body now)
  then show ?thesis
    by (auto simp: requested_store_def request_recording_def split: sum.splits
        intro!: r_into_rtranclp) (metis snd_conv statement.request)
next
  case (Pause rid ts)
  then show ?thesis
    by (auto simp: pause_recording_in_def pause_record_session_def split: prod.splits sum.splits
        intro: statement_recordings)
next
  case (Resume rid ts)
  then show ?thesis
    by (auto simp: resume_recording_in_def resume_record_session_def split: prod.splits sum.splits
        intro: statement_recordings)
next
  case (Reopen ts)
  then show ?thesis
    using statement_recordings(3) [of "fst rec"] statement_status(5) [of "snd (finalize_orphan_record_sessions (fst rec))" ts]
    by (simp add: reopen_store_def)
qed (auto simp: statements_start statements_poll stop_recording_in_def decline_request_in_def Let_def
      split_def intro: statement_recordings statement_status)

section \<open>Requests start once\<close>

text \<open>
  What the life cycle is about: of a request its identifier, whether it has started and the
  recording that fulfilled it, of a recording its identifier and the request it came of.
\<close>

definition request_view :: "request_row \<Rightarrow> int \<times> bool \<times> int option" where
  "request_view q = (rq_request_id q, rq_status q = Started, rq_fulfilled q)"

definition recording_view :: "recording_row \<Rightarrow> int \<times> int option" where
  "recording_view r = (rc_record_session_id r, rc_request_id r)"

definition lifecycle_ok :: "store_db \<Rightarrow> bool" where
  "lifecycle_ok db \<longleftrightarrow>
     distinct (map rq_request_id (db_requests db)) \<and>
     distinct (map rc_record_session_id (db_recordings db)) \<and>
     list_all (\<lambda>q. rq_request_id q \<le> db_request_sequence db) (db_requests db) \<and>
     list_all (\<lambda>r. rc_record_session_id r \<le> db_recording_sequence db) (db_recordings db) \<and>
     list_all (\<lambda>q. rq_status q = Started \<longleftrightarrow> rq_fulfilled q \<noteq> None) (db_requests db) \<and>
     {(qid, rid). (qid, True, Some rid) \<in> request_view ` set (db_requests db)}
       = {(qid, rid). (rid, Some qid) \<in> recording_view ` set (db_recordings db)}"

lemma lifecycle_views:
  "lifecycle_ok db \<longleftrightarrow>
     distinct (map fst (map request_view (db_requests db))) \<and>
     distinct (map fst (map recording_view (db_recordings db))) \<and>
     (\<forall>(qid, _, _) \<in> set (map request_view (db_requests db)). qid \<le> db_request_sequence db) \<and>
     (\<forall>(rid, _) \<in> set (map recording_view (db_recordings db)). rid \<le> db_recording_sequence db) \<and>
     (\<forall>(_, started, fulfilled) \<in> set (map request_view (db_requests db)). started \<longleftrightarrow> fulfilled \<noteq> None) \<and>
     {(qid, rid). (qid, True, Some rid) \<in> set (map request_view (db_requests db))}
       = {(qid, rid). (rid, Some qid) \<in> set (map recording_view (db_recordings db))}"
  by (simp add: lifecycle_ok_def request_view_def recording_view_def list_all_iff comp_def)

lemma lifecycle_same_views:
  assumes "lifecycle_ok db" "map request_view (db_requests db') = map request_view (db_requests db)"
    "map recording_view (db_recordings db') = map recording_view (db_recordings db)"
    "db_request_sequence db' = db_request_sequence db" "db_recording_sequence db' = db_recording_sequence db"
  shows "lifecycle_ok db'"
  using assms(1) unfolding lifecycle_views assms(2-5) .

lemma map_request_fulfilled:
  assumes "distinct (map rq_request_id qs)" "q \<in> set qs" "rq_request_id q = qid" "rq_status q = Confirmed"
    "rq_fulfilled q = None"
  shows "set (map request_view (map (\<lambda>q. if rq_request_id q = qid \<and> rq_status q = Confirmed then fulfil rid ts q else q) qs))
      = set (map request_view qs) - {(qid, False, None)} \<union> {(qid, True, Some rid)}"
proof -
  let ?f = "\<lambda>q. if rq_request_id q = qid \<and> rq_status q = Confirmed then fulfil rid ts q else q"
  have one: "q' = q" if "q' \<in> set qs" "rq_request_id q' = qid" for q'
    using assms that by (auto simp: distinct_map dest: inj_onD)
  have f: "request_view (?f q') = (if q' = q then (qid, True, Some rid) else request_view q')" if "q' \<in> set qs" for q'
  proof (cases "q' = q")
    case False
    then have "rq_request_id q' \<noteq> qid" using one that by blast
    then show ?thesis using False by simp
  qed (simp add: assms(3,4) request_view_def fulfil_def)
  have qv: "request_view q = (qid, False, None)" using assms(3-5) by (simp add: request_view_def)
  have others: "request_view q' \<noteq> request_view q" if "q' \<in> set qs - {q}" for q'
    using one [of q'] that assms(3) by (auto simp: request_view_def)
  have "set (map request_view (map ?f qs)) = (\<lambda>q'. if q' = q then (qid, True, Some rid) else request_view q') ` set qs"
    using f by (simp add: image_image cong: image_cong)
  also have "\<dots> = insert (qid, True, Some rid) (request_view ` (set qs - {q}))"
    using assms(2) by auto
  also have "request_view ` (set qs - {q}) = request_view ` set qs - {request_view q}"
  proof (intro equalityI subsetI)
    fix v assume "v \<in> request_view ` (set qs - {q})"
    then obtain q' where "q' \<in> set qs - {q}" "v = request_view q'" by (elim imageE)
    then show "v \<in> request_view ` set qs - {request_view q}" using others [of q'] by simp
  next
    fix v assume "v \<in> request_view ` set qs - {request_view q}"
    then obtain q' where "q' \<in> set qs" "v = request_view q'" "v \<noteq> request_view q" by auto
    then show "v \<in> request_view ` (set qs - {q})" by (intro image_eqI [of _ _ q']) auto
  qed
  also have "insert (qid, True, Some rid) (request_view ` set qs - {request_view q})
      = set (map request_view qs) - {(qid, False, None)} \<union> {(qid, True, Some rid)}"
    using qv by simp
  finally show ?thesis .
qed

lemma lifecycle_statement: "statement db db' \<Longrightarrow> lifecycle_ok db \<Longrightarrow> lifecycle_ok db'"
proof (induction rule: statement.induct)
  case (status st P db ts)
  then have "map request_view (map (\<lambda>q. if P q then set_status st ts q else q) (db_requests db))
      = map request_view (db_requests db)"
    by (auto simp: request_view_def set_status_def)
  then show ?case
    using status by (intro lifecycle_same_views [OF status.prems]) (simp_all add: update_requests_def)
next
  case (request db now expires kind body)
  let ?new = "\<lparr>rq_request_id = db_request_sequence db + 1, rq_requested_at = now, rq_expires_at = expires,
      rq_status = Requested, rq_candidate_kind = kind, rq_candidate_json = body,
      rq_fulfilled = None, rq_updated_at = now\<rparr>"
  have "request_view ?new = (db_request_sequence db + 1, False, None)" by (simp add: request_view_def)
  with request show ?case
    by (simp add: lifecycle_views insert_request_def Let_def) fastforce
next
  case (recording p rid db)
  then show ?case
    by (auto simp: lifecycle_views inserted_recording_def recording_view_def)
next
  case (update f db P)
  then have "map recording_view (map (\<lambda>r. if P r then f r else r) (db_recordings db))
      = map recording_view (db_recordings db)"
    by (auto simp: recording_view_def keeps_identity_def)
  then show ?case
    by (intro lifecycle_same_views [OF update.prems]) (simp_all add: update_recordings_def)
next
  case (start p qid rid db q ts)
  let ?upd = "\<lambda>q. if rq_request_id q = qid \<and> rq_status q = Confirmed then fulfil rid ts q else q"
  let ?db = "snd (update_requests (\<lambda>q. rq_request_id q = qid \<and> rq_status q = Confirmed) (fulfil rid ts)
      (db\<lparr>db_recordings := db_recordings db @ [inserted_recording p rid], db_recording_sequence := rid\<rparr>))"
  have free: "rq_fulfilled q = None" and distinct: "distinct (map rq_request_id (db_requests db))"
    using start by (auto simp: lifecycle_ok_def list_all_iff)
  note views = map_request_fulfilled [OF distinct start.hyps(3-5) free, of rid ts]
  have ids: "map fst (map request_view (map ?upd (db_requests db))) = map fst (map request_view (db_requests db))"
    by (simp add: request_view_def fulfil_def)
  have rec_view: "map recording_view (db_recordings db @ [inserted_recording p rid])
      = map recording_view (db_recordings db) @ [(rid, Some qid)]"
    using start.hyps(1) by (simp add: recording_view_def inserted_recording_def)
  have qin: "(qid, False, None) \<in> set (map request_view (db_requests db))"
    using start.hyps(3-5) free by (force simp: request_view_def)
  have tables: "db_requests ?db = map ?upd (db_requests db)"
    "db_recordings ?db = db_recordings db @ [inserted_recording p rid]"
    "db_request_sequence ?db = db_request_sequence db" "db_recording_sequence ?db = rid"
    by (simp_all add: update_requests_def)
  note old = start.prems [unfolded lifecycle_views]
  show ?case
    unfolding lifecycle_views tables ids views rec_view
  proof (intro conjI)
    show "distinct (map fst (map request_view (db_requests db)))" using old by blast
    show "distinct (map fst (map recording_view (db_recordings db) @ [(rid, Some qid)]))"
      using old start.hyps(2) by fastforce
    show "{(qid', rid'). (qid', True, Some rid') \<in>
          set (map request_view (db_requests db)) - {(qid, False, None)} \<union> {(qid, True, Some rid)}}
      = {(qid', rid'). (rid', Some qid') \<in> set (map recording_view (db_recordings db) @ [(rid, Some qid)])}"
      using old by (auto simp: set_eq_iff)
    show "\<forall>(qid', _, _) \<in> set (map request_view (db_requests db)) - {(qid, False, None)} \<union> {(qid, True, Some rid)}.
        qid' \<le> db_request_sequence db"
      using old qin by blast
    show "\<forall>(rid', _) \<in> set (map recording_view (db_recordings db) @ [(rid, Some qid)]). rid' \<le> rid"
      using old start.hyps(2) by fastforce
    show "\<forall>(_, started, fulfilled) \<in>
        set (map request_view (db_requests db)) - {(qid, False, None)} \<union> {(qid, True, Some rid)}.
        started \<longleftrightarrow> fulfilled \<noteq> None"
      using old by blast
  qed
qed

lemma lifecycle_statements: "statement\<^sup>*\<^sup>* db db' \<Longrightarrow> lifecycle_ok db \<Longrightarrow> lifecycle_ok db'"
  by (induction rule: rtranclp_induct) (auto intro: lifecycle_statement)

definition fresh_recorder :: "session_row list \<Rightarrow> recorder" where
  "fresh_recorder sessions = (db_empty\<lparr>db_sessions := sessions\<rparr>, record_state_default)"

interpretation lifecycle: machine "record_step parse" "\<lambda>rec. lifecycle_ok (fst rec)" "\<lambda>_ _. True" for parse
  by unfold_locales (auto intro: lifecycle_statements [OF statements_step])

text \<open>
  C14 (\<open>confirm_record_request\<close>, \<open>open_record_session\<close>): a request starts at most one
  recording.  After any run of requests, starts, stops, pauses, declines, polls and restarts
  from an empty store, the started requests are exactly those some recording came of, and no
  two recordings came of the same request.
\<close>

theorem a_request_starts_at_most_one_recording:
  "let db = fst (final (record_step parse) (fresh_recorder sessions) ops)
   in rq_request_id ` {q \<in> set (db_requests db). rq_status q = Started}
        = {qid. Some qid \<in> rc_request_id ` set (db_recordings db)} \<and>
      inj_on rc_request_id {r \<in> set (db_recordings db). rc_request_id r \<noteq> None}"
proof -
  let ?db = "fst (final (record_step parse) (fresh_recorder sessions) ops)"
  have "lifecycle_ok (fst (fresh_recorder sessions))"
    by (simp add: fresh_recorder_def lifecycle_ok_def db_empty_def)
  then have ok: "lifecycle_ok ?db" by (rule lifecycle.final_inv)
  then have links: "(qid, True, Some rid) \<in> request_view ` set (db_requests ?db)
      \<longleftrightarrow> (rid, Some qid) \<in> recording_view ` set (db_recordings ?db)" for qid rid
    by (auto simp: lifecycle_ok_def set_eq_iff)
  have started: "rq_status q = Started \<longleftrightarrow> (\<exists>rid. request_view q = (rq_request_id q, True, Some rid))"
    if "q \<in> set (db_requests ?db)" for q
    using ok that by (auto simp: lifecycle_ok_def list_all_iff request_view_def)
  have "rq_request_id ` {q \<in> set (db_requests ?db). rq_status q = Started}
      = {qid. \<exists>rid. (qid, True, Some rid) \<in> request_view ` set (db_requests ?db)}"
    using started by (force simp: request_view_def)
  also have "\<dots> = {qid. Some qid \<in> rc_request_id ` set (db_recordings ?db)}"
    unfolding links by (force simp: recording_view_def)
  finally have "rq_request_id ` {q \<in> set (db_requests ?db). rq_status q = Started}
      = {qid. Some qid \<in> rc_request_id ` set (db_recordings ?db)}" .
  moreover have "inj_on rc_request_id {r \<in> set (db_recordings ?db). rc_request_id r \<noteq> None}"
  proof (rule inj_onI)
    fix r r'
    assume "r \<in> {r \<in> set (db_recordings ?db). rc_request_id r \<noteq> None}"
      "r' \<in> {r \<in> set (db_recordings ?db). rc_request_id r \<noteq> None}" "rc_request_id r = rc_request_id r'"
    then obtain qid where r: "r \<in> set (db_recordings ?db)" "r' \<in> set (db_recordings ?db)"
      "rc_request_id r = Some qid" "rc_request_id r' = Some qid" by auto
    then have "(qid, True, Some (rc_record_session_id r)) \<in> request_view ` set (db_requests ?db)"
      "(qid, True, Some (rc_record_session_id r')) \<in> request_view ` set (db_requests ?db)"
      unfolding links by (auto simp: recording_view_def image_iff)
    then obtain q q' where q: "q \<in> set (db_requests ?db)" "q' \<in> set (db_requests ?db)"
        "rq_request_id q = qid" "rq_request_id q' = qid"
        "rq_fulfilled q = Some (rc_record_session_id r)" "rq_fulfilled q' = Some (rc_record_session_id r')"
      by (auto simp: request_view_def)
    moreover have "inj_on rq_request_id (set (db_requests ?db))"
      using ok by (simp add: lifecycle_ok_def distinct_map)
    ultimately have "q = q'" by (metis inj_onD)
    then have "rc_record_session_id r = rc_record_session_id r'" using q(5,6) by simp
    then show "r = r'" using ok r by (auto simp: lifecycle_ok_def distinct_map dest: inj_onD)
  qed
  ultimately show ?thesis by (simp add: Let_def)
qed

section \<open>Requests move forward\<close>

text \<open>What a later table holds of an earlier row: all but the status and its stamp, moved forward.\<close>

definition advances :: "request_row \<Rightarrow> request_row \<Rightarrow> bool" where
  "advances q q' \<longleftrightarrow>
     rq_request_id q' = rq_request_id q \<and> rq_requested_at q' = rq_requested_at q \<and>
     rq_expires_at q' = rq_expires_at q \<and> rq_candidate_kind q' = rq_candidate_kind q \<and>
     rq_candidate_json q' = rq_candidate_json q \<and> request_move\<^sup>*\<^sup>* (rq_status q) (rq_status q')"

definition requests_advance :: "store_db \<Rightarrow> store_db \<Rightarrow> bool" where
  "requests_advance db db' \<longleftrightarrow>
     (\<exists>qs new. db_requests db' = qs @ new \<and> list_all2 advances (db_requests db) qs)"

lemma advances_refl [simp, intro]: "advances q q"
  by (simp add: advances_def)

lemma advances_trans: "advances q q' \<Longrightarrow> advances q' q'' \<Longrightarrow> advances q q''"
  by (auto simp: advances_def intro: rtranclp_trans)

lemma requests_advance_trans:
  "requests_advance db db' \<Longrightarrow> requests_advance db' db'' \<Longrightarrow> requests_advance db db''"
  unfolding requests_advance_def
proof (elim exE conjE)
  fix qs new qs' new'
  assume *: "db_requests db' = qs @ new" "list_all2 advances (db_requests db) qs"
    "db_requests db'' = qs' @ new'" "list_all2 advances (db_requests db') qs'"
  then obtain as bs where "qs' = as @ bs" "list_all2 advances qs as"
    by (auto simp: list_all2_append1)
  moreover have "list_all2 advances (db_requests db) as"
    by (rule list_all2_trans [OF advances_trans *(2) calculation(2)])
  ultimately show "\<exists>qs new. db_requests db'' = qs @ new \<and> list_all2 advances (db_requests db) qs"
    using *(3) by auto
qed

lemma update_requests_advance:
  "\<forall>q. P q \<longrightarrow> advances q (f q) \<Longrightarrow> requests_advance db (snd (update_requests P f db))"
  unfolding requests_advance_def update_requests_def
  by (intro exI [of _ "map (\<lambda>q. if P q then f q else q) (db_requests db)"] exI [of _ "[]"])
    (auto simp: list_all2_conv_all_nth)

lemma same_requests_advance: "db_requests db' = db_requests db \<Longrightarrow> requests_advance db db'"
  unfolding requests_advance_def by (intro exI [of _ "db_requests db"] exI [of _ "[]"]) (auto simp: list_all2_same)

lemma statement_advances: "statement db db' \<Longrightarrow> requests_advance db db'"
proof (induction rule: statement.induct)
  case (status st P db ts)
  then have "\<forall>q. P q \<longrightarrow> advances q (set_status st ts q)"
    by (auto simp: advances_def set_status_def)
  then show ?case by (rule update_requests_advance)
next
  case (request db now expires kind body)
  show ?case
    unfolding requests_advance_def insert_request_def Let_def
    by (rule exI [of _ "db_requests db"]) (simp add: list_all2_same)
next
  case (start p qid rid db q ts)
  have "requests_advance db (db\<lparr>db_recordings := db_recordings db @ [inserted_recording p rid], db_recording_sequence := rid\<rparr>)"
    by (rule same_requests_advance) simp
  then show ?case
    by (rule requests_advance_trans) (rule update_requests_advance, auto simp: advances_def fulfil_def)
qed (auto intro: same_requests_advance simp: update_recordings_def)

lemma run_advances: "requests_advance (fst rec) (fst (final (record_step parse) rec ops))"
proof (induction ops arbitrary: rec)
  case (Cons op ops)
  have "statement\<^sup>*\<^sup>* db db' \<Longrightarrow> requests_advance db db'" for db db'
    by (induction rule: rtranclp_induct) (auto intro: same_requests_advance statement_advances requests_advance_trans)
  then have "requests_advance (fst rec) (fst (fst (record_step parse rec op)))"
    using statements_step by blast
  then show ?case using requests_advance_trans [OF _ Cons.IH [of "fst (record_step parse rec op)"]] by simp
qed (auto intro: same_requests_advance)


end
