(* ===== verification/Record_Prompts.thy ===== *)
theory Record_Prompts
  imports Record_Laws
begin

text \<open>
  What the writer's poll surfaces: the mailbox reaches the first pending request that passes
  the value-free guard, the safety cap counts the time a recording was not paused, and a cap
  window of a recording is prompted once.
\<close>

section \<open>The mailbox\<close>

text \<open>A poll on a quiet writer: nothing recording, nothing in flight, and every statement succeeds.\<close>

definition quiet :: "poll_env \<Rightarrow> bool" where
  "quiet env \<longleftrightarrow>
     \<not> pe_in_flight_rearm env \<and> \<not> pe_in_flight_request env \<and> pe_request_notify env \<and>
     pe_request_accepts env \<and> pe_expire_ok env \<and> pe_status_ok env \<and> pe_pending_ok env \<and> pe_mark_ok env"

definition value_free :: "(string \<Rightarrow> json option) \<Rightarrow> request_row \<Rightarrow> bool" where
  "value_free parse q \<longleftrightarrow> ensure_value_free_json parse (rq_candidate_json q) = Inr ()"

lemma pending_of_map:
  assumes "\<And>q. q \<in> set (db_requests db) \<Longrightarrow>
      rq_status (f q) = Requested \<and> rq_expires_at (f q) \<ge> now \<Longrightarrow> f q = q"
    and "\<And>q. q \<in> set (db_requests db) \<Longrightarrow>
      (rq_status (f q) = Requested \<and> rq_expires_at (f q) \<ge> now) =
      ((rq_status q = Requested \<and> rq_expires_at q \<ge> now) \<and> keep q)"
  shows "pending_requests now (db\<lparr>db_requests := map f (db_requests db)\<rparr>) = filter keep (pending_requests now db)"
proof -
  let ?P = "\<lambda>q. rq_status q = Requested \<and> rq_expires_at q \<ge> now"
  have "filter ?P (map f (db_requests db)) = map f (filter (\<lambda>q. ?P q \<and> keep q) (db_requests db))"
    using assms(2) by (simp add: filter_map comp_def cong: filter_cong)
  also have "\<dots> = filter (\<lambda>q. ?P q \<and> keep q) (db_requests db)"
    using assms by (intro map_idI) auto
  also have "\<dots> = filter keep (filter ?P (db_requests db))" by (simp add: conj_commute)
  finally show ?thesis by (simp add: pending_requests_def filter_sort)
qed

lemma pending_expired: "pending_requests now (snd (expire_record_requests now db)) = pending_requests now db"
  unfolding expire_record_requests_def update_requests_def snd_conv
  by (subst pending_of_map [where keep = "\<lambda>_. True"]) (auto simp: set_status_def)

lemma pending_failed:
  "pending_requests now (fail_record_request qid ts db)
     = filter (\<lambda>q. rq_request_id q \<noteq> qid) (pending_requests now db)"
  unfolding fail_record_request_def update_requests_def snd_conv
  by (rule pending_of_map) (auto simp: set_status_def undecided_def)

lemma distinct_pending:
  "distinct (map rq_request_id (db_requests db)) \<Longrightarrow> distinct (map rq_request_id (pending_requests now db))"
  by (auto simp: pending_requests_def distinct_map intro: inj_on_subset)

lemma rearmed:
  "quiet env \<Longrightarrow> rs_active_record_session_id rs = None \<Longrightarrow>
   rs_last_surfaced_request_id (rearm_surfaced env db rs) = None \<and>
   rs_active_record_session_id (rearm_surfaced env db rs) = None"
  by (auto simp: rearm_surfaced_def quiet_def split: option.splits)

lemma cap_loop_active:
  "rs_active_record_session_id (fst (cap_prompt_loop env rs rows)) = rs_active_record_session_id rs"
  by (induction rows) (auto simp: Let_def)

lemma cap_poll_active:
  "rs_active_record_session_id (fst (poll_cap_prompt env db rs)) = rs_active_record_session_id rs"
  by (simp add: poll_cap_prompt_def cap_loop_active)

lemma quiet_poll:
  assumes "quiet env" "rs_active_record_session_id rs = None"
    and "distinct (map rq_request_id (db_requests db))"
    and "pending_requests (pe_now_ms env) db = q # pending"
  shows "value_free parse q \<Longrightarrow> map fst (snd (record_step parse (db, rs) (Poll env))) = [Some q]"
    and "\<not> value_free parse q \<Longrightarrow>
      map fst (snd (record_step parse (db, rs) (Poll env))) = [None] \<and>
      rs_active_record_session_id (snd (fst (record_step parse (db, rs) (Poll env)))) = None \<and>
      pending_requests (pe_now_ms env) (fst (fst (record_step parse (db, rs) (Poll env)))) = pending"
proof -
  define db1 where "db1 = snd (expire_record_requests (pe_now_ms env) db)"
  define rs1 where "rs1 = rearm_surfaced env db1 rs"
  have first: "pending_requests (pe_now_ms env) db1 = q # pending"
    using assms(4) by (simp add: db1_def pending_expired)
  have "filter (\<lambda>q'. rq_request_id q' \<noteq> rq_request_id q) pending = pending"
    using distinct_pending [OF assms(3), of "pe_now_ms env"] assms(4)
    by (intro filter_True) (auto, metis imageI)
  then have rest: "pending_requests (pe_now_ms env) (fail_record_request (rq_request_id q) ts db1) = pending" for ts
    by (simp add: pending_failed first)
  have poll: "poll_recording_control parse env (db, rs) =
      (let ((db, rs), surfaced) = poll_record_request_prompt parse env (db1, rs1);
           (rs, prompt) = poll_cap_prompt env db rs
       in ((db, rs), surfaced, prompt))"
    using assms(1) by (simp add: poll_recording_control_def db1_def rs1_def quiet_def Let_def)
  have req: "poll_record_request_prompt parse env (db1, rs1) =
      (if value_free parse q then ((db1, rs1\<lparr>rs_last_surfaced_request_id := Some (rq_request_id q)\<rparr>), Some q)
       else ((fail_record_request (rq_request_id q) (pe_now_ms env) db1, rs1), None))"
    using assms(1) rearmed [OF assms(1,2), of db1] first
    by (simp add: poll_record_request_prompt_def oldest_pending_record_request_def rs1_def quiet_def value_free_def
        split: sum.splits)
  show "value_free parse q \<Longrightarrow> map fst (snd (record_step parse (db, rs) (Poll env))) = [Some q]"
    by (simp add: poll req split: prod.splits)
  show "\<not> value_free parse q \<Longrightarrow>
      map fst (snd (record_step parse (db, rs) (Poll env))) = [None] \<and>
      rs_active_record_session_id (snd (fst (record_step parse (db, rs) (Poll env)))) = None \<and>
      pending_requests (pe_now_ms env) (fst (fst (record_step parse (db, rs) (Poll env)))) = pending"
    using rearmed [OF assms(1,2), of db1] cap_poll_active [of env _ rs1]
    by (simp add: poll req rest rs1_def [symmetric] Let_def split_def)
qed

lemma distinct_after_poll:
  assumes "distinct (map rq_request_id (db_requests db))"
  shows "distinct (map rq_request_id (db_requests (fst (fst (record_step parse (db, rs) (Poll env))))))"
proof -
  obtain rs' where "map rq_request_id (db_requests (fst (fst (record_step parse (db, rs) (Poll env)))))
      = map rq_request_id (db_requests db)"
    by (auto simp: poll_recording_control_def Let_def split_def poll_record_request_prompt_def
        expire_record_requests_def fail_record_request_def update_requests_def set_status_def
        split: option.splits sum.splits)
  then show ?thesis using assms by simp
qed

text \<open>
  C16 (\<open>poll_record_request_prompt\<close>): the mailbox is never blocked.  While the writer is
  quiet, nothing recording and no prompt in flight, repeated polls fail the pending requests
  that carry a value, one a poll and oldest first, and the poll after them surfaces the oldest
  pending request that passes the value-free guard.
\<close>

theorem polls_surface_the_first_valid_request:
  assumes "quiet env" "rs_active_record_session_id rs = None"
    and "distinct (map rq_request_id (db_requests db))"
    and "find (value_free parse) (pending_requests (pe_now_ms env) db) = Some q"
  shows "let n = length (takeWhile (Not \<circ> value_free parse) (pending_requests (pe_now_ms env) db))
    in map fst (outputs (record_step parse) (db, rs) (replicate (Suc n) (Poll env)))
         = replicate n None @ [Some q]"
  using assms(2-4)
proof (induction "pending_requests (pe_now_ms env) db" arbitrary: db rs)
  case (Cons q' pending)
  note pend = Cons.hyps(2) [symmetric]
  note poll = quiet_poll [OF assms(1) Cons.prems(1,2) pend]
  show ?case
  proof (cases "value_free parse q'")
    case True
    then show ?thesis using poll(1) [OF True] Cons.prems(3) by (simp add: pend)
  next
    case False
    let ?rec = "fst (record_step parse (db, rs) (Poll env))"
    from poll(2) [OF False] have after: "pending_requests (pe_now_ms env) (fst ?rec) = pending"
        "rs_active_record_session_id (snd ?rec) = None"
        "map fst (snd (record_step parse (db, rs) (Poll env))) = [None]" by blast+
    have "find (value_free parse) (pending_requests (pe_now_ms env) (fst ?rec)) = Some q"
      using Cons.prems(3) False by (simp add: pend after(1) del: record_step.simps)
    from Cons.hyps(1) [OF after(1) [symmetric] after(2) distinct_after_poll [OF Cons.prems(2)] this]
    show ?thesis using False after by (simp add: pend Let_def del: record_step.simps)
  qed
qed simp

lemma polls_surface_the_first_valid_request_witness:
  "let parse = (\<lambda>text. if text = ''bad'' then Some (JObject [(''name'', JNull)]) else Some JNull);
       row = (\<lambda>qid text. \<lparr>rq_request_id = qid, rq_requested_at = qid, rq_expires_at = 100,
                rq_status = Requested, rq_candidate_kind = None, rq_candidate_json = text,
                rq_fulfilled = None, rq_updated_at = 0\<rparr>);
       env = \<lparr>pe_now_ms = 10, pe_in_flight_rearm = False, pe_in_flight_request = False,
              pe_in_flight_cap = False, pe_request_notify = True, pe_request_accepts = True,
              pe_cap_notify = True, pe_cap_accepts = (\<lambda>_. True), pe_expire_ok = True,
              pe_status_ok = True, pe_pending_ok = True, pe_mark_ok = True, pe_sessions_ok = True\<rparr>
   in map fst (outputs (record_step parse)
        (db_empty\<lparr>db_requests := [row 2 ''ok'', row 1 ''bad'']\<rparr>, record_state_default)
        (replicate (Suc 1) (Poll env))) = [None, Some (row 2 ''ok'')]"
proof -
  define parse where "parse = (\<lambda>text. if text = ''bad'' then Some (JObject [(''name'', JNull)]) else Some JNull)"
  define row where "row = (\<lambda>qid text. \<lparr>rq_request_id = qid, rq_requested_at = qid, rq_expires_at = 100,
      rq_status = Requested, rq_candidate_kind = None, rq_candidate_json = text,
      rq_fulfilled = None, rq_updated_at = 0\<rparr>)"
  define env where "env = \<lparr>pe_now_ms = 10, pe_in_flight_rearm = False, pe_in_flight_request = False,
      pe_in_flight_cap = False, pe_request_notify = True, pe_request_accepts = True,
      pe_cap_notify = True, pe_cap_accepts = (\<lambda>_. True), pe_expire_ok = True,
      pe_status_ok = True, pe_pending_ok = True, pe_mark_ok = True, pe_sessions_ok = True\<rparr>"
  have valid: "\<not> value_free parse (row 1 ''bad'')" "value_free parse (row 2 ''ok'')"
    by (simp_all add: value_free_def ensure_value_free_json_def parse_def row_def first_forbidden_json_key_def
        first_unbounded_identifier_def forbidden_json_key_def to_ascii_lowercase_def ascii_lower_char_def)
  have "pending_requests 10 (db_empty\<lparr>db_requests := [row 2 ''ok'', row 1 ''bad'']\<rparr>) = [row 1 ''bad'', row 2 ''ok'']"
    by (simp add: pending_requests_def row_def)
  then show ?thesis
    using polls_surface_the_first_valid_request
        [of env record_state_default "db_empty\<lparr>db_requests := [row 2 ''ok'', row 1 ''bad'']\<rparr>" parse "row 2 ''ok''"]
      valid
    unfolding Let_def parse_def [symmetric] row_def [symmetric] env_def [symmetric]
    by (simp add: quiet_def env_def record_state_default_def row_def del: record_step.simps)
qed

section \<open>The safety cap\<close>

text \<open>A history of pauses (\<open>True\<close>) and resumes (\<open>False\<close>) of a recording, each at its time.\<close>

definition pause_step :: "pauses \<Rightarrow> int \<times> bool \<Rightarrow> pauses" where
  "pause_step pauses op = (case op of (ts, pausing) \<Rightarrow> (if pausing then paused_at ts pauses else resumed_at ts pauses))"

definition pauses_of :: "(int \<times> bool) list \<Rightarrow> pauses" where
  "pauses_of history = foldl pause_step [] history"

text \<open>Whether the recording is paused at an instant: what the last operation up to it asked for.\<close>

definition paused_during :: "(int \<times> bool) list \<Rightarrow> int \<Rightarrow> bool" where
  "paused_during history t =
     (case rev (filter (\<lambda>(ts, _). ts \<le> t) history) of [] \<Rightarrow> False | (_, pausing) # _ \<Rightarrow> pausing)"

text \<open>The total without saturation.\<close>

definition paused_sum :: "pauses \<Rightarrow> int \<Rightarrow> int" where
  "paused_sum pauses now =
     (\<Sum>(start, stop) \<leftarrow> pauses. max (case stop of Some stop \<Rightarrow> stop | None \<Rightarrow> now) start - start)"

lemma paused_sum_append [simp]: "paused_sum (xs @ ys) now = paused_sum xs now + paused_sum ys now"
  by (simp add: paused_sum_def)

lemma paused_sum_simps [simp]:
  "paused_sum [] now = 0"
  "paused_sum ((start, stop) # ps) now
     = max (case stop of Some stop \<Rightarrow> stop | None \<Rightarrow> now) start - start + paused_sum ps now"
  by (simp_all add: paused_sum_def)

lemma paused_sum_nonneg: "0 \<le> paused_sum ps now"
  by (induction ps) auto

lemma pauses_of_snoc [simp]: "pauses_of (history @ [op]) = pause_step (pauses_of history) op"
  by (simp add: pauses_of_def)

lemma pauses_of_Nil [simp]: "pauses_of [] = []"
  by (simp add: pauses_of_def)

lemma paused_during_snoc:
  "paused_during (history @ [(ts, pausing)]) t = (if ts \<le> t then pausing else paused_during history t)"
  by (simp add: paused_during_def)

lemma paused_during_after:
  "\<forall>(ts, _) \<in> set history. ts \<le> t \<Longrightarrow> paused_during history t \<longleftrightarrow> history \<noteq> [] \<and> snd (last history)"
proof -
  assume "\<forall>(ts, _) \<in> set history. ts \<le> t"
  then have "filter (\<lambda>(ts, _). ts \<le> t) history = history" by (auto intro: filter_True)
  then show ?thesis
    by (cases history rule: rev_cases) (auto simp: paused_during_def)
qed

lemma finite_paused: "finite {t. t < now \<and> paused_during history t}"
proof (induction history rule: rev_induct)
  case (snoc op history)
  obtain ts pausing where op: "op = (ts, pausing)" by fastforce
  have "{t. t < now \<and> paused_during (history @ [op]) t} \<subseteq> {ts..<now} \<union> {t. t < now \<and> paused_during history t}"
    by (auto simp: op paused_during_snoc)
  then show ?case using snoc finite_subset by blast
qed (simp add: paused_during_def)

text \<open>Every pause but an open last one is closed, so its length does not depend on the clock.\<close>

definition closed_pauses :: "pauses \<Rightarrow> bool" where
  "closed_pauses ps \<longleftrightarrow> list_all (\<lambda>(_, stop). stop \<noteq> None) ps"

lemma closed_sum: "closed_pauses ps \<Longrightarrow> paused_sum ps now = paused_sum ps now'"
  by (induction ps) (auto simp: closed_pauses_def)

lemma pauses_of_shape:
  "if history \<noteq> [] \<and> snd (last history)
   then \<exists>closed start. pauses_of history = closed @ [(start, None)] \<and> closed_pauses closed
   else closed_pauses (pauses_of history)"
proof (induction history rule: rev_induct)
  case (snoc op history)
  obtain ts pausing where op: "op = (ts, pausing)" by fastforce
  show ?case
  proof (cases "history \<noteq> [] \<and> snd (last history)")
    case True
    then obtain closed start where "pauses_of history = closed @ [(start, None)]" "closed_pauses closed"
      using snoc by auto
    then show ?thesis
      by (simp add: op pause_step_def paused_at_def resumed_at_def pause_open_def closed_pauses_def)
  next
    case False
    then have closed: "closed_pauses (pauses_of history)" using snoc by (simp split: if_splits)
    then have "pauses_of history = [] \<or> (\<exists>earlier s e. pauses_of history = earlier @ [(s, Some e)])"
      by (cases "pauses_of history" rule: rev_cases) (auto simp: closed_pauses_def)
    then show ?thesis using closed
      by (auto simp: op pause_step_def paused_at_def resumed_at_def pause_open_def)
  qed
qed (simp add: closed_pauses_def)

lemma paused_sum_counts:
  assumes "sorted (map fst history)" "\<forall>(ts, _) \<in> set history. ts \<le> now"
  shows "paused_sum (pauses_of history) now = int (card {t. t < now \<and> paused_during history t})"
  using assms
proof (induction history arbitrary: now rule: rev_induct)
  case (snoc op history)
  obtain ts pausing where op: "op = (ts, pausing)" by fastforce
  have sorted: "sorted (map fst history)" and upto: "\<forall>(t, _) \<in> set history. t \<le> ts" and "ts \<le> now"
    using snoc.prems by (auto simp: op sorted_append)
  have before: "\<forall>(t, _) \<in> set history. t \<le> now" using snoc.prems(2) by (auto simp: op)
  note IH = snoc.IH [OF sorted]
  let ?open = "history \<noteq> [] \<and> snd (last history)"
  have late: "paused_during history t \<longleftrightarrow> ?open" if "ts \<le> t" for t
    using upto that by (intro paused_during_after) fastforce
  show ?case
  proof (cases "pausing = ?open")
    case True
    have "pause_step (pauses_of history) op = pauses_of history"
    proof (cases ?open)
      case open_now: True
      then obtain closed start where "pauses_of history = closed @ [(start, None)]"
        using pauses_of_shape [of history] by auto
      then show ?thesis using open_now True by (simp add: op pause_step_def paused_at_def pause_open_def)
    next
      case False
      then have "closed_pauses (pauses_of history)" using pauses_of_shape [of history] by (simp split: if_splits)
      then have "resumed_at ts (pauses_of history) = pauses_of history"
        by (cases "pauses_of history" rule: rev_cases) (auto simp: closed_pauses_def resumed_at_def)
      moreover have "\<not> pausing" using False True by blast
      ultimately show ?thesis by (simp add: op pause_step_def)
    qed
    moreover have "paused_during (history @ [op]) t = paused_during history t" for t
      using late [of t] True by (auto simp: op paused_during_snoc)
    ultimately show ?thesis using IH [OF before] by simp
  next
    case flipped: False
    show ?thesis
    proof (cases ?open)
      case open_now: True
      then obtain closed start where ps: "pauses_of history = closed @ [(start, None)]" "closed_pauses closed"
        using pauses_of_shape [of history] by auto
      have step: "pause_step (pauses_of history) op = closed @ [(start, Some (max ts start))]"
        using open_now flipped ps by (simp add: op pause_step_def resumed_at_def)
      have "paused_sum (closed @ [(start, Some (max ts start))]) now = paused_sum (pauses_of history) ts"
        using closed_sum [OF ps(2), of now ts] ps(1) by simp
      moreover have "{t. t < now \<and> paused_during (history @ [op]) t} = {t. t < ts \<and> paused_during history t}"
        using open_now flipped \<open>ts \<le> now\<close> by (auto simp: op paused_during_snoc split: if_splits)
      ultimately show ?thesis using IH [OF upto] step by simp
    next
      case False
      then have closed: "closed_pauses (pauses_of history)" using pauses_of_shape [of history] by (simp split: if_splits)
      then have "\<not> pause_open (pauses_of history)"
        by (cases "pauses_of history" rule: rev_cases) (auto simp: closed_pauses_def pause_open_def)
      then have step: "pause_step (pauses_of history) op = pauses_of history @ [(ts, None)]"
        using False flipped by (simp add: op pause_step_def paused_at_def)
      have "{t. t < now \<and> paused_during (history @ [op]) t} = {t. t < ts \<and> paused_during history t} \<union> {ts..<now}"
        using False flipped \<open>ts \<le> now\<close> late by (auto simp: op paused_during_snoc not_le)
      moreover have "card ({t. t < ts \<and> paused_during history t} \<union> {ts..<now})
          = card {t. t < ts \<and> paused_during history t} + card {ts..<now}"
        by (intro card_Un_disjoint finite_paused) auto
      ultimately show ?thesis
        using IH [OF upto] closed_sum [OF closed, of now ts] \<open>ts \<le> now\<close> step by simp
    qed
  qed
qed (simp add: paused_during_def)

text \<open>Below the width of the clock nothing saturates.\<close>

lemma paused_total_exact:
  assumes "in_i64 (paused_sum ps now)" "\<forall>(start, stop) \<in> set ps. 0 \<le> start \<and>
      max (case stop of Some stop \<Rightarrow> stop | None \<Rightarrow> now) start \<le> i64_max"
  shows "paused_total_ms_at ps now = paused_sum ps now"
proof -
  let ?step = "\<lambda>total (start, stop). let stop = max (case stop of Some stop \<Rightarrow> stop | None \<Rightarrow> now) start
      in sat_add_i64 total (sat_sub_i64 stop start)"
  have "foldl ?step a ps = a + paused_sum ps now" if "0 \<le> a" "in_i64 (a + paused_sum ps now)" for a
    using that assms(2)
  proof (induction ps arbitrary: a)
    case (Cons p ps)
    obtain start stop where p: "p = (start, stop)" by fastforce
    let ?len = "max (case stop of Some stop \<Rightarrow> stop | None \<Rightarrow> now) start - start"
    have len: "0 \<le> ?len" "in_i64 ?len" using Cons.prems(3) by (auto simp: p in_i64_def sat_defs)
    have "in_i64 (a + ?len)"
      using Cons.prems(1,2) len(1) paused_sum_nonneg [of ps now] by (auto simp: p in_i64_def sat_defs)
    then have "?step a p = a + ?len" using len by (simp add: p sat_sub_i64_def sat_add_i64_def Let_def)
    then show ?case using Cons.IH [of "a + ?len"] Cons.prems len(1) by (simp add: p add.assoc)
  qed simp
  from this [of 0] show ?thesis using assms(1) by (simp add: paused_total_ms_at_def)
qed

lemma pauses_bounded:
  assumes "\<forall>(ts, _) \<in> set history. lo \<le> ts \<and> ts \<le> now"
  shows "\<forall>(start, stop) \<in> set (pauses_of history). lo \<le> start \<and> start \<le> now \<and>
    (case stop of None \<Rightarrow> True | Some stop \<Rightarrow> stop \<le> now)"
  using assms
proof (induction history rule: rev_induct)
  case (snoc op history)
  obtain ts pausing where op: "op = (ts, pausing)" by fastforce
  have IH: "\<forall>(start, stop) \<in> set (pauses_of history). lo \<le> start \<and> start \<le> now \<and>
      (case stop of None \<Rightarrow> True | Some stop \<Rightarrow> stop \<le> now)"
    using snoc by auto
  show ?case
  proof (cases "pauses_of history" rule: rev_cases)
    case (snoc closed p)
    obtain start stop where "p = (start, stop)" by fastforce
    with IH \<open>\<forall>(ts, _) \<in> set (history @ [op]). lo \<le> ts \<and> ts \<le> now\<close> snoc show ?thesis
      by (cases stop) (auto simp: op pause_step_def paused_at_def resumed_at_def pause_open_def)
  qed (use snoc.prems in \<open>auto simp: op pause_step_def paused_at_def resumed_at_def pause_open_def\<close>)
qed simp

definition recording_of :: "int \<Rightarrow> store_db \<Rightarrow> recording_row option" where
  "recording_of rid db = find (\<lambda>r. rc_record_session_id r = rid) (db_recordings db)"

definition pause_op :: "int \<Rightarrow> int \<times> bool \<Rightarrow> record_op" where
  "pause_op rid op = (case op of (ts, pausing) \<Rightarrow> if pausing then Pause rid ts else Resume rid ts)"

lemma find_map_key:
  "(\<And>x. k (f x) = k x) \<Longrightarrow> find (\<lambda>x. k x = a) (map f xs) = map_option f (find (\<lambda>x. k x = a) xs)"
  by (induction xs) auto

lemma recording_of_written:
  "recording_of rid db = Some r \<Longrightarrow> rc_ended_ts r = None \<Longrightarrow>
   recording_of rid (write_pause_intervals rid pauses db) = Some (r\<lparr>rc_pause_intervals := Some pauses\<rparr>)"
  by (auto simp: recording_of_def write_pause_intervals_def update_recordings_def find_map_key find_Some_iff)

lemma pause_op_step:
  assumes "recording_of rid (fst rec) = Some r" "rc_ended_ts r = None" "rc_pause_intervals r = Some pauses"
  shows "recording_of rid (fst (fst (record_step parse rec (pause_op rid op))))
      = Some (r\<lparr>rc_pause_intervals := Some (pause_step pauses op)\<rparr>)"
proof -
  obtain ts pausing where op: "op = (ts, pausing)" by fastforce
  have "pause_intervals rid (fst rec) = Inr pauses"
    using assms by (simp add: pause_intervals_def recording_of_def)
  moreover have "r\<lparr>rc_pause_intervals := Some pauses\<rparr> = r" using assms(3) by simp
  ultimately show ?thesis
    using assms(1) recording_of_written [OF assms(1,2)]
    by (cases rec) (auto simp: op pause_op_def pause_step_def pause_recording_in_def resume_recording_in_def
        pause_record_session_def resume_record_session_def paused_at_def)
qed

lemma pause_ops_run:
  assumes "recording_of rid (fst rec) = Some r" "rc_ended_ts r = None" "rc_pause_intervals r = Some []"
  shows "recording_of rid (fst (final (record_step parse) rec (map (pause_op rid) history)))
      = Some (r\<lparr>rc_pause_intervals := Some (pauses_of history)\<rparr>)"
proof (induction history rule: rev_induct)
  case Nil
  have "r\<lparr>rc_pause_intervals := Some []\<rparr> = r" using assms(3) by simp
  then show ?case using assms(1) by simp
next
  case (snoc op history)
  from pause_op_step [OF snoc] show ?case using assms(2) by (simp del: record_step.simps)
qed

lemma unpaused_complement:
  assumes "\<forall>(ts, _) \<in> set history. lo \<le> ts \<and> ts \<le> now" "lo \<le> now"
  shows "int (card {t. t < now \<and> paused_during history t}) \<le> now - lo"
    and "int (card {t. lo \<le> t \<and> t < now \<and> \<not> paused_during history t})
      = now - lo - int (card {t. t < now \<and> paused_during history t})"
proof -
  let ?paused = "{t. t < now \<and> paused_during history t}" and ?span = "{lo..<now}"
  have early: "\<not> paused_during history t" if "t < lo" for t
  proof -
    have "filter (\<lambda>(ts, _). ts \<le> t) history = []" using assms(1) that by (auto simp: filter_empty_conv)
    then show ?thesis by (simp add: paused_during_def)
  qed
  then have sub: "?paused \<subseteq> ?span" by (force simp: not_less [symmetric])
  have le: "card ?paused \<le> card ?span" using sub by (intro card_mono) auto
  have span: "int (card ?span) = now - lo" using assms(2) by simp
  show "int (card ?paused) \<le> now - lo" using le span by linarith
  have "int (card (?span - ?paused)) = now - lo - int (card ?paused)"
    using le span by (simp add: card_Diff_subset [OF finite_subset [OF sub] sub] of_nat_diff)
  moreover have "?span - ?paused = {t. lo \<le> t \<and> t < now \<and> \<not> paused_during history t}"
    by auto
  ultimately show "int (card {t. lo \<le> t \<and> t < now \<and> \<not> paused_during history t})
      = now - lo - int (card ?paused)" by simp
qed

text \<open>
  \<open>paused_total_ms_at\<close>, \<open>poll_cap_prompt\<close>: the safety cap counts exactly the time a
  recording was not paused.  After any sequence of pauses and resumes of an open recording
  in time order, however they repeat, the elapsed active time the cap is compared with is the
  number of milliseconds from the start of the recording to now at which the last pause or
  resume, if any, was not a pause.
\<close>

theorem safety_cap_counts_unpaused_time:
  assumes "recording_of rid (fst rec) = Some r" "rc_ended_ts r = None" "rc_pause_intervals r = Some []"
    and "sorted (map fst history)" "\<forall>(ts, _) \<in> set history. rc_started_ts r \<le> ts \<and> ts \<le> now"
    and "0 \<le> rc_started_ts r" "rc_started_ts r \<le> now" "now \<le> i64_max"
  shows "map_option (\<lambda>r. cp_elapsed_active_ms (cap_prompt_of now r))
      (recording_of rid (fst (final (record_step parse) rec (map (pause_op rid) history))))
    = Some (int (card {t. rc_started_ts r \<le> t \<and> t < now \<and> \<not> paused_during history t}))"
proof -
  let ?paused = "{t. t < now \<and> paused_during history t}"
  note unpaused = unpaused_complement [OF assms(5,7)]
  have sum: "paused_sum (pauses_of history) now = int (card ?paused)"
    using assms(4,5) by (intro paused_sum_counts) auto
  have in64: "in_i64 (now - rc_started_ts r)" "in_i64 (int (card ?paused))"
    "in_i64 (now - rc_started_ts r - int (card ?paused))"
    using assms(6-8) unpaused(1) unfolding in_i64_def i64_max_def i64_min_def by linarith+
  have "paused_total_ms_at (pauses_of history) now = int (card ?paused)"
  proof (subst paused_total_exact)
    show "in_i64 (paused_sum (pauses_of history) now)" using in64(2) sum by simp
    show "\<forall>(start, stop) \<in> set (pauses_of history). 0 \<le> start \<and>
        max (case stop of Some stop \<Rightarrow> stop | None \<Rightarrow> now) start \<le> i64_max"
      using pauses_bounded [OF assms(5)] assms(6,8) by (fastforce split: option.splits)
  qed (rule sum)
  then have "cp_elapsed_active_ms (cap_prompt_of now (r\<lparr>rc_pause_intervals := Some (pauses_of history)\<rparr>))
      = now - rc_started_ts r - int (card ?paused)"
    using in64 unpaused(1) by (simp add: cap_prompt_of_def sat_sub_i64_def Let_def)
  also note unpaused(2) [symmetric]
  finally show ?thesis using pause_ops_run [OF assms(1-3)] by simp
qed

lemma safety_cap_counts_unpaused_time_witness:
  "let p = \<lparr>op_request_id = None, op_session_id = 1, op_started_ts = 100, op_title = None,
            op_policy_snapshot_json = [], op_safety_cap_ms = 60, op_visible_indicator = True\<rparr>
   in map_option (\<lambda>r. cp_elapsed_active_ms (cap_prompt_of 200 r))
      (recording_of 7 (fst (final (record_step (\<lambda>_. None))
         (db_empty\<lparr>db_recordings := [inserted_recording p 7]\<rparr>, record_state_default)
         (map (pause_op 7) [(110, True), (120, True), (150, False), (190, True)]))))
    = Some (int (card {t. rc_started_ts (inserted_recording p 7) \<le> t \<and> t < 200 \<and>
        \<not> paused_during [(110, True), (120, True), (150, False), (190, True)] t}))"
  unfolding Let_def
  by (rule safety_cap_counts_unpaused_time) (simp_all add: recording_of_def inserted_recording_def sat_defs)

section \<open>Cap windows\<close>

definition open_ids :: "store_db \<Rightarrow> int set" where
  "open_ids db = rc_record_session_id ` {r \<in> set (db_recordings db). rc_ended_ts r = None}"

text \<open>A statement opens only a recording with a new identifier.\<close>

definition opens_new :: "store_db \<Rightarrow> store_db \<Rightarrow> bool" where
  "opens_new db db' \<longleftrightarrow>
     db_recording_sequence db \<le> db_recording_sequence db' \<and>
     (\<forall>rid \<in> open_ids db'. rid \<in> open_ids db \<or> db_recording_sequence db < rid)"

lemma opens_new_refl: "opens_new db db"
  by (simp add: opens_new_def)

lemma opens_new_trans: "opens_new db db' \<Longrightarrow> opens_new db' db'' \<Longrightarrow> opens_new db db''"
  by (force simp: opens_new_def)

lemma opens_new_statement: "statement db db' \<Longrightarrow> opens_new db db'"
proof (induction rule: statement.induct)
  case (update f db P)
  have "open_ids (snd (update_recordings P f db)) \<subseteq> open_ids db"
  proof
    fix rid assume "rid \<in> open_ids (snd (update_recordings P f db))"
    then obtain r where r: "r \<in> set (db_recordings db)" "rid = rc_record_session_id (if P r then f r else r)"
        "rc_ended_ts (if P r then f r else r) = None"
      by (auto simp: open_ids_def update_recordings_def)
    then have "rc_record_session_id r = rid" "rc_ended_ts r = None"
      using update by (auto simp: keeps_identity_def split: if_splits)
    then show "rid \<in> open_ids db" using r(1) by (auto simp: open_ids_def)
  qed
  then show ?case by (auto simp: opens_new_def update_recordings_def)
qed (auto simp: opens_new_def open_ids_def update_requests_def insert_request_def inserted_recording_def Let_def)

lemma opens_new_step: "opens_new (fst rec) (fst (fst (record_step parse rec op)))"
proof -
  have "statement\<^sup>*\<^sup>* db db' \<Longrightarrow> opens_new db db'" for db db'
    by (induction rule: rtranclp_induct) (auto intro: opens_new_refl opens_new_statement opens_new_trans)
  then show ?thesis using statements_step by blast
qed

lemma open_ids_le: "lifecycle_ok db \<Longrightarrow> rid \<in> open_ids db \<Longrightarrow> rid \<le> db_recording_sequence db"
  by (auto simp: lifecycle_ok_def open_ids_def list_all_iff)

lemma open_rows [simp]: "set (open_record_sessions db) = {r \<in> set (db_recordings db). rc_ended_ts r = None}"
  by (auto simp: open_record_sessions_def)

text \<open>What a poll does to the windows: nothing, or the window of the prompt it surfaces.\<close>

definition fresh_window :: "writer_record_state \<Rightarrow> int \<Rightarrow> int \<Rightarrow> bool" where
  "fresh_window rs rid w \<longleftrightarrow>
     (case rs_cap_prompted_windows rs rid of None \<Rightarrow> True | Some w' \<Rightarrow> w' < w)"

lemma cap_loop_windows:
  "case cap_prompt_loop env rs rows of
     (rs', None) \<Rightarrow> rs' = rs
   | (rs', Some p) \<Rightarrow> cp_record_session_id p \<in> rc_record_session_id ` set rows \<and>
       fresh_window rs (cp_record_session_id p) (cp_window_index p) \<and>
       rs_cap_prompted_windows rs' = (rs_cap_prompted_windows rs)(cp_record_session_id p \<mapsto> cp_window_index p)"
proof (induction rows)
  case (Cons r rows)
  have "cp_record_session_id (cap_prompt_of (pe_now_ms env) r) = rc_record_session_id r"
    by (simp add: cap_prompt_of_def Let_def)
  moreover have "cap_due (pe_now_ms env) rs r \<Longrightarrow>
      fresh_window rs (rc_record_session_id r) (cp_window_index (cap_prompt_of (pe_now_ms env) r))"
    by (simp add: cap_due_def fresh_window_def split: option.splits)
  ultimately show ?case
    using Cons by (auto simp: Let_def split: prod.splits option.splits)
qed simp

lemma poll_windows:
  "case record_step parse rec (Poll env) of ((db', rs'), out) \<Rightarrow>
     case List.map_filter snd out of
       [] \<Rightarrow> rs_cap_prompted_windows rs' = rs_cap_prompted_windows (snd rec) \<and> db_recordings db' = db_recordings (fst rec)
     | p # ps \<Rightarrow> ps = [] \<and> cp_record_session_id p \<in> open_ids (fst rec) \<and>
         fresh_window (snd rec) (cp_record_session_id p) (cp_window_index p) \<and>
         rs_cap_prompted_windows rs' = (rs_cap_prompted_windows (snd rec))(cp_record_session_id p \<mapsto> cp_window_index p)"
proof -
  obtain db rs where rec: "rec = (db, rs)" by fastforce
  define db1 where "db1 = (if pe_expire_ok env then snd (expire_record_requests (pe_now_ms env) db) else db)"
  obtain db2 rs2 surfaced where req: "poll_record_request_prompt parse env (db1, rearm_surfaced env db1 rs)
      = ((db2, rs2), surfaced)" by (metis prod.exhaust)
  have "db_recordings db1 = db_recordings db"
    by (simp add: db1_def expire_record_requests_def update_requests_def)
  moreover have "db_recordings db2 = db_recordings db1" "rs_cap_prompted_windows rs2 = rs_cap_prompted_windows rs"
    using req by (auto simp: poll_record_request_prompt_def rearm_surfaced_def fail_record_request_def update_requests_def
        split: if_splits option.splits sum.splits)
  ultimately have same: "db_recordings db2 = db_recordings db" "rs_cap_prompted_windows rs2 = rs_cap_prompted_windows rs"
    by simp_all
  have "poll_recording_control parse env rec =
      (let (rs', prompt) = poll_cap_prompt env db2 rs2 in ((db2, rs'), surfaced, prompt))"
    unfolding rec poll_recording_control_def prod.case Let_def db1_def [symmetric] req ..
  moreover obtain rs' prompt where cap: "poll_cap_prompt env db2 rs2 = (rs', prompt)" by fastforce
  ultimately have poll: "record_step parse rec (Poll env) = ((db2, rs'), [(surfaced, prompt)])"
    by simp
  have "case prompt of None \<Rightarrow> rs' = rs2
      | Some p \<Rightarrow> cp_record_session_id p \<in> open_ids db2 \<and>
          fresh_window rs2 (cp_record_session_id p) (cp_window_index p) \<and>
          rs_cap_prompted_windows rs' = (rs_cap_prompted_windows rs2)(cp_record_session_id p \<mapsto> cp_window_index p)"
    using cap_loop_windows [where env = env and rs = rs2 and rows = "open_record_sessions db2"] cap
    by (auto simp: poll_cap_prompt_def open_ids_def split: if_splits option.splits)
  then show ?thesis
    using same unfolding poll
    by (cases prompt) (simp_all add: rec List.map_filter_def open_ids_def fresh_window_def)
qed

lemma opened_id: "open_record_session parse p db = Inr (rid, db') \<Longrightarrow> rid = db_recording_sequence db + 1"
  by (auto simp: open_record_session_def Let_def split: sum.splits if_splits option.splits prod.splits)

lemma confirm_sequence:
  "confirm_record_request qid ts db = Inr db' \<Longrightarrow> db_recording_sequence db' = db_recording_sequence db"
  by (auto simp: confirm_record_request_def update_requests_def split: if_splits)

lemma open_ids_ended:
  assumes "rid \<in> open_ids (snd (update_recordings P f db))" "\<And>r. rc_ended_ts (f r) \<noteq> None"
  shows "\<exists>r \<in> set (db_recordings db). \<not> P r \<and> rc_record_session_id r = rid \<and> rc_ended_ts r = None"
proof -
  obtain r where "r \<in> set (db_recordings db)" "rid = rc_record_session_id (if P r then f r else r)"
      "rc_ended_ts (if P r then f r else r) = None"
    using assms(1) by (auto simp: open_ids_def update_recordings_def)
  then show ?thesis using assms(2) [of r] by (intro bexI [of _ r]) (cases "P r", simp_all)
qed

lemma open_ids_requests [simp]: "open_ids (snd (update_requests P f db)) = open_ids db"
  by (simp add: open_ids_def update_requests_def)

text \<open>Every other step leaves the windows of the recordings it leaves open.\<close>

lemma step_windows:
  assumes "lifecycle_ok (fst rec)" "\<forall>env. op \<noteq> Poll env"
    and "rid \<in> open_ids (fst (fst (record_step parse rec op)))"
  shows "db_recording_sequence (fst rec) < rid \<or>
    rs_cap_prompted_windows (snd (fst (record_step parse rec op))) rid = rs_cap_prompted_windows (snd rec) rid"
proof (cases op)
  case (Start p)
  show ?thesis
  proof (cases "start_recording_in parse p rec")
    case (Pair rec' res)
    then show ?thesis using Start assms(1)
      by (cases rec) (auto simp: start_recording_in_def started_state_def
          dest!: opened_id confirm_sequence split: if_splits sum.splits option.splits)
  qed
next
  case (Stop r ts reason)
  then have "rid \<in> open_ids (close_record_session r ts reason (fst rec))"
    using assms(3) by (cases rec) (simp add: stop_recording_in_def)
  from open_ids_ended [OF this [unfolded close_record_session_def]] have "rid \<noteq> r"
    by (auto simp: end_recording_def)
  then show ?thesis using Stop by (cases rec) (simp add: stop_recording_in_def)
next
  case (Reopen ts)
  then have "rid \<in> open_ids (snd (finalize_orphan_record_sessions (fst rec)))"
    using assms(3) by (simp add: reopen_store_def reconcile_confirmed_record_requests_def)
  from open_ids_ended [OF this [unfolded finalize_orphan_record_sessions_def]] have False
    by (auto simp: end_recording_def)
  then show ?thesis ..
qed (use assms(2) in \<open>cases rec; auto simp: pause_recording_in_def resume_recording_in_def decline_request_in_def
      split: sum.splits\<close>)+

text \<open>The windows of a recording that a run prompts, in order.\<close>

definition prompted_windows :: "int \<Rightarrow> prompts list \<Rightarrow> int list" where
  "prompted_windows rid out =
     map cp_window_index (filter (\<lambda>p. cp_record_session_id p = rid) (List.map_filter snd out))"

lemma prompted_windows_append [simp]:
  "prompted_windows rid (xs @ ys) = prompted_windows rid xs @ prompted_windows rid ys"
  by (simp add: prompted_windows_def List.map_filter_def)

lemma windows_of_step:
  assumes "lifecycle_ok (fst rec)"
  shows "case prompted_windows rid (snd (record_step parse rec op)) of
      [] \<Rightarrow> (rid \<in> open_ids (fst (fst (record_step parse rec op))) \<longrightarrow>
          db_recording_sequence (fst rec) < rid \<or>
          rs_cap_prompted_windows (snd (fst (record_step parse rec op))) rid = rs_cap_prompted_windows (snd rec) rid)
    | w # ws \<Rightarrow> ws = [] \<and> rid \<in> open_ids (fst rec) \<and> fresh_window (snd rec) rid w \<and>
        rs_cap_prompted_windows (snd (fst (record_step parse rec op))) rid = Some w"
proof (cases "\<exists>env. op = Poll env")
  case True
  then obtain env where op: "op = Poll env" ..
  show ?thesis
    using poll_windows [where parse = parse and rec = rec and env = env]
    by (auto simp: op prompted_windows_def simp del: record_step.simps split: prod.splits list.splits)
next
  case False
  then have "snd (record_step parse rec op) = []" by (cases op) auto
  then show ?thesis
    using step_windows [OF assms] False by (auto simp: prompted_windows_def)
qed

lemma windows_of_run:
  assumes "lifecycle_ok (fst rec)"
  shows "sorted_wrt (<) (prompted_windows rid (outputs (record_step parse) rec ops)) \<and>
    (\<forall>w \<in> set (prompted_windows rid (outputs (record_step parse) rec ops)).
       rid \<in> open_ids (fst rec) \<and> fresh_window (snd rec) rid w \<or> db_recording_sequence (fst rec) < rid)"
  using assms
proof (induction ops arbitrary: rec)
  case (Cons op ops)
  define rec' where "rec' = fst (record_step parse rec op)"
  define ws where "ws = prompted_windows rid (outputs (record_step parse) rec' ops)"
  have ok: "lifecycle_ok (fst rec')" unfolding rec'_def using Cons.prems by (rule lifecycle.step_inv)
  have IH: "sorted_wrt (<) ws" "\<forall>w \<in> set ws.
      rid \<in> open_ids (fst rec') \<and> fresh_window (snd rec') rid w \<or> db_recording_sequence (fst rec') < rid"
    using Cons.IH [OF ok] by (simp_all add: ws_def)
  have opens: "opens_new (fst rec) (fst rec')" unfolding rec'_def by (rule opens_new_step)
  note step = windows_of_step [OF Cons.prems, where rid = rid and parse = parse and op = op, folded rec'_def]
  show ?case
  proof (cases "prompted_windows rid (snd (record_step parse rec op))")
    case Nil
    then show ?thesis
      using IH step opens by (fastforce simp: rec'_def [symmetric] ws_def [symmetric] opens_new_def fresh_window_def)
  next
    case (Cons w vs)
    with step have one: "vs = []" "rid \<in> open_ids (fst rec)" "fresh_window (snd rec) rid w"
      "rs_cap_prompted_windows (snd rec') rid = Some w" by auto
    then have "rid \<le> db_recording_sequence (fst rec')"
      using open_ids_le [OF \<open>lifecycle_ok (fst rec)\<close>] opens by (force simp: opens_new_def)
    then have "\<forall>w' \<in> set ws. w < w'" using IH(2) one(4) by (force simp: fresh_window_def)
    then show ?thesis
      using IH(1) one Cons by (auto simp: rec'_def [symmetric] ws_def [symmetric] fresh_window_def split: option.splits)
  qed
qed (simp add: prompted_windows_def List.map_filter_def)

text \<open>
  \<open>poll_cap_prompt\<close>: a safety-cap window of a recording is prompted once.  In any run
  from an empty store, with whatever channels and prompt flags, and through restarts of the
  writer, the windows prompted for a recording strictly increase.
\<close>

theorem cap_windows_strictly_increase:
  "sorted_wrt (<) (prompted_windows rid (outputs (record_step parse) (fresh_recorder sessions) ops))"
proof -
  have "lifecycle_ok (fst (fresh_recorder sessions))"
    by (simp add: fresh_recorder_def lifecycle_ok_def db_empty_def)
  from windows_of_run [OF this] show ?thesis by blast
qed

end
