(* ===== verification/Read_Intervals.thy ===== *)
theory Read_Intervals
  imports Rust_Strings "HOL-Library.Product_Lexorder"
begin

text \<open>
  The read side's interval algebra (crates/gilbreth-read/src/lib.rs): merging and subtracting
  spans, the idle and sleep spans rebuilt from the stored boundary rows, and the active part
  of each foreground dwell.  A table is the list of its rows; a query is a filter and a sort
  of that list.  Timestamps are \<open>i64\<close> milliseconds and their plain differences are exact.
\<close>

section \<open>Spans\<close>

type_synonym span = "int \<times> int"

text \<open>\<open>merged.last_mut()\<close>: the sweep keeps the last merged span apart from the ones before.\<close>

fun merge_sweep :: "span list \<Rightarrow> span list \<Rightarrow> span list" where
  "merge_sweep merged [] = rev merged"
| "merge_sweep [] ((start, stop) # spans) = merge_sweep [(start, stop)] spans"
| "merge_sweep ((s, e) # merged) ((start, stop) # spans) =
     (if start \<le> e then merge_sweep ((s, max e stop) # merged) spans
      else merge_sweep ((start, stop) # (s, e) # merged) spans)"

definition merge_intervals :: "span list \<Rightarrow> span list" where
  "merge_intervals intervals = merge_sweep [] (sort intervals)"

definition coalesce_spans :: "span list \<Rightarrow> span list" where
  "coalesce_spans spans = merge_sweep [] (sort spans)"

definition subtract_one :: "span \<Rightarrow> span \<Rightarrow> span list" where
  "subtract_one subtraction interval =
     (case (subtraction, interval) of ((subtract_start, subtract_end), (start, stop)) \<Rightarrow>
        if subtract_end \<le> start \<or> subtract_start \<ge> stop then [(start, stop)]
        else (if subtract_start > start then [(start, min subtract_start stop)] else []) @
             (if subtract_end < stop then [(max subtract_end start, stop)] else []))"

text \<open>The early \<open>break\<close> on an empty list of segments is the second equation.\<close>

fun subtract_intervals :: "span list \<Rightarrow> span list \<Rightarrow> span list" where
  "subtract_intervals segments [] = segments"
| "subtract_intervals segments (subtraction # subtractions) =
     (let segments = concat (map (subtract_one subtraction) segments)
      in if segments = [] then [] else subtract_intervals segments subtractions)"

fun subtract_sweep :: "int \<Rightarrow> int \<Rightarrow> span list \<Rightarrow> span list" where
  "subtract_sweep cursor stop [] = (if cursor < stop then [(cursor, stop)] else [])"
| "subtract_sweep cursor stop ((blocker_start, blocker_end) # blockers) =
     (if blocker_end \<le> cursor then subtract_sweep cursor stop blockers
      else if blocker_start \<ge> stop then (if cursor < stop then [(cursor, stop)] else [])
      else (if blocker_start > cursor then [(cursor, min blocker_start stop)] else []) @
           (let cursor = max cursor blocker_end
            in if cursor \<ge> stop then [] else subtract_sweep cursor stop blockers))"

definition subtract_spans :: "int \<Rightarrow> int \<Rightarrow> span list \<Rightarrow> span list" where
  "subtract_spans start stop blockers = subtract_sweep start stop blockers"

definition overlap_ms :: "int \<Rightarrow> int \<Rightarrow> int \<Rightarrow> int \<Rightarrow> int" where
  "overlap_ms a_lo a_hi b_lo b_hi = max 0 (min a_hi b_hi - max a_lo b_lo)"

section \<open>What spans cover\<close>

definition cover :: "span list \<Rightarrow> int set" where
  "cover spans = (\<Union>(start, stop) \<in> set spans. {start..<stop})"

lemma cover_simps [simp]:
  "cover [] = {}" "cover ((s, e) # spans) = {s..<e} \<union> cover spans"
  "cover (xs @ ys) = cover xs \<union> cover ys"
  by (auto simp: cover_def)

lemma cover_set: "set xs = set ys \<Longrightarrow> cover xs = cover ys"
  by (simp add: cover_def)

definition positive :: "span list \<Rightarrow> bool" where
  "positive spans \<longleftrightarrow> list_all (\<lambda>(start, stop). start < stop) spans"

text \<open>In order, non-empty and apart: a gap stays between a span and the next.\<close>

fun separated :: "span list \<Rightarrow> bool" where
  "separated [] \<longleftrightarrow> True"
| "separated [(s, e)] \<longleftrightarrow> s < e"
| "separated ((s, e) # (s', e') # spans) \<longleftrightarrow> s < e \<and> e < s' \<and> separated ((s', e') # spans)"

lemma separated_positive: "separated spans \<Longrightarrow> positive spans"
  by (induction spans rule: separated.induct) (auto simp: positive_def)

lemma separated_Cons_iff:
  "separated ((s, e) # spans) \<longleftrightarrow>
     s < e \<and> separated spans \<and> list_all (\<lambda>x. e < fst x) spans"
proof (induction spans arbitrary: s e)
  case (Cons x spans)
  obtain s' e' where x: "x = (s', e')" by fastforce
  have "separated ((s, e) # x # spans) \<longleftrightarrow> s < e \<and> e < s' \<and> separated ((s', e') # spans)"
    by (simp add: x)
  then show ?case
    using Cons.IH [of s' e'] by (fastforce simp: x list_all_iff)
qed simp

lemma separated_append_last:
  "separated (spans @ [(s, e)]) \<longleftrightarrow>
     s < e \<and> separated spans \<and> list_all (\<lambda>x. snd x < s) spans"
  by (induction spans) (auto simp: separated_Cons_iff list_all_iff)

section \<open>Merging\<close>

definition from_start :: "int \<Rightarrow> span list \<Rightarrow> bool" where
  "from_start s spans \<longleftrightarrow> list_all (\<lambda>x. s \<le> fst x) spans"

lemma lexord_fst: "(s :: int, e :: int) \<le> x \<Longrightarrow> s \<le> fst x"
  by (cases x) (auto simp: less_eq_prod_def)

lemma sorted_from_start: "sorted ((s, e) # spans) \<Longrightarrow> from_start s spans"
  by (auto simp: from_start_def list_all_iff dest: lexord_fst)

lemma sweep_normal:
  assumes "separated (rev merged)" "positive spans" "sorted spans"
    and "case merged of [] \<Rightarrow> True | x # _ \<Rightarrow> from_start (fst x) spans"
  shows "separated (merge_sweep merged spans) \<and>
    cover (merge_sweep merged spans) = cover merged \<union> cover spans"
  using assms
proof (induction merged spans rule: merge_sweep.induct)
  case (1 merged)
  then show ?case using cover_set [of "rev merged" merged] by simp
next
  case (2 start stop spans)
  then show ?case by (auto simp: positive_def sorted_from_start)
next
  case (3 s e merged start stop spans)
  then have sep: "separated (rev merged)" "s < e" "list_all (\<lambda>x. snd x < s) (rev merged)"
    and here: "start < stop" "s \<le> start" "from_start start spans" "positive spans" "sorted spans"
    using sorted_from_start [of start stop spans]
    by (auto simp: separated_append_last positive_def from_start_def list_all_iff)
  show ?case
  proof (cases "start \<le> e")
    case True
    have "separated (rev ((s, max e stop) # merged))"
      using sep by (auto simp: separated_append_last)
    moreover have "from_start s spans"
      using here by (auto simp: from_start_def list_all_iff)
    moreover have "{s..<max e stop} = {s..<e} \<union> {start..<stop}"
      using True here(1,2) by auto
    ultimately show ?thesis
      using "3.IH"(1) [OF True] here True by auto
  next
    case False
    have "separated (rev ((start, stop) # (s, e) # merged))"
      using "3.prems"(1) sep False here
      by (fastforce simp: separated_append_last [of "rev merged @ [(s, e)]", simplified]
          list_all_iff)
    then show ?thesis
      using "3.IH"(2) [OF False] here False by auto
  qed
qed

lemma merge_intervals_normal:
  assumes "positive spans"
  shows "separated (merge_intervals spans)" "cover (merge_intervals spans) = cover spans"
proof -
  have "positive (sort spans)" using assms by (simp add: positive_def list_all_iff)
  from sweep_normal [of "[]", OF _ this]
  show "separated (merge_intervals spans)" "cover (merge_intervals spans) = cover spans"
    using cover_set [of "sort spans" spans] by (simp_all add: merge_intervals_def)
qed

lemma coalesce_is_merge: "coalesce_spans = merge_intervals"
  by (simp add: fun_eq_iff coalesce_spans_def merge_intervals_def)

text \<open>A normal form: separated lists with the same cover are equal.\<close>

lemma separated_cover_least:
  assumes "separated ((s, e) # spans)"
  shows "s \<in> cover ((s, e) # spans)" and "x \<in> cover ((s, e) # spans) \<Longrightarrow> s \<le> x"
    and "e \<notin> cover ((s, e) # spans)" and "s \<le> x \<Longrightarrow> x < e \<Longrightarrow> x \<in> cover ((s, e) # spans)"
proof -
  have later: "\<forall>y \<in> cover spans. e < y"
    using assms by (fastforce simp: separated_Cons_iff cover_def list_all_iff)
  then show "s \<in> cover ((s, e) # spans)" "e \<notin> cover ((s, e) # spans)"
    "x \<in> cover ((s, e) # spans) \<Longrightarrow> s \<le> x" "s \<le> x \<Longrightarrow> x < e \<Longrightarrow> x \<in> cover ((s, e) # spans)"
    using assms by (auto simp: separated_Cons_iff)
qed

lemma separated_cover_rest:
  assumes "separated ((s, e) # spans)"
  shows "cover spans = cover ((s, e) # spans) - {s..<e}"
proof -
  have "\<forall>y \<in> cover spans. e < y"
    using assms by (fastforce simp: separated_Cons_iff cover_def list_all_iff)
  then show ?thesis by auto
qed

lemma separated_unique:
  assumes "separated xs" "separated ys" "cover xs = cover ys"
  shows "xs = ys"
  using assms
proof (induction xs arbitrary: ys)
  case Nil
  then show ?case
    by (cases ys) (use separated_cover_least(1) in fastforce)+
next
  case (Cons x xs)
  obtain s e where x: "x = (s, e)" by fastforce
  obtain s' e' ys' where ys: "ys = (s', e') # ys'"
    using Cons.prems x separated_cover_least(1) [of s e xs] by (cases ys) auto
  have sep: "separated ((s, e) # xs)" "separated ((s', e') # ys')"
    and same: "cover ((s, e) # xs) = cover ((s', e') # ys')"
    using Cons.prems x ys by auto
  have "s = s'"
    using separated_cover_least(1,2) [OF sep(1)] separated_cover_least(1,2) [OF sep(2)] same
    by (metis order_antisym)
  moreover have "e = e'"
  proof (rule linorder_cases [of e e'])
    assume "e < e'"
    then show ?thesis
      using separated_cover_least(3) [OF sep(1)] separated_cover_least(4) [OF sep(2), of e] same
        \<open>s = s'\<close> sep(1) by (auto simp: separated_Cons_iff)
  next
    assume "e' < e"
    then show ?thesis
      using separated_cover_least(3) [OF sep(2)] separated_cover_least(4) [OF sep(1), of e'] same
        \<open>s = s'\<close> sep(2) by (auto simp: separated_Cons_iff)
  qed
  moreover have "cover xs = cover ys'"
    using separated_cover_rest [OF sep(1)] separated_cover_rest [OF sep(2)] same
      \<open>s = s'\<close> \<open>e = e'\<close> by simp
  ultimately show ?case
    using Cons.IH [of ys'] sep x ys by (auto simp: separated_Cons_iff)
qed

section \<open>Subtracting\<close>

lemma subtract_one_cover: "cover (subtract_one sub i) = cover [i] - cover [sub]"
  by (cases sub; cases i) (auto simp: subtract_one_def)

lemma subtract_step_cover: "cover (concat (map (subtract_one sub) segments)) = cover segments - cover [sub]"
proof (induction segments)
  case (Cons i segments)
  have "cover (i # segments) = cover [i] \<union> cover segments" by (cases i) simp
  then show ?case using Cons by (auto simp: subtract_one_cover)
qed simp

lemma subtract_intervals_cover: "cover (subtract_intervals segments subs) = cover segments - cover subs"
proof (induction segments subs rule: subtract_intervals.induct)
  case (2 segments sub subs)
  have sub: "cover (sub # subs) = cover [sub] \<union> cover subs" by (cases sub) simp
  note step = subtract_step_cover [of sub segments]
  show ?case
  proof (cases "concat (map (subtract_one sub) segments) = []")
    case True
    then have "cover segments - cover [sub] = {}" using step by (metis cover_simps(1))
    then show ?thesis using True sub by (auto simp: Let_def)
  next
    case False
    then show ?thesis using 2 step sub by (auto simp: Let_def)
  qed
qed simp

lemma separated_append:
  "separated (xs @ ys) \<longleftrightarrow> separated xs \<and> separated ys \<and>
     list_all (\<lambda>x. list_all (\<lambda>y. snd x < fst y) ys) xs"
proof (induction xs)
  case (Cons x xs)
  obtain s e where "x = (s, e)" by fastforce
  with Cons show ?case by (fastforce simp: separated_Cons_iff list_all_iff)
qed simp

lemma subtract_one_separated:
  "fst sub < snd sub \<Longrightarrow> fst i < snd i \<Longrightarrow> separated (subtract_one sub i) \<and>
   list_all (\<lambda>x. fst i \<le> fst x \<and> snd x \<le> snd i) (subtract_one sub i)"
  by (cases sub; cases i) (auto simp: subtract_one_def)

lemma subtract_step_separated:
  assumes "separated segments" "fst sub < snd sub"
  shows "separated (concat (map (subtract_one sub) segments)) \<and>
    list_all (\<lambda>x. \<exists>i \<in> set segments. fst i \<le> fst x \<and> snd x \<le> snd i)
      (concat (map (subtract_one sub) segments))"
  using assms(1)
proof (induction segments)
  case (Cons i segments)
  obtain s e where i: "i = (s, e)" by fastforce
  then have rest: "s < e" "separated segments" "list_all (\<lambda>x. e < fst x) segments"
    using Cons.prems by (auto simp: separated_Cons_iff)
  then show ?case
    using Cons.IH subtract_one_separated [OF assms(2), of i] i
    by (fastforce simp: separated_append list_all_iff)
qed simp

lemma subtract_intervals_separated:
  "separated segments \<Longrightarrow> positive subs \<Longrightarrow> separated (subtract_intervals segments subs)"
proof (induction segments subs rule: subtract_intervals.induct)
  case (2 segments sub subs)
  then show ?case
    using subtract_step_separated [of segments sub] by (auto simp: Let_def positive_def split_def)
qed simp

lemma subtract_sweep_normal:
  assumes "separated blockers" "cursor < stop"
  shows "separated (subtract_sweep cursor stop blockers) \<and>
    cover (subtract_sweep cursor stop blockers) = {cursor..<stop} - cover blockers \<and>
    list_all (\<lambda>x. cursor \<le> fst x) (subtract_sweep cursor stop blockers)"
  using assms
proof (induction cursor stop blockers rule: subtract_sweep.induct)
  case (1 cursor stop)
  then show ?case by simp
next
  case (2 cursor stop bs be blockers)
  have b: "bs < be" "separated blockers" "\<forall>y \<in> cover blockers. be < y"
    using "2.prems"(1) by (fastforce simp: separated_Cons_iff cover_def list_all_iff)+
  consider "be \<le> cursor" | "cursor < be" "bs \<ge> stop" | "cursor < be" "bs < stop" "be \<ge> stop"
    | "cursor < be" "bs < stop" "be < stop"
    by linarith
  then show ?case
  proof cases
    case 1
    then show ?thesis using "2.IH"(1) b "2.prems"(2) by auto
  next
    case 2
    then have "{cursor..<stop} - ({bs..<be} \<union> cover blockers) = {cursor..<stop}"
      using b(1,3) by fastforce
    then show ?thesis using 2 "2.prems"(2) by simp
  next
    case 3
    then have "{cursor..<stop} - ({bs..<be} \<union> cover blockers) = {cursor..<min bs stop}"
      using b(1,3) by fastforce
    then show ?thesis using 3 "2.prems"(2) by auto
  next
    case 4
    then have ih: "separated (subtract_sweep be stop blockers)"
      "cover (subtract_sweep be stop blockers) = {be..<stop} - cover blockers"
      "list_all (\<lambda>x. be \<le> fst x) (subtract_sweep be stop blockers)"
      using "2.IH"(2) b(2) by (auto simp: max_def)
    have set: "{cursor..<stop} - ({bs..<be} \<union> cover blockers)
        = {cursor..<min bs stop} \<union> ({be..<stop} - cover blockers)"
      using 4 b(1,3) by fastforce
    show ?thesis
      using 4 ih set b(1)
      by (auto simp: separated_Cons_iff max_def list_all_iff Let_def)
  qed
qed

subsection \<open>Total length\<close>

definition span_total :: "span list \<Rightarrow> int" where
  "span_total spans = (\<Sum>(start, stop) \<leftarrow> spans. stop - start)"

lemma finite_cover [simp]: "finite (cover spans)"
  by (auto simp: cover_def)

lemma separated_total: "separated spans \<Longrightarrow> int (card (cover spans)) = span_total spans"
proof (induction spans)
  case (Cons x spans)
  obtain s e where x: "x = (s, e)" by fastforce
  have "{s..<e} \<inter> cover spans = {}"
    using Cons.prems by (fastforce simp: x separated_Cons_iff cover_def list_all_iff)
  then have "card (cover (x # spans)) = card {s..<e} + card (cover spans)"
    by (simp add: x card_Un_disjoint)
  then show ?case
    using Cons by (auto simp: x separated_Cons_iff span_total_def)
qed (simp add: span_total_def)

text \<open>
  \<open>merge_intervals\<close>, \<open>subtract_intervals\<close>, \<open>subtract_spans\<close>: the algebra is exact on
  the milliseconds.  On non-empty spans, merging and subtracting keep exactly the instants
  they should, give their result in order with a gap between any two spans, and so count
  each millisecond once; and the sweep over merged blockers is the fold over them.
\<close>

theorem interval_algebra_exact:
  assumes "positive intervals" and "positive subtractions" and "start < stop"
  shows "let merged = merge_intervals subtractions;
             rest = subtract_intervals (merge_intervals intervals) merged
         in separated merged \<and> cover merged = cover subtractions \<and>
            separated rest \<and> cover rest = cover intervals - cover subtractions \<and>
            span_total rest = int (card (cover intervals - cover subtractions)) \<and>
            subtract_spans start stop merged = subtract_intervals [(start, stop)] merged"
proof -
  let ?merged = "merge_intervals subtractions"
  let ?rest = "subtract_intervals (merge_intervals intervals) ?merged"
  note merged = merge_intervals_normal [OF assms(2)] and ints = merge_intervals_normal [OF assms(1)]
  have rest: "separated ?rest" "cover ?rest = cover intervals - cover subtractions"
    using subtract_intervals_separated [OF ints(1) separated_positive [OF merged(1)]]
    by (simp_all add: subtract_intervals_cover merged ints)
  have "separated [(start, stop)]" using assms(3) by simp
  then have "subtract_spans start stop ?merged = subtract_intervals [(start, stop)] ?merged"
    using subtract_sweep_normal [OF merged(1) assms(3)]
    by (intro separated_unique)
       (simp_all add: subtract_spans_def subtract_intervals_cover subtract_intervals_separated
         separated_positive merged(1))
  then show ?thesis
    using merged rest separated_total [OF rest(1)] by (simp add: Let_def)
qed

theorem interval_algebra_exact_witness:
  "subtract_intervals (merge_intervals [(10, 40), (0, 12)]) (merge_intervals [(20, 25), (5, 8), (8, 9)])
     = [(0, 5), (9, 20), (25, 40)] \<and>
   span_total (subtract_intervals (merge_intervals [(10, 40), (0, 12)])
     (merge_intervals [(20, 25), (5, 8), (8, 9)]))
     = int (card (cover [(10, 40), (0, 12)] - cover [(20, 25), (5, 8), (8, 9)]))"
proof -
  have "positive [(10, 40), (0, 12)]" "positive [(20, 25), (5, 8), (8, 9)]" "(0::int) < 1"
    by (simp_all add: positive_def)
  from interval_algebra_exact [OF this]
  show ?thesis by (simp add: Let_def merge_intervals_def subtract_one_def)
qed

end
