(* ===== verification/Read_Activity.thy ===== *)
theory Read_Activity
  imports Read_Intervals Prelude
begin

text \<open>
  Idle, sleep and active time (crates/gilbreth-read/src/lib.rs): the spans in which capture
  was off or the desk empty, rebuilt from the boundary rows of each session, and the part of
  every foreground dwell outside them.
\<close>

section \<open>Per-session spans\<close>

record session_interval =
  si_session_id :: int
  si_start_ts :: int
  si_end_ts :: int

definition si_span :: "session_interval \<Rightarrow> span" where
  "si_span row = (si_start_ts row, si_end_ts row)"

definition session_row :: "int \<Rightarrow> span \<Rightarrow> session_interval" where
  "session_row session_id span =
     \<lparr>si_session_id = session_id, si_start_ts = fst span, si_end_ts = snd span\<rparr>"

definition normalized_session_ids :: "int list \<Rightarrow> int list" where
  "normalized_session_ids session_ids = sort (remdups session_ids)"

text \<open>The \<open>BTreeMap\<close> of merged spans, as a map: a session without any row is absent.\<close>

definition intervals_by_session :: "session_interval list \<Rightarrow> int \<Rightarrow> span list option" where
  "intervals_by_session rows session_id =
     (if list_ex (\<lambda>row. si_session_id row = session_id) rows
      then Some (merge_intervals (map si_span
             (filter (\<lambda>row. si_session_id row = session_id \<and> si_end_ts row > si_start_ts row) rows)))
      else None)"

definition spans_or_empty :: "span list option \<Rightarrow> span list" where
  "spans_or_empty spans = (case spans of Some spans \<Rightarrow> spans | None \<Rightarrow> [])"

definition subtract_interval_frame ::
    "session_interval list \<Rightarrow> session_interval list \<Rightarrow> session_interval list" where
  "subtract_interval_frame intervals subtractions =
     (if intervals = [] \<or> subtractions = [] then intervals
      else concat (map (\<lambda>row.
             if si_end_ts row \<le> si_start_ts row then []
             else map (session_row (si_session_id row))
                    (subtract_intervals [si_span row]
                      (spans_or_empty (intervals_by_session subtractions (si_session_id row)))))
           intervals))"

section \<open>Boundary rows\<close>

text \<open>
  The columns of an event row the two readers select; \<open>ev_gap_ms\<close> is what the JSON parser
  finds under \<open>gap_ms\<close> in the payload.
\<close>

record read_event =
  ev_id :: int
  ev_session_id :: int
  ev_kind :: string
  ev_ts :: int
  ev_duration_ms :: "int option"
  ev_gap_ms :: "int option"

definition boundary_key :: "read_event \<Rightarrow> int \<times> int \<times> int" where
  "boundary_key event = (ev_session_id event, ev_ts event, ev_id event)"

text \<open>\<open>WHERE session_id IN ids AND kind IN kinds ORDER BY session_id, ts, id\<close>.\<close>

definition select_boundaries :: "int list \<Rightarrow> string list \<Rightarrow> read_event list \<Rightarrow> read_event list" where
  "select_boundaries ids kinds events =
     sort_key boundary_key
       (filter (\<lambda>event. ev_session_id event \<in> set ids \<and> ev_kind event \<in> set kinds) events)"

text \<open>The outer loop cuts the sorted rows into the sessions.\<close>

function session_groups :: "read_event list \<Rightarrow> read_event list list" where
  "session_groups [] = []"
| "session_groups (event # events) =
     (event # takeWhile (\<lambda>e. ev_session_id e = ev_session_id event) events) #
     session_groups (dropWhile (\<lambda>e. ev_session_id e = ev_session_id event) events)"
  by pat_completeness auto
termination
  by (relation "measure length") (auto simp: length_dropWhile_le less_Suc_eq_le)

definition kind_ts :: "string \<Rightarrow> read_event list \<Rightarrow> int list" where
  "kind_ts kind rows = map ev_ts (filter (\<lambda>event. ev_kind event = kind) rows)"

text \<open>
  One pairing loop: every opening instant with the first closing instant after it, the index
  into the closings never going back.  The closings still ahead are the list argument.
\<close>

fun pair_spans :: "int option \<Rightarrow> int list \<Rightarrow> int list \<Rightarrow> span list" where
  "pair_spans ended [] closings = []"
| "pair_spans ended (opening # openings) closings =
     (let closings = dropWhile (\<lambda>ts. ts \<le> opening) closings;
          end_ts = (case closings of ts # _ \<Rightarrow> Some ts | [] \<Rightarrow> ended);
          rest = pair_spans ended openings closings
      in case end_ts of
           None \<Rightarrow> rest
         | Some end_ts \<Rightarrow> if end_ts \<le> opening then rest else (opening, end_ts) # rest)"

text \<open>The recovered boundaries, clamped to the suspend before them.\<close>

definition prior_suspend :: "int \<Rightarrow> int list \<Rightarrow> int \<Rightarrow> int" where
  "prior_suspend prior suspends recovered_ts =
     (let passed = takeWhile (\<lambda>ts. ts \<le> recovered_ts) suspends
      in if passed = [] then prior else last passed)"

definition gap_start :: "read_event \<Rightarrow> int" where
  "gap_start event =
     (let gap_ms = (case ev_gap_ms event of Some gap_ms \<Rightarrow> gap_ms | None \<Rightarrow> 0)
      in if gap_ms > ev_ts event then 0 else sat_sub_i64 (ev_ts event) gap_ms)"

fun recovered_spans :: "int \<Rightarrow> int list \<Rightarrow> read_event list \<Rightarrow> span list" where
  "recovered_spans prior suspends [] = []"
| "recovered_spans prior suspends (event # events) =
     (let prior = prior_suspend prior suspends (ev_ts event)
      in (max (gap_start event) prior, ev_ts event) #
         recovered_spans prior (dropWhile (\<lambda>ts. ts \<le> ev_ts event) suspends) events)"

definition session_sleep :: "(int \<Rightarrow> int option) \<Rightarrow> read_event list \<Rightarrow> session_interval list" where
  "session_sleep ended rows =
     (case rows of
        [] \<Rightarrow> []
      | event # _ \<Rightarrow>
          let session_id = ev_session_id event;
              suspend_ts = kind_ts ''power_suspend'' rows
          in map (session_row session_id)
               (pair_spans (ended session_id) suspend_ts (kind_ts ''power_resume'' rows) @
                pair_spans (ended session_id) (kind_ts ''capture_paused'' rows)
                  (kind_ts ''capture_resumed'' rows) @
                recovered_spans 0 suspend_ts
                  (filter (\<lambda>event. ev_kind event = ''power_boundary_recovered'') rows)))"

definition sleep_kinds :: "string list" where
  "sleep_kinds = [''power_suspend'', ''power_resume'', ''power_boundary_recovered'',
     ''capture_paused'', ''capture_resumed'']"

text \<open>\<open>ended\<close> is the end of a session, \<open>None\<close> for a live or unknown one.\<close>

definition sleep_intervals ::
    "(int \<Rightarrow> int option) \<Rightarrow> read_event list \<Rightarrow> int list \<Rightarrow> session_interval list" where
  "sleep_intervals ended events session_ids =
     concat (map (session_sleep ended)
       (session_groups (select_boundaries (normalized_session_ids session_ids) sleep_kinds events)))"

record scope =
  sc_cutoff_ms :: "int option"
  sc_session_id :: "int option"

text \<open>An idle row reaches back over the idle time that had elapsed when it was written.\<close>

fun idle_spans :: "int option \<Rightarrow> int option \<Rightarrow> read_event list \<Rightarrow> int list \<Rightarrow> span list" where
  "idle_spans cutoff ended [] actives = []"
| "idle_spans cutoff ended (event # events) actives =
     (let idle_ts = ev_ts event;
          actives = dropWhile (\<lambda>ts. ts \<le> idle_ts) actives;
          rest = idle_spans cutoff ended events actives
      in case (case actives of ts # _ \<Rightarrow> Some ts | [] \<Rightarrow> ended) of
           None \<Rightarrow> rest
         | Some end_ts \<Rightarrow>
             if end_ts \<le> idle_ts then rest
             else
               let duration_ms = (case ev_duration_ms event of Some d \<Rightarrow> d | None \<Rightarrow> 0);
                   start_ts = max (idle_ts - duration_ms) 0;
                   start_ts = (case cutoff of Some cutoff \<Rightarrow> max start_ts cutoff | None \<Rightarrow> start_ts)
               in if end_ts \<le> start_ts then rest else (start_ts, end_ts) # rest)"

definition session_idle ::
    "scope option \<Rightarrow> (int \<Rightarrow> int option) \<Rightarrow> read_event list \<Rightarrow> session_interval list" where
  "session_idle scope ended rows =
     (case rows of
        [] \<Rightarrow> []
      | event # _ \<Rightarrow>
          let session_id = ev_session_id event;
              in_scope = (case Option.bind scope sc_session_id of
                            Some scoped \<Rightarrow> session_id = scoped | None \<Rightarrow> True)
          in if \<not> in_scope then []
             else map (session_row session_id)
                    (idle_spans (Option.bind scope sc_cutoff_ms) (ended session_id)
                      (filter (\<lambda>event. ev_kind event = ''idle'') rows) (kind_ts ''active'' rows)))"

definition idle_intervals ::
    "(int \<Rightarrow> int option) \<Rightarrow> read_event list \<Rightarrow> int list \<Rightarrow> scope option \<Rightarrow> session_interval list" where
  "idle_intervals ended events session_ids scope =
     (let intervals = concat (map (session_idle scope ended)
            (session_groups (select_boundaries (normalized_session_ids session_ids)
              [''idle'', ''active''] events)))
      in subtract_interval_frame intervals (sleep_intervals ended events session_ids))"

text \<open>Coalesced idle and sleep per session, each clipped to \<open>[lo, hi]\<close>.\<close>

definition away_spans_by_session ::
    "session_interval list \<Rightarrow> session_interval list \<Rightarrow> int \<Rightarrow> int \<Rightarrow> int \<Rightarrow> span list option" where
  "away_spans_by_session idle sleep lo hi session_id =
     (let spans = filter (\<lambda>(span_start, span_end). span_end > span_start)
            (map (\<lambda>row. (max (si_start_ts row) lo, min (si_end_ts row) hi))
              (filter (\<lambda>row. si_session_id row = session_id) (idle @ sleep)))
      in if spans = [] then None else Some (coalesce_spans spans))"

section \<open>Active time\<close>

record focus_interval =
  fi_exe :: string
  fi_title :: string
  fi_session_id :: int
  fi_seq :: int
  fi_local_date :: string
  fi_start_ts :: int
  fi_end_ts :: int
  fi_duration_ms :: int

record active_focus_interval = focus_interval +
  fi_active_foreground_ms :: int

definition clip_to_cutoff :: "int option \<Rightarrow> focus_interval list \<Rightarrow> focus_interval list" where
  "clip_to_cutoff cutoff rows =
     (case cutoff of
        None \<Rightarrow> rows
      | Some cutoff \<Rightarrow>
          filter (\<lambda>row. fi_duration_ms row > 0)
            (map (\<lambda>row. let start_ts = (if fi_start_ts row < cutoff then cutoff else fi_start_ts row)
                        in row\<lparr>fi_start_ts := start_ts, fi_duration_ms := fi_end_ts row - start_ts\<rparr>)
              rows))"

definition whole_dwell :: "focus_interval \<Rightarrow> active_focus_interval" where
  "whole_dwell row = focus_interval.extend row
     \<lparr>fi_active_foreground_ms = max (fi_end_ts row - fi_start_ts row) 0\<rparr>"

text \<open>The inner scan, from the cursor to the first span that starts after the dwell.\<close>

fun scan_overlap :: "int \<Rightarrow> int \<Rightarrow> span list \<Rightarrow> int" where
  "scan_overlap focus_start focus_end [] = 0"
| "scan_overlap focus_start focus_end ((idle_start, idle_end) # spans) =
     (if idle_start < focus_end
      then max (min focus_end idle_end - max focus_start idle_start) 0
           + scan_overlap focus_start focus_end spans
      else 0)"

text \<open>The sweep in (session, start) order; \<open>cursor\<close> is the position per session.\<close>

definition next_position ::
    "(int \<Rightarrow> span list option) \<Rightarrow> (int \<Rightarrow> nat option) \<Rightarrow> active_focus_interval \<Rightarrow> nat" where
  "next_position merged cursor row =
     (let position = (case cursor (fi_session_id row) of Some position \<Rightarrow> position | None \<Rightarrow> 0)
      in position + length (takeWhile (\<lambda>span. snd span \<le> fi_start_ts row)
                      (drop position (spans_or_empty (merged (fi_session_id row))))))"

definition swept_row ::
    "(int \<Rightarrow> span list option) \<Rightarrow> nat \<Rightarrow> active_focus_interval \<Rightarrow> active_focus_interval" where
  "swept_row merged position row =
     (let focus_ms = max (fi_end_ts row - fi_start_ts row) 0;
          idle_overlap = scan_overlap (fi_start_ts row) (fi_end_ts row)
            (drop position (spans_or_empty (merged (fi_session_id row))))
      in row\<lparr>fi_active_foreground_ms := max (focus_ms - idle_overlap) 0\<rparr>)"

fun active_sweep ::
    "(int \<Rightarrow> span list option) \<Rightarrow> (int \<Rightarrow> nat option) \<Rightarrow> active_focus_interval list \<Rightarrow> nat list
     \<Rightarrow> active_focus_interval list" where
  "active_sweep merged cursor out [] = out"
| "active_sweep merged cursor out (index # order) =
     (let row = out ! index;
          position = next_position merged cursor row
      in active_sweep merged (cursor(fi_session_id row \<mapsto> position))
           (out[index := swept_row merged position row]) order)"

definition sweep_key :: "active_focus_interval list \<Rightarrow> nat \<Rightarrow> int \<times> int" where
  "sweep_key out index = (fi_session_id (out ! index), fi_start_ts (out ! index))"

definition add_active_foreground_ms ::
    "focus_interval list \<Rightarrow> session_interval list \<Rightarrow> active_focus_interval list" where
  "add_active_foreground_ms focus inactive =
     (let out = map whole_dwell focus
      in if inactive = [] then out
         else active_sweep (intervals_by_session inactive) Map.empty out
                (sort_key (sweep_key out) [0..<length out]))"

definition focus_intervals_with_active ::
    "(int \<Rightarrow> int option) \<Rightarrow> read_event list \<Rightarrow> focus_interval list \<Rightarrow> active_focus_interval list" where
  "focus_intervals_with_active ended events focus =
     (if focus = [] then []
      else let ids = map fi_session_id focus
           in add_active_foreground_ms focus
                (idle_intervals ended events ids None @ sleep_intervals ended events ids))"

section \<open>The live segment\<close>

definition OPEN_FOCUS_BEAT_MS :: int where "OPEN_FOCUS_BEAT_MS = 30000"

record live_focus =
  lo_session_id :: int
  lo_exe :: string
  lo_start_ts :: int
  lo_end_ts :: int

text \<open>The row is \<open>None\<close> when the table is missing or empty.\<close>

definition live_open_focus ::
    "(int \<times> string option \<times> int \<times> int) option \<Rightarrow> int \<Rightarrow> live_focus option" where
  "live_open_focus row now_ms =
     (case row of
        None \<Rightarrow> None
      | Some (session_id, exe, started_ts, high_water_ts) \<Rightarrow>
          if sat_sub_i64 now_ms high_water_ts > 2 * OPEN_FOCUS_BEAT_MS then None
          else
            let end_ts = min high_water_ts now_ms
            in if end_ts \<le> started_ts then None
               else Some \<lparr>lo_session_id = session_id,
                          lo_exe = (case exe of
                                      Some exe \<Rightarrow> if exe \<noteq> [] then exe else ''(unknown)''
                                    | None \<Rightarrow> ''(unknown)''),
                          lo_start_ts = started_ts, lo_end_ts = end_ts\<rparr>)"

definition open_trailing_idle_span :: "read_event list \<Rightarrow> int \<Rightarrow> int \<Rightarrow> span option" where
  "open_trailing_idle_span events session_id end_ts =
     (case rev (sort_key (\<lambda>event. (ev_ts event, ev_id event))
             (filter (\<lambda>event. ev_session_id event = session_id \<and>
                              ev_kind event \<in> {''idle'', ''active''}) events)) of
        [] \<Rightarrow> None
      | newest # _ \<Rightarrow>
          if ev_kind newest = ''idle'' then
            let elapsed_ms = (case ev_duration_ms newest of Some d \<Rightarrow> d | None \<Rightarrow> 0);
                start = max (ev_ts newest - elapsed_ms) 0
            in if start < end_ts then Some (start, end_ts) else None
          else None)"

definition open_focus_contribution ::
    "(int \<Rightarrow> string) \<Rightarrow> (int \<Rightarrow> int option) \<Rightarrow> read_event list \<Rightarrow> live_focus \<Rightarrow> int
     \<Rightarrow> (int \<times> int) option" where
  "open_focus_contribution local_date ended events seg cutoff_ms =
     (let start_ts = max (lo_start_ts seg) cutoff_ms
      in if lo_end_ts seg \<le> start_ts then None
         else
           let interval = \<lparr>fi_exe = lo_exe seg, fi_title = [], fi_session_id = lo_session_id seg,
                  fi_seq = i64_max, fi_local_date = local_date (lo_end_ts seg),
                  fi_start_ts = start_ts, fi_end_ts = lo_end_ts seg,
                  fi_duration_ms = lo_end_ts seg - start_ts\<rparr>;
               ids = [lo_session_id seg];
               trailing = (case open_trailing_idle_span events (lo_session_id seg) (lo_end_ts seg) of
                             Some span \<Rightarrow> [session_row (lo_session_id seg) span] | None \<Rightarrow> []);
               inactive = idle_intervals ended events ids None @ sleep_intervals ended events ids
                          @ trailing
           in Some (fi_duration_ms interval,
                case rev (add_active_foreground_ms [interval] inactive) of
                  row # _ \<Rightarrow> fi_active_foreground_ms row | [] \<Rightarrow> 0))"

section \<open>Active time is the uncovered dwell\<close>

definition session_spans :: "session_interval list \<Rightarrow> int \<Rightarrow> span list" where
  "session_spans rows session_id = map si_span (filter (\<lambda>row. si_session_id row = session_id) rows)"

lemma cover_positive_part:
  "cover (map si_span (filter (\<lambda>row. P row \<and> si_end_ts row > si_start_ts row) rows))
     = cover (map si_span (filter P rows))"
  by (induction rows) (auto simp: si_span_def)

lemma spans_of_session:
  "separated (spans_or_empty (intervals_by_session rows sid)) \<and>
   cover (spans_or_empty (intervals_by_session rows sid)) = cover (session_spans rows sid)"
proof (cases "list_ex (\<lambda>row. si_session_id row = sid) rows")
  case True
  let ?spans = "map si_span (filter (\<lambda>row. si_session_id row = sid \<and>
      si_end_ts row > si_start_ts row) rows)"
  have "positive ?spans" by (auto simp: positive_def list_all_iff si_span_def)
  from merge_intervals_normal [OF this] True show ?thesis
    by (simp add: intervals_by_session_def spans_or_empty_def session_spans_def cover_positive_part)
next
  case False
  then have "filter (\<lambda>row. si_session_id row = sid) rows = []"
    by (auto simp: list_ex_iff filter_empty_conv)
  then show ?thesis
    using False by (simp add: intervals_by_session_def spans_or_empty_def session_spans_def)
qed

definition full_overlap :: "int \<Rightarrow> int \<Rightarrow> span list \<Rightarrow> int" where
  "full_overlap focus_start focus_end spans =
     (\<Sum>(s, e) \<leftarrow> spans. overlap_ms focus_start focus_end s e)"

lemma scan_is_full:
  "separated spans \<Longrightarrow> scan_overlap fs fe spans = full_overlap fs fe spans"
proof (induction spans)
  case (Cons x spans)
  obtain s e where x: "x = (s, e)" by fastforce
  have zero: "full_overlap fs fe spans = 0" if "fe \<le> s" "list_all (\<lambda>y. s < fst y) spans" for s spans
    using that
    by (induction spans) (auto simp: full_overlap_def overlap_ms_def)
  show ?case
  proof (cases "s < fe")
    case True
    then show ?thesis
      using Cons by (auto simp: x separated_Cons_iff full_overlap_def overlap_ms_def)
  next
    case False
    have "list_all (\<lambda>y. s < fst y) spans"
      using Cons.prems by (auto simp: x separated_Cons_iff list_all_iff)
    then show ?thesis
      using False zero [of s spans] by (simp add: x full_overlap_def overlap_ms_def)
  qed
qed (simp add: full_overlap_def)

lemma full_overlap_before:
  "list_all (\<lambda>span. snd span \<le> fs) spans \<Longrightarrow> full_overlap fs fe spans = 0"
  by (induction spans) (auto simp: full_overlap_def overlap_ms_def)

lemma full_overlap_skip:
  assumes "list_all (\<lambda>span. snd span \<le> fs) (take n spans)"
  shows "full_overlap fs fe (drop n spans) = full_overlap fs fe spans"
proof -
  have "full_overlap fs fe (take n spans) = 0"
    by (rule full_overlap_before [OF assms])
  moreover have "full_overlap fs fe spans
      = full_overlap fs fe (take n spans) + full_overlap fs fe (drop n spans)"
    unfolding full_overlap_def by (metis append_take_drop_id map_append sum_list_append)
  ultimately show ?thesis by simp
qed

lemma separated_drop: "separated spans \<Longrightarrow> separated (drop n spans)"
  using separated_append [of "take n spans" "drop n spans"] by simp

lemma overlap_card: "overlap_ms a b c d = int (card ({a..<b} \<inter> {c..<d}))"
  by (auto simp: overlap_ms_def max_def min_def)

lemma full_overlap_card:
  "separated spans \<Longrightarrow> full_overlap fs fe spans = int (card ({fs..<fe} \<inter> cover spans))"
proof (induction spans)
  case (Cons x spans)
  obtain s e where x: "x = (s, e)" by fastforce
  have "{s..<e} \<inter> cover spans = {}"
    using Cons.prems by (fastforce simp: x separated_Cons_iff cover_def list_all_iff)
  then have "card ({fs..<fe} \<inter> cover (x # spans))
      = card ({fs..<fe} \<inter> {s..<e}) + card ({fs..<fe} \<inter> cover spans)"
    by (subst card_Un_disjoint [symmetric]) (auto simp: x Int_Un_distrib)
  then show ?case
    using Cons by (simp add: x separated_Cons_iff full_overlap_def overlap_card del: cover_simps)
qed (simp add: full_overlap_def)

definition uncovered :: "int \<Rightarrow> int \<Rightarrow> span list \<Rightarrow> int" where
  "uncovered focus_start focus_end spans = int (card ({focus_start..<focus_end} - cover spans))"

lemma active_is_uncovered:
  "separated spans \<Longrightarrow> max (max (fe - fs) 0 - full_overlap fs fe spans) 0 = uncovered fs fe spans"
proof -
  assume sep: "separated spans"
  have "card ({fs..<fe} - cover spans) = card {fs..<fe} - card ({fs..<fe} \<inter> cover spans)"
    by (rule card_Diff_subset_Int) simp
  moreover have "card ({fs..<fe} \<inter> cover spans) \<le> card {fs..<fe}"
    by (rule card_mono) auto
  ultimately show ?thesis
    using full_overlap_card [OF sep, of fs fe] by (simp add: uncovered_def)
qed

text \<open>What is behind the cursor ends before any dwell still to come.\<close>

definition cursor_ok ::
    "(int \<Rightarrow> span list option) \<Rightarrow> (int \<Rightarrow> nat option) \<Rightarrow> int \<times> int \<Rightarrow> bool" where
  "cursor_ok merged cursor key \<longleftrightarrow>
     (\<forall>sid n. cursor sid = Some n \<longrightarrow> sid \<le> fst key) \<and>
     (\<forall>n. cursor (fst key) = Some n \<longrightarrow>
        list_all (\<lambda>span. snd span \<le> snd key) (take n (spans_or_empty (merged (fst key)))))"

lemma cursor_later:
  assumes "cursor_ok merged cursor key" "key \<le> key'"
  shows "cursor_ok merged cursor key'"
proof -
  have "fst key < fst key' \<or> fst key = fst key' \<and> snd key \<le> snd key'"
    using assms(2) by (auto simp: less_eq_prod_def)
  then show ?thesis
    using assms(1) by (fastforce simp: cursor_ok_def list_all_iff)
qed

lemma cursor_step:
  fixes position :: nat
  assumes "cursor_ok merged cursor (sid, fs)"
    and "position = (case cursor sid of Some n \<Rightarrow> n | None \<Rightarrow> 0)"
    and "n = position + length (takeWhile (\<lambda>span. snd span \<le> fs)
                (drop position (spans_or_empty (merged sid))))"
  shows "list_all (\<lambda>span. snd span \<le> fs) (take n (spans_or_empty (merged sid)))"
    and "cursor_ok merged (cursor(sid \<mapsto> n)) (sid, fs)"
proof -
  let ?spans = "spans_or_empty (merged sid)"
  let ?w = "takeWhile (\<lambda>span. snd span \<le> fs) (drop position ?spans)"
  have "list_all (\<lambda>span. snd span \<le> fs) (take position ?spans)"
    using assms(1,2) by (auto simp: cursor_ok_def split: option.splits)
  moreover have "take n ?spans = take position ?spans @ ?w"
  proof -
    have "take (length ?w) (drop position ?spans) = ?w"
      by (metis takeWhile_eq_take)
    then show ?thesis by (simp add: assms(3) take_add)
  qed
  moreover have "list_all (\<lambda>span. snd span \<le> fs) ?w"
    by (auto simp: list_all_iff dest: set_takeWhileD)
  ultimately show behind: "list_all (\<lambda>span. snd span \<le> fs) (take n ?spans)" by simp
  show "cursor_ok merged (cursor(sid \<mapsto> n)) (sid, fs)"
    using behind assms(1) by (auto simp: cursor_ok_def split: if_splits)
qed

definition with_active :: "(int \<Rightarrow> span list option) \<Rightarrow> active_focus_interval \<Rightarrow> active_focus_interval" where
  "with_active merged row = row\<lparr>fi_active_foreground_ms :=
     uncovered (fi_start_ts row) (fi_end_ts row) (spans_or_empty (merged (fi_session_id row)))\<rparr>"

lemma active_sweep_spec:
  assumes "\<And>sid. separated (spans_or_empty (merged sid))"
    and "sorted (map (sweep_key out) order)" "distinct order" "set order \<subseteq> {..<length out}"
    and "case order of [] \<Rightarrow> True | index # _ \<Rightarrow> cursor_ok merged cursor (sweep_key out index)"
  shows "active_sweep merged cursor out order =
    map (\<lambda>i. if i \<in> set order then with_active merged (out ! i) else out ! i) [0..<length out]"
  using assms(2-)
proof (induction order arbitrary: cursor out)
  case Nil
  then show ?case by (simp add: map_nth)
next
  case (Cons index order)
  let ?row = "out ! index"
  let ?sid = "fi_session_id ?row"
  let ?fs = "fi_start_ts ?row"
  let ?fe = "fi_end_ts ?row"
  let ?spans = "spans_or_empty (merged ?sid)"
  let ?p = "case cursor ?sid of Some n \<Rightarrow> n | None \<Rightarrow> 0"
  let ?n = "?p + length (takeWhile (\<lambda>span. snd span \<le> ?fs) (drop ?p ?spans))"
  let ?active = "max (max (?fe - ?fs) 0 - scan_overlap ?fs ?fe (drop ?n ?spans)) 0"
  let ?out = "out[index := ?row\<lparr>fi_active_foreground_ms := ?active\<rparr>]"
  have cursor: "cursor_ok merged cursor (?sid, ?fs)"
    using Cons.prems(4) by (simp add: sweep_key_def)
  note step = cursor_step [OF cursor refl refl]
  have "?active = uncovered ?fs ?fe ?spans"
    using scan_is_full [OF separated_drop [OF assms(1)]] full_overlap_skip [OF step(1)]
      active_is_uncovered [OF assms(1)]
    by simp
  then have here: "?row\<lparr>fi_active_foreground_ms := ?active\<rparr> = with_active merged ?row"
    by (simp add: with_active_def)
  have keys: "sweep_key ?out i = sweep_key out i" for i
    using Cons.prems(3) by (cases "i = index") (simp_all add: sweep_key_def)
  have "case order of [] \<Rightarrow> True
      | i # _ \<Rightarrow> cursor_ok merged (cursor(?sid \<mapsto> ?n)) (sweep_key ?out i)"
  proof (cases order)
    case (Cons i order')
    then have "(?sid, ?fs) \<le> sweep_key out i"
      using Cons.prems(1) by (simp add: sweep_key_def)
    from cursor_later [OF step(2) this] show ?thesis
      by (simp add: Cons keys)
  qed simp
  moreover have "sorted (map (sweep_key ?out) order)"
    using Cons.prems(1) unfolding keys by simp
  ultimately have "active_sweep merged (cursor(?sid \<mapsto> ?n)) ?out order =
      map (\<lambda>i. if i \<in> set order then with_active merged (?out ! i) else ?out ! i) [0..<length ?out]"
    using Cons.prems by (intro Cons.IH) simp_all
  moreover have "active_sweep merged cursor out (index # order)
      = active_sweep merged (cursor(?sid \<mapsto> ?n)) ?out order"
    by (simp add: next_position_def swept_row_def Let_def)
  ultimately show ?case
    using Cons.prems(2,3) here by (auto simp: nth_list_update)
qed

lemma active_uncovered:
  "add_active_foreground_ms focus inactive =
     map (\<lambda>row. focus_interval.extend row
            \<lparr>fi_active_foreground_ms =
               int (card ({fi_start_ts row..<fi_end_ts row}
                          - cover (session_spans inactive (fi_session_id row))))\<rparr>) focus"
proof (cases "inactive = []")
  case True
  then show ?thesis
    by (simp add: add_active_foreground_ms_def whole_dwell_def session_spans_def max_def)
next
  case False
  let ?out = "map whole_dwell focus"
  let ?order = "sort_key (sweep_key ?out) [0..<length ?out]"
  have "active_sweep (intervals_by_session inactive) Map.empty ?out ?order =
      map (\<lambda>i. if i \<in> set ?order then with_active (intervals_by_session inactive) (?out ! i) else ?out ! i)
        [0..<length ?out]"
    using spans_of_session
    by (intro active_sweep_spec) (auto simp: cursor_ok_def split: list.split)
  also have "\<dots> = map (with_active (intervals_by_session inactive)) ?out"
    by (rule nth_equalityI) simp_all
  finally show ?thesis
    using False spans_of_session
    by (simp add: add_active_foreground_ms_def Let_def with_active_def uncovered_def
        whole_dwell_def focus_interval.defs)
qed

text \<open>
  \<open>add_active_foreground_ms\<close>: the cursor sweep computes the right number for every row.
  Each dwell keeps its place and its fields, and its active time is the count of its
  milliseconds that no idle or sleep span of its session covers, however the spans overlap
  and in whatever order dwells and spans are given.
\<close>

theorem active_time_is_uncovered_dwell:
  "add_active_foreground_ms focus inactive =
     map (\<lambda>row. focus_interval.extend row
            \<lparr>fi_active_foreground_ms =
               int (card ({fi_start_ts row..<fi_end_ts row}
                          - cover (session_spans inactive (fi_session_id row))))\<rparr>) focus"
  by (rule active_uncovered)

section \<open>Sleep against its specification\<close>

definition first_after :: "int \<Rightarrow> int list \<Rightarrow> int option" where
  "first_after ts closings = find (\<lambda>c. c > ts) closings"

definition closed_span :: "int option \<Rightarrow> int list \<Rightarrow> int \<Rightarrow> span option" where
  "closed_span ended closings ts =
     (case (case first_after ts closings of Some c \<Rightarrow> Some c | None \<Rightarrow> ended) of
        None \<Rightarrow> None
      | Some end_ts \<Rightarrow> if end_ts \<le> ts then None else Some (ts, end_ts))"

definition paired :: "int option \<Rightarrow> int list \<Rightarrow> int list \<Rightarrow> span list" where
  "paired ended openings closings = List.map_filter (closed_span ended closings) openings"

lemma first_after_drop:
  "first_after ts closings =
     (case dropWhile (\<lambda>c. c \<le> ts) closings of c # _ \<Rightarrow> Some c | [] \<Rightarrow> None)"
  by (induction closings) (auto simp: first_after_def)

lemma first_after_later:
  "ts \<le> ts' \<Longrightarrow> first_after ts' (dropWhile (\<lambda>c. c \<le> ts) closings) = first_after ts' closings"
  by (induction closings) (auto simp: first_after_def)

lemma closed_span_later:
  "ts \<le> ts' \<Longrightarrow> closed_span ended (dropWhile (\<lambda>c. c \<le> ts) closings) ts' = closed_span ended closings ts'"
  by (simp add: closed_span_def first_after_later)

lemma paired_Cons:
  "paired ended (ts # openings) closings =
     (case closed_span ended closings ts of None \<Rightarrow> paired ended openings closings
      | Some span \<Rightarrow> span # paired ended openings closings)"
  by (simp add: paired_def List.map_filter_simps split: option.split)

lemma paired_later:
  assumes "list_all (\<lambda>ts'. ts \<le> ts') openings"
  shows "paired ended openings (dropWhile (\<lambda>c. c \<le> ts) closings) = paired ended openings closings"
  using assms
proof (induction openings)
  case (Cons ts' openings)
  then show ?case by (simp add: paired_Cons closed_span_later split: option.split)
qed (simp add: paired_def List.map_filter_simps)

lemma pair_spans_paired: "sorted openings \<Longrightarrow> pair_spans ended openings closings = paired ended openings closings"
proof (induction ended openings closings rule: pair_spans.induct)
  case (1 ended closings)
  then show ?case by (simp add: paired_def List.map_filter_simps)
next
  case (2 ended ts openings closings)
  define ahead where "ahead = dropWhile (\<lambda>c. c \<le> ts) closings"
  have rest: "pair_spans ended openings ahead = paired ended openings closings"
    using 2 paired_later [of ts openings ended closings] by (auto simp: list_all_iff ahead_def)
  have first: "first_after ts closings = (case ahead of c # _ \<Rightarrow> Some c | [] \<Rightarrow> None)"
    by (simp add: first_after_drop ahead_def)
  have "pair_spans ended (ts # openings) closings =
      (case closed_span ended closings ts of None \<Rightarrow> pair_spans ended openings ahead
       | Some span \<Rightarrow> span # pair_spans ended openings ahead)"
    unfolding closed_span_def first
    by (cases ahead; cases ended) (simp_all add: Let_def ahead_def [symmetric])
  then show ?case unfolding rest paired_Cons .
qed

definition last_before :: "int \<Rightarrow> int \<Rightarrow> int list \<Rightarrow> int" where
  "last_before start ts suspends = last (start # filter (\<lambda>s. s \<le> ts) suspends)"

definition recovered_span :: "int \<Rightarrow> int list \<Rightarrow> read_event \<Rightarrow> span" where
  "recovered_span start suspends event =
     (max (gap_start event) (last_before start (ev_ts event) suspends), ev_ts event)"

lemma filter_sorted_prefix:
  "sorted (suspends :: int list) \<Longrightarrow> filter (\<lambda>s. s \<le> ts) suspends = takeWhile (\<lambda>s. s \<le> ts) suspends"
proof (induction suspends)
  case (Cons s suspends)
  then show ?case by (cases suspends) (auto simp: filter_empty_conv)
qed simp

lemma last_before_prefix:
  "sorted suspends \<Longrightarrow> prior_suspend start suspends ts = last_before start ts suspends"
  by (simp add: last_before_def filter_sorted_prefix prior_suspend_def Let_def)

lemma last_before_later:
  assumes "sorted suspends" "ts \<le> ts'"
  shows "last_before (last_before start ts suspends) ts' (dropWhile (\<lambda>s. s \<le> ts) suspends)
    = last_before start ts' suspends"
proof -
  let ?A = "takeWhile (\<lambda>s. s \<le> ts) suspends"
  let ?B = "filter (\<lambda>s. s \<le> ts') (dropWhile (\<lambda>s. s \<le> ts) suspends)"
  have "filter (\<lambda>s. s \<le> ts') ?A = ?A"
    using assms(2) by (auto simp: filter_id_conv dest: set_takeWhileD)
  then have "filter (\<lambda>s. s \<le> ts') suspends = ?A @ ?B"
    by (metis filter_append takeWhile_dropWhile_id)
  moreover have "last (last (start # ?A) # ?B) = last (start # ?A @ ?B)"
    by (cases ?B) auto
  ultimately show ?thesis
    using assms(1) by (simp only: last_before_def filter_sorted_prefix)
qed

lemma recovered_spans_spec:
  "sorted suspends \<Longrightarrow> sorted (map ev_ts events) \<Longrightarrow>
   recovered_spans prior suspends events = map (recovered_span prior suspends) events"
proof (induction prior suspends events rule: recovered_spans.induct)
  case (2 prior suspends event events)
  let ?ts = "ev_ts event"
  let ?prior = "last_before prior ?ts suspends"
  let ?ahead = "dropWhile (\<lambda>s. s \<le> ?ts) suspends"
  have "sorted ?ahead"
    using "2.prems"(1) by (metis sorted_append takeWhile_dropWhile_id)
  then have ih: "recovered_spans ?prior ?ahead events = map (recovered_span ?prior ?ahead) events"
    using 2 last_before_prefix [OF "2.prems"(1), of prior ?ts] by (simp add: Let_def)
  have "recovered_span ?prior ?ahead e = recovered_span prior suspends e" if "e \<in> set events" for e
    using that "2.prems" last_before_later [of suspends ?ts "ev_ts e" prior]
    by (simp add: recovered_span_def)
  then have rest: "recovered_spans ?prior ?ahead events = map (recovered_span prior suspends) events"
    using ih by simp
  show ?case
    using rest last_before_prefix [OF "2.prems"(1), of prior ?ts]
    by (simp add: Let_def recovered_span_def)
qed simp

subsection \<open>Sessions of a query\<close>

lemma session_spans_append [simp]:
  "session_spans [] sid = []"
  "session_spans (xs @ ys) sid = session_spans xs sid @ session_spans ys sid"
  by (simp_all add: session_spans_def)

lemma session_spans_mk [simp]:
  "session_spans (map (session_row sid') spans) sid = (if sid' = sid then spans else [])"
  by (simp add: session_spans_def session_row_def si_span_def filter_map comp_def)

text \<open>A reader that labels each group with the session of its first row.\<close>

definition labels_session :: "(read_event list \<Rightarrow> session_interval list) \<Rightarrow> bool" where
  "labels_session f \<longleftrightarrow>
     f [] = [] \<and> (\<forall>e es sid. sid \<noteq> ev_session_id e \<longrightarrow> session_spans (f (e # es)) sid = [])"

lemma groups_of_session:
  assumes "labels_session f" "sorted (map ev_session_id rows)"
  shows "session_spans (concat (map f (session_groups rows))) sid =
    session_spans (f (filter (\<lambda>e. ev_session_id e = sid) rows)) sid"
  using assms(2)
proof (induction rows rule: session_groups.induct)
  case 1
  then show ?case using assms(1) by (simp add: labels_session_def session_spans_def)
next
  case (2 e es)
  let ?same = "\<lambda>e'. ev_session_id e' = ev_session_id e"
  let ?later = "dropWhile ?same es"
  have es: "es = takeWhile ?same es @ ?later" by simp
  have "map ev_session_id es = map ev_session_id (takeWhile ?same es) @ map ev_session_id ?later"
    by (metis map_append takeWhile_dropWhile_id)
  then have later: "sorted (map ev_session_id ?later)"
    using "2.prems" by (simp add: sorted_append del: map_append)
  have beyond: "ev_session_id e < ev_session_id e'" if "e' \<in> set ?later" for e'
  proof -
    have "?later \<noteq> []" using that by (metis list.set(1) empty_iff)
    then obtain x xs where x: "?later = x # xs" by (meson neq_Nil_conv)
    then have "ev_session_id x \<noteq> ev_session_id e"
      using hd_dropWhile [of ?same es] by (metis list.distinct(1) list.sel(1))
    moreover have "x \<in> set es" by (metis x set_dropWhileD list.set_intros(1))
    ultimately have "ev_session_id e < ev_session_id x" using "2.prems" by auto
    moreover have "ev_session_id x \<le> ev_session_id e'"
      using later that unfolding x by auto
    ultimately show ?thesis by simp
  qed
  have ih: "session_spans (concat (map f (session_groups ?later))) sid
      = session_spans (f (filter (\<lambda>e. ev_session_id e = sid) ?later)) sid"
    using "2.IH" later by simp
  show ?case
  proof (cases "sid = ev_session_id e")
    case True
    have none: "filter (\<lambda>e. ev_session_id e = sid) ?later = []"
      using beyond True by (fastforce simp: filter_empty_conv)
    have all: "filter (\<lambda>e. ev_session_id e = sid) (takeWhile ?same es) = takeWhile ?same es"
      using True by (auto simp: filter_id_conv dest: set_takeWhileD)
    have "filter (\<lambda>e. ev_session_id e = sid) es = takeWhile ?same es"
      by (subst es) (simp only: filter_append none all append_Nil2)
    moreover have "session_spans (f []) sid = []"
      using assms(1) by (simp add: labels_session_def session_spans_def)
    ultimately show ?thesis
      using True ih none by simp
  next
    case False
    have "filter (\<lambda>e. ev_session_id e = sid) (takeWhile ?same es) = []"
      using False by (auto simp: filter_empty_conv dest: set_takeWhileD)
    then have "filter (\<lambda>e. ev_session_id e = sid) es = filter (\<lambda>e. ev_session_id e = sid) ?later"
      by (subst es) (simp only: filter_append append_Nil)
    moreover have "session_spans (f (e # takeWhile ?same es)) sid = []"
      using assms(1) False by (simp add: labels_session_def)
    ultimately show ?thesis
      using False ih by simp
  qed
qed

lemma labels_sleep: "labels_session (session_sleep ended)"
  by (auto simp: labels_session_def session_sleep_def Let_def session_spans_mk
      simp flip: map_append)

lemma labels_idle: "labels_session (session_idle scope ended)"
  by (auto simp: labels_session_def session_idle_def Let_def)

lemma sorted_map_weaken:
  "sorted (map f xs) \<Longrightarrow> (\<And>x y. x \<in> set xs \<Longrightarrow> y \<in> set xs \<Longrightarrow> f x \<le> f y \<Longrightarrow> g x \<le> g y) \<Longrightarrow>
   sorted (map g xs)"
  by (induction xs) auto

lemma select_sorted:
  "sorted (map ev_session_id (select_boundaries ids kinds events))"
  "sorted (map ev_ts (filter (\<lambda>e. ev_session_id e = sid) (select_boundaries ids kinds events)))"
proof -
  let ?rows = "select_boundaries ids kinds events"
  have sorted: "sorted (map boundary_key ?rows)"
    by (simp add: select_boundaries_def)
  show "sorted (map ev_session_id ?rows)"
    by (rule sorted_map_weaken [OF sorted]) (auto simp: less_eq_prod_def boundary_key_def)
  show "sorted (map ev_ts (filter (\<lambda>e. ev_session_id e = sid) ?rows))"
    by (rule sorted_map_weaken [OF sorted_filter [OF sorted]])
       (auto simp: less_eq_prod_def boundary_key_def)
qed

lemma select_normalized [simp]:
  "select_boundaries (normalized_session_ids ids) kinds events = select_boundaries ids kinds events"
  by (simp add: select_boundaries_def normalized_session_ids_def)

lemma kind_ts_sorted: "sorted (map ev_ts rows) \<Longrightarrow> sorted (kind_ts kind rows)"
  unfolding kind_ts_def by (rule sorted_filter)

text \<open>
  \<open>sleep_intervals\<close>: the capture-off spans are those the boundary rows tell.  Of any
  session, in the order of its rows: each suspend with the first resume after it, or the end
  of the session when there is none; each pause likewise with the first capture resume; and
  each recovered boundary with the gap it reports, not reaching back over the last suspend
  before it.
\<close>

theorem sleep_spans_follow_the_boundaries:
  "let rows = filter (\<lambda>e. ev_session_id e = sid) (select_boundaries ids sleep_kinds events);
       suspends = kind_ts ''power_suspend'' rows
   in session_spans (sleep_intervals ended events ids) sid =
        paired (ended sid) suspends (kind_ts ''power_resume'' rows) @
        paired (ended sid) (kind_ts ''capture_paused'' rows) (kind_ts ''capture_resumed'' rows) @
        map (recovered_span 0 suspends)
          (filter (\<lambda>e. ev_kind e = ''power_boundary_recovered'') rows)"
proof -
  let ?rows = "filter (\<lambda>e. ev_session_id e = sid) (select_boundaries ids sleep_kinds events)"
  have sorted: "sorted (map ev_ts ?rows)" by (rule select_sorted(2))
  have recovered: "sorted (map ev_ts (filter (\<lambda>e. ev_kind e = ''power_boundary_recovered'') ?rows))"
    by (rule sorted_filter [OF sorted])
  note read = pair_spans_paired [OF kind_ts_sorted [OF sorted]]
    recovered_spans_spec [OF kind_ts_sorted [OF sorted] recovered]
  have mine: "e \<in> set ?rows \<Longrightarrow> ev_session_id e = sid" for e by simp
  have "session_spans (sleep_intervals ended events ids) sid = session_spans (session_sleep ended ?rows) sid"
    using groups_of_session [OF labels_sleep select_sorted(1)]
    by (simp add: sleep_intervals_def)
  also have "\<dots> = pair_spans (ended sid) (kind_ts ''power_suspend'' ?rows) (kind_ts ''power_resume'' ?rows) @
      pair_spans (ended sid) (kind_ts ''capture_paused'' ?rows) (kind_ts ''capture_resumed'' ?rows) @
      recovered_spans 0 (kind_ts ''power_suspend'' ?rows)
        (filter (\<lambda>e. ev_kind e = ''power_boundary_recovered'') ?rows)"
  proof (cases ?rows)
    case Nil
    then show ?thesis by (simp only: session_sleep_def) (simp add: session_spans_def kind_ts_def)
  next
    case (Cons e es)
    then have "ev_session_id e = sid" using mine by (metis list.set_intros(1))
    then show ?thesis unfolding Cons session_sleep_def by (simp add: Let_def del: map_append)
  qed
  finally show ?thesis unfolding Let_def read .
qed

section \<open>Every millisecond of a dwell once\<close>

lemma frame_cover:
  "cover (session_spans (subtract_interval_frame intervals subs) sid)
     = cover (session_spans intervals sid) - cover (session_spans subs sid)"
proof (cases "intervals = [] \<or> subs = []")
  case True
  then show ?thesis by (auto simp: subtract_interval_frame_def session_spans_def)
next
  case False
  let ?piece = "\<lambda>row. if si_end_ts row \<le> si_start_ts row then []
             else map (session_row (si_session_id row))
                    (subtract_intervals [si_span row]
                      (spans_or_empty (intervals_by_session subs (si_session_id row))))"
  have piece: "cover (session_spans (?piece row) sid)
      = cover (session_spans [row] sid) - cover (session_spans subs sid)" for row
    using spans_of_session [of subs "si_session_id row"]
    by (auto simp: subtract_intervals_cover session_spans_def [of "[row]"] si_span_def)
  have "cover (session_spans (concat (map ?piece rows)) sid)
      = cover (session_spans rows sid) - cover (session_spans subs sid)" for rows
  proof (induction rows)
    case (Cons row rows)
    have "session_spans (row # rows) sid = session_spans [row] sid @ session_spans rows sid"
      by (simp add: session_spans_def)
    then show ?case
      using Cons piece [of row] by (simp only: list.map concat.simps session_spans_append cover_simps) auto
  qed (simp add: session_spans_def)
  then show ?thesis using False by (simp only: subtract_interval_frame_def if_False)
qed

lemma idle_avoids_sleep:
  "cover (session_spans (idle_intervals ended events ids scope) sid) \<inter>
   cover (session_spans (sleep_intervals ended events ids) sid) = {}"
  by (simp add: idle_intervals_def Let_def frame_cover) blast

text \<open>
  \<open>focus_intervals_with_active\<close>: the accounting of the day adds up.  Whatever boundary
  rows the database holds, each millisecond of a foreground dwell is counted once: as active,
  as idle or as sleep of its session.
\<close>

theorem dwell_is_active_idle_or_asleep:
  "let ids = map fi_session_id focus;
       idle = idle_intervals ended events ids None; sleep = sleep_intervals ended events ids
   in list_all2 (\<lambda>row active.
        int (card {fi_start_ts row..<fi_end_ts row}) =
          fi_active_foreground_ms active +
          int (card ({fi_start_ts row..<fi_end_ts row}
                     \<inter> cover (session_spans idle (fi_session_id row)))) +
          int (card ({fi_start_ts row..<fi_end_ts row}
                     \<inter> cover (session_spans sleep (fi_session_id row)))))
      focus (focus_intervals_with_active ended events focus)"
proof -
  let ?ids = "map fi_session_id focus"
  let ?idle = "idle_intervals ended events ?ids None"
  let ?sleep = "sleep_intervals ended events ?ids"
  have split: "int (card D) = int (card (D - (I \<union> S))) + int (card (D \<inter> I)) + int (card (D \<inter> S))"
    if "finite D" "I \<inter> S = {}" for D I S :: "int set"
  proof -
    have "card D = card (D - (I \<union> S)) + card (D \<inter> (I \<union> S))"
      using that(1) by (metis Diff_disjoint Int_Diff Un_Diff_Int card_Un_disjoint finite_Diff finite_Int
          inf_commute)
    moreover have "card (D \<inter> (I \<union> S)) = card (D \<inter> I) + card (D \<inter> S)"
      unfolding Int_Un_distrib using that by (intro card_Un_disjoint) auto
    ultimately show ?thesis by simp
  qed
  have rows: "focus_intervals_with_active ended events focus =
      map (\<lambda>row. focus_interval.extend row
            \<lparr>fi_active_foreground_ms =
               int (card ({fi_start_ts row..<fi_end_ts row}
                          - cover (session_spans (?idle @ ?sleep) (fi_session_id row))))\<rparr>) focus"
    by (simp only: focus_intervals_with_active_def Let_def active_uncovered) simp
  have eq: "int (card {fi_start_ts row..<fi_end_ts row}) =
      int (card ({fi_start_ts row..<fi_end_ts row}
                 - cover (session_spans (?idle @ ?sleep) (fi_session_id row)))) +
      int (card ({fi_start_ts row..<fi_end_ts row} \<inter> cover (session_spans ?idle (fi_session_id row)))) +
      int (card ({fi_start_ts row..<fi_end_ts row} \<inter> cover (session_spans ?sleep (fi_session_id row))))"
    for row
    unfolding session_spans_append cover_simps by (rule split [OF _ idle_avoids_sleep]) simp
  show ?thesis
    unfolding Let_def rows list_all2_map2 list_all2_same focus_interval.defs
    by (simp del: card_atLeastLessThan_int session_spans_append cover_simps) (intro ballI eq)
qed

end
