(* ===== verification/Read_Runs.thy ===== *)
theory Read_Runs
  imports Read_Activity
begin

text \<open>
  Runs over the ordered rows (crates/gilbreth-read/src/lib.rs): same-app focus runs, the
  round trips away from an anchor app and back with what they cost.  This run builder and the
  one of the input runs are one loop: a current run that grows while the next row can be
  merged and is pushed when it cannot; the contract of that loop is a locale.
\<close>

section \<open>The loop\<close>

fun sweep_runs ::
    "('a \<Rightarrow> bool) \<Rightarrow> ('r \<Rightarrow> 'a \<Rightarrow> bool) \<Rightarrow> ('a \<Rightarrow> 'r) \<Rightarrow> ('r \<Rightarrow> 'a \<Rightarrow> 'r) \<Rightarrow> 'r option \<Rightarrow> 'a list
     \<Rightarrow> 'r list" where
  "sweep_runs known can_merge start grow current [] =
     (case current of Some run \<Rightarrow> [run] | None \<Rightarrow> [])"
| "sweep_runs known can_merge start grow current (x # xs) =
     (if \<not> known x then
        (case current of Some run \<Rightarrow> [run] | None \<Rightarrow> []) @
        sweep_runs known can_merge start grow None xs
      else case current of
             None \<Rightarrow> sweep_runs known can_merge start grow (Some (start x)) xs
           | Some run \<Rightarrow>
               if can_merge run x
               then sweep_runs known can_merge start grow (Some (grow run x)) xs
               else run # sweep_runs known can_merge start grow (Some (start x)) xs)"

text \<open>The reference: cut the rows where a row is unknown or not linked to the one before.\<close>

fun link_blocks :: "('a \<Rightarrow> bool) \<Rightarrow> ('a \<Rightarrow> 'a \<Rightarrow> bool) \<Rightarrow> 'a list \<Rightarrow> 'a list list" where
  "link_blocks known linked [] = []"
| "link_blocks known linked [x] = (if known x then [[x]] else [])"
| "link_blocks known linked (x # y # xs) =
     (let blocks = link_blocks known linked (y # xs)
      in if \<not> known x then blocks
         else if known y \<and> linked x y then (x # hd blocks) # tl blocks
         else [x] # blocks)"

fun chained :: "('a \<Rightarrow> 'a \<Rightarrow> bool) \<Rightarrow> 'a list \<Rightarrow> bool" where
  "chained linked (x # y # xs) \<longleftrightarrow> linked x y \<and> chained linked (y # xs)"
| "chained linked _ \<longleftrightarrow> True"

lemma link_blocks_head:
  "known x \<Longrightarrow> \<exists>b bs. link_blocks known linked (x # xs) = (x # b) # bs"
  by (cases xs) (auto simp: Let_def)

lemma concat_link_blocks: "concat (link_blocks known linked xs) = filter known xs"
proof (induction known linked xs rule: link_blocks.induct)
  case (3 known linked x y xs)
  show ?case
  proof (cases "known x \<and> known y \<and> linked x y")
    case True
    then obtain b bs where "link_blocks known linked (y # xs) = (y # b) # bs"
      using link_blocks_head by meson
    then show ?thesis using 3 True by auto
  qed (use 3 in \<open>auto simp: Let_def\<close>)
qed auto

lemma link_blocks_chained: "b \<in> set (link_blocks known linked xs) \<Longrightarrow> b \<noteq> [] \<and> chained linked b"
proof (induction known linked xs arbitrary: b rule: link_blocks.induct)
  case (3 known linked x y xs)
  show ?case
  proof (cases "known x \<and> known y \<and> linked x y")
    case True
    then obtain c cs where "link_blocks known linked (y # xs) = (y # c) # cs"
      using link_blocks_head by meson
    then show ?thesis using 3 True by auto
  qed (use 3 in \<open>auto simp: Let_def split: if_splits\<close>)
qed (auto split: if_splits)

locale run_builder =
  fixes known :: "'a \<Rightarrow> bool" and can_merge :: "'r \<Rightarrow> 'a \<Rightarrow> bool"
    and start :: "'a \<Rightarrow> 'r" and grow :: "'r \<Rightarrow> 'a \<Rightarrow> 'r" and linked :: "'a \<Rightarrow> 'a \<Rightarrow> bool"
  assumes merge_start: "can_merge (start x) y = linked x y"
    and merge_grow: "can_merge run x \<Longrightarrow> can_merge (grow run x) y = linked x y"
begin

definition run_of :: "'a list \<Rightarrow> 'r" where
  "run_of block = foldl grow (start (hd block)) (tl block)"

definition ends_at :: "'r \<Rightarrow> 'a \<Rightarrow> bool" where
  "ends_at run x \<longleftrightarrow> (\<forall>y. can_merge run y = linked x y)"

lemma sweep_spec:
  "sweep_runs known can_merge start grow None xs = map run_of (link_blocks known linked xs)"
  "ends_at run x \<Longrightarrow> known x \<Longrightarrow>
   sweep_runs known can_merge start grow (Some run) xs =
     foldl grow run (tl (hd (link_blocks known linked (x # xs)))) #
     map run_of (tl (link_blocks known linked (x # xs)))"
proof (induction xs arbitrary: run x)
  case Nil
  { case 1 show ?case by simp }
  { case 2 then show ?case by simp }
next
  case (Cons y xs)
  have fresh: "ends_at (start y) y" by (simp add: ends_at_def merge_start)
  { case 1
    show ?case
    proof (cases "known y")
      case True
      then obtain b bs where "link_blocks known linked (y # xs) = (y # b) # bs"
        using link_blocks_head by meson
      then show ?thesis using Cons.IH(2) [OF fresh True] True by (simp add: run_of_def)
    next
      case False
      then show ?thesis using Cons.IH(1) by (cases xs) simp_all
    qed }
  { case 2
    show ?case
    proof (cases "known y")
      case known: True
      obtain b bs where blocks: "link_blocks known linked (y # xs) = (y # b) # bs"
        using known link_blocks_head by meson
      show ?thesis
      proof (cases "linked x y")
        case True
        then have merge: "can_merge run y" using 2 by (simp add: ends_at_def)
        then have "ends_at (grow run y) y" by (simp add: ends_at_def merge_grow)
        from Cons.IH(2) [OF this known] show ?thesis
          using merge known 2 True blocks by simp
      next
        case False
        then have "\<not> can_merge run y" using 2 by (simp add: ends_at_def)
        then show ?thesis
          using Cons.IH(2) [OF fresh known] known 2 False blocks by (simp add: run_of_def)
      qed
    next
      case False
      then have "link_blocks known linked (y # xs) = link_blocks known linked xs"
        by (cases xs) simp_all
      then show ?thesis
        using Cons.IH(1) False 2 by simp
    qed }
qed

end

section \<open>Focus segments and runs\<close>

definition EPISODE_GAP_MS :: int where "EPISODE_GAP_MS = 300000"

record app_segment =
  as_order :: int
  as_app :: string
  as_session_id :: int
  as_seq :: int
  as_local_date :: string
  as_start_ts :: int
  as_end_ts :: int
  as_active_ms :: int

record focus_run =
  fr_app :: string
  fr_session_id :: int
  fr_local_date :: string
  fr_start_ts :: int
  fr_end_ts :: int
  fr_active_ms :: int
  fr_first_order :: int
  fr_last_order :: int
  fr_first_seq :: int
  fr_last_seq :: int

text \<open>\<open>display_app\<close>: the basename shown for an executable path.\<close>

definition display_app :: "string option \<Rightarrow> string" where
  "display_app exe =
     (case exe of
        None \<Rightarrow> ''(unknown)''
      | Some exe \<Rightarrow>
          let value = trim exe
          in if value = [] \<or> value = ''(unknown)'' then ''(unknown)''
             else
               let normalized = map (\<lambda>c. if of_char c = (92 :: nat) then CHR ''/'' else c) value;
                   trimmed = rev (dropWhile (\<lambda>c. c = CHR ''/'') (rev normalized));
                   basename = after_last (\<lambda>c. c = CHR ''/'') trimmed
               in if basename = [] then value else basename)"

text \<open>The segments in (session, seq) order, numbered.\<close>

definition active_app_focus_segments :: "active_focus_interval list \<Rightarrow> app_segment list" where
  "active_app_focus_segments focus =
     map (\<lambda>(order, row).
            \<lparr>as_order = int order, as_app = display_app (Some (fi_exe row)),
             as_session_id = fi_session_id row, as_seq = fi_seq row,
             as_local_date = fi_local_date row, as_start_ts = fi_start_ts row,
             as_end_ts = fi_end_ts row, as_active_ms = max (fi_active_foreground_ms row) 0\<rparr>)
       (enumerate 0 (sort_key (\<lambda>row. (fi_session_id row, fi_seq row)) focus))"

definition is_known_active_segment :: "app_segment \<Rightarrow> bool" where
  "is_known_active_segment segment \<longleftrightarrow> as_app segment \<noteq> ''(unknown)'' \<and> as_active_ms segment > 0"

definition can_merge_focus_run :: "focus_run \<Rightarrow> app_segment \<Rightarrow> bool" where
  "can_merge_focus_run current segment \<longleftrightarrow>
     fr_app current = as_app segment \<and> fr_session_id current = as_session_id segment \<and>
     as_order segment = fr_last_order current + 1 \<and>
     as_start_ts segment - fr_end_ts current \<le> EPISODE_GAP_MS"

definition new_focus_run :: "app_segment \<Rightarrow> focus_run" where
  "new_focus_run segment =
     \<lparr>fr_app = as_app segment, fr_session_id = as_session_id segment,
      fr_local_date = as_local_date segment, fr_start_ts = as_start_ts segment,
      fr_end_ts = as_end_ts segment, fr_active_ms = as_active_ms segment,
      fr_first_order = as_order segment, fr_last_order = as_order segment,
      fr_first_seq = as_seq segment, fr_last_seq = as_seq segment\<rparr>"

definition grow_focus_run :: "focus_run \<Rightarrow> app_segment \<Rightarrow> focus_run" where
  "grow_focus_run run segment =
     run\<lparr>fr_active_ms := fr_active_ms run + as_active_ms segment, fr_end_ts := as_end_ts segment,
         fr_last_order := as_order segment, fr_last_seq := as_seq segment\<rparr>"

definition same_app_focus_runs :: "app_segment list \<Rightarrow> focus_run list" where
  "same_app_focus_runs segments =
     sweep_runs is_known_active_segment can_merge_focus_run new_focus_run grow_focus_run None segments"

definition linked_segments :: "app_segment \<Rightarrow> app_segment \<Rightarrow> bool" where
  "linked_segments a b \<longleftrightarrow>
     as_app a = as_app b \<and> as_session_id a = as_session_id b \<and> as_order b = as_order a + 1 \<and>
     as_start_ts b - as_end_ts a \<le> EPISODE_GAP_MS"

interpretation focus_runs:
  run_builder is_known_active_segment can_merge_focus_run new_focus_run grow_focus_run linked_segments
  by unfold_locales
     (auto simp: can_merge_focus_run_def new_focus_run_def grow_focus_run_def linked_segments_def)

definition run_of_block :: "app_segment list \<Rightarrow> focus_run" where
  "run_of_block block =
     \<lparr>fr_app = as_app (hd block), fr_session_id = as_session_id (hd block),
      fr_local_date = as_local_date (hd block), fr_start_ts = as_start_ts (hd block),
      fr_end_ts = as_end_ts (last block), fr_active_ms = sum_list (map as_active_ms block),
      fr_first_order = as_order (hd block), fr_last_order = as_order (last block),
      fr_first_seq = as_seq (hd block), fr_last_seq = as_seq (last block)\<rparr>"

lemma run_of_block_snoc:
  "block \<noteq> [] \<Longrightarrow> grow_focus_run (run_of_block block) s = run_of_block (block @ [s])"
  by (simp add: run_of_block_def grow_focus_run_def)

lemma focus_run_of: "block \<noteq> [] \<Longrightarrow> focus_runs.run_of block = run_of_block block"
proof -
  assume "block \<noteq> []"
  have "seen \<noteq> [] \<Longrightarrow> foldl grow_focus_run (run_of_block seen) rest = run_of_block (seen @ rest)"
    for seen rest
    by (induction rest arbitrary: seen) (simp_all add: run_of_block_snoc)
  from this [of "[hd block]" "tl block"] \<open>block \<noteq> []\<close> show ?thesis
    by (simp add: focus_runs.run_of_def run_of_block_def new_focus_run_def)
qed

text \<open>
  \<open>same_app_focus_runs\<close>: the focus runs are the rows cut into blocks.  Every known active
  segment belongs to exactly one run, in order; inside a run consecutive segments share the
  app and the session, follow each other in the numbering and are at most five minutes
  apart; and the runs hold exactly the active time of those segments.
\<close>

theorem focus_runs_are_linked_blocks:
  "let blocks = link_blocks is_known_active_segment linked_segments segments
   in same_app_focus_runs segments = map run_of_block blocks \<and>
      concat blocks = filter is_known_active_segment segments \<and>
      list_all (\<lambda>block. block \<noteq> [] \<and> chained linked_segments block) blocks \<and>
      sum_list (map fr_active_ms (same_app_focus_runs segments))
        = sum_list (map as_active_ms (filter is_known_active_segment segments))"
proof -
  let ?blocks = "link_blocks is_known_active_segment linked_segments segments"
  have nonempty: "b \<in> set ?blocks \<Longrightarrow> b \<noteq> []" for b
    using link_blocks_chained by blast
  have runs: "same_app_focus_runs segments = map run_of_block ?blocks"
    using nonempty by (simp add: same_app_focus_runs_def focus_runs.sweep_spec(1) focus_run_of)
  have "sum_list (map fr_active_ms (map run_of_block bs)) = sum_list (map as_active_ms (concat bs))" for bs
    by (induction bs) (simp_all add: run_of_block_def)
  from this [of ?blocks] show ?thesis
    using runs link_blocks_chained [of _ is_known_active_segment linked_segments segments]
    by (auto simp: Let_def concat_link_blocks list_all_iff)
qed

section \<open>Round trips\<close>

definition runs_are_adjacent :: "focus_run \<Rightarrow> focus_run \<Rightarrow> bool" where
  "runs_are_adjacent left right \<longleftrightarrow>
     fr_session_id left = fr_session_id right \<and>
     fr_first_order right = fr_last_order left + 1 \<and>
     fr_start_ts right - fr_end_ts left \<le> EPISODE_GAP_MS"

text \<open>The array \<open>chain_end\<close>, filled from the right.\<close>

fun chain_ends :: "nat \<Rightarrow> focus_run list \<Rightarrow> nat list" where
  "chain_ends index [] = []"
| "chain_ends index [run] = [index]"
| "chain_ends index (run # next_run # runs) =
     (let rest = chain_ends (index + 1) (next_run # runs)
      in (if runs_are_adjacent run next_run then hd rest else index) # rest)"

text \<open>\<open>partition_point\<close> on a list partitioned by the predicate.\<close>

definition partition_point :: "('a \<Rightarrow> bool) \<Rightarrow> 'a list \<Rightarrow> nat" where
  "partition_point P xs = length (takeWhile P xs)"

definition indices_by_app :: "focus_run list \<Rightarrow> string \<Rightarrow> nat list" where
  "indices_by_app runs app = filter (\<lambda>index. fr_app (runs ! index) = app) [0..<length runs]"

definition next_anchor_returns :: "focus_run list \<Rightarrow> (nat \<times> nat) list" where
  "next_anchor_returns runs =
     (let chain_end = chain_ends 0 runs
      in List.map_filter (\<lambda>index.
           let occurrences = indices_by_app runs (fr_app (runs ! index));
               position = partition_point (\<lambda>value. value \<le> index) occurrences
           in if position \<ge> length occurrences then None
              else
                let return_index = occurrences ! position
                in if return_index \<le> chain_end ! index \<and> return_index > index + 1
                   then Some (index, return_index) else None) [0..<length runs])"

definition active_ms_prefix :: "focus_run list \<Rightarrow> int list" where
  "active_ms_prefix runs = foldl (\<lambda>prefix run. prefix @ [last prefix + fr_active_ms run]) [0] runs"

text \<open>
  The productive input rows as the query selects them (keys, clicks and wheels that no relay
  injected), and their instants per session and displayed app.
\<close>

record productive_row =
  pr_session_id :: int
  pr_exe :: string
  pr_ts :: int

type_synonym productive_input_map = "int \<times> string \<Rightarrow> int list option"

definition productive_input_map :: "productive_row list \<Rightarrow> productive_input_map" where
  "productive_input_map rows key =
     (let ts = map pr_ts (filter (\<lambda>row. (pr_session_id row, display_app (Some (pr_exe row))) = key)
            (sort_key pr_ts rows))
      in if ts = [] then None else Some ts)"

definition focus_cost_context ::
    "active_focus_interval list \<Rightarrow> productive_row list \<Rightarrow> app_segment list \<times> productive_input_map" where
  "focus_cost_context focus rows =
     (let segments = active_app_focus_segments focus
      in (segments, if segments = [] then Map.empty else productive_input_map rows))"

definition first_input_lag ::
    "int \<Rightarrow> string \<Rightarrow> int \<Rightarrow> int \<Rightarrow> productive_input_map \<Rightarrow> int option" where
  "first_input_lag session_id app start_ts end_ts productive_ts_by_app =
     (case productive_ts_by_app (session_id, app) of
        None \<Rightarrow> None
      | Some ts_list \<Rightarrow>
          let index = partition_point (\<lambda>ts. ts < start_ts) ts_list
          in if index < length ts_list \<and> ts_list ! index < end_ts
             then Some (max (ts_list ! index - start_ts) 0) else None)"

record diversion_cost_record =
  dc_session_id :: int
  dc_anchor :: string
  dc_diverter :: string
  dc_path :: "string list"
  dc_anchor_start_ts :: int
  dc_diverter_start_ts :: int
  dc_return_start_ts :: int
  dc_return_end_ts :: int
  dc_away_ms :: int
  dc_restart_ms :: "int option"
  dc_local_date :: string

definition cost_record_at ::
    "focus_run list \<Rightarrow> productive_input_map \<Rightarrow> int list \<Rightarrow> nat \<times> nat \<Rightarrow> diversion_cost_record" where
  "cost_record_at runs productive_ts_by_app active_prefix pair =
     (case pair of (index, return_index) \<Rightarrow>
        let run = runs ! index; candidate = runs ! return_index
        in \<lparr>dc_session_id = fr_session_id run, dc_anchor = fr_app run,
            dc_diverter = fr_app (runs ! (index + 1)),
            dc_path = map fr_app (drop index (take (return_index + 1) runs)),
            dc_anchor_start_ts = fr_start_ts run,
            dc_diverter_start_ts = fr_start_ts (runs ! (index + 1)),
            dc_return_start_ts = fr_start_ts candidate, dc_return_end_ts = fr_end_ts candidate,
            dc_away_ms = active_prefix ! return_index - active_prefix ! (index + 1),
            dc_restart_ms = first_input_lag (fr_session_id candidate) (fr_app run)
              (fr_start_ts candidate) (fr_end_ts candidate) productive_ts_by_app,
            dc_local_date = fr_local_date run\<rparr>)"

definition diversion_cost_records ::
    "focus_run list \<Rightarrow> productive_input_map \<Rightarrow> diversion_cost_record list" where
  "diversion_cost_records runs productive_ts_by_app =
     map (cost_record_at runs productive_ts_by_app (active_ms_prefix runs))
       (next_anchor_returns runs)"

subsection \<open>The pairs\<close>

lemma chain_ends_length [simp]: "length (chain_ends n runs) = length runs"
  by (induction n runs rule: chain_ends.induct) (simp_all add: Let_def)

text \<open>The chain from \<open>i\<close> reaches \<open>j\<close>: every run between is adjacent to the next.\<close>

definition chain_reaches :: "focus_run list \<Rightarrow> nat \<Rightarrow> nat \<Rightarrow> bool" where
  "chain_reaches runs i j \<longleftrightarrow>
     j < length runs \<and> list_all (\<lambda>k. runs_are_adjacent (runs ! k) (runs ! (k + 1))) [i..<j]"

lemma chain_ends_spec:
  "i < length runs \<Longrightarrow> i \<le> j \<Longrightarrow>
   n + j \<le> chain_ends n runs ! i \<longleftrightarrow> chain_reaches runs i j"
proof (induction n runs arbitrary: i j rule: chain_ends.induct)
  case (2 n run)
  then show ?case by (auto simp: chain_reaches_def)
next
  case (3 n run next_run runs)
  let ?rest = "next_run # runs"
  let ?ends = "chain_ends (n + 1) ?rest"
  have ih: "n + 1 + j \<le> ?ends ! i \<longleftrightarrow> chain_reaches ?rest i j" if "i < length ?rest" "i \<le> j" for i j
    using "3.IH" that by simp
  have shift: "chain_reaches (run # ?rest) (Suc i) (Suc j) \<longleftrightarrow> chain_reaches ?rest i j" for i j
    by (simp add: chain_reaches_def list.pred_map comp_def flip: map_Suc_upt del: upt_Suc)
  show ?case
  proof (cases i)
    case (Suc i')
    then obtain j' where j: "j = Suc j'" using "3.prems"(2) by (cases j) auto
    have "chain_ends n (run # ?rest) ! Suc i' = ?ends ! i'"
      by (simp add: Let_def)
    then show ?thesis
      using ih [of i' j'] shift [of i' j'] Suc j "3.prems" by simp
  next
    case 0
    have hd: "hd ?ends = ?ends ! 0"
      by (rule hd_conv_nth) (metis chain_ends_length length_0_conv list.distinct(1))
    show ?thesis
    proof (cases j)
      case (Suc j')
      have "chain_reaches (run # ?rest) 0 (Suc j') \<longleftrightarrow>
          runs_are_adjacent run next_run \<and> chain_reaches ?rest 0 j'"
      proof -
        have "[0..<Suc j'] = 0 # map Suc [0..<j']"
          by (simp add: upt_conv_Cons map_Suc_upt del: upt_Suc)
        then show ?thesis
          by (auto simp: chain_reaches_def list.pred_map comp_def simp del: upt_Suc)
      qed
      then show ?thesis
        using ih [of 0 j'] Suc 0 hd by (auto simp: Let_def)
    next
      case j: 0
      have "n + 1 \<le> ?ends ! 0" using ih [of 0 0] by (simp add: chain_reaches_def)
      then show ?thesis using 0 j hd by (simp add: chain_reaches_def Let_def)
    qed
  qed
qed simp

lemma occurrence_after:
  fixes P :: "nat \<Rightarrow> bool"
  assumes "occurrences = filter P [0..<n]" and "position = partition_point (\<lambda>v. v \<le> i) occurrences"
  shows "position < length occurrences \<longleftrightarrow> (\<exists>j. i < j \<and> j < n \<and> P j)"
    and "position < length occurrences \<Longrightarrow>
      occurrences ! position = j \<longleftrightarrow> i < j \<and> j < n \<and> P j \<and> (\<forall>k. i < k \<and> k < j \<longrightarrow> \<not> P k)"
proof -
  have sorted: "sorted occurrences" "distinct occurrences"
    using assms(1) by (simp_all add: sorted_wrt_filter)
  have split: "occurrences = takeWhile (\<lambda>v. v \<le> i) occurrences @ dropWhile (\<lambda>v. v \<le> i) occurrences"
    by simp
  have rest: "dropWhile (\<lambda>v. v \<le> i) occurrences = filter (\<lambda>v. i < v) occurrences"
    using sorted(1)
  proof (induction occurrences)
    case (Cons v vs)
    then show ?case by (auto simp: filter_id_conv intro!: filter_True [symmetric])
  qed simp
  have elems: "set (filter (\<lambda>v. i < v) occurrences) = {j. i < j \<and> j < n \<and> P j}"
    using assms(1) by auto
  have len: "length occurrences = position + length (filter (\<lambda>v. i < v) occurrences)"
    using assms(2) split rest unfolding partition_point_def by (metis length_append)
  have nth: "occurrences ! position = hd (filter (\<lambda>v. i < v) occurrences)"
    if "position < length occurrences"
  proof -
    have "filter (\<lambda>v. i < v) occurrences \<noteq> []" using that len by auto
    then show ?thesis
      using split rest assms(2) unfolding partition_point_def
      by (metis hd_conv_nth nth_append_length_plus add_0_right)
  qed
  show "position < length occurrences \<longleftrightarrow> (\<exists>j. i < j \<and> j < n \<and> P j)"
  proof -
    have "filter (\<lambda>v. i < v) occurrences \<noteq> [] \<longleftrightarrow> {j. i < j \<and> j < n \<and> P j} \<noteq> {}"
      unfolding elems [symmetric] by (simp only: set_empty)
    then show ?thesis using len by auto
  qed
  show "occurrences ! position = j \<longleftrightarrow> i < j \<and> j < n \<and> P j \<and> (\<forall>k. i < k \<and> k < j \<longrightarrow> \<not> P k)"
    if lt: "position < length occurrences"
  proof -
    let ?later = "filter (\<lambda>v. i < v) occurrences"
    have ne: "?later \<noteq> []" using lt len by auto
    have "sorted ?later" using sorted(1) by (rule sorted_filter [of id, simplified])
    then have least: "\<forall>k \<in> set ?later. hd ?later \<le> k"
      using ne by (cases ?later) auto
    have hd: "hd ?later \<in> {j. i < j \<and> j < n \<and> P j}"
      using ne elems hd_in_set by blast
    show ?thesis
    proof
      assume "occurrences ! position = j"
      then have j: "j = hd ?later" using nth [OF lt] by simp
      then show "i < j \<and> j < n \<and> P j \<and> (\<forall>k. i < k \<and> k < j \<longrightarrow> \<not> P k)"
        using hd least elems by fastforce
    next
      assume a: "i < j \<and> j < n \<and> P j \<and> (\<forall>k. i < k \<and> k < j \<longrightarrow> \<not> P k)"
      then have "hd ?later \<le> j" using least elems by blast
      moreover have "\<not> hd ?later < j" using a hd by blast
      ultimately show "occurrences ! position = j" using nth [OF lt] by simp
    qed
  qed
qed

lemma next_anchor_returns_iff:
  "(i, j) \<in> set (next_anchor_returns runs) \<longleftrightarrow>
     i + 1 < j \<and> j < length runs \<and> fr_app (runs ! j) = fr_app (runs ! i) \<and>
     (\<forall>k. i < k \<and> k < j \<longrightarrow> fr_app (runs ! k) \<noteq> fr_app (runs ! i)) \<and> chain_reaches runs i j"
proof -
  let ?occ = "indices_by_app runs (fr_app (runs ! i))"
  let ?pos = "partition_point (\<lambda>v. v \<le> i) ?occ"
  note after = occurrence_after [of ?occ "\<lambda>k. fr_app (runs ! k) = fr_app (runs ! i)" "length runs" ?pos i,
      OF indices_by_app_def refl]
  have "(i, j) \<in> set (next_anchor_returns runs) \<longleftrightarrow>
      i < length runs \<and> ?pos < length ?occ \<and> ?occ ! ?pos = j \<and>
      j \<le> chain_ends 0 runs ! i \<and> j > i + 1"
    by (auto simp: next_anchor_returns_def Let_def List.map_filter_def not_le split: if_splits)
  also have "\<dots> \<longleftrightarrow> i < length runs \<and> (i < j \<and> j < length runs \<and> fr_app (runs ! j) = fr_app (runs ! i) \<and>
      (\<forall>k. i < k \<and> k < j \<longrightarrow> fr_app (runs ! k) \<noteq> fr_app (runs ! i))) \<and>
      j \<le> chain_ends 0 runs ! i \<and> j > i + 1"
    using after by blast
  also have "\<dots> \<longleftrightarrow> i + 1 < j \<and> j < length runs \<and> fr_app (runs ! j) = fr_app (runs ! i) \<and>
     (\<forall>k. i < k \<and> k < j \<longrightarrow> fr_app (runs ! k) \<noteq> fr_app (runs ! i)) \<and> chain_reaches runs i j"
    using chain_ends_spec [of i runs j 0] by auto
  finally show ?thesis .
qed

lemma active_ms_prefix_spec:
  "length (active_ms_prefix runs) = length runs + 1"
  "k \<le> length runs \<Longrightarrow> active_ms_prefix runs ! k = sum_list (map fr_active_ms (take k runs))"
proof -
  have "length (active_ms_prefix runs) = length runs + 1 \<and>
    (\<forall>k \<le> length runs. active_ms_prefix runs ! k = sum_list (map fr_active_ms (take k runs)))"
  proof (induction runs rule: rev_induct)
    case (snoc run runs)
    have step: "active_ms_prefix (runs @ [run])
        = active_ms_prefix runs @ [last (active_ms_prefix runs) + fr_active_ms run]"
      by (simp add: active_ms_prefix_def)
    have "active_ms_prefix runs \<noteq> []" using snoc by auto
    then have "last (active_ms_prefix runs) = sum_list (map fr_active_ms runs)"
      using snoc by (simp add: last_conv_nth)
    then show ?case
      using snoc unfolding step by (auto simp: nth_append le_Suc_eq)
  qed (simp add: active_ms_prefix_def)
  then show "length (active_ms_prefix runs) = length runs + 1"
    "k \<le> length runs \<Longrightarrow> active_ms_prefix runs ! k = sum_list (map fr_active_ms (take k runs))"
    by simp_all
qed

lemma prefix_difference:
  assumes "i \<le> j" "j \<le> length runs"
  shows "active_ms_prefix runs ! j - active_ms_prefix runs ! i
    = sum_list (map fr_active_ms (drop i (take j runs)))"
proof -
  have "take j runs = take i runs @ drop i (take j runs)"
    using assms(1) by (metis append_take_drop_id min.absorb1 take_take)
  then have "sum_list (map fr_active_ms (take j runs))
      = sum_list (map fr_active_ms (take i runs)) + sum_list (map fr_active_ms (drop i (take j runs)))"
    by (metis map_append sum_list_append)
  then show ?thesis using assms by (simp add: active_ms_prefix_spec)
qed

text \<open>
  \<open>next_anchor_returns\<close>, \<open>diversion_cost_records\<close>: a round trip is a run, a chain of
  adjacent runs of other apps, at least one, and the first run of the same app after it;
  every such pair is found and nothing else.  Its record measures the time away as the
  active time of exactly the runs in between.
\<close>

theorem round_trips_are_next_returns:
  "((i, j) \<in> set (next_anchor_returns runs)) =
     (i + 1 < j \<and> chain_reaches runs i j \<and> fr_app (runs ! j) = fr_app (runs ! i) \<and>
      list_all (\<lambda>k. fr_app (runs ! k) \<noteq> fr_app (runs ! i)) [i + 1..<j]) \<and>
   map dc_away_ms (diversion_cost_records runs productive) =
     map (\<lambda>(i, j). sum_list (map fr_active_ms (drop (i + 1) (take j runs))))
       (next_anchor_returns runs)"
proof
  show "((i, j) \<in> set (next_anchor_returns runs)) =
     (i + 1 < j \<and> chain_reaches runs i j \<and> fr_app (runs ! j) = fr_app (runs ! i) \<and>
      list_all (\<lambda>k. fr_app (runs ! k) \<noteq> fr_app (runs ! i)) [i + 1..<j])"
    unfolding next_anchor_returns_iff by (auto simp: chain_reaches_def list_all_iff)
  show "map dc_away_ms (diversion_cost_records runs productive) =
     map (\<lambda>(i, j). sum_list (map fr_active_ms (drop (i + 1) (take j runs))))
       (next_anchor_returns runs)"
    using prefix_difference [of _ _ runs]
    by (auto simp: diversion_cost_records_def cost_record_at_def Let_def
        next_anchor_returns_iff)
qed

lemma partition_point_head:
  "(let index = partition_point P xs in if index < length xs \<and> Q (xs ! index) then f (xs ! index) else None)
     = (case dropWhile P xs of [] \<Rightarrow> None | x # _ \<Rightarrow> if Q x then f x else None)"
proof (cases "dropWhile P xs")
  case Nil
  then have "takeWhile P xs = xs" by (metis append_Nil2 takeWhile_dropWhile_id)
  then show ?thesis unfolding partition_point_def Nil by (simp only:) (simp add: Let_def)
next
  case (Cons x later)
  let ?n = "length (takeWhile P xs)"
  have xs: "xs = takeWhile P xs @ x # later" by (metis Cons takeWhile_dropWhile_id)
  have "length xs = ?n + Suc (length later)" by (subst xs) simp
  moreover have "xs ! ?n = x" by (subst xs) (simp only: nth_append_length)
  ultimately show ?thesis using Cons by (simp add: partition_point_def)
qed

text \<open>
  \<open>first_input_lag\<close>, \<open>productive_input_map\<close>: the restart lag is the wait for the first
  productive input.  It is absent when the app gets none in that session before the run
  ends, and otherwise is the least distance from the start of the run to an input of the app
  within it.
\<close>

theorem restart_lag_is_first_input:
  "let inputs = {pr_ts row |row. row \<in> set rows \<and> pr_session_id row = session_id \<and>
         display_app (Some (pr_exe row)) = app \<and> start_ts \<le> pr_ts row \<and> pr_ts row < end_ts}
   in first_input_lag session_id app start_ts end_ts (productive_input_map rows) =
        (if inputs = {} then None else Some (Min inputs - start_ts))"
proof -
  let ?inputs = "{pr_ts row |row. row \<in> set rows \<and> pr_session_id row = session_id \<and>
         display_app (Some (pr_exe row)) = app \<and> start_ts \<le> pr_ts row \<and> pr_ts row < end_ts}"
  define ts where "ts = map pr_ts (filter (\<lambda>row. (pr_session_id row, display_app (Some (pr_exe row)))
      = (session_id, app)) (sort_key pr_ts rows))"
  have sorted: "sorted ts" unfolding ts_def by (rule sorted_filter) simp
  have inputs: "?inputs = {t \<in> set ts. start_ts \<le> t \<and> t < end_ts}" by (auto simp: ts_def)
  have "productive_input_map rows (session_id, app) = (if ts = [] then None else Some ts)"
    by (simp only: productive_input_map_def ts_def Let_def)
  then have lag: "first_input_lag session_id app start_ts end_ts (productive_input_map rows) =
      (case dropWhile (\<lambda>ts. ts < start_ts) ts of [] \<Rightarrow> None
       | t # _ \<Rightarrow> if t < end_ts then Some (max (t - start_ts) 0) else None)"
    using partition_point_head [of "\<lambda>ts. ts < start_ts" ts "\<lambda>t. t < end_ts" "\<lambda>t. Some (max (t - start_ts) 0)"]
    by (cases "ts = []") (simp_all add: first_input_lag_def)
  show ?thesis
  proof (cases "dropWhile (\<lambda>ts. ts < start_ts) ts")
    case Nil
    then have "\<forall>t \<in> set ts. t < start_ts" by (simp only: dropWhile_eq_Nil_conv)
    then have "?inputs = {}" unfolding inputs by force
    then show ?thesis using lag Nil unfolding Let_def by (simp only:) simp
  next
    case (Cons t later)
    have t: "start_ts \<le> t" "t \<in> set ts"
      using hd_dropWhile [of "\<lambda>ts. ts < start_ts" ts] Cons set_dropWhileD [of t _ ts]
      by (metis list.distinct(1) list.sel(1) not_less, metis list.set_intros(1))
    have split: "ts = takeWhile (\<lambda>ts. ts < start_ts) ts @ t # later"
      by (metis Cons takeWhile_dropWhile_id)
    have least: "t \<le> t'" if "t' \<in> set ts" "start_ts \<le> t'" for t'
    proof -
      have "t' \<in> set (t # later)"
        using that split by (metis Un_iff not_less set_append set_takeWhileD)
      moreover have "sorted (t # later)"
        using sorted split by (metis sorted_append)
      ultimately show ?thesis by auto
    qed
    have min: "Min ?inputs = t" "?inputs \<noteq> {}" if "t < end_ts"
      unfolding inputs using t that least by (auto intro!: Min_eqI)
    have none: "?inputs = {}" if "\<not> t < end_ts"
      unfolding inputs using that least by (force dest: order.strict_trans1)
    show ?thesis
      using lag Cons min none t(1) by (cases "t < end_ts") (simp_all add: Let_def)
  qed
qed

end
