(* ===== verification/Read_Input.thy ===== *)
theory Read_Input
  imports Read_Runs
begin

text \<open>
  The continuous input runs and the per-app input tally (\<open>input_runs_and_counts\<close> of
  crates/gilbreth-read/src/lib.rs).  The scan of the \<open>events\<close> table is the list of its rows,
  with the executable already defaulted by the query.
\<close>

section \<open>Rows and runs\<close>

record input_event =
  ie_session_id :: int
  ie_seq :: int
  ie_ts :: int
  ie_exe :: string
  ie_kind :: string

text \<open>\<open>exe_counts\<close> in first-seen order, which is \<open>exe_order\<close> with the counts beside.\<close>

record input_run =
  ir_session_id :: int
  ir_min_ts :: int
  ir_max_ts :: int
  ir_event_count :: int
  ir_exe_counts :: "(string \<times> int) list"
  ir_run_ms :: int
  ir_start_local_date :: string

text \<open>\<open>if let Some(count) = counts.get_mut(key) { *count += 1 } else { insert 1 }\<close>.\<close>

fun bump :: "'k \<Rightarrow> ('k \<times> int) list \<Rightarrow> ('k \<times> int) list" where
  "bump key [] = [(key, 1)]"
| "bump key ((key', n) # counts) =
     (if key' = key then (key', n + 1) # counts else (key', n) # bump key counts)"

section \<open>The per-app tally\<close>

type_synonym input_counts = "(string \<times> (string \<times> int) list) list"

definition app_position :: "input_counts \<Rightarrow> string \<Rightarrow> nat" where
  "app_position counts app = length (takeWhile (\<lambda>row. fst row \<noteq> app) counts)"

text \<open>The index of an executable's bucket, cached by executable and made on first sight.\<close>

definition bucket_index ::
    "input_counts \<times> (string \<rightharpoonup> nat) \<Rightarrow> string \<Rightarrow> nat \<times> input_counts \<times> (string \<rightharpoonup> nat)" where
  "bucket_index state exe =
     (case state of (counts, cache) \<Rightarrow>
        case cache exe of
          Some index \<Rightarrow> (index, counts, cache)
        | None \<Rightarrow>
            let app = display_app (Some exe);
                index = app_position counts app;
                counts = (if index < length counts then counts else counts @ [(app, [])])
            in (index, counts, cache(exe \<mapsto> index)))"

definition tally_event ::
    "input_counts \<times> (string \<rightharpoonup> nat) \<Rightarrow> input_event \<Rightarrow> input_counts \<times> (string \<rightharpoonup> nat)" where
  "tally_event state event =
     (case bucket_index state (ie_exe event) of (index, counts, cache) \<Rightarrow>
        (counts[index := apsnd (bump (ie_kind event)) (counts ! index)], cache))"

definition input_counts :: "input_event list \<Rightarrow> input_counts" where
  "input_counts events = fst (foldl tally_event ([], Map.empty) events)"

section \<open>The run sweep\<close>

text \<open>The raw idle and sleep spans are merged as they are, empty and inverted ones included.\<close>

definition inactive_by_session :: "session_interval list \<Rightarrow> int \<Rightarrow> span list" where
  "inactive_by_session inactive session_id =
     merge_intervals (map si_span (filter (\<lambda>row. si_session_id row = session_id) inactive))"

definition breaks_run :: "span list \<Rightarrow> int \<Rightarrow> int \<Rightarrow> bool" where
  "breaks_run spans prev ts =
     (let lo = min prev ts; hi = max prev ts;
          pos = partition_point (\<lambda>start. start < hi) (map fst spans)
      in pos > 0 \<and> map snd spans ! (pos - 1) > lo)"

text \<open>The current run with the session and instant of its last event.\<close>

type_synonym growing_run = "input_run \<times> int \<times> int"

definition continues_run :: "session_interval list \<Rightarrow> growing_run \<Rightarrow> input_event \<Rightarrow> bool" where
  "continues_run inactive growing event =
     (case growing of (run, prev_session, prev_ts) \<Rightarrow>
        ie_session_id event = prev_session \<and>
        \<not> breaks_run (inactive_by_session inactive (ie_session_id event)) prev_ts (ie_ts event))"

definition new_input_run :: "input_event \<Rightarrow> growing_run" where
  "new_input_run event =
     (\<lparr>ir_session_id = ie_session_id event, ir_min_ts = ie_ts event, ir_max_ts = ie_ts event,
       ir_event_count = 1, ir_exe_counts = [(ie_exe event, 1)], ir_run_ms = 0,
       ir_start_local_date = []\<rparr>, ie_session_id event, ie_ts event)"

definition grow_input_run :: "growing_run \<Rightarrow> input_event \<Rightarrow> growing_run" where
  "grow_input_run growing event =
     (case growing of (run, _, _) \<Rightarrow>
        (run\<lparr>ir_min_ts := min (ir_min_ts run) (ie_ts event),
             ir_max_ts := max (ir_max_ts run) (ie_ts event),
             ir_event_count := ir_event_count run + 1,
             ir_exe_counts := bump (ie_exe event) (ir_exe_counts run)\<rparr>,
         ie_session_id event, ie_ts event))"

definition finalize_input_run :: "(int \<Rightarrow> string) \<Rightarrow> input_run \<Rightarrow> input_run" where
  "finalize_input_run local_date run =
     run\<lparr>ir_run_ms := max (ir_max_ts run - ir_min_ts run) 0,
         ir_start_local_date := local_date (ir_min_ts run)\<rparr>"

definition inactive_intervals ::
    "(int \<Rightarrow> int option) \<Rightarrow> read_event list \<Rightarrow> input_event list \<Rightarrow> session_interval list" where
  "inactive_intervals ended boundaries events =
     (let session_ids = normalized_session_ids (map ie_session_id events)
      in idle_intervals ended boundaries session_ids None @
         sleep_intervals ended boundaries session_ids)"

definition input_runs ::
    "(int \<Rightarrow> string) \<Rightarrow> (int \<Rightarrow> int option) \<Rightarrow> read_event list \<Rightarrow> input_event list \<Rightarrow> input_run list" where
  "input_runs local_date ended boundaries events =
     map (finalize_input_run local_date \<circ> fst)
       (sweep_runs (\<lambda>_. True) (continues_run (inactive_intervals ended boundaries events))
         new_input_run grow_input_run None
         (sort_key (\<lambda>event. (ie_session_id event, ie_seq event)) events))"

definition input_runs_and_counts ::
    "(int \<Rightarrow> string) \<Rightarrow> (int \<Rightarrow> int option) \<Rightarrow> read_event list \<Rightarrow> input_event list
     \<Rightarrow> input_run list \<times> input_counts" where
  "input_runs_and_counts local_date ended boundaries events =
     (if events = [] then ([], input_counts events)
      else (input_runs local_date ended boundaries events, input_counts events))"

section \<open>Runs are blocks\<close>

definition linked_input :: "session_interval list \<Rightarrow> input_event \<Rightarrow> input_event \<Rightarrow> bool" where
  "linked_input inactive a b \<longleftrightarrow>
     ie_session_id b = ie_session_id a \<and>
     \<not> breaks_run (inactive_by_session inactive (ie_session_id b)) (ie_ts a) (ie_ts b)"

interpretation input_sweep:
  run_builder "\<lambda>_. True" "continues_run inactive" new_input_run grow_input_run "linked_input inactive"
  for inactive
  by unfold_locales
     (auto simp: continues_run_def new_input_run_def grow_input_run_def linked_input_def)

definition first_seen :: "'a list \<Rightarrow> 'a list" where
  "first_seen xs = rev (remdups (rev xs))"

definition histogram :: "'a list \<Rightarrow> ('a \<times> int) list" where
  "histogram xs = map (\<lambda>x. (x, int (count_list xs x))) (first_seen xs)"

lemma first_seen_snoc: "first_seen (xs @ [x]) = (if x \<in> set xs then first_seen xs else first_seen xs @ [x])"
  by (simp add: first_seen_def)

lemma first_seen_set [simp]: "set (first_seen xs) = set xs" "distinct (first_seen xs)"
  by (simp_all add: first_seen_def)

lemma bump_map:
  "distinct keys \<Longrightarrow> bump key (map (\<lambda>k. (k, f k)) keys) =
     (if key \<in> set keys then map (\<lambda>k. (k, if k = key then f k + 1 else f k)) keys
      else map (\<lambda>k. (k, f k)) keys @ [(key, 1)])"
  by (induction keys) auto

lemma bump_histogram: "bump x (histogram xs) = histogram (xs @ [x])"
  by (auto simp: histogram_def bump_map first_seen_snoc count_list_0_iff)

lemma bump_fold: "foldl (\<lambda>counts x. bump x counts) (histogram xs) ys = histogram (xs @ ys)"
  by (induction ys arbitrary: xs) (simp_all add: bump_histogram)

definition input_block :: "(int \<Rightarrow> string) \<Rightarrow> input_event list \<Rightarrow> input_run" where
  "input_block local_date block =
     (let first = Min (ie_ts ` set block); final = Max (ie_ts ` set block)
      in \<lparr>ir_session_id = ie_session_id (hd block), ir_min_ts = first, ir_max_ts = final,
          ir_event_count = int (length block), ir_exe_counts = histogram (map ie_exe block),
          ir_run_ms = final - first, ir_start_local_date = local_date first\<rparr>)"

definition open_block :: "input_event list \<Rightarrow> input_run" where
  "open_block block = (input_block (\<lambda>_. []) block)\<lparr>ir_run_ms := 0\<rparr>"

lemma open_block_snoc:
  "block \<noteq> [] \<Longrightarrow> grow_input_run (open_block block, s, t) event =
     (open_block (block @ [event]), ie_session_id event, ie_ts event)"
  by (simp add: grow_input_run_def open_block_def input_block_def Let_def bump_histogram
      min.commute max.commute)

lemma open_block_run:
  assumes "block \<noteq> []"
  shows "fst (input_sweep.run_of block) = open_block block"
proof -
  have "seen \<noteq> [] \<Longrightarrow> fst (foldl grow_input_run (open_block seen, s, t) rest) = open_block (seen @ rest)"
    for seen s t rest
    by (induction rest arbitrary: seen s t) (simp_all add: open_block_snoc)
  from this [of "[hd block]" _ _ "tl block"] assms show ?thesis
    by (simp add: input_sweep.run_of_def open_block_def input_block_def new_input_run_def Let_def
        histogram_def first_seen_def)
qed

lemma finalize_open_block:
  assumes "block \<noteq> []"
  shows "finalize_input_run local_date (open_block block) = input_block local_date block"
proof -
  have "Min (ie_ts ` set block) \<le> Max (ie_ts ` set block)"
    using assms by (intro Min_le Max_in) auto
  then show ?thesis
    by (simp add: finalize_input_run_def open_block_def input_block_def Let_def)
qed

text \<open>
  \<open>input_runs\<close>: the runs are the input events cut into blocks.  In (session, seq) order,
  every event belongs to exactly one run; inside a run consecutive events share the session
  and no idle or sleep span lies between them; and a run's record is the reading of its
  block: first and last instant, number of events, and how often each executable occurs in
  it, in first-seen order.
\<close>

theorem input_runs_are_linked_blocks:
  "let blocks = link_blocks (\<lambda>_. True) (linked_input (inactive_intervals ended boundaries events))
         (sort_key (\<lambda>event. (ie_session_id event, ie_seq event)) events)
   in input_runs local_date ended boundaries events = map (input_block local_date) blocks \<and>
      concat blocks = sort_key (\<lambda>event. (ie_session_id event, ie_seq event)) events \<and>
      list_all (\<lambda>block. block \<noteq> [] \<and>
        chained (linked_input (inactive_intervals ended boundaries events)) block) blocks \<and>
      sum_list (map ir_event_count (input_runs local_date ended boundaries events))
        = int (length events)"
proof -
  let ?linked = "linked_input (inactive_intervals ended boundaries events)"
  let ?sorted = "sort_key (\<lambda>event. (ie_session_id event, ie_seq event)) events"
  let ?blocks = "link_blocks (\<lambda>_. True) ?linked ?sorted"
  have ne: "b \<noteq> []" if "b \<in> set ?blocks" for b
    using link_blocks_chained [OF that] by blast
  have runs: "input_runs local_date ended boundaries events = map (input_block local_date) ?blocks"
    using ne by (simp add: input_runs_def input_sweep.sweep_spec(1) open_block_run finalize_open_block)
  have "sum_list (map ir_event_count (map (input_block local_date) bs)) = int (length (concat bs))" for bs
    by (induction bs) (simp_all add: input_block_def Let_def)
  from this [of ?blocks] show ?thesis
    using runs link_blocks_chained [of _ "\<lambda>_. True" ?linked ?sorted]
    by (auto simp: Let_def concat_link_blocks list_all_iff)
qed

section \<open>What breaks a run\<close>

lemma merge_sweep_overlap:
  fixes lo hi :: int
  assumes "lo < hi" "sorted spans" "case merged of [] \<Rightarrow> True | x # _ \<Rightarrow> from_start (fst x) spans"
  shows "(\<exists>(s, e) \<in> set (merge_sweep merged spans). s < hi \<and> lo < e)
    \<longleftrightarrow> (\<exists>(s, e) \<in> set merged \<union> set spans. s < hi \<and> lo < e)"
  using assms
proof (induction merged spans rule: merge_sweep.induct)
  case (2 start stop spans)
  then have "from_start start spans" by (intro sorted_from_start)
  with 2 show ?case by simp
next
  case (3 s e merged start stop spans)
  then have *: "s \<le> start" "from_start start spans" "from_start s spans" "sorted spans"
    using sorted_from_start [of start stop spans] by (auto simp: from_start_def list_all_iff)
  show ?case
    using 3 * by (cases "start \<le> e") (auto simp: less_max_iff_disj)
qed simp

definition ordered :: "span list \<Rightarrow> bool" where
  "ordered spans \<longleftrightarrow> list_all (\<lambda>(s, e). s \<le> e) spans"

lemma merge_sweep_increasing:
  assumes "sorted_wrt (\<lambda>x y. fst x \<le> fst y \<and> snd x \<le> snd y) (rev merged)" "ordered merged"
    "ordered spans" "sorted spans" "case merged of [] \<Rightarrow> True | x # _ \<Rightarrow> from_start (fst x) spans"
  shows "sorted_wrt (\<lambda>x y. fst x \<le> fst y \<and> snd x \<le> snd y) (merge_sweep merged spans)"
  using assms
proof (induction merged spans rule: merge_sweep.induct)
  case (2 start stop spans)
  then have "from_start start spans" by (intro sorted_from_start)
  with 2 show ?case by (simp add: ordered_def)
next
  case (3 s e merged start stop spans)
  then have *: "s \<le> e" "start \<le> stop" "s \<le> start" "from_start start spans" "from_start s spans" "sorted spans"
    using sorted_from_start [of start stop spans]
    by (auto simp: from_start_def list_all_iff ordered_def)
  show ?case
  proof (cases "start \<le> e")
    case True
    then show ?thesis
      using 3 * by (simp add: ordered_def sorted_wrt_append max.coboundedI1 le_max_iff_disj)
  next
    case False
    then show ?thesis
      using 3 * by (fastforce simp: ordered_def sorted_wrt_append)
  qed
qed simp

lemma partition_point_last:
  assumes "sorted_wrt (\<lambda>x y. fst x \<le> fst y \<and> snd x \<le> snd y) (spans :: span list)"
    and "pos = partition_point (\<lambda>start. start < hi) (map fst spans)"
  shows "pos > 0 \<and> map snd spans ! (pos - 1) > lo \<longleftrightarrow> (\<exists>(s, e) \<in> set spans. s < hi \<and> lo < e)"
proof -
  have split: "{x \<in> set spans. fst x < hi} = set (take pos spans)"
  proof -
    have "set (takeWhile (\<lambda>x. fst x < hi) spans) = {x \<in> set spans. fst x < hi}"
      using assms(1) by (induction spans) (auto dest: order.strict_trans1)
    moreover have "takeWhile (\<lambda>x. fst x < hi) spans = take pos spans"
      unfolding assms(2) partition_point_def takeWhile_map comp_def length_map
      by (rule takeWhile_eq_take)
    ultimately show ?thesis by metis
  qed
  have le: "pos \<le> length spans"
    using assms(2) by (simp add: partition_point_def) (metis length_map length_takeWhile_le)
  show ?thesis
  proof (cases "pos = 0")
    case True
    then show ?thesis using split by auto
  next
    case False
    let ?final = "spans ! (pos - 1)"
    have final: "?final \<in> set (take pos spans)"
      using False le by (auto simp: in_set_conv_nth intro!: exI [of _ "pos - 1"])
    have "snd x \<le> snd ?final" if "x \<in> set (take pos spans)" for x
    proof -
      from that obtain k where k: "k < pos" "k < length spans" "x = spans ! k"
        by (auto simp: in_set_conv_nth)
      show ?thesis
        using sorted_wrt_nth_less [OF assms(1), of k "pos - 1"] k False le
        by (cases "k = pos - 1") auto
    qed
    then have "lo < snd ?final \<longleftrightarrow> (\<exists>x \<in> set (take pos spans). lo < snd x)"
      using final by (meson less_le_trans)
    also have "\<dots> \<longleftrightarrow> (\<exists>(s, e) \<in> set spans. s < hi \<and> lo < e)"
      unfolding split [symmetric] by auto
    finally show ?thesis using False le by simp
  qed
qed



text \<open>
  An inverted span, which a stored recovery row with a negative gap yields, hides the spans
  merged before it: the stretch from 10 to 21 is not broken although (1, 15) overlaps it.
\<close>

lemma inverted_span_masks:
  "\<not> breaks_run (inactive_by_session [session_row 1 (1, 15), session_row 1 (20, 7)] 1) 10 21"
  "breaks_run (inactive_by_session [session_row 1 (1, 15)] 1) 10 21"
  by (simp_all add: inactive_by_session_def session_row_def si_span_def merge_intervals_def
      breaks_run_def partition_point_def)

section \<open>The tally is a count\<close>

definition event_app :: "input_event \<Rightarrow> string" where
  "event_app event = display_app (Some (ie_exe event))"

definition kinds_of :: "input_event list \<Rightarrow> string \<Rightarrow> string list" where
  "kinds_of events app = map ie_kind (filter (\<lambda>event. event_app event = app) events)"

definition grouped_counts :: "input_event list \<Rightarrow> input_counts" where
  "grouped_counts events =
     map (\<lambda>app. (app, histogram (kinds_of events app))) (first_seen (map event_app events))"

lemma grouped_counts_snoc:
  fixes event :: input_event and events :: "input_event list"
  defines "app \<equiv> event_app event"
  defines "keys \<equiv> first_seen (map event_app events)"
  shows "grouped_counts (events @ [event]) =
    (if app \<in> set keys
     then map (\<lambda>k. (k, if k = app then bump (ie_kind event) (histogram (kinds_of events k))
                       else histogram (kinds_of events k))) keys
     else grouped_counts events @ [(app, [(ie_kind event, 1)])])"
proof -
  have kinds: "kinds_of (events @ [event]) k =
      (if k = app then kinds_of events k @ [ie_kind event] else kinds_of events k)" for k
    by (simp add: kinds_of_def app_def)
  have new: "kinds_of events app = []" if "app \<notin> set keys"
    using that by (auto simp: keys_def kinds_of_def filter_empty_conv)
  have "histogram [ie_kind event] = [(ie_kind event, 1)]" by (simp add: histogram_def first_seen_def)
  moreover have "first_seen (map event_app (events @ [event])) =
      (if app \<in> set keys then keys else keys @ [app])"
    using first_seen_snoc [of "map event_app events" app] by (simp add: keys_def app_def)
  ultimately show ?thesis
    using new by (auto simp: grouped_counts_def kinds bump_histogram keys_def)
qed

definition cache_ok :: "input_counts \<Rightarrow> (string \<rightharpoonup> nat) \<Rightarrow> bool" where
  "cache_ok counts cache \<longleftrightarrow>
     (\<forall>exe index. cache exe = Some index \<longrightarrow>
        index < length counts \<and> fst (counts ! index) = display_app (Some exe))"

lemma app_position_spec:
  "app_position counts app < length counts \<longleftrightarrow> app \<in> fst ` set counts"
  "app \<in> fst ` set counts \<Longrightarrow> fst (counts ! app_position counts app) = app"
  "app \<notin> fst ` set counts \<Longrightarrow> app_position counts app = length counts"
proof -
  show iff: "app_position counts app < length counts \<longleftrightarrow> app \<in> fst ` set counts"
    unfolding app_position_def by (induction counts) auto
  show "fst (counts ! app_position counts app) = app" if "app \<in> fst ` set counts"
    using nth_length_takeWhile [of "\<lambda>row. fst row \<noteq> app" counts, folded app_position_def]
      iff [THEN iffD2, OF that] by blast
  show "app \<notin> fst ` set counts \<Longrightarrow> app_position counts app = length counts"
    using iff by (simp add: app_position_def order_le_neq_trans length_takeWhile_le antisym)
qed

lemma bucket_index_spec:
  assumes "cache_ok counts cache" and "bucket_index (counts, cache) exe = (index, counts', cache')"
  defines "app \<equiv> display_app (Some exe)"
  shows "counts' = (if app \<in> fst ` set counts then counts else counts @ [(app, [])])"
    and "index < length counts'" and "fst (counts' ! index) = app" and "cache_ok counts' cache'"
proof -
  have "counts' = (if app \<in> fst ` set counts then counts else counts @ [(app, [])]) \<and>
    index < length counts' \<and> fst (counts' ! index) = app \<and> cache_ok counts' cache'"
  proof (cases "cache exe")
    case (Some i)
    then have i: "index = i" "counts' = counts" "cache' = cache"
      using assms(2) by (auto simp: bucket_index_def)
    have at: "i < length counts" "fst (counts ! i) = app"
      using assms(1) Some by (auto simp: cache_ok_def app_def)
    then have "app \<in> fst ` set counts" by (metis imageI nth_mem)
    then show ?thesis using i at assms(1) by simp
  next
    case None
    let ?i = "app_position counts app"
    have eq: "index = ?i" "cache' = cache(exe \<mapsto> ?i)"
      "counts' = (if ?i < length counts then counts else counts @ [(app, [])])"
      using assms(2) None by (auto simp: bucket_index_def Let_def app_def)
    show ?thesis
    proof (cases "app \<in> fst ` set counts")
      case True
      then show ?thesis
        using eq app_position_spec(1) [of counts app] app_position_spec(2) [of app counts] assms(1)
        by (auto simp: cache_ok_def app_def)
    next
      case False
      then show ?thesis
        using eq app_position_spec(3) [of app counts] assms(1)
        by (auto simp: cache_ok_def app_def nth_append less_SucI)
    qed
  qed
  then show "counts' = (if app \<in> fst ` set counts then counts else counts @ [(app, [])])"
    "index < length counts'" "fst (counts' ! index) = app" "cache_ok counts' cache'" by blast+
qed

lemma update_at_key:
  assumes "distinct keys" "index < length keys" "keys ! index = app"
  shows "(map (\<lambda>k. (k, f k)) keys)[index := (app, v)]
    = map (\<lambda>k. (k, if k = app then v else f k)) keys"
  by (rule nth_equalityI) (use assms in \<open>auto simp: nth_list_update nth_eq_iff_index_eq\<close>)

lemma tally_step:
  assumes "cache_ok (grouped_counts events) cache"
    and "tally_event (grouped_counts events, cache) event = (counts', cache')"
  shows "counts' = grouped_counts (events @ [event]) \<and> cache_ok counts' cache'"
proof -
  let ?keys = "first_seen (map event_app events)"
  let ?app = "event_app event"
  obtain index counts0 where bucket:
    "bucket_index (grouped_counts events, cache) (ie_exe event) = (index, counts0, cache')"
    and counts': "counts' = counts0[index := apsnd (bump (ie_kind event)) (counts0 ! index)]"
    using assms(2) by (auto simp: tally_event_def split: prod.splits)
  have keys: "fst ` set (grouped_counts events) = set ?keys" "map fst (grouped_counts events) = ?keys"
    by (simp_all add: grouped_counts_def image_comp comp_def)
  note spec = bucket_index_spec [OF assms(1) bucket, folded event_app_def, unfolded keys(1)]
  have "counts' = grouped_counts (events @ [event])"
  proof (cases "?app \<in> set ?keys")
    case True
    then have "counts0 = grouped_counts events" using spec(1) by simp
    moreover from this have "index < length ?keys" "?keys ! index = ?app"
      using spec(2,3) by (simp_all add: grouped_counts_def)
    ultimately show ?thesis
      unfolding counts' grouped_counts_snoc if_P [OF True]
      using update_at_key [OF first_seen_set(2), of index "map event_app events" ?app
        "\<lambda>k. histogram (kinds_of events k)" "bump (ie_kind event) (histogram (kinds_of events ?app))"]
      by (simp add: grouped_counts_def cong: if_cong)
  next
    case False
    then have c: "counts0 = grouped_counts events @ [(?app, [])]" using spec(1) by simp
    have "index = length (grouped_counts events)"
    proof (rule ccontr)
      assume "index \<noteq> length (grouped_counts events)"
      then have "index < length ?keys" "?keys ! index = ?app"
        using spec(2,3) c by (simp_all add: grouped_counts_def nth_append split: if_splits)
      then show False using False nth_mem by metis
    qed
    then show ?thesis using False counts' c by (simp add: grouped_counts_snoc)
  qed
  moreover have "cache_ok counts' cache'"
    using spec(2,3,4) unfolding counts' cache_ok_def by (auto simp: nth_list_update)
  ultimately show ?thesis by simp
qed

text \<open>
  \<open>input_runs_and_counts\<close>: the one-pass tally with its per-executable cache is the
  grouping it replaces.  There is one bucket per displayed app, in the order the apps are
  first seen, whichever of its executables is seen; and a bucket counts how often each input
  kind occurs among the app's events.
\<close>

theorem input_tally_is_a_group_by:
  "snd (input_runs_and_counts local_date ended boundaries events) =
     map (\<lambda>app. (app, histogram (kinds_of events app))) (first_seen (map event_app events))"
proof -
  have "foldl tally_event (grouped_counts seen, cache) rest = (counts', cache') \<Longrightarrow>
    cache_ok (grouped_counts seen) cache \<Longrightarrow> counts' = grouped_counts (seen @ rest)"
    for seen rest cache counts' cache'
  proof (induction rest arbitrary: seen cache)
    case (Cons event rest)
    obtain c k where step: "tally_event (grouped_counts seen, cache) event = (c, k)"
      by fastforce
    from tally_step [OF Cons.prems(2) step]
    have c: "c = grouped_counts (seen @ [event])" "cache_ok (grouped_counts (seen @ [event])) k"
      by auto
    show ?case
      using Cons.IH [of "seen @ [event]" k] Cons.prems(1) c step by simp
  qed simp
  note all = this
  obtain counts cache where fold: "foldl tally_event ([], Map.empty) events = (counts, cache)"
    by fastforce
  have start: "grouped_counts [] = []" "cache_ok [] Map.empty"
    by (simp_all add: grouped_counts_def first_seen_def cache_ok_def)
  have "input_counts events = grouped_counts events"
    using all [of "[]" Map.empty events counts cache] fold start by (simp add: input_counts_def)
  moreover have "snd (input_runs_and_counts local_date ended boundaries events) = input_counts events"
    by (simp add: input_runs_and_counts_def)
  ultimately show ?thesis by (simp only: grouped_counts_def)
qed

end
