(* ===== verification/Retention.thy ===== *)
theory Retention
  imports Store_Tables Prelude "HOL-Library.Multiset"
begin

text \<open>
  Deletion (crates/gilbreth-store/src/lib.rs): startup retention, the mouse-move tier, the
  dashboard's prune with its preview, the deletion of chosen events and of one recording,
  and the deletion audit written in the same transaction.  An operation here is a
  transaction that commits; one that SQLite fails leaves the tables as they were.
\<close>

section \<open>The deletion audit\<close>

definition DELETION_AUDIT_KIND_STARTUP_RETENTION :: string where
  "DELETION_AUDIT_KIND_STARTUP_RETENTION = ''startup_retention''"
definition DELETION_AUDIT_KIND_MOUSE_MOVE_RETENTION :: string where
  "DELETION_AUDIT_KIND_MOUSE_MOVE_RETENTION = ''mouse_move_retention''"
definition DELETION_AUDIT_KIND_DASHBOARD_PRUNE :: string where
  "DELETION_AUDIT_KIND_DASHBOARD_PRUNE = ''dashboard_prune''"
definition DELETION_AUDIT_KIND_EVENT_DELETE :: string where
  "DELETION_AUDIT_KIND_EVENT_DELETE = ''event_delete''"
definition DELETION_AUDIT_KIND_RECORDING_DELETE :: string where
  "DELETION_AUDIT_KIND_RECORDING_DELETE = ''recording_delete''"

record audit_span =
  as_rows_deleted :: int
  as_seq_min :: int
  as_seq_max :: int

text \<open>The \<open>BTreeMap\<close> of spans is the association list in session order.\<close>

type_synonym audit_aggregate = "(int \<times> audit_span) list"

fun audit_note :: "int \<times> int \<Rightarrow> audit_aggregate \<Rightarrow> audit_aggregate" where
  "audit_note (session_id, seq) [] =
     [(session_id, \<lparr>as_rows_deleted = 1, as_seq_min = seq, as_seq_max = seq\<rparr>)]"
| "audit_note (session_id, seq) ((other, span) # spans) =
     (if session_id = other then
        (other, \<lparr>as_rows_deleted = as_rows_deleted span + 1,
                 as_seq_min = min (as_seq_min span) seq,
                 as_seq_max = max (as_seq_max span) seq\<rparr>) # spans
      else if session_id < other then
        (session_id, \<lparr>as_rows_deleted = 1, as_seq_min = seq, as_seq_max = seq\<rparr>) #
        (other, span) # spans
      else (other, span) # audit_note (session_id, seq) spans)"

definition audit_notes :: "(int \<times> int) list \<Rightarrow> audit_aggregate \<Rightarrow> audit_aggregate" where
  "audit_notes keys aggregate = foldl (\<lambda>aggregate key. audit_note key aggregate) aggregate keys"

definition record_deletion_audit ::
    "string \<Rightarrow> int \<Rightarrow> int option \<Rightarrow> audit_aggregate \<Rightarrow> store_db \<Rightarrow> store_db" where
  "record_deletion_audit kind performed_at cutoff_ms aggregate db =
     (if aggregate = [] \<or> \<not> db_has_audit db then db
      else db\<lparr>db_audit := db_audit db @
             map (\<lambda>(session_id, span).
                    \<lparr>au_kind = kind, au_performed_at = performed_at, au_session_id = session_id,
                     au_rows_deleted = as_rows_deleted span, au_seq_min = as_seq_min span,
                     au_seq_max = as_seq_max span, au_cutoff_ms = cutoff_ms\<rparr>) aggregate\<rparr>)"

section \<open>Bounded deletes\<close>

text \<open>\<open>DELETE ... WHERE rowid IN (SELECT ... LIMIT n)\<close>: the rows deleted and those that stay.\<close>

fun delete_limit :: "nat \<Rightarrow> ('a \<Rightarrow> bool) \<Rightarrow> 'a list \<Rightarrow> 'a list \<times> 'a list" where
  "delete_limit n P [] = ([], [])"
| "delete_limit n P (x # xs) =
     (if n = 0 then ([], x # xs)
      else if P x then apfst (Cons x) (delete_limit (n - 1) P xs)
      else apsnd (Cons x) (delete_limit n P xs))"

definition PRUNE_RETURNING_BATCH :: nat where "PRUNE_RETURNING_BATCH = 20000"

lemma delete_limit_length:
  "length (fst (delete_limit n P xs)) + length (snd (delete_limit n P xs)) = length xs"
  by (induction n P xs rule: delete_limit.induct) simp_all

lemma delete_limit_mset: "mset xs = mset (snd (delete_limit n P xs)) + mset (fst (delete_limit n P xs))"
  by (induction n P xs rule: delete_limit.induct) simp_all

lemma delete_limit_count: "length (fst (delete_limit n P xs)) = min n (length (filter P xs))"
  by (induction n P xs rule: delete_limit.induct) auto

lemma delete_limit_others: "filter (\<lambda>x. \<not> P x) (snd (delete_limit n P xs)) = filter (\<lambda>x. \<not> P x) xs"
  by (induction n P xs rule: delete_limit.induct) simp_all

lemma delete_limit_matching: "fst (delete_limit n P xs) @ filter P (snd (delete_limit n P xs)) = filter P xs"
  by (induction n P xs rule: delete_limit.induct) simp_all

text \<open>The loop around it, returning the keys it deleted in the order they were noted.\<close>

function delete_returning_batched ::
    "('a \<Rightarrow> bool) \<Rightarrow> ('a \<Rightarrow> int \<times> int) \<Rightarrow> 'a list \<Rightarrow> audit_aggregate
     \<Rightarrow> nat \<times> 'a list \<times> audit_aggregate" where
  "delete_returning_batched P key rows aggregate =
     (let (deleted, rows') = delete_limit PRUNE_RETURNING_BATCH P rows;
          aggregate = audit_notes (map key deleted) aggregate
      in if length deleted < PRUNE_RETURNING_BATCH then (length deleted, rows', aggregate)
         else let (total, rest) = delete_returning_batched P key rows' aggregate
              in (length deleted + total, rest))"
  by pat_completeness auto
termination
proof (relation "measure (\<lambda>(P, key, rows, aggregate). length rows)")
  fix P :: "'a \<Rightarrow> bool" and key :: "'a \<Rightarrow> int \<times> int" and rows aggregate x deleted rows' and noted
  assume "x = delete_limit PRUNE_RETURNING_BATCH P rows" "(deleted, rows') = x"
    and full: "\<not> length deleted < PRUNE_RETURNING_BATCH"
  then have "length deleted + length rows' = length rows"
    using delete_limit_length [of PRUNE_RETURNING_BATCH P rows] by (metis fst_conv snd_conv)
  then show "((P, key, rows', noted), P, key, rows, aggregate)
      \<in> measure (\<lambda>(P, key, rows, aggregate). length rows)"
    using full by (simp add: PRUNE_RETURNING_BATCH_def)
qed simp

text \<open>The loop deletes what one unbounded statement would.\<close>

declare delete_returning_batched.simps [simp del]

lemma audit_notes_append: "audit_notes (xs @ ys) aggregate = audit_notes ys (audit_notes xs aggregate)"
  by (simp add: audit_notes_def)

lemma delete_returning_batched_unbounded:
  "delete_returning_batched P key rows aggregate =
     (length (filter P rows), filter (\<lambda>x. \<not> P x) rows, audit_notes (map key (filter P rows)) aggregate)"
proof (induction P key rows aggregate rule: delete_returning_batched.induct)
  case (1 P key rows aggregate)
  let ?n = PRUNE_RETURNING_BATCH
  obtain deleted rows' where d: "delete_limit ?n P rows = (deleted, rows')" by fastforce
  note facts = delete_limit_count [of ?n P rows] delete_limit_others [of P ?n rows]
    delete_limit_matching [of ?n P rows]
  show ?case
  proof (cases "length deleted < ?n")
    case True
    then have "length (filter P rows) = length deleted" using facts(1) d by (simp add: min_def split: if_splits)
    then have "filter P rows' = []" using facts(3) d by (metis append_eq_append_conv append_Nil2 fst_conv snd_conv)
    then have "filter P rows = deleted" "filter (\<lambda>x. \<not> P x) rows' = rows'"
      using facts(3) d by (auto simp: filter_id_conv filter_empty_conv)
    then show ?thesis
      using True d facts(2) by (simp add: delete_returning_batched.simps [of P key rows])
  next
    case False
    then have ih: "delete_returning_batched P key rows' (audit_notes (map key deleted) aggregate) =
        (length (filter P rows'), filter (\<lambda>x. \<not> P x) rows',
         audit_notes (map key (filter P rows')) (audit_notes (map key deleted) aggregate))"
      using 1 d by simp
    have "filter P rows = deleted @ filter P rows'" using facts(3) d by simp
    then show ?thesis
      using False d ih facts(2)
      by (simp add: delete_returning_batched.simps [of P key rows] audit_notes_append)
  qed
qed

section \<open>Statements\<close>

definition event_key :: "event_row \<Rightarrow> int \<times> int" where
  "event_key row = (er_session_id row, er_seq row)"

definition action_key :: "action_row \<Rightarrow> int \<times> int" where
  "action_key row = (ar_session_id row, ar_seq row)"

definition delete_events_where ::
    "(event_row \<Rightarrow> bool) \<Rightarrow> store_db \<times> audit_aggregate \<Rightarrow> nat \<times> store_db \<times> audit_aggregate" where
  "delete_events_where P state =
     (case state of (db, audit) \<Rightarrow>
        case delete_returning_batched P event_key (db_events db) audit of
          (n, rows, audit) \<Rightarrow> (n, db\<lparr>db_events := rows\<rparr>, audit))"

definition delete_actions_where ::
    "(action_row \<Rightarrow> bool) \<Rightarrow> store_db \<times> audit_aggregate \<Rightarrow> nat \<times> store_db \<times> audit_aggregate" where
  "delete_actions_where P state =
     (case state of (db, audit) \<Rightarrow>
        case delete_returning_batched P action_key (db_actions db) audit of
          (n, rows, audit) \<Rightarrow> (n, db\<lparr>db_actions := rows\<rparr>, audit))"

definition before :: "int \<Rightarrow> int option \<Rightarrow> bool" where
  "before cutoff_ms ts = (case ts of Some ts \<Rightarrow> ts < cutoff_ms | None \<Rightarrow> False)"

definition recording_has_actions :: "store_db \<Rightarrow> recording_row \<Rightarrow> bool" where
  "recording_has_actions db row =
     list_ex (\<lambda>a. ar_record_session_id a = rc_record_session_id row) (db_actions db)"

definition delete_empty_recordings :: "int \<Rightarrow> store_db \<Rightarrow> nat \<times> store_db" where
  "delete_empty_recordings cutoff_ms db =
     (let P = (\<lambda>r. before cutoff_ms (rc_ended_ts r) \<and> \<not> recording_has_actions db r)
      in (length (filter P (db_recordings db)),
          db\<lparr>db_recordings := filter (\<lambda>r. \<not> P r) (db_recordings db)\<rparr>))"

definition recording_exists :: "store_db \<Rightarrow> int \<Rightarrow> bool" where
  "recording_exists db record_session_id =
     list_ex (\<lambda>r. rc_record_session_id r = record_session_id) (db_recordings db)"

definition orphan_action :: "store_db \<Rightarrow> action_row \<Rightarrow> bool" where
  "orphan_action db a = (\<not> recording_exists db (ar_record_session_id a))"

text \<open>Without the recording tables the statement checks the events only.\<close>

definition session_empty :: "store_db \<Rightarrow> session_row \<Rightarrow> bool" where
  "session_empty db s \<longleftrightarrow>
     \<not> list_ex (\<lambda>e. er_session_id e = se_session_id s) (db_events db) \<and>
     (db_has_recordings db \<longrightarrow>
        \<not> list_ex (\<lambda>a. ar_session_id a = se_session_id s) (db_actions db) \<and>
        \<not> list_ex (\<lambda>r. rc_session_id r = se_session_id s) (db_recordings db))"

definition delete_empty_sessions :: "store_db \<Rightarrow> nat \<times> store_db" where
  "delete_empty_sessions db =
     (let P = (\<lambda>s. se_ended_at s \<noteq> None \<and> session_empty db s)
      in (length (filter P (db_sessions db)),
          db\<lparr>db_sessions := filter (\<lambda>s. \<not> P s) (db_sessions db)\<rparr>))"

definition request_expired :: "int \<Rightarrow> store_db \<Rightarrow> request_row \<Rightarrow> bool" where
  "request_expired cutoff_ms db q \<longleftrightarrow>
     rq_expires_at q < cutoff_ms \<and>
     (case rq_fulfilled q of None \<Rightarrow> True | Some rid \<Rightarrow> \<not> recording_exists db rid)"

definition delete_expired_requests :: "int \<Rightarrow> store_db \<Rightarrow> nat \<times> store_db" where
  "delete_expired_requests cutoff_ms db =
     (length (filter (request_expired cutoff_ms db) (db_requests db)),
      db\<lparr>db_requests := filter (\<lambda>q. \<not> request_expired cutoff_ms db q) (db_requests db)\<rparr>)"

definition selector_used :: "action_row list \<Rightarrow> int \<Rightarrow> bool" where
  "selector_used actions selector_id = list_ex (\<lambda>a. ar_selector_id a = Some selector_id) actions"

definition sweep_orphan_selector_paths :: "store_db \<Rightarrow> nat \<times> store_db" where
  "sweep_orphan_selector_paths db =
     (length (filter (\<lambda>s. \<not> selector_used (db_actions db) s) (db_selectors db)),
      db\<lparr>db_selectors := filter (selector_used (db_actions db)) (db_selectors db)\<rparr>)"

section \<open>Operations\<close>

record prune_report =
  pr_events_deleted :: nat
  pr_sessions_deleted :: nat

definition prune_old_activity :: "int \<Rightarrow> int \<Rightarrow> store_db \<Rightarrow> prune_report \<times> store_db" where
  "prune_old_activity cutoff_ms performed_at db =
     (let (_, db, audit) = delete_actions_where (\<lambda>a. ar_ts a < cutoff_ms) (db, []);
          (events_deleted, db, audit) = delete_events_where (\<lambda>e. er_ts e < cutoff_ms) (db, audit);
          (_, db) = delete_empty_recordings cutoff_ms db;
          (_, db, audit) = delete_actions_where (orphan_action db) (db, audit);
          (sessions_deleted, db) = delete_empty_sessions db;
          (_, db) = delete_expired_requests cutoff_ms db;
          (_, db) = sweep_orphan_selector_paths db
      in (\<lparr>pr_events_deleted = events_deleted, pr_sessions_deleted = sessions_deleted\<rparr>,
          record_deletion_audit DELETION_AUDIT_KIND_STARTUP_RETENTION performed_at
            (Some cutoff_ms) audit db))"

record dashboard_prune_result =
  dr_events_deleted :: nat
  dr_sessions_deleted :: nat
  dr_action_events_deleted :: nat
  dr_record_sessions_deleted :: nat
  dr_record_requests_deleted :: nat
  dr_selector_paths_deleted :: nat

text \<open>A statement of the recording tables, skipped where they do not exist.\<close>

definition if_recordings :: "(store_db \<Rightarrow> nat \<times> store_db) \<Rightarrow> store_db \<Rightarrow> nat \<times> store_db" where
  "if_recordings statement db = (if db_has_recordings db then statement db else (0, db))"

definition prune_actions ::
    "(action_row \<Rightarrow> bool) \<Rightarrow> store_db \<times> audit_aggregate \<Rightarrow> nat \<times> store_db \<times> audit_aggregate" where
  "prune_actions P state =
     (if db_has_recordings (fst state) then delete_actions_where P state else (0, state))"

definition prune_old_event_rows :: "int \<Rightarrow> int \<Rightarrow> store_db \<Rightarrow> dashboard_prune_result \<times> store_db" where
  "prune_old_event_rows cutoff_ms performed_at db =
     (let (old_actions, db, audit) = prune_actions (\<lambda>a. ar_ts a < cutoff_ms) (db, []);
          (events_deleted, db, audit) = delete_events_where (\<lambda>e. er_ts e < cutoff_ms) (db, audit);
          (recordings_deleted, db) = if_recordings (delete_empty_recordings cutoff_ms) db;
          (orphan_actions, db, audit) = prune_actions (orphan_action db) (db, audit);
          (sessions_deleted, db) = delete_empty_sessions db;
          (requests_deleted, db) = if_recordings (delete_expired_requests cutoff_ms) db;
          (selectors_deleted, db) = if_recordings sweep_orphan_selector_paths db
      in (\<lparr>dr_events_deleted = events_deleted, dr_sessions_deleted = sessions_deleted,
           dr_action_events_deleted = old_actions + orphan_actions,
           dr_record_sessions_deleted = recordings_deleted,
           dr_record_requests_deleted = requests_deleted,
           dr_selector_paths_deleted = selectors_deleted\<rparr>,
          record_deletion_audit DELETION_AUDIT_KIND_DASHBOARD_PRUNE performed_at
            (Some cutoff_ms) audit db))"

definition total_deleted :: "dashboard_prune_result \<Rightarrow> nat" where
  "total_deleted r =
     dr_events_deleted r + dr_sessions_deleted r + dr_action_events_deleted r +
     dr_record_sessions_deleted r + dr_record_requests_deleted r + dr_selector_paths_deleted r"

subsection \<open>The preview\<close>

record dashboard_prune_preview =
  dp_cutoff_ms :: int
  dp_events :: nat
  dp_ended_empty_sessions :: nat
  dp_action_events :: nat
  dp_ended_empty_record_sessions :: nat
  dp_record_requests :: nat
  dp_selector_paths :: nat

definition total_rows :: "dashboard_prune_preview \<Rightarrow> nat" where
  "total_rows p =
     dp_events p + dp_ended_empty_sessions p + dp_action_events p +
     dp_ended_empty_record_sessions p + dp_record_requests p + dp_selector_paths p"

definition pruned_recording :: "int \<Rightarrow> store_db \<Rightarrow> recording_row \<Rightarrow> bool" where
  "pruned_recording cutoff_ms db r \<longleftrightarrow>
     before cutoff_ms (rc_ended_ts r) \<and>
     \<not> list_ex (\<lambda>a. ar_record_session_id a = rc_record_session_id r \<and> ar_ts a \<ge> cutoff_ms)
         (db_actions db)"

definition pruned_recording_ids :: "int \<Rightarrow> store_db \<Rightarrow> int list" where
  "pruned_recording_ids cutoff_ms db =
     map rc_record_session_id (filter (pruned_recording cutoff_ms db) (db_recordings db))"

definition pruned_session :: "int \<Rightarrow> store_db \<Rightarrow> session_row \<Rightarrow> bool" where
  "pruned_session cutoff_ms db s \<longleftrightarrow>
     se_ended_at s \<noteq> None \<and>
     \<not> list_ex (\<lambda>e. er_session_id e = se_session_id s \<and> er_ts e \<ge> cutoff_ms) (db_events db) \<and>
     (db_has_recordings db \<longrightarrow>
        \<not> list_ex (\<lambda>a. ar_session_id a = se_session_id s \<and> ar_ts a \<ge> cutoff_ms) (db_actions db) \<and>
        \<not> list_ex (\<lambda>r. rc_session_id r = se_session_id s \<and>
             rc_record_session_id r \<notin> set (pruned_recording_ids cutoff_ms db)) (db_recordings db))"

definition pruned_request :: "int \<Rightarrow> store_db \<Rightarrow> request_row \<Rightarrow> bool" where
  "pruned_request cutoff_ms db q \<longleftrightarrow>
     rq_expires_at q < cutoff_ms \<and>
     (case rq_fulfilled q of
        None \<Rightarrow> True
      | Some rid \<Rightarrow>
          \<not> list_ex (\<lambda>r. rc_record_session_id r = rid \<and>
               rc_record_session_id r \<notin> set (pruned_recording_ids cutoff_ms db)) (db_recordings db))"

definition pruned_selector :: "int \<Rightarrow> store_db \<Rightarrow> int \<Rightarrow> bool" where
  "pruned_selector cutoff_ms db s \<longleftrightarrow>
     \<not> list_ex (\<lambda>a. ar_selector_id a = Some s \<and> ar_ts a \<ge> cutoff_ms) (db_actions db)"

definition prune_preview :: "int \<Rightarrow> store_db \<Rightarrow> dashboard_prune_preview" where
  "prune_preview cutoff_ms db =
     (let count = (\<lambda>n. if db_has_recordings db then n else 0)
      in \<lparr>dp_cutoff_ms = cutoff_ms,
          dp_events = length (filter (\<lambda>e. er_ts e < cutoff_ms) (db_events db)),
          dp_ended_empty_sessions = length (filter (pruned_session cutoff_ms db) (db_sessions db)),
          dp_action_events = count (length (filter (\<lambda>a. ar_ts a < cutoff_ms) (db_actions db))),
          dp_ended_empty_record_sessions =
            count (length (filter (pruned_recording cutoff_ms db) (db_recordings db))),
          dp_record_requests = count (length (filter (pruned_request cutoff_ms db) (db_requests db))),
          dp_selector_paths = count (length (filter (pruned_selector cutoff_ms db) (db_selectors db)))\<rparr>)"

subsection \<open>Mouse moves, chosen events, one recording\<close>

lemma record_deletion_audit_frame [simp]:
  "db_events (record_deletion_audit kind at cutoff spans db) = db_events db"
  "db_actions (record_deletion_audit kind at cutoff spans db) = db_actions db"
  "db_sessions (record_deletion_audit kind at cutoff spans db) = db_sessions db"
  "db_recordings (record_deletion_audit kind at cutoff spans db) = db_recordings db"
  "db_requests (record_deletion_audit kind at cutoff spans db) = db_requests db"
  "db_selectors (record_deletion_audit kind at cutoff spans db) = db_selectors db"
  "db_has_audit (record_deletion_audit kind at cutoff spans db) = db_has_audit db"
  "db_has_recordings (record_deletion_audit kind at cutoff spans db) = db_has_recordings db"
  by (simp_all add: record_deletion_audit_def)

text \<open>Each batch is a transaction with its own audit rows.\<close>

definition PRUNE_BATCH :: nat where "PRUNE_BATCH = 20000"

function prune_mouse_moves_before :: "int \<Rightarrow> int \<Rightarrow> store_db \<Rightarrow> nat \<times> store_db" where
  "prune_mouse_moves_before cutoff_ms performed_at db =
     (let (deleted, rows) = delete_limit PRUNE_BATCH
            (\<lambda>e. er_kind e = ''mouse_move'' \<and> er_ts e < cutoff_ms) (db_events db);
          db = record_deletion_audit DELETION_AUDIT_KIND_MOUSE_MOVE_RETENTION performed_at
                 (Some cutoff_ms) (audit_notes (map event_key deleted) []) (db\<lparr>db_events := rows\<rparr>)
      in if length deleted < PRUNE_BATCH then (length deleted, db)
         else let (total, db) = prune_mouse_moves_before cutoff_ms performed_at db
              in (length deleted + total, db))"
  by pat_completeness auto

termination
proof (relation "measure (\<lambda>(cutoff_ms, performed_at, db). length (db_events db))")
  fix cutoff_ms performed_at :: int and db db' :: store_db and x deleted rows
  assume x: "x = delete_limit PRUNE_BATCH
      (\<lambda>e. er_kind e = ''mouse_move'' \<and> er_ts e < cutoff_ms) (db_events db)" "(deleted, rows) = x"
    and db': "db' = record_deletion_audit DELETION_AUDIT_KIND_MOUSE_MOVE_RETENTION performed_at
      (Some cutoff_ms) (audit_notes (map event_key deleted) []) (db\<lparr>db_events := rows\<rparr>)"
    and full: "\<not> length deleted < PRUNE_BATCH"
  have "length deleted + length rows = length (db_events db)"
    using delete_limit_length [of PRUNE_BATCH
        "\<lambda>e. er_kind e = ''mouse_move'' \<and> er_ts e < cutoff_ms" "db_events db"] x
    by (metis fst_conv snd_conv)
  then show "((cutoff_ms, performed_at, db'), cutoff_ms, performed_at, db)
      \<in> measure (\<lambda>(cutoff_ms, performed_at, db). length (db_events db))"
    using full by (simp add: db' PRUNE_BATCH_def)
qed simp

declare prune_mouse_moves_before.simps [simp del]

definition delete_event_ids ::
    "int list \<Rightarrow> store_db \<times> audit_aggregate \<times> nat \<Rightarrow> store_db \<times> audit_aggregate \<times> nat" where
  "delete_event_ids ids state =
     foldl (\<lambda>(db, audit, deleted) eid.
              let rows = filter (\<lambda>e. er_id e = eid) (db_events db)
              in (db\<lparr>db_events := filter (\<lambda>e. er_id e \<noteq> eid) (db_events db)\<rparr>,
                  audit_notes (map event_key rows) audit, deleted + length rows)) state ids"

definition delete_events :: "int list \<Rightarrow> int \<Rightarrow> store_db \<Rightarrow> nat \<times> store_db" where
  "delete_events event_ids performed_at db =
     (let ids = sort (remdups event_ids)
      in if ids = [] then (0, db)
         else let (db, audit, deleted) = delete_event_ids ids (db, [], 0)
              in (deleted, record_deletion_audit DELETION_AUDIT_KIND_EVENT_DELETE performed_at None
                    audit db))"

datatype retention_error = CannotDeleteOpenRecording

definition delete_recording_rows ::
    "int \<Rightarrow> int \<Rightarrow> store_db \<Rightarrow> retention_error + nat \<times> store_db" where
  "delete_recording_rows record_session_id performed_at db =
     (case find (\<lambda>r. rc_record_session_id r = record_session_id) (db_recordings db) of
        None \<Rightarrow> Inr (0, db)
      | Some row \<Rightarrow>
          if rc_ended_ts row = None then Inl CannotDeleteOpenRecording
          else
            let (_, db, audit) = delete_actions_where
                  (\<lambda>a. ar_record_session_id a = record_session_id) (db, []);
                db = record_deletion_audit DELETION_AUDIT_KIND_RECORDING_DELETE performed_at None
                       audit db;
                P = (\<lambda>r. rc_record_session_id r = record_session_id);
                deleted = length (filter P (db_recordings db));
                db = db\<lparr>db_recordings := filter (\<lambda>r. \<not> P r) (db_recordings db)\<rparr>;
                Q = (\<lambda>q. rq_fulfilled q = Some record_session_id \<or>
                        rc_request_id row = Some (rq_request_id q));
                db = db\<lparr>db_requests := filter (\<lambda>q. \<not> Q q) (db_requests db)\<rparr>;
                (_, db) = sweep_orphan_selector_paths db
            in Inr (deleted, db))"

definition delete_recording :: "int \<Rightarrow> int \<Rightarrow> store_db \<Rightarrow> retention_error + nat \<times> store_db" where
  "delete_recording record_session_id performed_at db =
     (if \<not> db_has_recordings db then Inr (0, db)
      else delete_recording_rows record_session_id performed_at db)"

end
