(* ===== verification/Retention_Laws.thy ===== *)
theory Retention_Laws
  imports Retention
begin

text \<open>
  What deletion promises: the audit accounts for every row that went, retention keeps exactly
  the recent rows and the references among them, the dashboard's preview is what its prune
  then deletes, and deleting a recording removes all of it and nothing else.
\<close>

section \<open>The aggregate\<close>

definition audit_sum :: "int \<Rightarrow> audit_aggregate \<Rightarrow> int" where
  "audit_sum s spans = (\<Sum>(s', span) \<leftarrow> spans. if s' = s then as_rows_deleted span else 0)"

definition span_covers :: "audit_aggregate \<Rightarrow> int \<times> int \<Rightarrow> bool" where
  "span_covers spans key \<longleftrightarrow>
     (\<exists>(s, span) \<in> set spans. s = fst key \<and> as_seq_min span \<le> snd key \<and> snd key \<le> as_seq_max span)"

lemma audit_note_sum: "audit_sum s (audit_note key spans) = audit_sum s spans + (if fst key = s then 1 else 0)"
  by (induction key spans rule: audit_note.induct) (auto simp: audit_sum_def)

lemma audit_notes_sum:
  "audit_sum s (audit_notes keys spans) = audit_sum s spans + int (length (filter (\<lambda>key. fst key = s) keys))"
  unfolding audit_notes_def by (induction keys arbitrary: spans) (simp_all add: audit_note_sum)

lemma audit_note_covers:
  "span_covers (audit_note key spans) key"
  "span_covers spans key' \<Longrightarrow> span_covers (audit_note key spans) key'"
  by (induction key spans rule: audit_note.induct) (auto simp: span_covers_def split: if_splits)

lemma audit_notes_cover:
  "span_covers spans key \<or> key \<in> set keys \<Longrightarrow> span_covers (audit_notes keys spans) key"
proof (induction keys arbitrary: spans)
  case (Cons k keys)
  then have "span_covers (audit_note k spans) key \<or> key \<in> set keys"
    using audit_note_covers by (metis set_ConsD)
  then show ?case using Cons.IH by (simp add: audit_notes_def)
qed (simp add: audit_notes_def)

lemma audit_notes_empty: "audit_notes keys [] = [] \<Longrightarrow> keys = []"
  using audit_notes_cover [of "[]" _ keys] by (cases keys) (auto simp: span_covers_def)

section \<open>Accounting\<close>

definition keys_of :: "store_db \<Rightarrow> (int \<times> int) list" where
  "keys_of db = map event_key (db_events db) @ map action_key (db_actions db)"

definition rows_present :: "int \<Rightarrow> store_db \<Rightarrow> int" where
  "rows_present s db = int (length (filter (\<lambda>key. fst key = s) (keys_of db)))"

definition rows_audited :: "int \<Rightarrow> store_db \<Rightarrow> int" where
  "rows_audited s db = (\<Sum>a \<leftarrow> db_audit db. if au_session_id a = s then au_rows_deleted a else 0)"

definition explained_deletion :: "store_db \<Rightarrow> int \<times> int \<Rightarrow> bool" where
  "explained_deletion db key \<longleftrightarrow>
     (\<exists>a \<in> set (db_audit db). au_session_id a = fst key \<and> au_seq_min a \<le> snd key \<and> snd key \<le> au_seq_max a)"

definition accounted :: "store_db \<Rightarrow> store_db \<Rightarrow> bool" where
  "accounted db db' \<longleftrightarrow>
     (\<forall>s. rows_present s db' + rows_audited s db' = rows_present s db + rows_audited s db) \<and>
     mset (keys_of db') \<subseteq># mset (keys_of db) \<and>
     (\<forall>key \<in> set (keys_of db). key \<in> set (keys_of db') \<or> explained_deletion db' key) \<and>
     set (db_audit db) \<subseteq> set (db_audit db') \<and> db_has_audit db' = db_has_audit db"

lemma accounted_refl: "accounted db db"
  by (simp add: accounted_def)

lemma accounted_trans: "accounted db db' \<Longrightarrow> accounted db' db'' \<Longrightarrow> accounted db db''"
proof -
  assume a: "accounted db db'" and b: "accounted db' db''"
  have "mset (keys_of db'') \<subseteq># mset (keys_of db)"
    using a b subset_mset.order_trans unfolding accounted_def by blast
  moreover have "key \<in> set (keys_of db'') \<or> explained_deletion db'' key" if "key \<in> set (keys_of db)" for key
    using a b that unfolding accounted_def explained_deletion_def by blast
  ultimately show ?thesis using a b unfolding accounted_def by auto
qed

lemma accounted_transaction:
  assumes "db_has_audit db" and "mset (keys_of db) = mset (keys_of db') + mset keys"
    and "db_audit db' = db_audit db" "db_has_audit db' = db_has_audit db"
  shows "accounted db (record_deletion_audit kind at cutoff (audit_notes keys []) db')"
proof -
  let ?after = "record_deletion_audit kind at cutoff (audit_notes keys []) db'"
  have after: "keys_of ?after = keys_of db'"
    by (simp add: keys_of_def)
  have count: "rows_present s db = rows_present s db' + int (length (filter (\<lambda>key. fst key = s) keys))" for s
    using arg_cong [OF assms(2), of "\<lambda>M. size (filter_mset (\<lambda>key. fst key = s) M)"]
    by (simp add: rows_present_def flip: mset_filter)
  have keys: "set (keys_of db) = set (keys_of db') \<union> set keys"
    using arg_cong [OF assms(2), of set_mset] by simp
  have audited: "rows_audited s ?after = rows_audited s db + int (length (filter (\<lambda>key. fst key = s) keys))" for s
  proof (cases "audit_notes keys [] = []")
    case True
    then show ?thesis
      using audit_notes_empty [OF True] assms(3) by (simp add: record_deletion_audit_def rows_audited_def)
  next
    case False
    have "rows_audited s ?after = rows_audited s db + audit_sum s (audit_notes keys [])"
      using False assms by (simp add: record_deletion_audit_def rows_audited_def audit_sum_def
          comp_def split_def cong: if_cong)
    then show ?thesis using audit_notes_sum [of s keys "[]"] by (simp add: audit_sum_def)
  qed
  have "explained_deletion ?after key" if "key \<in> set keys" for key
  proof -
    have covers: "span_covers (audit_notes keys []) key" using that audit_notes_cover by blast
    then have "audit_notes keys [] \<noteq> []" by (auto simp: span_covers_def)
    then show ?thesis
      using covers assms
      by (simp add: record_deletion_audit_def explained_deletion_def span_covers_def bex_Un split_def)
  qed
  moreover have "set (db_audit db) \<subseteq> set (db_audit ?after)"
    using assms(3) by (auto simp: record_deletion_audit_def)
  moreover have "mset (keys_of ?after) \<subseteq># mset (keys_of db)"
    using after assms(2) by simp
  ultimately show ?thesis
    using after count audited keys assms(4) unfolding accounted_def
    by (auto simp: rows_present_def)
qed

text \<open>Any set of operations that each account for what they delete does so in every run.\<close>

locale accounted_steps =
  fixes step :: "'op \<Rightarrow> store_db \<Rightarrow> store_db"
  assumes step_accounted: "db_has_audit db \<Longrightarrow> accounted db (step op db)"
begin

lemma run_accounted: "db_has_audit db \<Longrightarrow> accounted db (foldl (\<lambda>db op. step op db) db ops)"
proof (induction ops arbitrary: db)
  case (Cons op ops)
  have "db_has_audit (step op db)"
    using step_accounted [OF Cons.prems] Cons.prems by (simp add: accounted_def)
  from accounted_trans [OF step_accounted [OF Cons.prems] Cons.IH [OF this]]
  show ?case by simp
qed (simp add: accounted_refl)

end

subsection \<open>The operations\<close>

lemma delete_where_simps [simp]:
  "delete_events_where P (db, audit) =
     (length (filter P (db_events db)), db\<lparr>db_events := filter (\<lambda>e. \<not> P e) (db_events db)\<rparr>,
      audit_notes (map event_key (filter P (db_events db))) audit)"
  "delete_actions_where R (db, audit) =
     (length (filter R (db_actions db)), db\<lparr>db_actions := filter (\<lambda>a. \<not> R a) (db_actions db)\<rparr>,
      audit_notes (map action_key (filter R (db_actions db))) audit)"
  by (simp_all add: delete_events_where_def delete_actions_where_def delete_returning_batched_unbounded)

lemma mset_map_split: "mset (map f xs) = mset (map f (filter (\<lambda>x. \<not> P x) xs)) + mset (map f (filter P xs))"
  by (induction xs) auto

lemma keys_of_delete:
  "mset (keys_of db) = mset (keys_of (db\<lparr>db_events := filter (\<lambda>e. \<not> P e) (db_events db)\<rparr>))
     + mset (map event_key (filter P (db_events db)))"
  "mset (keys_of db) = mset (keys_of (db\<lparr>db_actions := filter (\<lambda>a. \<not> R a) (db_actions db)\<rparr>))
     + mset (map action_key (filter R (db_actions db)))"
  using mset_map_split [of event_key "db_events db" P] mset_map_split [of action_key "db_actions db" R]
  by (simp_all add: keys_of_def)

text \<open>Both prunes run the same statements where the recording tables exist.\<close>

lemma prune_transaction:
  "\<exists>keys db'. mset (keys_of db) = mset (keys_of db') + mset keys \<and> db_audit db' = db_audit db \<and>
     db_has_audit db' = db_has_audit db \<and> set (db_sessions db') \<subseteq> set (db_sessions db) \<and>
     db_has_recordings db' = db_has_recordings db \<and>
     snd (prune_old_activity cutoff at db) = record_deletion_audit DELETION_AUDIT_KIND_STARTUP_RETENTION
       at (Some cutoff) (audit_notes keys []) db' \<and>
     (db_has_recordings db \<longrightarrow> snd (prune_old_event_rows cutoff at db) =
        record_deletion_audit DELETION_AUDIT_KIND_DASHBOARD_PRUNE at (Some cutoff) (audit_notes keys []) db')"
proof -
  define old where "old = filter (\<lambda>a. ar_ts a < cutoff) (db_actions db)"
  define gone where "gone = filter (\<lambda>e. er_ts e < cutoff) (db_events db)"
  let ?db1 = "db\<lparr>db_actions := filter (\<lambda>a. \<not> ar_ts a < cutoff) (db_actions db)\<rparr>"
  let ?db2 = "?db1\<lparr>db_events := filter (\<lambda>e. \<not> er_ts e < cutoff) (db_events db)\<rparr>"
  let ?db3 = "snd (delete_empty_recordings cutoff ?db2)"
  define orphans where "orphans = filter (orphan_action ?db3) (db_actions ?db3)"
  let ?db4 = "?db3\<lparr>db_actions := filter (\<lambda>a. \<not> orphan_action ?db3 a) (db_actions ?db3)\<rparr>"
  let ?db7 = "snd (sweep_orphan_selector_paths (snd (delete_expired_requests cutoff (snd (delete_empty_sessions ?db4)))))"
  let ?keys = "map action_key old @ map event_key gone @ map action_key orphans"
  have frame: "keys_of ?db3 = keys_of ?db2" "keys_of ?db7 = keys_of ?db4" "db_audit ?db7 = db_audit db"
    "db_has_audit ?db7 = db_has_audit db" "set (db_sessions ?db7) \<subseteq> set (db_sessions db)"
    "db_has_recordings ?db7 = db_has_recordings db"
    by (auto simp add: keys_of_def delete_empty_recordings_def delete_empty_sessions_def
        delete_expired_requests_def sweep_orphan_selector_paths_def Let_def)
  have keys: "mset (keys_of db) = mset (keys_of ?db7) + mset ?keys"
    using keys_of_delete(2) [of db "\<lambda>a. ar_ts a < cutoff"] keys_of_delete(1) [of ?db1 "\<lambda>e. er_ts e < cutoff"]
      keys_of_delete(2) [of ?db3 "orphan_action ?db3"]
    by (simp only: frame old_def gone_def orphans_def mset_append) (simp add: add_ac)
  have startup: "snd (prune_old_activity cutoff at db) =
      record_deletion_audit DELETION_AUDIT_KIND_STARTUP_RETENTION at (Some cutoff) (audit_notes ?keys []) ?db7"
    by (simp add: prune_old_activity_def Let_def split_def audit_notes_append old_def gone_def orphans_def)
  have flags: "db_has_recordings ?db3 = db_has_recordings db"
    "db_has_recordings (snd (delete_empty_sessions ?db4)) = db_has_recordings db"
    "db_has_recordings (snd (delete_expired_requests cutoff (snd (delete_empty_sessions ?db4)))) = db_has_recordings db"
    by (simp_all add: delete_empty_recordings_def delete_empty_sessions_def delete_expired_requests_def Let_def)
  have "snd (prune_old_event_rows cutoff at db) =
      record_deletion_audit DELETION_AUDIT_KIND_DASHBOARD_PRUNE at (Some cutoff) (audit_notes ?keys []) ?db7"
    if "db_has_recordings db"
    using that flags
    by (simp add: prune_old_event_rows_def prune_actions_def if_recordings_def Let_def split_def
        audit_notes_append old_def gone_def orphans_def)
  then show ?thesis using keys frame(3-6) startup by blast
qed

lemma dashboard_prune_plain:
  assumes "\<not> db_has_recordings db"
  shows "snd (prune_old_event_rows cutoff at db) =
    record_deletion_audit DELETION_AUDIT_KIND_DASHBOARD_PRUNE at (Some cutoff)
      (audit_notes (map event_key (filter (\<lambda>e. er_ts e < cutoff) (db_events db))) [])
      (snd (delete_empty_sessions (db\<lparr>db_events := filter (\<lambda>e. \<not> er_ts e < cutoff) (db_events db)\<rparr>)))"
proof -
  have flags: "db_has_recordings (snd (delete_empty_sessions d)) = db_has_recordings d" for d
    by (simp add: delete_empty_sessions_def Let_def)
  show ?thesis
    using assms
    by (simp add: prune_old_event_rows_def prune_actions_def if_recordings_def Let_def split_def flags)
qed

lemma prunes_accounted:
  assumes "db_has_audit db"
  shows "accounted db (snd (prune_old_activity cutoff at db))"
    and "accounted db (snd (prune_old_event_rows cutoff at db))"
proof -
  obtain keys db' where t: "mset (keys_of db) = mset (keys_of db') + mset keys" "db_audit db' = db_audit db"
    "db_has_audit db' = db_has_audit db"
    "snd (prune_old_activity cutoff at db) = record_deletion_audit DELETION_AUDIT_KIND_STARTUP_RETENTION
       at (Some cutoff) (audit_notes keys []) db'"
    "db_has_recordings db \<longrightarrow> snd (prune_old_event_rows cutoff at db) =
        record_deletion_audit DELETION_AUDIT_KIND_DASHBOARD_PRUNE at (Some cutoff) (audit_notes keys []) db'"
    using prune_transaction by blast
  show "accounted db (snd (prune_old_activity cutoff at db))"
    unfolding t(4) by (rule accounted_transaction [OF assms t(1-3)])
  show "accounted db (snd (prune_old_event_rows cutoff at db))"
  proof (cases "db_has_recordings db")
    case True
    with t(5) show ?thesis using accounted_transaction [OF assms t(1-3)] by simp
  next
    case False
    let ?kept = "db\<lparr>db_events := filter (\<lambda>e. \<not> er_ts e < cutoff) (db_events db)\<rparr>"
    have "keys_of (snd (delete_empty_sessions ?kept)) = keys_of ?kept"
      "db_audit (snd (delete_empty_sessions ?kept)) = db_audit db"
      "db_has_audit (snd (delete_empty_sessions ?kept)) = db_has_audit db"
      by (simp_all add: delete_empty_sessions_def keys_of_def Let_def)
    then show ?thesis
      unfolding dashboard_prune_plain [OF False] using keys_of_delete(1) [of db "\<lambda>e. er_ts e < cutoff"]
      by (intro accounted_transaction [OF assms]) simp_all
  qed
qed

lemma mouse_moves_accounted:
  "db_has_audit db \<Longrightarrow> accounted db (snd (prune_mouse_moves_before cutoff at db))"
proof (induction cutoff at db rule: prune_mouse_moves_before.induct)
  case (1 cutoff at db)
  let ?P = "\<lambda>e. er_kind e = ''mouse_move'' \<and> er_ts e < cutoff"
  obtain deleted rows where d: "delete_limit PRUNE_BATCH ?P (db_events db) = (deleted, rows)" by fastforce
  let ?after = "record_deletion_audit DELETION_AUDIT_KIND_MOUSE_MOVE_RETENTION at (Some cutoff)
      (audit_notes (map event_key deleted) []) (db\<lparr>db_events := rows\<rparr>)"
  have "mset (db_events db) = mset rows + mset deleted"
    using delete_limit_mset [of "db_events db" PRUNE_BATCH ?P] d by simp
  then have "mset (keys_of db) = mset (keys_of (db\<lparr>db_events := rows\<rparr>)) + mset (map event_key deleted)"
    by (simp add: keys_of_def)
  then have step: "accounted db ?after"
    by (intro accounted_transaction [OF "1.prems"]) simp_all
  have "accounted ?after (snd (prune_mouse_moves_before cutoff at ?after))"
    if "\<not> length deleted < PRUNE_BATCH"
    using "1.IH" [OF refl d [symmetric] refl that] "1.prems" by simp
  then show ?case
    using step accounted_trans [OF step]
    by (simp add: prune_mouse_moves_before.simps [of cutoff at db] d Let_def split_def)
qed

lemma delete_event_ids_spec:
  "delete_event_ids ids (db, audit, n) = (db', audit', n') \<Longrightarrow>
   db' = db\<lparr>db_events := filter (\<lambda>e. er_id e \<notin> set ids) (db_events db)\<rparr> \<and>
   (\<exists>keys. audit' = audit_notes keys audit \<and> mset (keys_of db) = mset (keys_of db') + mset keys) \<and>
   n' + length (db_events db') = n + length (db_events db)"
proof (induction ids arbitrary: db audit n)
  case Nil
  then show ?case by (auto simp: delete_event_ids_def audit_notes_def intro: exI [of _ "[]"])
next
  case (Cons eid ids)
  let ?gone = "filter (\<lambda>e. er_id e = eid) (db_events db)"
  let ?db = "db\<lparr>db_events := filter (\<lambda>e. er_id e \<noteq> eid) (db_events db)\<rparr>"
  have "delete_event_ids ids (?db, audit_notes (map event_key ?gone) audit, n + length ?gone) = (db', audit', n')"
    using Cons.prems by (simp add: delete_event_ids_def Let_def)
  note rest = Cons.IH [OF this]
  obtain keys where keys: "audit' = audit_notes keys (audit_notes (map event_key ?gone) audit)"
    "mset (keys_of ?db) = mset (keys_of db') + mset keys"
    using rest by blast
  have "mset (keys_of db) = mset (keys_of db') + mset (map event_key ?gone @ keys)"
    using keys(2) keys_of_delete(1) [of db "\<lambda>e. er_id e = eid"] by simp
  moreover have "audit' = audit_notes (map event_key ?gone @ keys) audit"
    using keys(1) by (simp add: audit_notes_append)
  moreover have "db' = db\<lparr>db_events := filter (\<lambda>e. er_id e \<notin> set (eid # ids)) (db_events db)\<rparr>"
    using rest by simp
  moreover have "n' + length (db_events db') = n + length (db_events db)"
  proof -
    have "n' + length (db_events db') = n + length ?gone + length (db_events ?db)"
      using rest by blast
    then show ?thesis
      using sum_length_filter_compl [of "\<lambda>e. er_id e = eid" "db_events db"] by simp
  qed
  ultimately show ?case by blast
qed

lemma delete_events_spec:
  "\<exists>keys. mset (keys_of db) = mset (keys_of (db\<lparr>db_events := filter (\<lambda>e. er_id e \<notin> set ids) (db_events db)\<rparr>)) + mset keys \<and>
     snd (delete_events ids at db) = record_deletion_audit DELETION_AUDIT_KIND_EVENT_DELETE at None
       (audit_notes keys []) (db\<lparr>db_events := filter (\<lambda>e. er_id e \<notin> set ids) (db_events db)\<rparr>)"
proof (cases "ids = []")
  case True
  then show ?thesis
    by (intro exI [of _ "[]"]) (simp add: delete_events_def record_deletion_audit_def audit_notes_def)
next
  case False
  obtain db' audit n where d: "delete_event_ids (sort (remdups ids)) (db, [], 0) = (db', audit, n)"
    by (metis prod_cases3)
  from False have "sort (remdups ids) \<noteq> []"
    by (metis set_empty set_remdups set_sort)
  then have "snd (delete_events ids at db) = record_deletion_audit DELETION_AUDIT_KIND_EVENT_DELETE at None audit db'"
    using d by (simp add: delete_events_def Let_def)
  then show ?thesis using delete_event_ids_spec [OF d] by auto
qed

lemma delete_events_accounted: "db_has_audit db \<Longrightarrow> accounted db (snd (delete_events ids at db))"
  using delete_events_spec [of db ids at] accounted_transaction by fastforce

lemma delete_recording_closed:
  assumes "find (\<lambda>r. rc_record_session_id r = rid) (db_recordings db) = Some row"
    and "rc_ended_ts row \<noteq> None" "db_has_recordings db"
  defines "kept \<equiv> filter (\<lambda>a. ar_record_session_id a \<noteq> rid) (db_actions db)"
  shows "delete_recording rid at db =
    Inr (length (filter (\<lambda>r. rc_record_session_id r = rid) (db_recordings db)),
      (record_deletion_audit DELETION_AUDIT_KIND_RECORDING_DELETE at None
         (audit_notes (map action_key (filter (\<lambda>a. ar_record_session_id a = rid) (db_actions db))) [])
         (db\<lparr>db_actions := kept\<rparr>))
      \<lparr>db_recordings := filter (\<lambda>r. rc_record_session_id r \<noteq> rid) (db_recordings db),
       db_requests := filter (\<lambda>q. rq_fulfilled q \<noteq> Some rid \<and> rc_request_id row \<noteq> Some (rq_request_id q))
         (db_requests db),
       db_selectors := filter (selector_used kept) (db_selectors db)\<rparr>)"
  using assms
  by (simp add: delete_recording_def delete_recording_rows_def Let_def split_def sweep_orphan_selector_paths_def)

definition after_recording_delete :: "int \<Rightarrow> int \<Rightarrow> store_db \<Rightarrow> store_db" where
  "after_recording_delete rid at db =
     (case delete_recording rid at db of Inl _ \<Rightarrow> db | Inr (_, db') \<Rightarrow> db')"

lemma after_recording_delete_cases:
  obtains (same) "after_recording_delete rid at db = db"
  | (gone) row where "find (\<lambda>r. rc_record_session_id r = rid) (db_recordings db) = Some row"
      "rc_ended_ts row \<noteq> None" "db_has_recordings db"
proof -
  have "after_recording_delete rid at db = db"
    if "\<not> (\<exists>row. find (\<lambda>r. rc_record_session_id r = rid) (db_recordings db) = Some row \<and>
      rc_ended_ts row \<noteq> None \<and> db_has_recordings db)"
    using that by (auto simp: after_recording_delete_def delete_recording_def delete_recording_rows_def
        split: option.splits)
  then show thesis using same gone by blast
qed

lemma recording_delete_accounted: "db_has_audit db \<Longrightarrow> accounted db (after_recording_delete rid at db)"
proof (cases rule: after_recording_delete_cases [of rid at db])
  case same
  then show ?thesis by (simp add: accounted_refl)
next
  case (gone row)
  assume audit: "db_has_audit db"
  let ?kept = "db\<lparr>db_actions := filter (\<lambda>a. ar_record_session_id a \<noteq> rid) (db_actions db)\<rparr>"
  let ?keys = "map action_key (filter (\<lambda>a. ar_record_session_id a = rid) (db_actions db))"
  let ?mid = "record_deletion_audit DELETION_AUDIT_KIND_RECORDING_DELETE at None (audit_notes ?keys []) ?kept"
  have "accounted db ?mid"
    using keys_of_delete(2) [of db "\<lambda>a. ar_record_session_id a = rid"]
    by (intro accounted_transaction [OF audit]) simp_all
  moreover have "accounted ?mid (?mid\<lparr>db_recordings := rs, db_requests := qs, db_selectors := ss\<rparr>)" for rs qs ss
    by (simp add: accounted_def rows_present_def rows_audited_def keys_of_def)
  ultimately show ?thesis
    using delete_recording_closed [OF gone] accounted_trans by (simp add: after_recording_delete_def)
qed

subsection \<open>Runs\<close>

datatype retention_op =
    StartupPrune int int
  | DashboardPrune int int
  | MouseMoves int int
  | DeleteEvents "int list" int
  | DeleteRecording int int

fun retention_step :: "retention_op \<Rightarrow> store_db \<Rightarrow> store_db" where
  "retention_step (StartupPrune cutoff at) db = snd (prune_old_activity cutoff at db)"
| "retention_step (DashboardPrune cutoff at) db = snd (prune_old_event_rows cutoff at db)"
| "retention_step (MouseMoves cutoff at) db = snd (prune_mouse_moves_before cutoff at db)"
| "retention_step (DeleteEvents ids at) db = snd (delete_events ids at db)"
| "retention_step (DeleteRecording rid at) db = after_recording_delete rid at db"

interpretation retention: accounted_steps retention_step
proof
  fix op db
  show "db_has_audit db \<Longrightarrow> accounted db (retention_step op db)"
    by (cases op) (simp_all add: prunes_accounted mouse_moves_accounted delete_events_accounted
        recording_delete_accounted)
qed

definition retention_run :: "retention_op list \<Rightarrow> store_db \<Rightarrow> store_db" where
  "retention_run ops db = foldl (\<lambda>db op. retention_step op db) db ops"

text \<open>
  C12 (\<open>record_deletion_audit\<close>, \<open>delete_returning_audit_batched\<close>): the deletion audit is
  complete.  Over any sequence of prunes, mouse-move tiers and deletions, no row appears, and
  of every session the rows still stored and the rows the audit counts add up to what there
  was; a sequence number that is gone lies in a span the audit records for its session, so a
  recorded deletion can be told from lost data.
\<close>

theorem deletion_audit_accounts_for_every_row:
  assumes "db_has_audit db"
  shows "rows_present s (retention_run ops db) + rows_audited s (retention_run ops db)
           = rows_present s db + rows_audited s db \<and>
         set (keys_of (retention_run ops db)) \<subseteq> set (keys_of db) \<and>
         (\<forall>key \<in> set (keys_of db).
            key \<in> set (keys_of (retention_run ops db)) \<or> explained_deletion (retention_run ops db) key)"
  using retention.run_accounted [OF assms, of ops] set_mset_mono
  unfolding retention_run_def accounted_def by fastforce

definition sample_event :: "int \<Rightarrow> int \<Rightarrow> int \<Rightarrow> string \<Rightarrow> event_row" where
  "sample_event eid seq ts kind =
     \<lparr>er_id = eid, er_session_id = 1, er_seq = seq, er_ts = ts, er_kind = kind\<rparr>"

definition sample_store :: store_db where
  "sample_store = db_empty\<lparr>
     db_sessions := [\<lparr>se_session_id = 1, se_started_at = 0, se_ended_at = Some 90\<rparr>],
     db_events := [sample_event 1 0 10 ''key'', sample_event 2 1 20 ''mouse_move'',
                   sample_event 3 2 70 ''mouse_move'', sample_event 4 3 80 ''key'']\<rparr>"

theorem deletion_audit_accounts_for_every_row_witness:
  "rows_present 1 (retention_run [DeleteEvents [4, 4] 100, DashboardPrune 15 101] sample_store)
     + rows_audited 1 (retention_run [DeleteEvents [4, 4] 100, DashboardPrune 15 101] sample_store) = 4"
proof -
  have "db_has_audit sample_store" by (simp add: sample_store_def db_empty_def)
  from deletion_audit_accounts_for_every_row
    [OF this, of 1 "[DeleteEvents [4, 4] 100, DashboardPrune 15 101]"]
  show ?thesis
    by (simp add: rows_present_def rows_audited_def sample_store_def db_empty_def keys_of_def
        event_key_def sample_event_def)
qed

section \<open>Retention and its preview\<close>

definition pruned_db :: "int \<Rightarrow> store_db \<Rightarrow> store_db" where
  "pruned_db cutoff db = db\<lparr>
     db_actions := filter (\<lambda>a. ar_ts a \<ge> cutoff) (db_actions db),
     db_events := filter (\<lambda>e. er_ts e \<ge> cutoff) (db_events db),
     db_recordings := filter (\<lambda>r. \<not> pruned_recording cutoff db r) (db_recordings db),
     db_sessions := filter (\<lambda>s. \<not> pruned_session cutoff db s) (db_sessions db),
     db_requests := filter (\<lambda>q. \<not> pruned_request cutoff db q) (db_requests db),
     db_selectors := filter (\<lambda>s. \<not> pruned_selector cutoff db s) (db_selectors db)\<rparr>"

lemma list_ex_filter: "list_ex P (filter Q xs) = list_ex (\<lambda>x. P x \<and> Q x) xs"
  by (induction xs) auto

lemma pruned_ids:
  assumes "distinct (map rc_record_session_id (db_recordings db))" "r \<in> set (db_recordings db)"
  shows "rc_record_session_id r \<in> set (pruned_recording_ids cutoff db) \<longleftrightarrow> pruned_recording cutoff db r"
  using assms by (auto simp: pruned_recording_ids_def distinct_map dest: inj_onD)

lemma list_ex_unpruned:
  assumes "distinct (map rc_record_session_id (db_recordings db))"
  shows "list_ex (\<lambda>r. P r \<and> rc_record_session_id r \<notin> set (pruned_recording_ids cutoff db)) (db_recordings db)
    = list_ex P (filter (\<lambda>r. \<not> pruned_recording cutoff db r) (db_recordings db))"
  using pruned_ids [OF assms] by (auto simp: list_ex_iff)

text \<open>The statements of a prune, one after the other.\<close>

definition recent_db :: "int \<Rightarrow> store_db \<Rightarrow> store_db" where
  "recent_db cutoff db = db\<lparr>
     db_actions := filter (\<lambda>a. ar_ts a \<ge> cutoff) (db_actions db),
     db_events := filter (\<lambda>e. er_ts e \<ge> cutoff) (db_events db),
     db_recordings := filter (\<lambda>r. \<not> pruned_recording cutoff db r) (db_recordings db)\<rparr>"

lemma recent_db_simps [simp]:
  "db_actions (recent_db cutoff db) = filter (\<lambda>a. ar_ts a \<ge> cutoff) (db_actions db)"
  "db_events (recent_db cutoff db) = filter (\<lambda>e. er_ts e \<ge> cutoff) (db_events db)"
  "db_recordings (recent_db cutoff db) = filter (\<lambda>r. \<not> pruned_recording cutoff db r) (db_recordings db)"
  "db_sessions (recent_db cutoff db) = db_sessions db"
  "db_requests (recent_db cutoff db) = db_requests db"
  "db_selectors (recent_db cutoff db) = db_selectors db"
  "db_has_recordings (recent_db cutoff db) = db_has_recordings db"
  by (simp_all add: recent_db_def)

lemma empty_recordings_are_pruned:
  "delete_empty_recordings cutoff
     (db\<lparr>db_actions := filter (\<lambda>a. cutoff \<le> ar_ts a) (db_actions db),
         db_events := filter (\<lambda>e. cutoff \<le> er_ts e) (db_events db)\<rparr>)
   = (length (filter (pruned_recording cutoff db) (db_recordings db)), recent_db cutoff db)"
  by (simp add: delete_empty_recordings_def Let_def recording_has_actions_def list_ex_filter
      pruned_recording_def[abs_def] recent_db_def)

lemma no_orphans:
  assumes "references_ok db" "a \<in> set (db_actions db)" "ar_ts a \<ge> cutoff"
  shows "\<not> orphan_action (recent_db cutoff db) a"
proof -
  obtain r where "r \<in> set (db_recordings db)" "rc_record_session_id r = ar_record_session_id a"
    using assms by (auto simp: references_ok_def list_all_iff)
  moreover from this have "\<not> pruned_recording cutoff db r"
    using assms(2,3) by (auto simp: pruned_recording_def list_ex_iff)
  ultimately show ?thesis
    by (auto simp: orphan_action_def recording_exists_def list_ex_iff)
qed

lemma delete_no_actions:
  "list_all (\<lambda>a. \<not> P a) (db_actions d) \<Longrightarrow> delete_actions_where P (d, audit) = (0, d, audit)"
  by (simp add: list_all_iff audit_notes_def filter_empty_conv filter_id_conv)

lemma orphan_delete:
  "references_ok db \<Longrightarrow> delete_actions_where (orphan_action (recent_db cutoff db)) (recent_db cutoff db, audit)
     = (0, recent_db cutoff db, audit)"
  using no_orphans [of db _ cutoff] by (intro delete_no_actions) (auto simp: list_all_iff)

lemma empty_sessions_are_pruned:
  assumes "constraints_ok db"
  shows "se_ended_at s \<noteq> None \<and> session_empty (recent_db cutoff db) s \<longleftrightarrow> pruned_session cutoff db s"
  using assms list_ex_unpruned [of db "\<lambda>r. rc_session_id r = se_session_id s" cutoff]
  by (simp add: constraints_ok_def session_empty_def pruned_session_def list_ex_filter conj_commute)

lemma expired_requests_are_pruned:
  assumes "constraints_ok db" "db_recordings d = db_recordings (recent_db cutoff db)"
  shows "request_expired cutoff d q \<longleftrightarrow> pruned_request cutoff db q"
  using assms list_ex_unpruned [of db "\<lambda>r. rc_record_session_id r = rid" cutoff for rid]
  by (auto simp: constraints_ok_def request_expired_def pruned_request_def recording_exists_def
      split: option.splits)

lemma later_statements:
  assumes "constraints_ok db"
  shows "delete_empty_sessions (recent_db cutoff db) =
      (length (filter (pruned_session cutoff db) (db_sessions db)),
       (recent_db cutoff db)\<lparr>db_sessions := filter (\<lambda>s. \<not> pruned_session cutoff db s) (db_sessions db)\<rparr>)"
    and "delete_expired_requests cutoff
       ((recent_db cutoff db)\<lparr>db_sessions := filter (\<lambda>s. \<not> pruned_session cutoff db s) (db_sessions db)\<rparr>) =
      (length (filter (pruned_request cutoff db) (db_requests db)),
       (recent_db cutoff db)\<lparr>db_sessions := filter (\<lambda>s. \<not> pruned_session cutoff db s) (db_sessions db),
          db_requests := filter (\<lambda>q. \<not> pruned_request cutoff db q) (db_requests db)\<rparr>)"
    and "sweep_orphan_selector_paths
       ((recent_db cutoff db)\<lparr>db_sessions := filter (\<lambda>s. \<not> pruned_session cutoff db s) (db_sessions db),
          db_requests := filter (\<lambda>q. \<not> pruned_request cutoff db q) (db_requests db)\<rparr>) =
      (length (filter (pruned_selector cutoff db) (db_selectors db)), pruned_db cutoff db)"
proof -
  show "delete_empty_sessions (recent_db cutoff db) =
      (length (filter (pruned_session cutoff db) (db_sessions db)),
       (recent_db cutoff db)\<lparr>db_sessions := filter (\<lambda>s. \<not> pruned_session cutoff db s) (db_sessions db)\<rparr>)"
    by (simp only: delete_empty_sessions_def Let_def empty_sessions_are_pruned [OF assms] recent_db_simps)
  show "delete_expired_requests cutoff
       ((recent_db cutoff db)\<lparr>db_sessions := filter (\<lambda>s. \<not> pruned_session cutoff db s) (db_sessions db)\<rparr>) =
      (length (filter (pruned_request cutoff db) (db_requests db)),
       (recent_db cutoff db)\<lparr>db_sessions := filter (\<lambda>s. \<not> pruned_session cutoff db s) (db_sessions db),
          db_requests := filter (\<lambda>q. \<not> pruned_request cutoff db q) (db_requests db)\<rparr>)"
    (is "delete_expired_requests cutoff ?d = _")
  proof -
    have "request_expired cutoff ?d = pruned_request cutoff db"
      by (rule ext, rule expired_requests_are_pruned [OF assms]) simp
    then show ?thesis by (simp add: delete_expired_requests_def)
  qed
  have "selector_used (filter (\<lambda>a. ar_ts a \<ge> cutoff) (db_actions db)) s \<longleftrightarrow> \<not> pruned_selector cutoff db s" for s
    by (simp add: selector_used_def pruned_selector_def list_ex_filter)
  then have "selector_used (filter (\<lambda>a. ar_ts a \<ge> cutoff) (db_actions db)) = (\<lambda>s. \<not> pruned_selector cutoff db s)"
    by (rule ext)
  then show "sweep_orphan_selector_paths
       ((recent_db cutoff db)\<lparr>db_sessions := filter (\<lambda>s. \<not> pruned_session cutoff db s) (db_sessions db),
          db_requests := filter (\<lambda>q. \<not> pruned_request cutoff db q) (db_requests db)\<rparr>) =
      (length (filter (pruned_selector cutoff db) (db_selectors db)), pruned_db cutoff db)"
    by (simp add: sweep_orphan_selector_paths_def pruned_db_def recent_db_def)
qed

lemma prune_effect:
  assumes "constraints_ok db" "db_has_recordings db"
  shows "\<exists>audit.
    prune_old_activity cutoff at db =
      (\<lparr>pr_events_deleted = length (filter (\<lambda>e. er_ts e < cutoff) (db_events db)),
        pr_sessions_deleted = length (filter (pruned_session cutoff db) (db_sessions db))\<rparr>,
       record_deletion_audit DELETION_AUDIT_KIND_STARTUP_RETENTION at (Some cutoff) audit
         (pruned_db cutoff db)) \<and>
    prune_old_event_rows cutoff at db =
      (\<lparr>dr_events_deleted = length (filter (\<lambda>e. er_ts e < cutoff) (db_events db)),
        dr_sessions_deleted = length (filter (pruned_session cutoff db) (db_sessions db)),
        dr_action_events_deleted = length (filter (\<lambda>a. ar_ts a < cutoff) (db_actions db)),
        dr_record_sessions_deleted = length (filter (pruned_recording cutoff db) (db_recordings db)),
        dr_record_requests_deleted = length (filter (pruned_request cutoff db) (db_requests db)),
        dr_selector_paths_deleted = length (filter (pruned_selector cutoff db) (db_selectors db))\<rparr>,
       record_deletion_audit DELETION_AUDIT_KIND_DASHBOARD_PRUNE at (Some cutoff) audit
         (pruned_db cutoff db))"
proof -
  have refs: "references_ok db" using assms(1) by (simp add: constraints_ok_def)
  note steps = empty_recordings_are_pruned orphan_delete [OF refs] later_statements [OF assms(1)]
  have "delete_events_where (\<lambda>e. er_ts e < cutoff) (d, audit) =
      (length (filter (\<lambda>e. er_ts e < cutoff) (db_events d)),
       d\<lparr>db_events := filter (\<lambda>e. cutoff \<le> er_ts e) (db_events d)\<rparr>,
       audit_notes (map event_key (filter (\<lambda>e. er_ts e < cutoff) (db_events d))) audit)"
    "delete_actions_where (\<lambda>a. ar_ts a < cutoff) (d, audit) =
      (length (filter (\<lambda>a. ar_ts a < cutoff) (db_actions d)),
       d\<lparr>db_actions := filter (\<lambda>a. cutoff \<le> ar_ts a) (db_actions d)\<rparr>,
       audit_notes (map action_key (filter (\<lambda>a. ar_ts a < cutoff) (db_actions d))) audit)" for d audit
    by (simp_all add: not_less)
  then show ?thesis
    using assms(2)
    by (simp del: delete_where_simps add: prune_old_activity_def prune_old_event_rows_def
        prune_actions_def if_recordings_def Let_def split_def steps)
      blast
qed

lemma kept_session:
  assumes "constraints_ok db" "sid \<in> se_session_id ` set (db_sessions db)"
    and "(\<exists>e \<in> set (db_events db). er_session_id e = sid \<and> er_ts e \<ge> cutoff) \<or>
      db_has_recordings db \<and>
        ((\<exists>a \<in> set (db_actions db). ar_session_id a = sid \<and> ar_ts a \<ge> cutoff) \<or>
         (\<exists>r \<in> set (db_recordings db). rc_session_id r = sid \<and> \<not> pruned_recording cutoff db r))"
  shows "sid \<in> se_session_id ` set (db_sessions (pruned_db cutoff db))"
proof -
  obtain s where s: "s \<in> set (db_sessions db)" "se_session_id s = sid" using assms(2) by auto
  have "distinct (map rc_record_session_id (db_recordings db))"
    using assms(1) by (simp add: constraints_ok_def)
  then have "\<not> pruned_session cutoff db s"
    using assms(3) s(2) pruned_ids [of db _ cutoff]
    by (auto simp: pruned_session_def list_ex_iff)
  then show ?thesis using s by (auto simp: pruned_db_def)
qed

lemma kept_recording:
  "references_ok db \<Longrightarrow> a \<in> set (db_actions db) \<Longrightarrow> ar_ts a \<ge> cutoff \<Longrightarrow>
   ar_record_session_id a \<in> rc_record_session_id ` set (db_recordings (pruned_db cutoff db))"
  using no_orphans [of db a cutoff]
  by (force simp: orphan_action_def recording_exists_def list_ex_iff pruned_db_def)

lemma pruned_constraints:
  assumes "constraints_ok db" "db_has_recordings db"
  shows "constraints_ok (pruned_db cutoff db)"
proof -
  have refs: "references_ok db" using assms(1) by (simp add: constraints_ok_def)
  let ?db = "pruned_db cutoff db"
  have "er_session_id e \<in> se_session_id ` set (db_sessions ?db)" if "e \<in> set (db_events ?db)" for e
    using that refs by (intro kept_session [OF assms(1)]) (auto simp: pruned_db_def references_ok_def list_all_iff)
  moreover have "rc_session_id r \<in> se_session_id ` set (db_sessions ?db)" if "r \<in> set (db_recordings ?db)" for r
    using that refs assms(2)
    by (intro kept_session [OF assms(1)]) (auto simp: pruned_db_def references_ok_def list_all_iff)
  moreover have "ar_session_id a \<in> se_session_id ` set (db_sessions ?db)" if "a \<in> set (db_actions ?db)" for a
    using that refs assms(2)
    by (intro kept_session [OF assms(1)]) (auto simp: pruned_db_def references_ok_def list_all_iff)
  moreover have "ar_record_session_id a \<in> rc_record_session_id ` set (db_recordings ?db)"
    if "a \<in> set (db_actions ?db)" for a
    using that kept_recording [OF refs, of a cutoff] by (simp add: pruned_db_def)
  moreover have "case ar_selector_id a of None \<Rightarrow> True | Some s \<Rightarrow> s \<in> set (db_selectors ?db)"
    if "a \<in> set (db_actions ?db)" for a
    using that refs
    by (auto simp: pruned_db_def references_ok_def list_all_iff pruned_selector_def list_ex_iff
        split: option.splits)
  ultimately have "references_ok ?db" by (simp add: references_ok_def list_all_iff)
  then show ?thesis
    using assms(1) by (simp add: constraints_ok_def pruned_db_def distinct_map_filter)
qed

text \<open>
  C11 (\<open>prune_old_activity\<close>): startup retention keeps exactly what is recent.  Where the
  constraints of the schema hold, the events and actions that stay are those from the cutoff
  on; a recording goes when it ended before and has none of them, a session when it has ended
  and nothing of it stays, a request when it expired before and no kept recording came of it,
  a selector when no kept action uses it; and the constraints still hold, so nothing dangles.
\<close>

theorem retention_keeps_exactly_the_recent:
  assumes "constraints_ok db" and "db_has_recordings db"
  shows "let after = snd (prune_old_activity cutoff at db)
    in db_events after = filter (\<lambda>e. er_ts e \<ge> cutoff) (db_events db) \<and>
       db_actions after = filter (\<lambda>a. ar_ts a \<ge> cutoff) (db_actions db) \<and>
       db_recordings after = filter (\<lambda>r. \<not> pruned_recording cutoff db r) (db_recordings db) \<and>
       db_sessions after = filter (\<lambda>s. \<not> pruned_session cutoff db s) (db_sessions db) \<and>
       db_requests after = filter (\<lambda>q. \<not> pruned_request cutoff db q) (db_requests db) \<and>
       db_selectors after = filter (\<lambda>s. \<not> pruned_selector cutoff db s) (db_selectors db) \<and>
       constraints_ok after"
proof -
  obtain audit where "snd (prune_old_activity cutoff at db) =
      record_deletion_audit DELETION_AUDIT_KIND_STARTUP_RETENTION at (Some cutoff) audit (pruned_db cutoff db)"
    using prune_effect [OF assms, of cutoff at] by auto
  moreover have "constraints_ok (record_deletion_audit kind at (Some cutoff) audit d) = constraints_ok d" for kind d
    by (simp add: constraints_ok_def references_ok_def cong: option.case_cong)
  ultimately show ?thesis
    using pruned_constraints [OF assms, of cutoff] by (simp add: pruned_db_def)
qed

text \<open>
  C13 (\<open>prune_preview\<close>, \<open>prune_old_event_rows\<close>): the preview the dashboard shows is what the
  prune then deletes, table by table and in total, although it counts before anything is
  deleted and the prune counts what its statements, one after the other, remove.
\<close>

theorem prune_preview_is_exact:
  assumes "constraints_ok db"
  shows "let result = fst (prune_old_event_rows cutoff at db); preview = prune_preview cutoff db
    in dr_events_deleted result = dp_events preview \<and>
       dr_sessions_deleted result = dp_ended_empty_sessions preview \<and>
       dr_action_events_deleted result = dp_action_events preview \<and>
       dr_record_sessions_deleted result = dp_ended_empty_record_sessions preview \<and>
       dr_record_requests_deleted result = dp_record_requests preview \<and>
       dr_selector_paths_deleted result = dp_selector_paths preview \<and>
       total_deleted result = total_rows preview"
proof (cases "db_has_recordings db")
  case True
  then show ?thesis
    using prune_effect [OF assms True, of cutoff at]
    by (auto simp: prune_preview_def total_deleted_def total_rows_def Let_def)
next
  case False
  let ?kept = "db\<lparr>db_events := filter (\<lambda>e. \<not> er_ts e < cutoff) (db_events db)\<rparr>"
  have "se_ended_at s \<noteq> None \<and> session_empty ?kept s \<longleftrightarrow> pruned_session cutoff db s" for s
    using False by (simp add: session_empty_def pruned_session_def list_ex_filter not_less)
  then have "fst (delete_empty_sessions ?kept) = length (filter (pruned_session cutoff db) (db_sessions db))"
    by (simp add: delete_empty_sessions_def Let_def)
  moreover have "db_has_recordings (snd (delete_empty_sessions d)) = db_has_recordings d" for d
    by (simp add: delete_empty_sessions_def Let_def)
  ultimately show ?thesis
    using False
    by (simp add: prune_old_event_rows_def prune_actions_def if_recordings_def prune_preview_def
        total_deleted_def total_rows_def Let_def split_def)
qed

text \<open>A store with a recorded session: one action before and one after a cutoff at 50.\<close>

definition sample_recording :: "int \<Rightarrow> int option \<Rightarrow> recording_row" where
  "sample_recording rid ended =
     \<lparr>rc_record_session_id = rid, rc_request_id = Some (rid + 10), rc_session_id = 1,
      rc_started_ts = 5, rc_ended_ts = ended, rc_stop_reason = None, rc_title = None,
      rc_policy_snapshot_json = [], rc_pause_intervals = Some [], rc_safety_cap_ms = 1000,
      rc_visible_indicator = True\<rparr>"

definition sample_request :: "int \<Rightarrow> int option \<Rightarrow> request_row" where
  "sample_request qid fulfilled =
     \<lparr>rq_request_id = qid, rq_requested_at = 1, rq_expires_at = 20, rq_status = Started,
      rq_candidate_kind = None, rq_candidate_json = [], rq_fulfilled = fulfilled, rq_updated_at = 5\<rparr>"

definition sample_action :: "int \<Rightarrow> int \<Rightarrow> int \<Rightarrow> int \<Rightarrow> action_row" where
  "sample_action seq ts rid selector =
     \<lparr>ar_session_id = 1, ar_seq = seq, ar_ts = ts, ar_record_session_id = rid,
      ar_selector_id = Some selector\<rparr>"

definition recorded_store :: store_db where
  "recorded_store = sample_store\<lparr>
     db_actions := [sample_action 4 12 1 100, sample_action 5 60 2 101],
     db_recordings := [sample_recording 1 (Some 30), sample_recording 2 (Some 30), sample_recording 3 None],
     db_requests := [sample_request 11 (Some 1), sample_request 12 (Some 2)],
     db_selectors := [100, 101]\<rparr>"

lemmas sample_defs = recorded_store_def sample_store_def db_empty_def sample_recording_def
  sample_request_def sample_action_def sample_event_def

lemma recorded_store_ok: "constraints_ok recorded_store" "db_has_recordings recorded_store"
  by (simp_all add: sample_defs constraints_ok_def references_ok_def)

theorem retention_keeps_exactly_the_recent_witness:
  "db_recordings (snd (prune_old_activity 50 99 recorded_store)) =
     [sample_recording 2 (Some 30), sample_recording 3 None] \<and>
   db_requests (snd (prune_old_activity 50 99 recorded_store)) = [sample_request 12 (Some 2)] \<and>
   db_selectors (snd (prune_old_activity 50 99 recorded_store)) = [101]"
  using retention_keeps_exactly_the_recent [OF recorded_store_ok, of 50 99]
  by (simp add: Let_def)
     (simp add: sample_defs pruned_recording_def pruned_request_def pruned_selector_def
       pruned_recording_ids_def before_def)

theorem prune_preview_is_exact_witness:
  "total_deleted (fst (prune_old_event_rows 50 99 recorded_store)) = 6"
  using prune_preview_is_exact [OF recorded_store_ok(1), of 50 99]
  by (simp add: Let_def)
     (simp add: sample_defs prune_preview_def total_rows_def pruned_recording_def pruned_request_def
       pruned_selector_def pruned_session_def pruned_recording_ids_def before_def Let_def)

section \<open>One recording\<close>

definition recording_open :: "store_db \<Rightarrow> int \<Rightarrow> bool" where
  "recording_open db rid =
     list_ex (\<lambda>r. rc_record_session_id r = rid \<and> rc_ended_ts r = None) (db_recordings db)"

lemma find_recording:
  assumes "distinct (map rc_record_session_id (db_recordings db))"
  shows "find (\<lambda>r. rc_record_session_id r = rid) (db_recordings db) = None \<Longrightarrow>
      \<not> recording_exists db rid \<and> \<not> recording_open db rid"
    and "find (\<lambda>r. rc_record_session_id r = rid) (db_recordings db) = Some row \<Longrightarrow>
      recording_exists db rid \<and> (recording_open db rid \<longleftrightarrow> rc_ended_ts row = None) \<and>
      filter (\<lambda>r. rc_record_session_id r = rid) (db_recordings db) = [row]"
proof -
  show "\<not> recording_exists db rid \<and> \<not> recording_open db rid"
    if "find (\<lambda>r. rc_record_session_id r = rid) (db_recordings db) = None"
    using that by (auto simp: find_None_iff recording_exists_def recording_open_def list_ex_iff)
  have "find (\<lambda>r. rc_record_session_id r = rid) rows = Some row \<Longrightarrow> distinct (map rc_record_session_id rows) \<Longrightarrow>
      filter (\<lambda>r. rc_record_session_id r = rid) rows = [row] \<and>
      list_ex (\<lambda>r. rc_record_session_id r = rid) rows \<and>
      (list_ex (\<lambda>r. rc_record_session_id r = rid \<and> rc_ended_ts r = None) rows \<longleftrightarrow> rc_ended_ts row = None)" for rows
  proof (induction rows)
    case (Cons r rows)
    show ?case
    proof (cases "rc_record_session_id r = rid")
      case True
      then have "\<forall>x \<in> set rows. rc_record_session_id x \<noteq> rid"
        using Cons.prems(2) by simp (metis imageI)
      then have "filter (\<lambda>x. rc_record_session_id x = rid) rows = []"
        "\<not> list_ex (\<lambda>x. rc_record_session_id x = rid \<and> rc_ended_ts x = None) rows"
        by (auto simp: filter_empty_conv list_ex_iff)
      then show ?thesis using Cons.prems(1) True by simp
    next
      case False
      then show ?thesis using Cons by simp
    qed
  qed simp
  from this [OF _ assms]
  show "recording_exists db rid \<and> (recording_open db rid \<longleftrightarrow> rc_ended_ts row = None) \<and>
      filter (\<lambda>r. rc_record_session_id r = rid) (db_recordings db) = [row]"
    if "find (\<lambda>r. rc_record_session_id r = rid) (db_recordings db) = Some row"
    using that by (auto simp: recording_exists_def recording_open_def)
qed

lemma recording_delete_constraints:
  assumes "constraints_ok db"
  shows "constraints_ok ((record_deletion_audit kind at cutoff spans
      (db\<lparr>db_actions := filter (\<lambda>a. ar_record_session_id a \<noteq> rid) (db_actions db)\<rparr>))
      \<lparr>db_recordings := filter (\<lambda>r. rc_record_session_id r \<noteq> rid) (db_recordings db),
       db_requests := filter P (db_requests db),
       db_selectors := filter (selector_used (filter (\<lambda>a. ar_record_session_id a \<noteq> rid) (db_actions db)))
         (db_selectors db)\<rparr>)"
proof -
  have "rc_record_session_id ` {r \<in> set (db_recordings db). rc_record_session_id r \<noteq> rid}
      = rc_record_session_id ` set (db_recordings db) - {rid}"
    by auto
  then show ?thesis
    using assms
    by (auto simp: constraints_ok_def references_ok_def list_all_iff selector_used_def list_ex_iff
        distinct_map_filter split: option.splits)
qed

text \<open>
  \<open>delete_recording\<close>: deleting a recording is all or nothing.  An open recording is
  refused and an unknown one changes nothing; of a closed one exactly its actions, its row and
  the requests it came of go, every event, session and other recording stays, and the
  constraints of the schema still hold.
\<close>

theorem recording_delete_is_complete:
  assumes "constraints_ok db" and "db_has_recordings db"
  shows "case delete_recording rid at db of
      Inl error \<Rightarrow> error = CannotDeleteOpenRecording \<and> recording_open db rid
    | Inr (deleted, after) \<Rightarrow>
        \<not> recording_open db rid \<and>
        (if recording_exists db rid
         then deleted = 1 \<and> constraints_ok after \<and>
           db_actions after = filter (\<lambda>a. ar_record_session_id a \<noteq> rid) (db_actions db) \<and>
           db_recordings after = filter (\<lambda>r. rc_record_session_id r \<noteq> rid) (db_recordings db) \<and>
           db_events after = db_events db \<and> db_sessions after = db_sessions db \<and>
           list_all (\<lambda>q. rq_fulfilled q \<noteq> Some rid) (db_requests after) \<and>
           set (db_requests after) \<subseteq> set (db_requests db)
         else deleted = 0 \<and> after = db)"
proof (cases "find (\<lambda>r. rc_record_session_id r = rid) (db_recordings db)")
  case None
  have "distinct (map rc_record_session_id (db_recordings db))"
    using assms(1) by (simp add: constraints_ok_def)
  from find_recording(1) [OF this None] None show ?thesis
    using assms(2) by (simp add: delete_recording_def delete_recording_rows_def)
next
  case (Some row)
  have "distinct (map rc_record_session_id (db_recordings db))"
    using assms(1) by (simp add: constraints_ok_def)
  note found = find_recording(2) [OF this Some]
  show ?thesis
  proof (cases "rc_ended_ts row = None")
    case True
    then show ?thesis
      using Some found assms(2) by (simp add: delete_recording_def delete_recording_rows_def)
  next
    case False
    then show ?thesis
      unfolding delete_recording_closed [OF Some False assms(2)]
      using found recording_delete_constraints [OF assms(1)]
      by (auto simp: list_all_iff)
  qed
qed

theorem recording_delete_is_complete_witness:
  "delete_recording 3 99 recorded_store = Inl CannotDeleteOpenRecording \<and>
   (case delete_recording 2 99 recorded_store of
      Inr (deleted, after) \<Rightarrow> deleted = 1 \<and> db_actions after = [sample_action 4 12 1 100]
    | Inl _ \<Rightarrow> False)"
proof -
  have "recording_open recorded_store 3" "\<not> recording_open recorded_store 2" "recording_exists recorded_store 2"
    by (simp_all add: sample_defs recording_open_def recording_exists_def)
  moreover have "filter (\<lambda>a. ar_record_session_id a \<noteq> 2) (db_actions recorded_store) = [sample_action 4 12 1 100]"
    by (simp add: sample_defs)
  ultimately show ?thesis
    using recording_delete_is_complete [OF recorded_store_ok, of 3 99]
      recording_delete_is_complete [OF recorded_store_ok, of 2 99]
    by (auto split: sum.splits)
qed

end
