(* ===== verification/Read_Health.thy ===== *)
theory Read_Health
  imports Retention_Laws Rust_Strings "HOL-Library.Product_Lexorder"
begin

text \<open>
  The dashboard's health check of a database (\<open>database_health\<close> and
  \<open>session_gap_is_explained\<close>, crates/gilbreth-read/src/lib.rs): which sessions have gaps in
  their sequence numbers, which of those the deletion audit explains, the counters and the
  verdict.  Together with the deletion operations of the store this shows that recorded
  deletions never read as lost data.
\<close>

section \<open>Gaps\<close>

type_synonym seq_span = "int \<times> int"

text \<open>The sweep over the sorted spans; the one being grown is the head of the list.\<close>

fun merge_audit_sweep :: "seq_span list \<Rightarrow> seq_span list" where
  "merge_audit_sweep [] = []"
| "merge_audit_sweep [span] = [span]"
| "merge_audit_sweep ((first, last_end) # (start, stop) # spans) =
     (if start \<le> sat_add_i64 last_end 1 then merge_audit_sweep ((first, max last_end stop) # spans)
      else (first, last_end) # merge_audit_sweep ((start, stop) # spans))"

definition merged_audit_spans :: "seq_span list \<Rightarrow> seq_span list" where
  "merged_audit_spans spans = merge_audit_sweep (sort spans)"

text \<open>\<open>SELECT seq ...\<close>: the session's sequence numbers over both tables, where both exist.\<close>

definition session_seqs :: "int \<Rightarrow> store_db \<Rightarrow> int list" where
  "session_seqs s db =
     map er_seq (filter (\<lambda>e. er_session_id e = s) (db_events db)) @
     (if db_has_recordings db then map ar_seq (filter (\<lambda>a. ar_session_id a = s) (db_actions db)) else [])"

text \<open>\<open>GROUP BY session_id HAVING ... ORDER BY session_id\<close>.\<close>

definition seqs_flagged :: "int list \<Rightarrow> bool" where
  "seqs_flagged seqs \<longleftrightarrow>
     seqs \<noteq> [] \<and>
     (int (length seqs) \<noteq> fold max (tl seqs) (hd seqs) - fold min (tl seqs) (hd seqs) + 1 \<or>
      length seqs \<noteq> length (remdups seqs))"

definition flagged_gap_sessions :: "store_db \<Rightarrow> int list" where
  "flagged_gap_sessions db =
     filter (\<lambda>s. seqs_flagged (session_seqs s db))
       (sort (remdups (map er_session_id (db_events db) @
          (if db_has_recordings db then map ar_session_id (db_actions db) else []))))"

text \<open>The walk over the sorted numbers: \<open>None\<close> where the code returns \<open>false\<close>, else the count.\<close>

fun missing_seqs :: "seq_span list \<Rightarrow> int option \<Rightarrow> int \<Rightarrow> int list \<Rightarrow> int option" where
  "missing_seqs merged previous missing_total [] = Some missing_total"
| "missing_seqs merged None missing_total (seq # seqs) =
     missing_seqs merged (Some seq) missing_total seqs"
| "missing_seqs merged (Some previous) missing_total (seq # seqs) =
     (if previous = seq then None
      else if seq > previous + 1 then
        (let run_start = previous + 1; run_end = seq - 1
         in if list_ex (\<lambda>(start, stop). start \<le> run_start \<and> run_end \<le> stop) merged
            then missing_seqs merged (Some seq)
                   (sat_add_i64 missing_total (run_end - run_start + 1)) seqs
            else None)
      else missing_seqs merged (Some seq) missing_total seqs)"

definition session_gap_is_explained :: "store_db \<Rightarrow> int \<Rightarrow> audit_row list \<Rightarrow> bool" where
  "session_gap_is_explained db s spans =
     (if spans = [] then False
      else
        let merged = merged_audit_spans (map (\<lambda>a. (au_seq_min a, au_seq_max a)) spans);
            audited_total = foldl (\<lambda>sum a. sat_add_i64 sum (au_rows_deleted a)) 0 spans
        in case missing_seqs merged None 0 (sort (session_seqs s db)) of
             None \<Rightarrow> False
           | Some missing_total \<Rightarrow> missing_total \<le> audited_total)"

text \<open>The audit rows of a session, less those stamped before it began.\<close>

definition session_audit :: "store_db \<Rightarrow> int \<Rightarrow> audit_row list" where
  "session_audit db s =
     (let spans = (if db_has_audit db then filter (\<lambda>a. au_session_id a = s) (db_audit db) else [])
      in case find (\<lambda>row. se_session_id row = s) (db_sessions db) of
           None \<Rightarrow> spans
         | Some row \<Rightarrow> filter (\<lambda>a. au_performed_at a \<ge> se_started_at row) spans)"

definition gap_explained :: "store_db \<Rightarrow> int \<Rightarrow> bool" where
  "gap_explained db s = session_gap_is_explained db s (session_audit db s)"

section \<open>The health record\<close>

text \<open>A column of \<open>meta\<close> as SQLite returns it; a REAL by the \<open>i64\<close> it casts to.\<close>

datatype sql_value = SqlNull | SqlInteger int | SqlReal int | SqlText string | SqlBlob

definition health_meta_int :: "(string \<Rightarrow> sql_value option) option \<Rightarrow> string \<Rightarrow> int" where
  "health_meta_int meta key =
     (case meta of
        None \<Rightarrow> 0
      | Some rows \<Rightarrow>
          (case rows key of
             None \<Rightarrow> 0
           | Some (SqlInteger v) \<Rightarrow> v
           | Some (SqlReal v) \<Rightarrow> v
           | Some (SqlText raw) \<Rightarrow> (case parse_i64 (trim raw) of Some v \<Rightarrow> v | None \<Rightarrow> -1)
           | Some _ \<Rightarrow> -1))"

text \<open>What the check reads beyond the modelled tables: SQLite's own checks and the payloads.\<close>

record health_env =
  he_integrity_check :: string
  he_foreign_key_issues :: int
  he_user_version :: int
  he_meta :: "(string \<Rightarrow> sql_value option) option"
  he_recovered_focus_rows :: int

record database_health =
  dh_integrity_check :: string
  dh_foreign_key_issues :: int
  dh_user_version :: int
  dh_seq_gap_sessions :: "int list"
  dh_explained_gap_sessions :: "int list"
  dh_deletion_audit_rows_deleted :: "int option"
  dh_capture_events_dropped :: int
  dh_stale_pre_erase_rows_dropped :: int
  dh_recovered_focus_rows :: int
  dh_min_ts :: "int option"
  dh_max_ts :: "int option"

definition healthy :: "database_health \<Rightarrow> bool" where
  "healthy h \<longleftrightarrow>
     dh_integrity_check h = ''ok'' \<and> dh_foreign_key_issues h = 0 \<and> dh_seq_gap_sessions h = [] \<and>
     dh_capture_events_dropped h = 0 \<and> dh_stale_pre_erase_rows_dropped h = 0"

definition extremum :: "(int \<Rightarrow> int \<Rightarrow> int) \<Rightarrow> int list \<Rightarrow> int option" where
  "extremum pick xs = (case xs of [] \<Rightarrow> None | x # xs \<Rightarrow> Some (fold pick xs x))"

definition database_health_of :: "health_env \<Rightarrow> store_db \<Rightarrow> database_health" where
  "database_health_of env db =
     \<lparr>dh_integrity_check = he_integrity_check env,
      dh_foreign_key_issues = he_foreign_key_issues env,
      dh_user_version = he_user_version env,
      dh_seq_gap_sessions = filter (\<lambda>s. \<not> gap_explained db s) (flagged_gap_sessions db),
      dh_explained_gap_sessions = filter (gap_explained db) (flagged_gap_sessions db),
      dh_deletion_audit_rows_deleted =
        (if db_has_audit db then Some (sum_list (map au_rows_deleted (db_audit db))) else None),
      dh_capture_events_dropped = health_meta_int (he_meta env) ''capture_events_dropped'',
      dh_stale_pre_erase_rows_dropped = health_meta_int (he_meta env) ''stale_pre_erase_rows_dropped'',
      dh_recovered_focus_rows = he_recovered_focus_rows env,
      dh_min_ts = extremum min (map er_ts (db_events db)),
      dh_max_ts = extremum max (map er_ts (db_events db))\<rparr>"

section \<open>Merged spans cover contiguous runs\<close>

lemma merge_audit_sweep_covers:
  assumes "sorted (map fst spans)" "list_all (\<lambda>(start, _). start \<le> i64_max) spans"
    and "p \<le> q" "\<forall>t \<in> {p..q}. \<exists>(start, stop) \<in> set spans. start \<le> t \<and> t \<le> stop"
  shows "\<exists>(start, stop) \<in> set (merge_audit_sweep spans). start \<le> p \<and> q \<le> stop"
  using assms
proof (induction spans arbitrary: p rule: merge_audit_sweep.induct)
  case 1
  then have "p \<in> {p..q}" by simp
  then show ?case using "1.prems"(4) by fastforce
next
  case (2 span)
  then show ?case by (cases span) force
next
  case (3 first last_end start stop spans)
  show ?case
  proof (cases "start \<le> sat_add_i64 last_end 1")
    case True
    have "\<exists>(s, e) \<in> set ((first, max last_end stop) # spans). s \<le> t \<and> t \<le> e" if t: "t \<in> {p..q}" for t
    proof -
      obtain s e where "(s, e) \<in> set ((first, last_end) # (start, stop) # spans)" "s \<le> t" "t \<le> e"
        using "3.prems"(4) t by blast
      moreover have "first \<le> start" using "3.prems"(1) by simp
      ultimately show ?thesis by (auto simp: le_max_iff_disj)
    qed
    then show ?thesis using "3.IH"(1) [OF True] "3.prems"(1-3) True by auto
  next
    case False
    then have gap: "last_end + 1 < start"
      using "3.prems"(2) by (auto simp: sat_defs split: if_splits)
    have later: "start \<le> s" if "(s, e) \<in> set ((start, stop) # spans)" for s e
      using "3.prems"(1) that by force
    show ?thesis
    proof (cases "p \<le> last_end")
      case True
      have "q \<le> last_end"
      proof (rule ccontr)
        assume "\<not> q \<le> last_end"
        then have "last_end + 1 \<in> {p..q}" using True by simp
        then obtain s e where "(s, e) \<in> set ((first, last_end) # (start, stop) # spans)"
            "s \<le> last_end + 1" "last_end + 1 \<le> e"
          using "3.prems"(4) by blast
        then show False using later gap by fastforce
      qed
      moreover have "first \<le> p"
      proof -
        obtain s e where "(s, e) \<in> set ((first, last_end) # (start, stop) # spans)" "s \<le> p" "p \<le> e"
          using "3.prems"(3,4) by fastforce
        then show ?thesis using later gap True by fastforce
      qed
      ultimately show ?thesis using False by auto
    next
      case beyond: False
      have "\<exists>(s, e) \<in> set ((start, stop) # spans). s \<le> t \<and> t \<le> e" if "t \<in> {p..q}" for t
        using "3.prems"(4) that beyond by fastforce
      then show ?thesis using "3.IH"(2) [OF False] "3.prems"(1-3) False by auto
    qed
  qed
qed

lemma sorted_fst_sort: "sorted (map fst (sort (spans :: seq_span list)))"
proof -
  have "sorted xs \<Longrightarrow> sorted (map fst xs)" for xs :: "seq_span list"
    by (induction xs) (auto simp: less_eq_prod_def)
  then show ?thesis by simp
qed

lemma merged_audit_spans_cover:
  assumes "list_all (\<lambda>(start, _). start \<le> i64_max) spans" "p \<le> q"
    and "\<forall>t \<in> {p..q}. \<exists>(start, stop) \<in> set spans. start \<le> t \<and> t \<le> stop"
  shows "list_ex (\<lambda>(start, stop). start \<le> p \<and> q \<le> stop) (merged_audit_spans spans)"
  using merge_audit_sweep_covers [OF sorted_fst_sort, of spans p q] assms
  by (simp add: merged_audit_spans_def list_ex_iff list_all_iff)

section \<open>The walk\<close>

text \<open>Over distinct numbers whose gaps lie in covered ground the walk counts at most that ground.\<close>

lemma missing_seqs_counts:
  assumes "finite gone"
    and "\<And>p q. p \<le> q \<Longrightarrow> {p..q} \<subseteq> gone \<Longrightarrow> list_ex (\<lambda>(start, stop). start \<le> p \<and> q \<le> stop) merged"
    and "sorted_wrt (<) (previous # seqs)" "{previous..last (previous # seqs)} - set (previous # seqs) \<subseteq> gone"
    and "0 \<le> m" "m \<le> i64_max"
  shows "\<exists>m'. missing_seqs merged (Some previous) m seqs = Some m' \<and> m' \<le> i64_max \<and>
    m' \<le> m + int (card (gone \<inter> {previous<..}))"
  using assms(3-)
proof (induction seqs arbitrary: previous m)
  case (Cons seq seqs)
  have less: "previous < seq" and sorted: "sorted_wrt (<) (seq # seqs)" using Cons.prems(1) by auto
  have ends: "seq \<le> last (seq # seqs)" using sorted by (cases seqs rule: rev_cases) (auto simp: sorted_wrt_append)
  have rest: "{seq..last (seq # seqs)} - set (seq # seqs) \<subseteq> gone"
  proof
    fix t assume t: "t \<in> {seq..last (seq # seqs)} - set (seq # seqs)"
    then have "t \<in> {previous..last (previous # seq # seqs)} - set (previous # seq # seqs)"
      using less by auto
    then show "t \<in> gone" using Cons.prems(2) by blast
  qed
  have fin: "finite (gone \<inter> {previous<..})" using assms(1) by simp
  show ?case
  proof (cases "seq > previous + 1")
    case True
    let ?run = "{previous + 1..seq - 1}"
    have run: "?run \<subseteq> gone"
    proof
      fix t assume t: "t \<in> ?run"
      then have "t \<notin> set (previous # seq # seqs)" using Cons.prems(1) by (auto dest: spec)
      moreover have "t \<in> {previous..last (previous # seq # seqs)}" using t ends by auto
      ultimately show "t \<in> gone" using Cons.prems(2) by blast
    qed
    let ?m = "sat_add_i64 m (seq - 1 - (previous + 1) + 1)"
    have m: "0 \<le> ?m" "?m \<le> i64_max" "?m \<le> m + int (card ?run)"
      using Cons.prems(3) True by (auto simp: sat_defs)
    obtain m' where m': "missing_seqs merged (Some seq) ?m seqs = Some m'" "m' \<le> i64_max"
        "m' \<le> ?m + int (card (gone \<inter> {seq<..}))"
      using Cons.IH [OF sorted rest m(1,2)] by blast
    have "card ?run + card (gone \<inter> {seq<..}) = card (?run \<union> gone \<inter> {seq<..})"
      using assms(1) by (intro card_Un_disjoint [symmetric]) auto
    also have "\<dots> \<le> card (gone \<inter> {previous<..})"
      using run less fin by (intro card_mono) auto
    finally have "m' \<le> m + int (card (gone \<inter> {previous<..}))" using m(3) m'(3) by linarith
    then show ?thesis
      using True less m' assms(2) [OF _ run] by (simp add: Let_def)
  next
    case False
    obtain m' where "missing_seqs merged (Some seq) m seqs = Some m'" "m' \<le> i64_max"
        "m' \<le> m + int (card (gone \<inter> {seq<..}))"
      using Cons.IH [OF sorted rest Cons.prems(3,4)] by blast
    moreover have "card (gone \<inter> {seq<..}) \<le> card (gone \<inter> {previous<..})"
      using less fin by (intro card_mono) auto
    ultimately show ?thesis using False less by fastforce
  qed
qed simp

lemma saturated_total:
  "list_all (\<lambda>a. 0 \<le> au_rows_deleted a) spans \<Longrightarrow> 0 \<le> t \<Longrightarrow> t \<le> i64_max \<Longrightarrow>
   foldl (\<lambda>sum a. sat_add_i64 sum (au_rows_deleted a)) t spans
     = min i64_max (t + sum_list (map au_rows_deleted spans))"
proof (induction spans arbitrary: t)
  case (Cons a spans)
  have "0 \<le> sum_list (map au_rows_deleted spans)"
    using Cons.prems(1) by (intro sum_list_nonneg) (auto simp: list_all_iff)
  then show ?case using Cons by (auto simp: sat_defs min_def)
qed simp

lemma extremes:
  fixes xs :: "int list"
  assumes "xs \<noteq> []"
  shows "fold max (tl xs) (hd xs) = Max (set xs)" "fold min (tl xs) (hd xs) = Min (set xs)"
  using assms by (cases xs; simp only: Max.set_eq_fold Min.set_eq_fold list.sel)+

lemma seqs_flagged_iff:
  "seqs \<noteq> [] \<Longrightarrow> seqs_flagged seqs \<longleftrightarrow>
     int (length seqs) \<noteq> Max (set seqs) - Min (set seqs) + 1 \<or> length seqs \<noteq> card (set seqs)"
proof -
  assume ne: "seqs \<noteq> []"
  show ?thesis
    unfolding seqs_flagged_def extremes [OF ne] length_remdups_card_conv using ne by blast
qed

lemma unflagged_dense:
  assumes "\<not> seqs_flagged seqs" "seqs \<noteq> []"
  shows "distinct seqs" "set seqs = {Min (set seqs)..Max (set seqs)}"
proof -
  have "int (length seqs) = fold max (tl seqs) (hd seqs) - fold min (tl seqs) (hd seqs) + 1"
    and len: "length seqs = length (remdups seqs)"
    using assms unfolding seqs_flagged_def by blast+
  then have span: "int (length seqs) = Max (set seqs) - Min (set seqs) + 1"
    by (simp only: extremes [OF assms(2)])
  show distinct: "distinct seqs" using len by (metis length_remdups_eq remdups_id_iff_distinct)
  have "card {Min (set seqs)..Max (set seqs)} \<le> card (set seqs)"
    using span distinct_card [OF distinct] by simp
  moreover have "set seqs \<subseteq> {Min (set seqs)..Max (set seqs)}" by auto
  ultimately show "set seqs = {Min (set seqs)..Max (set seqs)}"
    by (intro card_seteq) simp_all
qed

section \<open>What a deletion adds to the audit\<close>

text \<open>
  The audit rows an operation adds carry its time, count rows, and start at the number of a
  row that was there; no session appears.
\<close>

definition audited :: "int set \<Rightarrow> store_db \<Rightarrow> store_db \<Rightarrow> bool" where
  "audited stamps db db' \<longleftrightarrow>
     (\<forall>a \<in> set (db_audit db'). a \<in> set (db_audit db) \<or>
        au_performed_at a \<in> stamps \<and> au_seq_min a \<in> snd ` set (keys_of db) \<and> 0 \<le> au_rows_deleted a) \<and>
     set (keys_of db') \<subseteq> set (keys_of db) \<and> set (db_sessions db') \<subseteq> set (db_sessions db) \<and>
     db_has_recordings db' = db_has_recordings db"

lemma audited_refl [simp]: "audited stamps db db"
  by (simp add: audited_def)

lemma audited_trans: "audited stamps db db' \<Longrightarrow> audited stamps db' db'' \<Longrightarrow> audited stamps db db''"
  unfolding audited_def by blast

lemma audited_mono: "audited stamps db db' \<Longrightarrow> stamps \<subseteq> stamps' \<Longrightarrow> audited stamps' db db'"
  unfolding audited_def by blast

lemma audit_notes_spans:
  "\<forall>(_, span) \<in> set spans. as_seq_min span \<in> K \<and> 0 \<le> as_rows_deleted span \<Longrightarrow> snd ` set keys \<subseteq> K \<Longrightarrow>
   \<forall>(_, span) \<in> set (audit_notes keys spans). as_seq_min span \<in> K \<and> 0 \<le> as_rows_deleted span"
proof (induction keys arbitrary: spans)
  case (Cons key keys)
  have "\<forall>(_, span) \<in> set (audit_note key spans). as_seq_min span \<in> K \<and> 0 \<le> as_rows_deleted span"
    using Cons.prems
  proof (induction key spans rule: audit_note.induct)
    case (2 s seq other span spans)
    then show ?case by (auto simp: min_def)
  qed simp
  then show ?case using Cons.IH Cons.prems(2) by (simp add: audit_notes_def)
qed (simp add: audit_notes_def)

lemma audited_transaction:
  assumes "mset (keys_of db) = mset (keys_of db') + mset keys" "db_audit db' = db_audit db"
    and "set (db_sessions db') \<subseteq> set (db_sessions db)" "db_has_recordings db' = db_has_recordings db"
  shows "audited {at} db (record_deletion_audit kind at cutoff (audit_notes keys []) db')"
proof -
  let ?spans = "audit_notes keys []" and ?after = "record_deletion_audit kind at cutoff (audit_notes keys []) db'"
  have keys: "set (keys_of db) = set (keys_of db') \<union> set keys"
    using arg_cong [OF assms(1), of set_mset] by simp
  have spans: "\<forall>(_, span) \<in> set ?spans. as_seq_min span \<in> snd ` set keys \<and> 0 \<le> as_rows_deleted span"
    by (rule audit_notes_spans) simp_all
  have "\<forall>a \<in> set (db_audit ?after). a \<in> set (db_audit db) \<or>
      au_performed_at a = at \<and> au_seq_min a \<in> snd ` set keys \<and> 0 \<le> au_rows_deleted a"
    using spans assms(2) by (auto simp: record_deletion_audit_def)
  then show ?thesis
    using keys assms(3,4) unfolding audited_def by (auto simp: keys_of_def)
qed

fun op_performed_at :: "retention_op \<Rightarrow> int" where
  "op_performed_at (StartupPrune cutoff at) = at"
| "op_performed_at (DashboardPrune cutoff at) = at"
| "op_performed_at (MouseMoves cutoff at) = at"
| "op_performed_at (DeleteEvents ids at) = at"
| "op_performed_at (DeleteRecording rid at) = at"

lemma prunes_audited:
  "audited {at} db (snd (prune_old_activity cutoff at db))"
  "audited {at} db (snd (prune_old_event_rows cutoff at db))"
proof -
  obtain keys db' where t: "mset (keys_of db) = mset (keys_of db') + mset keys" "db_audit db' = db_audit db"
    "set (db_sessions db') \<subseteq> set (db_sessions db)" "db_has_recordings db' = db_has_recordings db"
    "snd (prune_old_activity cutoff at db) = record_deletion_audit DELETION_AUDIT_KIND_STARTUP_RETENTION
       at (Some cutoff) (audit_notes keys []) db'"
    "db_has_recordings db \<longrightarrow> snd (prune_old_event_rows cutoff at db) =
        record_deletion_audit DELETION_AUDIT_KIND_DASHBOARD_PRUNE at (Some cutoff) (audit_notes keys []) db'"
    using prune_transaction by blast
  show "audited {at} db (snd (prune_old_activity cutoff at db))"
    unfolding t(5) by (rule audited_transaction [OF t(1-4)])
  show "audited {at} db (snd (prune_old_event_rows cutoff at db))"
  proof (cases "db_has_recordings db")
    case True
    with t(6) show ?thesis using audited_transaction [OF t(1-4)] by simp
  next
    case False
    let ?kept = "db\<lparr>db_events := filter (\<lambda>e. \<not> er_ts e < cutoff) (db_events db)\<rparr>"
    have "keys_of (snd (delete_empty_sessions ?kept)) = keys_of ?kept"
      "db_audit (snd (delete_empty_sessions ?kept)) = db_audit db"
      "set (db_sessions (snd (delete_empty_sessions ?kept))) \<subseteq> set (db_sessions db)"
      "db_has_recordings (snd (delete_empty_sessions ?kept)) = db_has_recordings db"
      by (auto simp: delete_empty_sessions_def keys_of_def Let_def)
    then show ?thesis
      unfolding dashboard_prune_plain [OF False] using keys_of_delete(1) [of db "\<lambda>e. er_ts e < cutoff"]
      by (intro audited_transaction) simp_all
  qed
qed

lemma mouse_moves_audited: "audited {at} db (snd (prune_mouse_moves_before cutoff at db))"
proof (induction cutoff at db rule: prune_mouse_moves_before.induct)
  case (1 cutoff at db)
  let ?P = "\<lambda>e. er_kind e = ''mouse_move'' \<and> er_ts e < cutoff"
  obtain deleted rows where d: "delete_limit PRUNE_BATCH ?P (db_events db) = (deleted, rows)" by fastforce
  let ?after = "record_deletion_audit DELETION_AUDIT_KIND_MOUSE_MOVE_RETENTION at (Some cutoff)
      (audit_notes (map event_key deleted) []) (db\<lparr>db_events := rows\<rparr>)"
  have "mset (db_events db) = mset rows + mset deleted"
    using delete_limit_mset [of "db_events db" PRUNE_BATCH ?P] d by simp
  then have "mset (keys_of db) = mset (keys_of (db\<lparr>db_events := rows\<rparr>)) + mset (map event_key deleted)"
    by (simp add: keys_of_def)
  then have step: "audited {at} db ?after" by (intro audited_transaction) simp_all
  have "audited {at} ?after (snd (prune_mouse_moves_before cutoff at ?after))"
    if "\<not> length deleted < PRUNE_BATCH"
    using "1.IH" [OF refl d [symmetric] refl that] by simp
  then show ?case
    using step audited_trans [OF step]
    by (simp add: prune_mouse_moves_before.simps [of cutoff at db] d Let_def split_def)
qed

lemma delete_events_audited: "audited {at} db (snd (delete_events ids at db))"
proof -
  obtain keys where keys: "mset (keys_of db) = mset (keys_of
      (db\<lparr>db_events := filter (\<lambda>e. er_id e \<notin> set ids) (db_events db)\<rparr>)) + mset keys"
    "snd (delete_events ids at db) = record_deletion_audit DELETION_AUDIT_KIND_EVENT_DELETE at None
       (audit_notes keys []) (db\<lparr>db_events := filter (\<lambda>e. er_id e \<notin> set ids) (db_events db)\<rparr>)"
    using delete_events_spec by blast
  show ?thesis unfolding keys(2) by (rule audited_transaction [OF keys(1)]) simp_all
qed

lemma recording_delete_audited: "audited {at} db (after_recording_delete rid at db)"
proof (cases rule: after_recording_delete_cases [of rid at db])
  case (gone row)
  let ?kept = "db\<lparr>db_actions := filter (\<lambda>a. ar_record_session_id a \<noteq> rid) (db_actions db)\<rparr>"
  let ?keys = "map action_key (filter (\<lambda>a. ar_record_session_id a = rid) (db_actions db))"
  let ?mid = "record_deletion_audit DELETION_AUDIT_KIND_RECORDING_DELETE at None (audit_notes ?keys []) ?kept"
  have "audited {at} db ?mid"
    using keys_of_delete(2) [of db "\<lambda>a. ar_record_session_id a = rid"]
    by (intro audited_transaction) simp_all
  moreover have "audited {at} ?mid (?mid\<lparr>db_recordings := rs, db_requests := qs, db_selectors := ss\<rparr>)" for rs qs ss
    by (simp add: audited_def keys_of_def)
  ultimately show ?thesis
    using delete_recording_closed [OF gone] audited_trans by (simp add: after_recording_delete_def)
qed simp

lemma step_audited: "audited {op_performed_at op} db (retention_step op db)"
  by (cases op) (simp_all add: prunes_audited mouse_moves_audited delete_events_audited recording_delete_audited)

lemma run_audited: "audited (op_performed_at ` set ops) db (retention_run ops db)"
proof (induction ops arbitrary: db)
  case (Cons op ops)
  have "audited (op_performed_at ` set (op # ops)) db (retention_step op db)"
    using step_audited by (rule audited_mono) simp
  moreover have "audited (op_performed_at ` set (op # ops)) (retention_step op db) (retention_run (op # ops) db)"
    using audited_mono [OF Cons.IH [of "retention_step op db"]] by (auto simp: retention_run_def)
  ultimately show ?case by (rule audited_trans)
qed (simp add: retention_run_def)

section \<open>Recorded deletions are not lost data\<close>

text \<open>
  A store the check has nothing to say about: no session has a gap, and every audit row was
  stamped after its session began, counts rows and holds 64-bit numbers.
\<close>

definition sound_store :: "store_db \<Rightarrow> bool" where
  "sound_store db \<longleftrightarrow>
     db_has_audit db \<and> db_has_recordings db \<and> flagged_gap_sessions db = [] \<and>
     list_all (\<lambda>key. snd key \<le> i64_max) (keys_of db) \<and>
     list_all (\<lambda>a. 0 \<le> au_rows_deleted a \<and> au_seq_min a \<le> i64_max \<and>
        list_all (\<lambda>row. se_session_id row \<noteq> au_session_id a \<or> se_started_at row \<le> au_performed_at a)
          (db_sessions db)) (db_audit db)"

definition ops_after_sessions :: "store_db \<Rightarrow> retention_op list \<Rightarrow> bool" where
  "ops_after_sessions db ops \<longleftrightarrow>
     list_all (\<lambda>op. list_all (\<lambda>row. se_started_at row \<le> op_performed_at op) (db_sessions db)) ops"

lemma session_seqs_keys:
  assumes "db_has_recordings db"
  shows "session_seqs s db = map snd (filter (\<lambda>key. fst key = s) (keys_of db))"
  using assms by (simp add: session_seqs_def keys_of_def filter_map comp_def event_key_def action_key_def)

lemma rows_present_seqs: "db_has_recordings db \<Longrightarrow> rows_present s db = int (length (session_seqs s db))"
  by (simp add: session_seqs_keys rows_present_def)

lemma unflagged_session:
  "db_has_recordings db \<Longrightarrow> flagged_gap_sessions db = [] \<Longrightarrow> \<not> seqs_flagged (session_seqs s db)"
  by (auto simp: flagged_gap_sessions_def filter_empty_conv session_seqs_def seqs_flagged_def)

lemma session_audit_all:
  assumes "db_has_audit db"
    and "\<forall>a \<in> set (db_audit db). \<forall>row \<in> set (db_sessions db).
      se_session_id row \<noteq> au_session_id a \<or> se_started_at row \<le> au_performed_at a"
  shows "session_audit db s = filter (\<lambda>a. au_session_id a = s) (db_audit db)"
proof (cases "find (\<lambda>row. se_session_id row = s) (db_sessions db)")
  case (Some row)
  then have "row \<in> set (db_sessions db)" "se_session_id row = s" by (auto simp: find_Some_iff)
  then show ?thesis
    using assms Some by (auto simp: session_audit_def intro!: filter_cong)
qed (simp add: session_audit_def assms(1))

lemma rows_audited_filter:
  "rows_audited s db = sum_list (map au_rows_deleted (filter (\<lambda>a. au_session_id a = s) (db_audit db)))"
  unfolding rows_audited_def by (induction "db_audit db" arbitrary: db) (simp_all add: sum_list_map_filter')

lemma walk_starts: "sort seqs = seq # rest \<Longrightarrow> missing_seqs merged None 0 (sort seqs) = missing_seqs merged (Some seq) 0 rest"
  by simp

lemma distinct_submset: "mset xs \<subseteq># mset ys \<Longrightarrow> distinct ys \<Longrightarrow> distinct xs"
proof -
  assume sub: "mset xs \<subseteq># mset ys" and ys: "distinct ys"
  have "count (mset ys) a \<le> 1" for a
    using ys by (metis distinct_count_atmost_1 le_refl zero_le_one)
  then have "count (mset xs) a \<le> 1" for a
    using mset_subset_eq_count [OF sub, of a] order_trans by blast
  moreover have "0 < count (mset xs) a" if "a \<in> set xs" for a using that by simp
  ultimately have "count (mset xs) a = (if a \<in> set xs then 1 else 0)" for a
    by (metis One_nat_def Suc_leI antisym count_mset_0_iff)
  then show ?thesis by (simp add: distinct_count_atmost_1)
qed

lemma explained_when_audited:
  fixes db db' :: store_db
  assumes "distinct (session_seqs s db)" "set (session_seqs s db) = {lo..hi}"
    and "mset (session_seqs s db') \<subseteq># mset (session_seqs s db)" "session_seqs s db' \<noteq> []"
    and "spans = filter (\<lambda>a. au_session_id a = s) (db_audit db')"
    and "list_all (\<lambda>a. 0 \<le> au_rows_deleted a \<and> au_seq_min a \<le> i64_max) spans"
    and "\<And>t. t \<in> set (session_seqs s db) - set (session_seqs s db') \<Longrightarrow>
      \<exists>a \<in> set spans. au_seq_min a \<le> t \<and> t \<le> au_seq_max a"
    and "int (card (set (session_seqs s db) - set (session_seqs s db'))) \<le> sum_list (map au_rows_deleted spans)"
    and "spans \<noteq> []"
  shows "session_gap_is_explained db' s spans"
proof -
  let ?gone = "set (session_seqs s db) - set (session_seqs s db')"
  let ?merged = "merged_audit_spans (map (\<lambda>a. (au_seq_min a, au_seq_max a)) spans)"
  obtain seq rest where sorted: "sort (session_seqs s db') = seq # rest"
    using assms(4) by (metis list.exhaust set_empty set_sort)
  have "distinct (session_seqs s db')"
    using assms(3,1) by (rule distinct_submset)
  then have strict: "sorted_wrt (<) (seq # rest)"
    by (metis sorted distinct_sort sorted_sort strict_sorted_iff)
  have elems: "set (seq # rest) = set (session_seqs s db')" by (metis sorted set_sort)
  have sub: "set (session_seqs s db') \<subseteq> set (session_seqs s db)"
    using set_mset_mono [OF assms(3)] by simp
  have "{seq..last (seq # rest)} \<subseteq> {lo..hi}"
    using sub elems assms(2) last_in_set [of "seq # rest"] by (auto simp del: last.simps)
  then have inner: "{seq..last (seq # rest)} - set (seq # rest) \<subseteq> ?gone"
    unfolding elems assms(2) by blast
  have runs: "list_ex (\<lambda>(start, stop). start \<le> p \<and> q \<le> stop) ?merged" if "p \<le> q" "{p..q} \<subseteq> ?gone" for p q
    using assms(6,7) that by (intro merged_audit_spans_cover) (fastforce simp: list_all_iff)+
  obtain m where m: "missing_seqs ?merged (Some seq) 0 rest = Some m" "m \<le> i64_max"
      "m \<le> 0 + int (card (?gone \<inter> {seq<..}))"
    using missing_seqs_counts [OF _ runs strict inner, of 0] by (auto simp: i64_max_def)
  have "card (?gone \<inter> {seq<..}) \<le> card ?gone" by (intro card_mono) auto
  then have "m \<le> min i64_max (0 + sum_list (map au_rows_deleted spans))" using m(2,3) assms(8) by linarith
  then show ?thesis
    using assms(6,9) saturated_total [of spans 0] m(1)
    by (simp add: session_gap_is_explained_def sorted list_all_iff i64_max_def)
qed

text \<open>The audit after a run keeps what a sound store promises of it.\<close>

lemma run_audit_sound:
  assumes "sound_store db" "ops_after_sessions db ops" "a \<in> set (db_audit (retention_run ops db))"
  shows "0 \<le> au_rows_deleted a \<and> au_seq_min a \<le> i64_max \<and>
      (\<forall>row \<in> set (db_sessions (retention_run ops db)).
         se_session_id row \<noteq> au_session_id a \<or> se_started_at row \<le> au_performed_at a)"
proof -
  let ?db = "retention_run ops db"
  have aud: "audited (op_performed_at ` set ops) db ?db" by (rule run_audited)
  show ?thesis
  proof (cases "a \<in> set (db_audit db)")
    case True
    then show ?thesis using assms(1) aud by (fastforce simp: sound_store_def audited_def list_all_iff)
  next
    case False
    then have new: "au_performed_at a \<in> op_performed_at ` set ops" "au_seq_min a \<in> snd ` set (keys_of db)"
        "0 \<le> au_rows_deleted a" "set (db_sessions ?db) \<subseteq> set (db_sessions db)"
      using aud assms(3) by (auto simp: audited_def)
    moreover have "se_started_at row \<le> au_performed_at a" if "row \<in> set (db_sessions db)" for row
      using new(1) assms(2) that by (auto simp: ops_after_sessions_def list_all_iff)
    ultimately show ?thesis using assms(1) by (fastforce simp: sound_store_def list_all_iff)
  qed
qed

lemma flagged_session_explained:
  assumes "accounted db db'" "db_has_recordings db" "db_has_recordings db'" "flagged_gap_sessions db = []"
    and "seqs_flagged (session_seqs s db')" "0 \<le> rows_audited s db"
    and rows: "\<And>a. a \<in> set (db_audit db') \<Longrightarrow> 0 \<le> au_rows_deleted a \<and> au_seq_min a \<le> i64_max"
  shows "session_gap_is_explained db' s (filter (\<lambda>a. au_session_id a = s) (db_audit db'))"
proof -
  let ?old = "session_seqs s db" and ?new = "session_seqs s db'"
  let ?spans = "filter (\<lambda>a. au_session_id a = s) (db_audit db')"
  have ne: "?new \<noteq> []" using assms(5) by (simp add: seqs_flagged_def)
  have sub: "mset ?new \<subseteq># mset ?old"
    using assms(1) unfolding session_seqs_keys [OF assms(3)] session_seqs_keys [OF assms(2)] accounted_def mset_map mset_filter
    by (intro image_mset_subseteq_mono multiset_filter_mono) simp
  have old: "?old \<noteq> []" using ne set_mset_mono [OF sub] by auto
  note dense = unflagged_dense [OF unflagged_session [OF assms(2,4)] old]
  have cover: "\<exists>a \<in> set ?spans. au_seq_min a \<le> t \<and> t \<le> au_seq_max a" if t: "t \<in> set ?old - set ?new" for t
  proof -
    have "(s, t) \<in> set (keys_of db)" "(s, t) \<notin> set (keys_of db')"
      using t by (force simp: session_seqs_keys [OF assms(3)] session_seqs_keys [OF assms(2)])+
    then have "explained_deletion db' (s, t)" using assms(1) by (auto simp: accounted_def)
    then show ?thesis by (auto simp: explained_deletion_def)
  qed
  have "card (set ?old - set ?new) = length ?old - length ?new"
    using dense(1) distinct_submset [OF sub dense(1)] set_mset_mono [OF sub]
    by (simp add: card_Diff_subset distinct_card)
  moreover have "length ?new \<le> length ?old" using size_mset_mono [OF sub] by simp
  moreover have "int (length ?new) + rows_audited s db' = int (length ?old) + rows_audited s db"
    using assms(1) assms(3) assms(2) by (simp add: accounted_def rows_present_seqs)
  ultimately have count: "int (card (set ?old - set ?new)) \<le> sum_list (map au_rows_deleted ?spans)"
    using assms(6) by (simp add: rows_audited_filter of_nat_diff)
  have "set ?old \<noteq> set ?new"
  proof
    assume same: "set ?old = set ?new"
    then have "mset ?old = mset ?new"
      using dense(1) distinct_submset [OF sub dense(1)] set_eq_iff_mset_eq_distinct by blast
    then have "seqs_flagged ?new = seqs_flagged ?old"
      unfolding seqs_flagged_iff [OF ne] seqs_flagged_iff [OF old] same by (metis mset_eq_length)
    then show False using assms(5) unflagged_session [OF assms(2,4)] by blast
  qed
  then obtain t where "t \<in> set ?old - set ?new" using set_mset_mono [OF sub] by auto
  then have "?spans \<noteq> []" using cover by fastforce
  then show ?thesis
    using rows by (intro explained_when_audited [OF dense sub ne refl _ cover count]) (auto simp: list_all_iff)
qed

text \<open>
  C17 (\<open>record_deletion_audit\<close>, \<open>database_health\<close>): what the store deletes and what the
  dashboard reads as lost data agree.  In a store without gaps, after any sequence of prunes,
  mouse-move tiers and deletions, each made after the sessions began, the health check reports
  no session as missing rows: every session with a gap is listed as explained by the audit.
\<close>

theorem recorded_deletions_are_never_lost_data:
  assumes "sound_store db" "ops_after_sessions db ops"
  shows "dh_seq_gap_sessions (database_health_of env (retention_run ops db)) = [] \<and>
    dh_explained_gap_sessions (database_health_of env (retention_run ops db))
      = flagged_gap_sessions (retention_run ops db)"
proof -
  let ?db = "retention_run ops db"
  have db: "db_has_audit db" "db_has_recordings db" "flagged_gap_sessions db = []"
    using assms(1) by (simp_all add: sound_store_def)
  have acc: "accounted db ?db"
    using retention.run_accounted [OF db(1)] by (simp add: retention_run_def)
  have has: "db_has_audit ?db" "db_has_recordings ?db"
    using acc run_audited [of ops db] db by (simp_all add: accounted_def audited_def)
  note rows = run_audit_sound [OF assms]
  have "gap_explained ?db s" if "s \<in> set (flagged_gap_sessions ?db)" for s
  proof -
    have "seqs_flagged (session_seqs s ?db)" using that by (simp add: flagged_gap_sessions_def)
    moreover have "0 \<le> rows_audited s db"
      using assms(1) unfolding rows_audited_filter
      by (intro sum_list_nonneg) (auto simp: sound_store_def list_all_iff)
    ultimately have "session_gap_is_explained ?db s (filter (\<lambda>a. au_session_id a = s) (db_audit ?db))"
      using rows by (intro flagged_session_explained [OF acc db(2) has(2) db(3)]) blast+
    moreover have "session_audit ?db s = filter (\<lambda>a. au_session_id a = s) (db_audit ?db)"
      using rows by (intro session_audit_all has(1)) blast
    ultimately show ?thesis by (simp add: gap_explained_def)
  qed
  then show ?thesis by (simp add: database_health_of_def filter_empty_conv filter_id_conv)
qed

theorem recorded_deletions_are_never_lost_data_witness:
  "\<forall>env. dh_seq_gap_sessions (database_health_of env (retention_run [MouseMoves 50 120, DeleteEvents [3] 130] sample_store)) = [] \<and>
   dh_explained_gap_sessions (database_health_of env (retention_run [MouseMoves 50 120, DeleteEvents [3] 130] sample_store))
     = flagged_gap_sessions (retention_run [MouseMoves 50 120, DeleteEvents [3] 130] sample_store)"
  by (intro allI, rule recorded_deletions_are_never_lost_data)
    (simp_all add: sound_store_def ops_after_sessions_def sample_store_def db_empty_def flagged_gap_sessions_def
      session_seqs_def sample_event_def seqs_flagged_def keys_of_def event_key_def i64_max_def)

end
