(* ===== verification/Pause_Intervals.thy ===== *)
theory Pause_Intervals
  imports Json_Value Record_Prompts
begin

text \<open>
  The text of a recording's pauses, written and parsed by the store
  (\<open>write_pause_intervals\<close>, \<open>parse_pause_intervals\<close>, crates/gilbreth-store/src/lib.rs) and
  decoded by the dashboard (\<open>decode_pause_intervals\<close>, crates/gilbreth-read/src/lib.rs), and
  the duration the dashboard shows for a recording.
\<close>

section \<open>The store's side\<close>

definition pauses_value :: "pauses \<Rightarrow> json" where
  "pauses_value intervals =
     JArray (map (\<lambda>(start, stop).
       JArray [JNumber (show_int start), (case stop of None \<Rightarrow> JNull | Some stop \<Rightarrow> JNumber (show_int stop))])
       intervals)"

definition parse_pause_interval :: "json_lib \<Rightarrow> json \<Rightarrow> (int \<times> int option) option" where
  "parse_pause_interval lib interval =
     (case json_array interval of
        Some [start, stop] \<Rightarrow>
          (case json_as_i64 lib start of
             None \<Rightarrow> None
           | Some s \<Rightarrow>
               if stop = JNull then Some (s, None)
               else map_option (\<lambda>e. (s, Some e)) (json_as_i64 lib stop))
      | _ \<Rightarrow> None)"

text \<open>\<open>collect::<Result<_, _>>\<close> stops at the first error.\<close>

definition parse_pause_intervals :: "json_lib \<Rightarrow> string \<Rightarrow> record_error + pauses" where
  "parse_pause_intervals lib text =
     (case jl_parse lib text of
        None \<Rightarrow> Inl MalformedJson
      | Some value \<Rightarrow>
          (case json_array value of
             None \<Rightarrow> Inl MalformedPauses
           | Some intervals \<Rightarrow>
               (case those (map (parse_pause_interval lib) intervals) of
                  None \<Rightarrow> Inl MalformedPauses
                | Some pauses \<Rightarrow> Inr pauses)))"

section \<open>The dashboard's side\<close>

fun json_value_int_like :: "json_lib \<Rightarrow> json \<Rightarrow> int option" where
  "json_value_int_like lib (JBool b) = Some (if b then 1 else 0)"
| "json_value_int_like lib (JNumber n) =
     (case jl_as_i64 lib n of Some v \<Rightarrow> Some v | None \<Rightarrow> jl_f64_as_i64 lib n)"
| "json_value_int_like lib (JString s) = parse_i64 s"
| "json_value_int_like lib _ = None"

definition decode_pause_interval :: "json_lib \<Rightarrow> json \<Rightarrow> (int \<times> int option) option" where
  "decode_pause_interval lib item =
     (case json_array item of
        Some [start, stop] \<Rightarrow>
          (case json_value_int_like lib start of
             None \<Rightarrow> None
           | Some s \<Rightarrow>
               if stop = JNull then Some (s, None)
               else map_option (\<lambda>e. (s, Some e)) (json_value_int_like lib stop))
      | _ \<Rightarrow> None)"

definition decode_pause_intervals :: "json_lib \<Rightarrow> string \<Rightarrow> pauses" where
  "decode_pause_intervals lib value =
     (let trimmed = trim value
      in if trimmed = [] then []
         else case jl_parse lib trimmed of
                None \<Rightarrow> []
              | Some parsed \<Rightarrow>
                  (case json_array parsed of
                     None \<Rightarrow> []
                   | Some items \<Rightarrow> List.map_filter (decode_pause_interval lib) items))"

definition paused_duration_ms :: "pauses \<Rightarrow> int \<Rightarrow> int \<Rightarrow> int" where
  "paused_duration_ms intervals started_ts ended_ts_or_now =
     foldl (\<lambda>total (start, stop).
       let pause_start = max start started_ts;
           pause_end = min (case stop of Some stop \<Rightarrow> stop | None \<Rightarrow> ended_ts_or_now) ended_ts_or_now
       in if pause_end > pause_start then total + (pause_end - pause_start) else total) 0 intervals"

definition recording_duration_ms :: "json_lib \<Rightarrow> int \<Rightarrow> int option \<Rightarrow> string \<Rightarrow> int \<Rightarrow> int" where
  "recording_duration_ms lib started_ts ended_ts pause_intervals_json now_ms =
     (let ended_or_now = (case ended_ts of Some stop \<Rightarrow> stop | None \<Rightarrow> now_ms);
          elapsed = max (ended_or_now - started_ts) 0;
          paused = paused_duration_ms (decode_pause_intervals lib pause_intervals_json)
                     started_ts ended_or_now
      in max (elapsed - paused) 0)"

section \<open>Both read what the store wrote\<close>

text \<open>What the crate promises of the text of a value: it parses back, and no space surrounds it.\<close>

definition printed :: "json_lib \<Rightarrow> json \<Rightarrow> string \<Rightarrow> bool" where
  "printed lib value text \<longleftrightarrow> text = jl_text lib value \<and> jl_parse lib text = Some value \<and> trim text = text \<and> text \<noteq> []"

definition reads_i64 :: "json_lib \<Rightarrow> int \<Rightarrow> bool" where
  "reads_i64 lib n \<longleftrightarrow> jl_as_i64 lib (show_int n) = Some n"

lemma those_map_Some: "list_all (\<lambda>x. f x = Some (g x)) xs \<Longrightarrow> those (map f xs) = Some (map g xs)"
  by (induction xs) auto

lemma map_filter_Some: "list_all (\<lambda>x. f x = Some (g x)) xs \<Longrightarrow> List.map_filter f xs = map g xs"
  by (induction xs) (auto simp: List.map_filter_def)

lemma intervals_read_back:
  assumes "list_all (\<lambda>(start, stop). reads_i64 lib start \<and> (case stop of None \<Rightarrow> True | Some e \<Rightarrow> reads_i64 lib e)) ps"
  defines "cells \<equiv> map (\<lambda>(start, stop).
       JArray [JNumber (show_int start), (case stop of None \<Rightarrow> JNull | Some stop \<Rightarrow> JNumber (show_int stop))]) ps"
  shows "those (map (parse_pause_interval lib) cells) = Some ps"
    and "List.map_filter (decode_pause_interval lib) cells = ps"
proof -
  have *: "list_all (\<lambda>(start, stop). parse_pause_interval lib
        (JArray [JNumber (show_int start), (case stop of None \<Rightarrow> JNull | Some stop \<Rightarrow> JNumber (show_int stop))])
        = Some (start, stop) \<and> decode_pause_interval lib
        (JArray [JNumber (show_int start), (case stop of None \<Rightarrow> JNull | Some stop \<Rightarrow> JNumber (show_int stop))])
        = Some (start, stop)) ps"
    using assms(1)
    by (auto simp: list_all_iff parse_pause_interval_def decode_pause_interval_def reads_i64_def json_as_i64_def
        split: option.splits)
  show "those (map (parse_pause_interval lib) cells) = Some ps"
    using * those_map_Some [of "\<lambda>p. parse_pause_interval lib (case p of (start, stop) \<Rightarrow>
        JArray [JNumber (show_int start), (case stop of None \<Rightarrow> JNull | Some stop \<Rightarrow> JNumber (show_int stop))])" id ps]
    by (simp add: cells_def comp_def list_all_iff split_def)
  show "List.map_filter (decode_pause_interval lib) cells = ps"
    using * map_filter_Some [of "\<lambda>p. decode_pause_interval lib (case p of (start, stop) \<Rightarrow>
        JArray [JNumber (show_int start), (case stop of None \<Rightarrow> JNull | Some stop \<Rightarrow> JNumber (show_int stop))])" id ps]
    by (simp add: cells_def comp_def list_all_iff split_def List.map_filter_def filter_map)
qed

lemma pause_text_read:
  assumes "list_all (\<lambda>(start, stop). reads_i64 lib start \<and> (case stop of None \<Rightarrow> True | Some e \<Rightarrow> reads_i64 lib e)) ps"
    and "printed lib (pauses_value ps) text"
  shows "parse_pause_intervals lib text = Inr ps" "decode_pause_intervals lib text = ps"
proof -
  have parsed: "jl_parse lib text = Some (pauses_value ps)" "trim text = text" "text \<noteq> []"
    using assms(2) unfolding printed_def by blast+
  show "parse_pause_intervals lib text = Inr ps" "decode_pause_intervals lib text = ps"
    using intervals_read_back [OF assms(1)] parsed
    by (simp_all add: pauses_value_def parse_pause_intervals_def decode_pause_intervals_def)
qed

text \<open>
  C30 (\<open>write_pause_intervals\<close>, \<open>parse_pause_intervals\<close>, \<open>decode_pause_intervals\<close>): the pauses
  of a recording survive their text.  What the store writes, for any list of pauses, both its
  own strict parser and the dashboard's lenient decoder read back as that list.
\<close>

theorem pauses_roundtrip:
  assumes "list_all (\<lambda>(start, stop). reads_i64 lib start \<and> (case stop of None \<Rightarrow> True | Some e \<Rightarrow> reads_i64 lib e)) ps"
    and "printed lib (pauses_value ps) text"
  shows "parse_pause_intervals lib text = Inr ps \<and> decode_pause_intervals lib text = ps"
  using pause_text_read [OF assms] ..

definition sample_lib :: json_lib where
  "sample_lib =
     \<lparr>jl_parse = (\<lambda>text. if text = ''[[10,20],[30,null]]'' then Some (pauses_value [(10, Some 20), (30, None)]) else None),
      jl_as_i64 = parse_i64, jl_f64_as_i64 = (\<lambda>_. None),
      jl_text = (\<lambda>_. ''[[10,20],[30,null]]''), jl_casefold = to_lowercase\<rparr>"

lemma sample_lib_reads: "reads_i64 sample_lib 10" "reads_i64 sample_lib 20" "reads_i64 sample_lib 30"
  by code_simp+

lemma sample_text: "printed sample_lib (pauses_value [(10, Some 20), (30, None)]) ''[[10,20],[30,null]]''"
  by (simp add: printed_def sample_lib_def trim_def trim_start_def trim_end_def is_space_def)

theorem pauses_roundtrip_witness:
  "parse_pause_intervals sample_lib ''[[10,20],[30,null]]'' = Inr [(10, Some 20), (30, None)] \<and>
   decode_pause_intervals sample_lib ''[[10,20],[30,null]]'' = [(10, Some 20), (30, None)]"
  by (rule pauses_roundtrip [OF _ sample_text]) (simp add: sample_lib_reads)

section \<open>Durations\<close>

lemma paused_duration_sum:
  assumes "\<forall>(start, stop) \<in> set ps. started \<le> start \<and> start \<le> stop_ts \<and>
      (case stop of None \<Rightarrow> True | Some stop \<Rightarrow> stop \<le> stop_ts)"
  shows "paused_duration_ms ps started stop_ts = paused_sum ps stop_ts"
proof -
  let ?step = "\<lambda>total (start, stop).
       let pause_start = max start started;
           pause_end = min (case stop of Some stop \<Rightarrow> stop | None \<Rightarrow> stop_ts) stop_ts
       in if pause_end > pause_start then total + (pause_end - pause_start) else total"
  have "foldl ?step a ps = a + paused_sum ps stop_ts" for a
    using assms
  proof (induction ps arbitrary: a)
    case (Cons p ps)
    obtain start stop where p: "p = (start, stop)" by fastforce
    have "?step a p = a + (max (case stop of Some stop \<Rightarrow> stop | None \<Rightarrow> stop_ts) start - start)"
      using Cons.prems by (auto simp: p Let_def max_def min_def split: option.splits)
    then show ?case using Cons by (simp add: p add.assoc)
  qed simp
  then show ?thesis by (simp add: paused_duration_ms_def)
qed

text \<open>
  \<open>recording_duration_ms\<close>: the duration the dashboard shows is the time the recording
  was not paused.  For an open or an ended recording whose stored pauses come from any
  sequence of pauses and resumes between its start and its end (or now), the duration is the
  number of milliseconds at which the last pause or resume, if any, was not a pause.
\<close>

theorem dashboard_duration_is_unpaused_time:
  assumes "decode_pause_intervals lib text = pauses_of history" "sorted (map fst history)"
    and "ended_or_now = (case stop_ts of Some stop \<Rightarrow> stop | None \<Rightarrow> now)" "started \<le> ended_or_now"
    and "\<forall>(ts, _) \<in> set history. started \<le> ts \<and> ts \<le> ended_or_now"
  shows "recording_duration_ms lib started stop_ts text now
    = int (card {t. started \<le> t \<and> t < ended_or_now \<and> \<not> paused_during history t})"
proof -
  have "paused_duration_ms (pauses_of history) started ended_or_now = paused_sum (pauses_of history) ended_or_now"
    by (rule paused_duration_sum) (rule pauses_bounded [OF assms(5)])
  also have "\<dots> = int (card {t. t < ended_or_now \<and> paused_during history t})"
    using assms(2,5) by (intro paused_sum_counts) auto
  finally show ?thesis
    using unpaused_complement [OF assms(5,4)] assms(1,3) by (simp add: recording_duration_ms_def Let_def)
qed

theorem dashboard_duration_is_unpaused_time_witness:
  "recording_duration_ms sample_lib 5 None ''[[10,20],[30,null]]'' 40
    = int (card {t. 5 \<le> t \<and> t < 40 \<and> \<not> paused_during [(10, True), (20, False), (30, True)] t})"
proof -
  have "pauses_of [(10, True), (20, False), (30, True)] = [(10, Some 20), (30, None)]"
    by (simp add: pauses_of_def pause_step_def paused_at_def resumed_at_def pause_open_def)
  moreover have "decode_pause_intervals sample_lib ''[[10,20],[30,null]]'' = [(10, Some 20), (30, None)]"
    by (rule pause_text_read(2) [OF _ sample_text]) (simp add: sample_lib_reads)
  ultimately show ?thesis by (intro dashboard_duration_is_unpaused_time) simp_all
qed

end
