(* ===== verification/Replay_Steps.thy ===== *)
theory Replay_Steps
  imports Json_Value Event_Model Read_Runs
begin

text \<open>
  The steps of a recording as the dashboard lists and exports them
  (\<open>read_recording_steps\<close>, \<open>read_recording_export_steps\<close>, \<open>step_replay_class\<close> and
  \<open>recording_replay_verdict\<close>, crates/gilbreth-read/src/lib.rs).  A query is a filter, a join
  and a sort of the rows.  The verdict's label, detail and coverage texts are left out.
\<close>

section \<open>Rows\<close>

record step_row =
  ra_seq :: int
  ra_ts :: int
  ra_record_session_id :: int
  ra_action_type :: string
  ra_pattern_action :: "string option"
  ra_selector_id :: "int option"
  ra_framework_class :: string
  ra_trust_basis :: string
  ra_exe :: "string option"
  ra_is_sensitive :: int

record selector_row =
  sp_selector_id :: int
  sp_path_hash :: string
  sp_framework :: string
  sp_depth :: int
  sp_has_name :: int
  sp_path_json :: string
  sp_leaf_rect :: "string option"

record recording_meta =
  rm_record_session_id :: int
  rm_session_id :: int
  rm_started_ts :: int
  rm_ended_ts :: "int option"

record session_meta =
  sm_session_id :: int
  sm_app_version :: "string option"
  sm_git_sha :: "string option"

text \<open>A table that may be absent is an option; so is a column of a later migration.\<close>

record replay_db =
  rd_actions :: "step_row list option"
  rd_framework_class_column :: bool
  rd_selectors :: "selector_row list option"
  rd_recordings :: "recording_meta list option"
  rd_sessions :: "session_meta list"

definition joined_selector :: "replay_db \<Rightarrow> step_row \<Rightarrow> selector_row option" where
  "joined_selector db row =
     (case (rd_selectors db, ra_selector_id row) of
        (Some selectors, Some sid) \<Rightarrow> find (\<lambda>sp. sp_selector_id sp = sid) selectors
      | _ \<Rightarrow> None)"

definition framework_class_of :: "replay_db \<Rightarrow> step_row \<Rightarrow> string" where
  "framework_class_of db row = (if rd_framework_class_column db then ra_framework_class row else ''unknown'')"

definition recorded_actions :: "replay_db \<Rightarrow> int \<Rightarrow> step_row list" where
  "recorded_actions db rid =
     (case rd_actions db of
        None \<Rightarrow> []
      | Some rows \<Rightarrow> sort_key ra_seq (filter (\<lambda>row. ra_record_session_id row = rid) rows))"

section \<open>The list of steps\<close>

record recording_step =
  st_seq :: int
  st_captured_at :: "string option"
  st_action_type :: string
  st_pattern_action :: "string option"
  st_selector_id :: "int option"
  st_selector :: string
  st_framework_class :: string
  st_trust_basis :: string
  st_exe :: "string option"
  st_is_sensitive :: int
  st_coverage :: string

definition EXCLUDED_APP_GAP_LABEL :: string where
  "EXCLUDED_APP_GAP_LABEL = ''Steps in an excluded app were not recorded.''"

definition control_pattern :: "string \<Rightarrow> bool" where
  "control_pattern pattern \<longleftrightarrow> pattern \<in> {''invoke'', ''toggle'', ''select'', ''expand_collapse'', ''scroll''}"

definition recording_step_coverage :: "string \<Rightarrow> int option \<Rightarrow> string option \<Rightarrow> string \<Rightarrow> string" where
  "recording_step_coverage ty selector_id pattern_action trust_basis =
     (if ty = ''edit_committed'' then ''free input (value-free)''
      else if ty = ''ui_action_other'' then ''unmapped''
      else if selector_id \<noteq> None \<and> (case pattern_action of Some p \<Rightarrow> control_pattern p | None \<Rightarrow> False) \<and>
              trust_basis \<in> {''pid_match'', ''window_ownership'', ''scoped_invoke_sender''}
      then ''structurally observed'' else ''unmapped'')"

definition selector_text :: "selector_row option \<Rightarrow> string" where
  "selector_text sp =
     (case sp of
        None \<Rightarrow> ''no selector''
      | Some sp \<Rightarrow> sp_framework sp @ '':'' @ show_int (sp_depth sp) @ ''-deep'' @
          (if sp_has_name sp \<noteq> 0 then '' (named)'' else []))"

definition is_excluded_gap :: "string option \<Rightarrow> bool" where
  "is_excluded_gap pattern_action \<longleftrightarrow> pattern_action = Some EXCLUDED_APP_GAP_PATTERN"

text \<open>\<open>localtime\<close> is SQLite's \<open>datetime(ts / 1000, 'unixepoch', 'localtime')\<close>.\<close>

definition recording_step_of :: "(int \<Rightarrow> string option) \<Rightarrow> replay_db \<Rightarrow> step_row \<Rightarrow> recording_step" where
  "recording_step_of localtime db row =
     (let selector_id = map_option sp_selector_id (joined_selector db row);
          gap = is_excluded_gap (ra_pattern_action row);
          coverage = recording_step_coverage (ra_action_type row) selector_id (ra_pattern_action row)
                       (ra_trust_basis row)
      in \<lparr>st_seq = ra_seq row, st_captured_at = localtime (ra_ts row),
          st_action_type = (if gap then EXCLUDED_APP_GAP_LABEL else ra_action_type row),
          st_pattern_action = (if gap then None else ra_pattern_action row),
          st_selector_id = selector_id,
          st_selector = (if gap then ''not recorded'' else selector_text (joined_selector db row)),
          st_framework_class = (if gap then ''not recorded'' else framework_class_of db row),
          st_trust_basis = (if gap then ''not recorded'' else ra_trust_basis row),
          st_exe = (if gap then None else ra_exe row),
          st_is_sensitive = ra_is_sensitive row,
          st_coverage = (if gap then ''excluded gap'' else coverage)\<rparr>)"

definition read_recording_steps :: "(int \<Rightarrow> string option) \<Rightarrow> replay_db \<Rightarrow> int \<Rightarrow> recording_step list" where
  "read_recording_steps localtime db rid = map (recording_step_of localtime db) (recorded_actions db rid)"

section \<open>The steps to export\<close>

record export_step =
  xs_seq :: int
  xs_ts :: int
  xs_action_type :: string
  xs_pattern_action :: "string option"
  xs_selector_id :: "int option"
  xs_framework_class :: string
  xs_trust_basis :: string
  xs_exe :: "string option"
  xs_path_hash :: "string option"
  xs_selector_backend :: "string option"
  xs_path_json :: "string option"
  xs_leaf_rect :: "string option"

definition export_step_of :: "bool \<Rightarrow> replay_db \<Rightarrow> step_row \<Rightarrow> export_step" where
  "export_step_of include_selector_paths db row =
     (let sp = joined_selector db row;
          shown = (if include_selector_paths then sp else None)
      in \<lparr>xs_seq = ra_seq row, xs_ts = ra_ts row, xs_action_type = ra_action_type row,
          xs_pattern_action = ra_pattern_action row,
          xs_selector_id =
            (if rd_selectors db \<noteq> None then map_option sp_selector_id sp
             else if include_selector_paths then None else ra_selector_id row),
          xs_framework_class = framework_class_of db row, xs_trust_basis = ra_trust_basis row,
          xs_exe = ra_exe row, xs_path_hash = map_option sp_path_hash shown,
          xs_selector_backend = map_option sp_framework shown,
          xs_path_json = map_option sp_path_json shown,
          xs_leaf_rect = (case shown of Some sp \<Rightarrow> sp_leaf_rect sp | None \<Rightarrow> None)\<rparr>)"

definition read_recording_export_steps :: "replay_db \<Rightarrow> int \<Rightarrow> bool \<Rightarrow> export_step list" where
  "read_recording_export_steps db rid include_selector_paths =
     map (export_step_of include_selector_paths db) (recorded_actions db rid)"

section \<open>Replay classes\<close>

definition REPLAY_CLASS_ELIGIBLE :: string where "REPLAY_CLASS_ELIGIBLE = ''eligible''"
definition REPLAY_CLASS_PROVISIONAL :: string where "REPLAY_CLASS_PROVISIONAL = ''provisional_eligible''"
definition REPLAY_CLASS_NATIVE_GAP :: string where "REPLAY_CLASS_NATIVE_GAP = ''native_gap''"
definition REPLAY_CLASS_HARD_VETO :: string where "REPLAY_CLASS_HARD_VETO = ''agent_grounded_hard_veto''"
definition REPLAY_CLASS_FREE_INPUT :: string where "REPLAY_CLASS_FREE_INPUT = ''free_input''"
definition REPLAY_CLASS_NOISE :: string where "REPLAY_CLASS_NOISE = ''noise''"

lemmas replay_class_defs = REPLAY_CLASS_ELIGIBLE_def REPLAY_CLASS_PROVISIONAL_def REPLAY_CLASS_NATIVE_GAP_def
  REPLAY_CLASS_HARD_VETO_def REPLAY_CLASS_FREE_INPUT_def REPLAY_CLASS_NOISE_def

definition clean_text :: "string option \<Rightarrow> string" where
  "clean_text value = trim (case value of Some text \<Rightarrow> text | None \<Rightarrow> [])"

definition step_replay_class ::
    "string option \<Rightarrow> string option \<Rightarrow> string option \<Rightarrow> string option \<Rightarrow> int option \<Rightarrow> string" where
  "step_replay_class framework_class trust_basis ty pattern_action selector_id =
     (let action = clean_text ty; pattern = clean_text pattern_action;
          framework = clean_text framework_class; trust = clean_text trust_basis
      in if action = ''edit_committed'' then REPLAY_CLASS_FREE_INPUT
         else if action = ''ui_action_other'' then REPLAY_CLASS_NOISE
         else if \<not> control_pattern pattern then REPLAY_CLASS_NOISE
         else if framework \<in> {''web_renderer'', ''virtualized''} then REPLAY_CLASS_HARD_VETO
         else if selector_id = None then REPLAY_CLASS_NATIVE_GAP
         else if framework = ''native'' \<and> trust \<in> {''pid_match'', ''window_ownership''}
              then REPLAY_CLASS_ELIGIBLE
         else if framework = ''native_provisional'' \<and> trust \<in> {''pid_match'', ''window_ownership''}
              then REPLAY_CLASS_PROVISIONAL
         else REPLAY_CLASS_NATIVE_GAP)"

definition class_of_step :: "export_step \<Rightarrow> string" where
  "class_of_step row =
     step_replay_class (Some (xs_framework_class row)) (Some (xs_trust_basis row))
       (Some (xs_action_type row)) (xs_pattern_action row) (xs_selector_id row)"

section \<open>The verdict\<close>

definition ACTIONABLE_MIN_FLOOR :: int where "ACTIONABLE_MIN_FLOOR = 2"

definition REPLAY_VERDICT_VERIFIED :: string where "REPLAY_VERDICT_VERIFIED = ''verified_replay_eligible''"
definition REPLAY_VERDICT_UNVERIFIED :: string where "REPLAY_VERDICT_UNVERIFIED = ''unverified_replay_eligible''"
definition REPLAY_VERDICT_PROVISIONAL :: string where "REPLAY_VERDICT_PROVISIONAL = ''provisional_replay_eligible''"
definition REPLAY_VERDICT_AGENT_ONLY :: string where "REPLAY_VERDICT_AGENT_ONLY = ''agent_grounded_only''"

record replay_counts =
  vc_native_eligible :: int
  vc_provisional :: int
  vc_native_gap :: int
  vc_hard_veto :: int
  vc_free_input :: int
  vc_noise :: int

definition count_step :: "replay_counts \<Rightarrow> export_step \<Rightarrow> replay_counts" where
  "count_step n row =
     (let cls = class_of_step row
      in if cls = REPLAY_CLASS_ELIGIBLE then n\<lparr>vc_native_eligible := vc_native_eligible n + 1\<rparr>
         else if cls = REPLAY_CLASS_PROVISIONAL then n\<lparr>vc_provisional := vc_provisional n + 1\<rparr>
         else if cls = REPLAY_CLASS_NATIVE_GAP then n\<lparr>vc_native_gap := vc_native_gap n + 1\<rparr>
         else if cls = REPLAY_CLASS_HARD_VETO then n\<lparr>vc_hard_veto := vc_hard_veto n + 1\<rparr>
         else if cls = REPLAY_CLASS_FREE_INPUT then n\<lparr>vc_free_input := vc_free_input n + 1\<rparr>
         else n\<lparr>vc_noise := vc_noise n + 1\<rparr>)"

definition replay_counts_of :: "export_step list \<Rightarrow> replay_counts" where
  "replay_counts_of steps =
     foldl count_step
       \<lparr>vc_native_eligible = 0, vc_provisional = 0, vc_native_gap = 0, vc_hard_veto = 0,
        vc_free_input = 0, vc_noise = 0\<rparr> steps"

record replay_verdict =
  rv_state :: string
  rv_severity :: string
  rv_counts :: replay_counts
  rv_actionable_steps :: int
  rv_export_available :: bool

text \<open>
  The fraction is compared with 0.9 in binary64; both sides are correctly rounded, and for
  fewer than 3 * 10^15 actionable steps the comparison is that of the exact quotients.
\<close>

definition threshold_met :: "int \<Rightarrow> int \<Rightarrow> bool" where
  "threshold_met actionable replay_eligible \<longleftrightarrow>
     actionable \<ge> ACTIONABLE_MIN_FLOOR \<and> 10 * replay_eligible \<ge> 9 * actionable"

definition recording_replay_verdict :: "export_step list \<Rightarrow> string set \<Rightarrow> replay_verdict" where
  "recording_replay_verdict steps verified_classes =
     (let n = replay_counts_of steps;
          actionable = vc_native_eligible n + vc_provisional n + vc_native_gap n + vc_hard_veto n;
          replay_eligible = vc_native_eligible n + vc_provisional n;
          met = threshold_met actionable replay_eligible;
          build = (\<lambda>state severity available.
            \<lparr>rv_state = state, rv_severity = severity, rv_counts = n,
             rv_actionable_steps = actionable, rv_export_available = available\<rparr>)
      in if actionable = 0 then build REPLAY_VERDICT_AGENT_ONLY ''info'' False
         else if vc_hard_veto n > 0 then build REPLAY_VERDICT_AGENT_ONLY ''info'' False
         else if vc_provisional n > 0 then
           (if met then build REPLAY_VERDICT_PROVISIONAL ''warning'' False
            else build REPLAY_VERDICT_AGENT_ONLY ''info'' False)
         else if met then
           (if ''native'' \<in> verified_classes then build REPLAY_VERDICT_VERIFIED ''success'' True
            else build REPLAY_VERDICT_UNVERIFIED ''warning'' False)
         else build REPLAY_VERDICT_AGENT_ONLY ''info'' False)"

end
