(* ===== verification/Replay_Export.thy ===== *)
theory Replay_Export
  imports Replay_Steps
begin

text \<open>
  The replay export of a recording (\<open>build_replay_export\<close> and what it calls,
  crates/gilbreth-read/src/lib.rs): the selectors it may carry, the human labels, the items and
  input slots, the artifact and the value-free guard over its JSON.  The JSON crate is a
  parameter; so is the text of the generation time, which chrono formats.
\<close>

section \<open>Text\<close>

definition REPLAY_EXPORT_REVIEW_LABEL_MAX_CHARS :: nat where
  "REPLAY_EXPORT_REVIEW_LABEL_MAX_CHARS = 120"

text \<open>Of the format characters of the code only U+00AD lies below U+0100.\<close>

definition is_unicode_format_char :: "char \<Rightarrow> bool" where
  "is_unicode_format_char c \<longleftrightarrow> (of_char c :: nat) = 173"

definition clean_export_review_label :: "string \<Rightarrow> string" where
  "clean_export_review_label value =
     (let text = clean_text (Some value)
      in if text = [] then []
         else
           let replaced = map (\<lambda>c. if is_control c \<or> is_unicode_format_char c then CHR '' '' else c) text
           in take REPLAY_EXPORT_REVIEW_LABEL_MAX_CHARS (join_words (split_whitespace replaced)))"

definition clean_export_review_labels :: "(int \<rightharpoonup> string) \<Rightarrow> int \<rightharpoonup> string" where
  "clean_export_review_labels labels =
     (\<lambda>seq. case labels seq of
        None \<Rightarrow> None
      | Some label \<Rightarrow>
          let value = clean_export_review_label label in if value = [] then None else Some value)"

section \<open>Selectors\<close>

datatype export_error =
    UnsupportedMode string
  | RecordingNotFound int
  | RecordingOpen
  | NotVerified
  | SelectorNotJson
  | SelectorNotList
  | HopNotObject
  | SelectorNotInteger
  | ExportForbiddenKey string
  | ExportUnsafeIdentifier string

definition REPLAY_EXPORT_SELECTOR_BACKENDS :: "string list" where
  "REPLAY_EXPORT_SELECTOR_BACKENDS =
     [''cef'', ''chrome'', ''chromium'', ''citrix'', ''directui'', ''edge'', ''electron'', ''firefox'',
      ''mshtml'', ''qt'', ''qt5'', ''qt6'', ''rdp'', ''remote'', ''uia'', ''unknown'', ''vnc'', ''vmware'',
      ''webview2'', ''windowsforms'', ''win32'', ''wpf'', ''xaml'']"

definition MAX_REPLAY_EXPORT_SELECTOR_IDENTIFIER_CHARS :: nat where
  "MAX_REPLAY_EXPORT_SELECTOR_IDENTIFIER_CHARS = 256"

definition identifier_char :: "char \<Rightarrow> bool" where
  "identifier_char c \<longleftrightarrow>
     (97 \<le> (of_char c :: nat) \<and> (of_char c :: nat) \<le> 122) \<or>
     (65 \<le> (of_char c :: nat) \<and> (of_char c :: nat) \<le> 90) \<or>
     is_ascii_digit c \<or> c \<in> set ''_.:#{}$+-''"

text \<open>The loop over the characters, with the length of the current run of digits.\<close>

fun digit_runs_short :: "nat \<Rightarrow> string \<Rightarrow> bool" where
  "digit_runs_short run [] = True"
| "digit_runs_short run (c # s) =
     (if is_ascii_digit c then (if run + 1 \<ge> 6 then False else digit_runs_short (run + 1) s)
      else digit_runs_short 0 s)"

definition selector_identifier_is_export_safe :: "string \<Rightarrow> bool" where
  "selector_identifier_is_export_safe text =
     (let text = trim text
      in text = [] \<or>
         length text \<le> MAX_REPLAY_EXPORT_SELECTOR_IDENTIFIER_CHARS \<and>
         list_all identifier_char text \<and> digit_runs_short 0 text)"

fun clean_value_text :: "json_lib \<Rightarrow> json option \<Rightarrow> string" where
  "clean_value_text lib None = []"
| "clean_value_text lib (Some JNull) = []"
| "clean_value_text lib (Some (JString value)) = trim value"
| "clean_value_text lib (Some (JBool value)) = (if value then ''True'' else ''False'')"
| "clean_value_text lib (Some (JNumber n)) = jl_text lib (JNumber n)"
| "clean_value_text lib (Some value) = trim (jl_text lib value)"

definition selector_identifier_is_export_safe_value :: "json_lib \<Rightarrow> json option \<Rightarrow> bool" where
  "selector_identifier_is_export_safe_value lib value =
     selector_identifier_is_export_safe (clean_value_text lib value)"

definition selector_hop_identifiers_are_export_safe :: "json_lib \<Rightarrow> (string \<times> json) list \<Rightarrow> bool" where
  "selector_hop_identifiers_are_export_safe lib hop \<longleftrightarrow>
     selector_identifier_is_export_safe_value lib (json_get ''automation_id'' hop) \<and>
     selector_identifier_is_export_safe_value lib (json_get ''class_name'' hop)"

definition selector_backend_export_value :: "string option \<Rightarrow> string option" where
  "selector_backend_export_value value =
     (let text = clean_text value;
          backend = (if text = [] then ''unknown'' else to_lowercase text)
      in if backend \<in> set REPLAY_EXPORT_SELECTOR_BACKENDS then Some backend else None)"

definition json_value_int_or_default :: "json_lib \<Rightarrow> json option \<Rightarrow> int \<Rightarrow> export_error + int" where
  "json_value_int_or_default lib value dflt =
     (case value of
        None \<Rightarrow> Inr dflt
      | Some (JBool b) \<Rightarrow> Inr (if b then 1 else 0)
      | Some (JNumber n) \<Rightarrow>
          (case jl_as_i64 lib n of
             Some v \<Rightarrow> Inr v
           | None \<Rightarrow> (case jl_f64_as_i64 lib n of Some v \<Rightarrow> Inr v | None \<Rightarrow> Inl SelectorNotInteger))
      | Some (JString s) \<Rightarrow> (case parse_i64 s of Some v \<Rightarrow> Inr v | None \<Rightarrow> Inl SelectorNotInteger)
      | Some _ \<Rightarrow> Inl SelectorNotInteger)"

definition control_type_labels :: "(int \<times> string) list" where
  "control_type_labels =
     [(50000, ''button''), (50001, ''calendar''), (50002, ''check box''), (50003, ''combo box''),
      (50004, ''edit field''), (50005, ''link''), (50006, ''image''), (50007, ''list item''),
      (50008, ''list''), (50009, ''menu''), (50010, ''menu bar''), (50011, ''menu item''),
      (50012, ''progress bar''), (50013, ''radio button''), (50014, ''scroll bar''),
      (50015, ''slider''), (50016, ''spinner''), (50017, ''status bar''), (50018, ''tab''),
      (50019, ''tab item''), (50020, ''text element''), (50021, ''tool bar''),
      (50022, ''tool tip''), (50023, ''tree''), (50024, ''tree item''),
      (50025, ''custom control''), (50026, ''group''), (50027, ''thumb''), (50028, ''data grid''),
      (50029, ''data item''), (50030, ''document''), (50031, ''split button''),
      (50032, ''window''), (50033, ''pane''), (50034, ''header''), (50035, ''header item''),
      (50036, ''table''), (50037, ''title bar''), (50038, ''separator''),
      (50039, ''semantic zoom''), (50040, ''app bar'')]"

definition control_type_label :: "int \<Rightarrow> string" where
  "control_type_label value =
     (case map_of control_type_labels value of Some label \<Rightarrow> label | None \<Rightarrow> ''target control'')"

record selector_hop_export =
  xh_control_type :: int
  xh_control_type_label :: string
  xh_automation_id :: string
  xh_class_name :: string
  xh_ordinal :: int

record leaf_rect_export =
  xl_left :: int
  xl_top :: int
  xl_right :: int
  xl_bottom :: int

record selector_export =
  xe_backend :: string
  xe_hops :: "selector_hop_export list"
  xe_path_hash :: string
  xe_leaf_rect :: "leaf_rect_export option"

definition selector_hop_export_of ::
    "json_lib \<Rightarrow> (string \<times> json) list \<Rightarrow> export_error + selector_hop_export option" where
  "selector_hop_export_of lib hop =
     (if \<not> selector_hop_identifiers_are_export_safe lib hop then Inr None
      else case json_value_int_or_default lib (json_get ''control_type'' hop) 0 of
             Inl e \<Rightarrow> Inl e
           | Inr control_type \<Rightarrow>
               (case json_value_int_or_default lib (json_get ''ordinal'' hop) 0 of
                  Inl e \<Rightarrow> Inl e
                | Inr ordinal \<Rightarrow> Inr (Some
                    \<lparr>xh_control_type = control_type,
                     xh_control_type_label = control_type_label control_type,
                     xh_automation_id = clean_value_text lib (json_get ''automation_id'' hop),
                     xh_class_name = clean_value_text lib (json_get ''class_name'' hop),
                     xh_ordinal = ordinal\<rparr>)))"

fun export_hops ::
    "json_lib \<Rightarrow> (string \<times> json) list list \<Rightarrow> export_error + selector_hop_export list option" where
  "export_hops lib [] = Inr (Some [])"
| "export_hops lib (hop # hops) =
     (case selector_hop_export_of lib hop of
        Inl e \<Rightarrow> Inl e
      | Inr None \<Rightarrow> Inr None
      | Inr (Some exported) \<Rightarrow>
          (case export_hops lib hops of
             Inl e \<Rightarrow> Inl e
           | Inr None \<Rightarrow> Inr None
           | Inr (Some rest) \<Rightarrow> Inr (Some (exported # rest))))"

definition expect_selector_hops :: "json \<Rightarrow> export_error + (string \<times> json) list list" where
  "expect_selector_hops value =
     (case json_array value of
        None \<Rightarrow> Inl SelectorNotList
      | Some items \<Rightarrow>
          (case those (map json_object items) of None \<Rightarrow> Inl HopNotObject | Some hops \<Rightarrow> Inr hops))"

definition forbidden_keys :: "string list" where
  "forbidden_keys =
     [''name'', ''value'', ''text'', ''document'', ''description'', ''help_text'', ''localized_control_type'',
      ''legacyiaccessible'', ''legacyiaccessible_name'', ''legacyiaccessible_value'',
      ''legacyiaccessible_description'', ''sphere'', ''spheres'']"

definition is_replay_export_forbidden_key :: "json_lib \<Rightarrow> string \<Rightarrow> bool" where
  "is_replay_export_forbidden_key lib key \<longleftrightarrow> jl_casefold lib (trim key) \<in> set forbidden_keys"

definition assert_export_forbidden_keys_free :: "json_lib \<Rightarrow> json \<Rightarrow> export_error + unit" where
  "assert_export_forbidden_keys_free lib value =
     (case first_bad_key (\<lambda>key _. is_replay_export_forbidden_key lib key) value of
        None \<Rightarrow> Inr ()
      | Some key \<Rightarrow> Inl (ExportForbiddenKey key))"

text \<open>\<open>text.split(',').map(str::trim).map(str::parse::<i64>)\<close>.\<close>

definition parse_leaf_rect :: "string option \<Rightarrow> leaf_rect_export option" where
  "parse_leaf_rect value =
     (let text = clean_text value
      in if text = [] then None
         else case those (map (\<lambda>part. parse_i64 (trim part)) (split_on (\<lambda>c. c = CHR '','') text)) of
                Some [lx, ty, rx, b_y] \<Rightarrow>
                  Some \<lparr>xl_left = lx, xl_top = ty, xl_right = rx, xl_bottom = b_y\<rparr>
              | _ \<Rightarrow> None)"

definition selector_export_block :: "json_lib \<Rightarrow> export_step \<Rightarrow> export_error + selector_export option" where
  "selector_export_block lib row =
     (let path_json = clean_text (xs_path_json row); path_hash = clean_text (xs_path_hash row)
      in if path_json = [] \<or> path_hash = [] then Inr None
         else case jl_parse lib path_json of
                None \<Rightarrow> Inl SelectorNotJson
              | Some parsed \<Rightarrow>
                  (case assert_export_forbidden_keys_free lib parsed of
                     Inl e \<Rightarrow> Inl e
                   | Inr _ \<Rightarrow>
                       (case expect_selector_hops parsed of
                          Inl e \<Rightarrow> Inl e
                        | Inr hops \<Rightarrow>
                            (case export_hops lib hops of
                               Inl e \<Rightarrow> Inl e
                             | Inr None \<Rightarrow> Inr None
                             | Inr (Some exported) \<Rightarrow>
                                 Inr (map_option (\<lambda>backend.
                                   \<lparr>xe_backend = backend, xe_hops = exported, xe_path_hash = path_hash,
                                    xe_leaf_rect = parse_leaf_rect (xs_leaf_rect row)\<rparr>)
                                   (selector_backend_export_value (xs_selector_backend row)))))))"

definition selector_export_hint :: "json_lib \<Rightarrow> export_step \<Rightarrow> selector_export option" where
  "selector_export_hint lib row =
     (case selector_export_block lib row of Inl _ \<Rightarrow> None | Inr selector \<Rightarrow> selector)"

definition selector_ref_is_export_safe :: "json_lib \<Rightarrow> export_step \<Rightarrow> bool" where
  "selector_ref_is_export_safe lib row =
     (selector_backend_export_value (xs_selector_backend row) \<noteq> None \<and>
      clean_text (xs_path_json row) \<noteq> [] \<and>
      (case jl_parse lib (clean_text (xs_path_json row)) of
         None \<Rightarrow> False
       | Some parsed \<Rightarrow>
           (case expect_selector_hops parsed of
              Inl _ \<Rightarrow> False
            | Inr hops \<Rightarrow> list_all (selector_hop_identifiers_are_export_safe lib) hops)))"

section \<open>Items\<close>

definition REPLAY_EXPORT_MODE_AGENT_GROUNDED :: string where
  "REPLAY_EXPORT_MODE_AGENT_GROUNDED = ''agent_grounded''"
definition REPLAY_EXPORT_MODE_NATIVE_SKELETON :: string where
  "REPLAY_EXPORT_MODE_NATIVE_SKELETON = ''native_skeleton''"

definition selector_target_phrase :: "selector_export option \<Rightarrow> string" where
  "selector_target_phrase selector =
     (let label = (case selector of
            None \<Rightarrow> ''target control''
          | Some sel \<Rightarrow>
              if xe_hops sel \<noteq> [] \<and> trim (xh_control_type_label (last (xe_hops sel))) \<noteq> []
              then xh_control_type_label (last (xe_hops sel)) else ''target control'')
      in ''the '' @ label)"

definition underscores_to_spaces :: "string \<Rightarrow> string" where
  "underscores_to_spaces = map (\<lambda>c. if c = CHR ''_'' then CHR '' '' else c)"

definition export_intent :: "export_step \<Rightarrow> selector_export option \<Rightarrow> string" where
  "export_intent row selector =
     (let action = clean_text (Some (xs_action_type row)); pattern = clean_text (xs_pattern_action row);
          target = selector_target_phrase selector
      in if pattern = EXCLUDED_APP_GAP_PATTERN then EXCLUDED_APP_GAP_LABEL
         else if action = ''edit_committed'' then ''Provide the runtime input for this step.''
         else if pattern = ''invoke'' then ''Invoke '' @ target @ ''.''
         else if pattern = ''toggle'' then ''Toggle '' @ target @ ''.''
         else if pattern = ''select'' then ''Select '' @ target @ ''.''
         else if pattern = ''expand_collapse'' then ''Expand or collapse '' @ target @ ''.''
         else if pattern = ''scroll'' then ''Scroll '' @ target @ ''.''
         else if pattern = [] then
           (if action = ''ui_action_other'' then ''Review this observed UI step.''
            else if action = [] then ''Follow this observed step.''
            else ''Perform the '' @ underscores_to_spaces action @ '' step on '' @ target @ ''.'')
         else ''Perform the '' @ underscores_to_spaces pattern @ '' action on '' @ target @ ''.'')"

record step_item =
  xi_seq :: int
  xi_offset_ms :: int
  xi_action_type :: string
  xi_pattern_action :: "string option"
  xi_intent :: string
  xi_framework_class :: string
  xi_trust_basis :: string
  xi_exe :: string
  xi_replay_class :: string
  xi_native_replayable :: bool
  xi_selector :: "selector_export option"
  xi_input_slot_ref :: "string option"
  xi_review_label :: "string option"

record input_slot =
  xn_slot_id :: string
  xn_at_step_seq :: int
  xn_role :: string
  xn_kind :: string
  xn_target_selector_ref :: "string option"

definition nonempty_text :: "string option \<Rightarrow> string option" where
  "nonempty_text value =
     (case value of
        None \<Rightarrow> None
      | Some v \<Rightarrow> if clean_text (Some v) = [] then None else Some (clean_text (Some v)))"

definition text_or_unknown :: "string \<Rightarrow> string" where
  "text_or_unknown value =
     (if clean_text (Some value) = [] then ''unknown'' else clean_text (Some value))"

text \<open>The class, selector and replay flag of a row: an excluded gap never carries its selector.\<close>

definition export_selector ::
    "json_lib \<Rightarrow> string \<Rightarrow> export_step \<Rightarrow> export_error + string \<times> selector_export option \<times> bool" where
  "export_selector lib mode row =
     (let cls = class_of_step row
      in if is_excluded_gap (xs_pattern_action row) then Inr (cls, None, False)
         else if mode = REPLAY_EXPORT_MODE_NATIVE_SKELETON \<and> cls = REPLAY_CLASS_ELIGIBLE then
           (case selector_export_block lib row of
              Inl e \<Rightarrow> Inl e
            | Inr None \<Rightarrow> Inr (REPLAY_CLASS_NATIVE_GAP, None, False)
            | Inr (Some selector) \<Rightarrow> Inr (cls, Some selector, True))
         else if mode = REPLAY_EXPORT_MODE_AGENT_GROUNDED then Inr (cls, selector_export_hint lib row, False)
         else Inr (cls, None, False))"

definition slot_of :: "json_lib \<Rightarrow> export_step \<Rightarrow> nat \<Rightarrow> input_slot option" where
  "slot_of lib row slots =
     (if clean_text (Some (xs_action_type row)) = ''edit_committed'' then
        Some \<lparr>xn_slot_id = ''input_'' @ show_nat (slots + 1), xn_at_step_seq = xs_seq row,
              xn_role = ''input'', xn_kind = ''string'',
              xn_target_selector_ref =
                (if clean_text (xs_path_hash row) = [] then None
                 else if selector_ref_is_export_safe lib row then Some (clean_text (xs_path_hash row))
                 else None)\<rparr>
      else None)"

type_synonym exported_rows = "step_item list \<times> input_slot list \<times> bool"

definition export_row ::
    "json_lib \<Rightarrow> string \<Rightarrow> (int \<rightharpoonup> string) \<Rightarrow> int \<Rightarrow> exported_rows \<Rightarrow> export_step
     \<Rightarrow> export_error + exported_rows" where
  "export_row lib mode labels started_ts acc row =
     (case acc of (items, slots, labelled) \<Rightarrow>
        case export_selector lib mode row of
          Inl e \<Rightarrow> Inl e
        | Inr (cls, selector, native_replayable) \<Rightarrow>
            (let slot = slot_of lib row (length slots);
                 review_label = labels (xs_seq row)
             in Inr (items @
                  [\<lparr>xi_seq = xs_seq row, xi_offset_ms = max (xs_ts row - started_ts) 0,
                    xi_action_type = clean_text (Some (xs_action_type row)),
                    xi_pattern_action = nonempty_text (xs_pattern_action row),
                    xi_intent = export_intent row selector,
                    xi_framework_class = text_or_unknown (xs_framework_class row),
                    xi_trust_basis = text_or_unknown (xs_trust_basis row),
                    xi_exe = (if clean_text (xs_exe row) = [] then display_app None
                              else display_app (Some (clean_text (xs_exe row)))),
                    xi_replay_class = cls, xi_native_replayable = native_replayable,
                    xi_selector = selector, xi_input_slot_ref = map_option xn_slot_id slot,
                    xi_review_label = review_label\<rparr>],
                  slots @ (case slot of Some slot \<Rightarrow> [slot] | None \<Rightarrow> []),
                  labelled \<or> review_label \<noteq> None)))"

fun export_rows ::
    "json_lib \<Rightarrow> string \<Rightarrow> (int \<rightharpoonup> string) \<Rightarrow> int \<Rightarrow> exported_rows \<Rightarrow> export_step list
     \<Rightarrow> export_error + exported_rows" where
  "export_rows lib mode labels started_ts acc [] = Inr acc"
| "export_rows lib mode labels started_ts acc (row # rows) =
     (case export_row lib mode labels started_ts acc row of
        Inl e \<Rightarrow> Inl e
      | Inr acc \<Rightarrow> export_rows lib mode labels started_ts acc rows)"

section \<open>The artifact\<close>

definition RECORDING_EXPORT_SCHEMA :: string where
  "RECORDING_EXPORT_SCHEMA = ''gilbreth.replay_export.v1''"
definition RECORDING_EXPORT_SCHEMA_VERSION :: string where "RECORDING_EXPORT_SCHEMA_VERSION = ''1.1''"

text \<open>The coverage text of the verdict is left out.\<close>

record replay_export =
  xa_schema :: string
  xa_schema_version :: string
  xa_value_free :: bool
  xa_generated_ts :: string
  xa_record_session_id :: int
  xa_title :: "string option"
  xa_app_allowlist :: "string list"
  xa_mode :: string
  xa_verdict_state :: string
  xa_verdict_export_available :: bool
  xa_app_version :: "string option"
  xa_git_sha :: "string option"
  xa_labels_included :: bool
  xa_labels_source :: string
  xa_labels_max_chars :: nat
  xa_steps :: "step_item list"
  xa_input_slots :: "input_slot list"

definition app_allowlist_of :: "export_step list \<Rightarrow> string list" where
  "app_allowlist_of steps =
     sort (remdups (List.map_filter (\<lambda>step.
       if clean_text (xs_exe step) = [] then None
       else Some (display_app (Some (clean_text (xs_exe step))))) steps))"

definition read_recording_export_metadata :: "replay_db \<Rightarrow> int \<Rightarrow> (recording_meta \<times> session_meta option) option" where
  "read_recording_export_metadata db rid =
     (case rd_recordings db of
        None \<Rightarrow> None
      | Some recordings \<Rightarrow>
          map_option (\<lambda>r. (r, find (\<lambda>s. sm_session_id s = rm_session_id r) (rd_sessions db)))
            (find (\<lambda>r. rm_record_session_id r = rid) recordings))"

text \<open>Everything up to the final guard.\<close>

definition assemble_replay_export ::
    "json_lib \<Rightarrow> (int \<Rightarrow> string) \<Rightarrow> replay_db \<Rightarrow> int \<Rightarrow> string \<Rightarrow> string set \<Rightarrow> int \<Rightarrow> (int \<rightharpoonup> string)
     \<Rightarrow> export_error + replay_export" where
  "assemble_replay_export lib generated_text db rid mode verified_classes generated_ts_ms step_labels =
     (if mode \<notin> {REPLAY_EXPORT_MODE_AGENT_GROUNDED, REPLAY_EXPORT_MODE_NATIVE_SKELETON}
      then Inl (UnsupportedMode mode)
      else case read_recording_export_metadata db rid of
             None \<Rightarrow> Inl (RecordingNotFound rid)
           | Some (recording, session) \<Rightarrow>
               if rm_ended_ts recording = None then Inl RecordingOpen
               else
                 let labels = clean_export_review_labels step_labels;
                     verdict = recording_replay_verdict (read_recording_export_steps db rid False) verified_classes
                 in if mode = REPLAY_EXPORT_MODE_NATIVE_SKELETON \<and> \<not> rv_export_available verdict
                    then Inl NotVerified
                    else
                      let steps = read_recording_export_steps db rid True
                      in case export_rows lib mode labels (rm_started_ts recording) ([], [], False) steps of
                           Inl e \<Rightarrow> Inl e
                         | Inr (items, slots, labelled) \<Rightarrow> Inr
                             \<lparr>xa_schema = RECORDING_EXPORT_SCHEMA,
                              xa_schema_version = RECORDING_EXPORT_SCHEMA_VERSION,
                              xa_value_free = True, xa_generated_ts = generated_text generated_ts_ms,
                              xa_record_session_id = rid, xa_title = None,
                              xa_app_allowlist = app_allowlist_of steps, xa_mode = mode,
                              xa_verdict_state = rv_state verdict,
                              xa_verdict_export_available = rv_export_available verdict,
                              xa_app_version = (case session of Some s \<Rightarrow> nonempty_text (sm_app_version s) | None \<Rightarrow> None),
                              xa_git_sha = (case session of Some s \<Rightarrow> nonempty_text (sm_git_sha s) | None \<Rightarrow> None),
                              xa_labels_included = labelled,
                              xa_labels_source = ''human_entered_at_export_time'',
                              xa_labels_max_chars = REPLAY_EXPORT_REVIEW_LABEL_MAX_CHARS,
                              xa_steps = items, xa_input_slots = slots\<rparr>)"

section \<open>The value-free guard\<close>

definition opt_json :: "('a \<Rightarrow> json) \<Rightarrow> 'a option \<Rightarrow> json" where
  "opt_json f value = (case value of None \<Rightarrow> JNull | Some v \<Rightarrow> f v)"

definition int_json :: "int \<Rightarrow> json" where "int_json n = JNumber (show_int n)"

definition leaf_rect_json :: "leaf_rect_export \<Rightarrow> json" where
  "leaf_rect_json r =
     JObject [(''left'', int_json (xl_left r)), (''top'', int_json (xl_top r)),
              (''right'', int_json (xl_right r)), (''bottom'', int_json (xl_bottom r))]"

definition hop_json :: "selector_hop_export \<Rightarrow> json" where
  "hop_json h =
     JObject [(''control_type'', int_json (xh_control_type h)),
              (''control_type_label'', JString (xh_control_type_label h)),
              (''automation_id'', JString (xh_automation_id h)),
              (''class_name'', JString (xh_class_name h)), (''ordinal'', int_json (xh_ordinal h))]"

definition selector_json :: "selector_export \<Rightarrow> json" where
  "selector_json s =
     JObject ([(''backend'', JString (xe_backend s)), (''hops'', JArray (map hop_json (xe_hops s))),
               (''path_hash'', JString (xe_path_hash s))] @
              (case xe_leaf_rect s of None \<Rightarrow> [] | Some r \<Rightarrow> [(''leaf_rect'', leaf_rect_json r)]))"

definition step_item_json :: "step_item \<Rightarrow> json" where
  "step_item_json i =
     JObject [(''seq'', int_json (xi_seq i)),
              (''offset_ms_from_recording_start'', int_json (xi_offset_ms i)),
              (''action_type'', JString (xi_action_type i)),
              (''pattern_action'', opt_json JString (xi_pattern_action i)),
              (''intent'', JString (xi_intent i)), (''framework_class'', JString (xi_framework_class i)),
              (''trust_basis'', JString (xi_trust_basis i)), (''exe'', JString (xi_exe i)),
              (''replay_class'', JString (xi_replay_class i)),
              (''native_replayable'', JBool (xi_native_replayable i)),
              (''selector'', opt_json selector_json (xi_selector i)),
              (''input_slot_ref'', opt_json JString (xi_input_slot_ref i)),
              (''review_label'', opt_json JString (xi_review_label i))]"

definition input_slot_json :: "input_slot \<Rightarrow> json" where
  "input_slot_json n =
     JObject [(''slot_id'', JString (xn_slot_id n)), (''at_step_seq'', int_json (xn_at_step_seq n)),
              (''role'', JString (xn_role n)), (''type'', JString (xn_kind n)),
              (''target_selector_ref'', opt_json JString (xn_target_selector_ref n))]"

definition replay_export_json :: "string \<Rightarrow> replay_export \<Rightarrow> json" where
  "replay_export_json coverage_line a =
     JObject
       [(''metadata'', JObject
           [(''schema'', JString (xa_schema a)), (''schema_version'', JString (xa_schema_version a)),
            (''value_free'', JBool (xa_value_free a)), (''generated_ts'', JString (xa_generated_ts a)),
            (''record_session_id'', int_json (xa_record_session_id a)),
            (''title'', opt_json JString (xa_title a)),
            (''app_allowlist'', JArray (map JString (xa_app_allowlist a))),
            (''mode'', JString (xa_mode a)),
            (''verdict'', JObject
               [(''state'', JString (xa_verdict_state a)),
                (''export_available'', JBool (xa_verdict_export_available a)),
                (''coverage_line'', JString coverage_line)]),
            (''source'', JObject
               ((case xa_app_version a of None \<Rightarrow> [] | Some v \<Rightarrow> [(''app_version'', JString v)]) @
                (case xa_git_sha a of None \<Rightarrow> [] | Some v \<Rightarrow> [(''git_sha'', JString v)]))),
            (''review_labels'', JObject
               [(''included'', JBool (xa_labels_included a)), (''source'', JString (xa_labels_source a)),
                (''max_chars'', int_json (int (xa_labels_max_chars a)))])]),
        (''steps'', JArray (map step_item_json (xa_steps a))),
        (''input_slots'', JArray (map input_slot_json (xa_input_slots a)))]"

definition is_replay_export_selector_identifier_key :: "string \<Rightarrow> bool" where
  "is_replay_export_selector_identifier_key key \<longleftrightarrow> to_lowercase key \<in> {''automation_id'', ''class_name''}"

definition export_key_rejected :: "json_lib \<Rightarrow> string \<Rightarrow> json \<Rightarrow> bool" where
  "export_key_rejected lib key child \<longleftrightarrow>
     is_replay_export_forbidden_key lib key \<or>
     is_replay_export_selector_identifier_key key \<and>
     \<not> selector_identifier_is_export_safe_value lib (Some child)"

definition assert_export_value_free_value :: "json_lib \<Rightarrow> json \<Rightarrow> export_error + unit" where
  "assert_export_value_free_value lib value =
     (case first_bad_key (export_key_rejected lib) value of
        None \<Rightarrow> Inr ()
      | Some key \<Rightarrow>
          Inl (if is_replay_export_forbidden_key lib key then ExportForbiddenKey key
               else ExportUnsafeIdentifier key))"

definition build_replay_export ::
    "json_lib \<Rightarrow> (int \<Rightarrow> string) \<Rightarrow> string \<Rightarrow> replay_db \<Rightarrow> int \<Rightarrow> string \<Rightarrow> string set \<Rightarrow> int
     \<Rightarrow> (int \<rightharpoonup> string) \<Rightarrow> export_error + replay_export" where
  "build_replay_export lib generated_text coverage_line db rid mode verified_classes generated_ts_ms step_labels =
     (case assemble_replay_export lib generated_text db rid mode verified_classes generated_ts_ms step_labels of
        Inl e \<Rightarrow> Inl e
      | Inr artifact \<Rightarrow>
          (case assert_export_value_free_value lib (replay_export_json coverage_line artifact) of
             Inl e \<Rightarrow> Inl e
           | Inr _ \<Rightarrow> Inr artifact))"

definition replay_export_filename :: "int \<Rightarrow> string \<Rightarrow> string" where
  "replay_export_filename record_session_id mode =
     (if mode = REPLAY_EXPORT_MODE_NATIVE_SKELETON
      then ''gilbreth_native_blueprint_'' @ show_int record_session_id @ ''.json''
      else ''gilbreth_agent_handoff_'' @ show_int record_session_id @ ''.json'')"

end
