(* ===== verification/Replay_Laws.thy ===== *)
theory Replay_Laws
  imports Replay_Export
begin

text \<open>
  What a replay export may contain: the native blueprint is gated by the verdict, selectors
  carry only safe identifiers, an excluded gap exports nothing but its marker, the input slots
  are numbered, and the final guard never refuses what the exporter itself built.
\<close>

section \<open>The verdict\<close>

definition steps_of_class :: "string \<Rightarrow> export_step list \<Rightarrow> int" where
  "steps_of_class cls steps = int (length (filter (\<lambda>s. class_of_step s = cls) steps))"

lemma steps_of_class_simps [simp]:
  "steps_of_class cls [] = 0"
  "steps_of_class cls (xs @ ys) = steps_of_class cls xs + steps_of_class cls ys"
  "steps_of_class cls [s] = (if class_of_step s = cls then 1 else 0)"
  by (simp_all add: steps_of_class_def)

lemma steps_of_class_nonneg: "steps_of_class cls steps \<ge> 0"
  by (simp add: steps_of_class_def)

lemma replay_classes_distinct:
  "distinct [REPLAY_CLASS_ELIGIBLE, REPLAY_CLASS_PROVISIONAL, REPLAY_CLASS_NATIVE_GAP,
             REPLAY_CLASS_HARD_VETO, REPLAY_CLASS_FREE_INPUT, REPLAY_CLASS_NOISE]"
  by (simp add: replay_class_defs)

text \<open>The counters of the loop are the numbers of rows of each class.\<close>

lemma replay_counts_of_classes:
  "vc_native_eligible (replay_counts_of steps) = steps_of_class REPLAY_CLASS_ELIGIBLE steps"
  "vc_provisional (replay_counts_of steps) = steps_of_class REPLAY_CLASS_PROVISIONAL steps"
  "vc_native_gap (replay_counts_of steps) = steps_of_class REPLAY_CLASS_NATIVE_GAP steps"
  "vc_hard_veto (replay_counts_of steps) = steps_of_class REPLAY_CLASS_HARD_VETO steps"
proof (induction steps rule: rev_induct)
  case (snoc s steps)
  have "replay_counts_of (steps @ [s]) = count_step (replay_counts_of steps) s"
    by (simp add: replay_counts_of_def)
  with snoc replay_classes_distinct
  show "vc_native_eligible (replay_counts_of (steps @ [s])) = steps_of_class REPLAY_CLASS_ELIGIBLE (steps @ [s])"
    "vc_provisional (replay_counts_of (steps @ [s])) = steps_of_class REPLAY_CLASS_PROVISIONAL (steps @ [s])"
    "vc_native_gap (replay_counts_of (steps @ [s])) = steps_of_class REPLAY_CLASS_NATIVE_GAP (steps @ [s])"
    "vc_hard_veto (replay_counts_of (steps @ [s])) = steps_of_class REPLAY_CLASS_HARD_VETO (steps @ [s])"
    by (auto simp: count_step_def Let_def)
qed (simp_all add: replay_counts_of_def)

text \<open>When the verdict opens the native export.\<close>

definition native_ready :: "export_step list \<Rightarrow> string set \<Rightarrow> bool" where
  "native_ready steps verified_classes \<longleftrightarrow>
     ''native'' \<in> verified_classes \<and>
     steps_of_class REPLAY_CLASS_HARD_VETO steps = 0 \<and>
     steps_of_class REPLAY_CLASS_PROVISIONAL steps = 0 \<and>
     (let eligible = steps_of_class REPLAY_CLASS_ELIGIBLE steps;
          actionable = eligible + steps_of_class REPLAY_CLASS_NATIVE_GAP steps
      in actionable \<ge> 2 \<and> 10 * eligible \<ge> 9 * actionable)"

lemma export_available_iff:
  "rv_export_available (recording_replay_verdict steps verified_classes) \<longleftrightarrow>
     native_ready steps verified_classes"
  using steps_of_class_nonneg[of REPLAY_CLASS_HARD_VETO steps]
    steps_of_class_nonneg[of REPLAY_CLASS_PROVISIONAL steps]
  by (auto simp: recording_replay_verdict_def Let_def native_ready_def replay_counts_of_classes
      threshold_met_def ACTIONABLE_MIN_FLOOR_def)

section \<open>The rows of an export\<close>

text \<open>What an item says of the row it came from.\<close>

definition item_of_row :: "json_lib \<Rightarrow> string \<Rightarrow> export_step \<Rightarrow> step_item \<Rightarrow> bool" where
  "item_of_row lib mode row item \<longleftrightarrow>
     export_selector lib mode row =
       Inr (xi_replay_class item, xi_selector item, xi_native_replayable item) \<and>
     xi_seq item = xs_seq row \<and>
     xi_intent item = export_intent row (xi_selector item) \<and>
     (xi_input_slot_ref item \<noteq> None \<longleftrightarrow> clean_text (Some (xs_action_type row)) = ''edit_committed'')"

lemma export_row_item:
  assumes "export_row lib mode labels t (items, slots, labelled) row = Inr acc"
  shows "\<exists>item slot labelled'. acc = (items @ [item], slots @ slot, labelled') \<and>
    item_of_row lib mode row item \<and>
    (case slot_of lib row (length slots) of
       None \<Rightarrow> slot = [] \<and> xi_input_slot_ref item = None
     | Some s \<Rightarrow> slot = [s] \<and> xi_input_slot_ref item = Some (xn_slot_id s))"
  using assms
  by (auto simp: export_row_def Let_def item_of_row_def slot_of_def split: sum.splits prod.splits)

lemma export_rows_items:
  assumes "export_rows lib mode labels t (items, slots, labelled) rows = Inr (items', slots', labelled')"
  shows "\<exists>new. items' = items @ new \<and> list_all2 (item_of_row lib mode) rows new"
  using assms
proof (induction rows arbitrary: items slots labelled)
  case (Cons row rows)
  then obtain acc where row: "export_row lib mode labels t (items, slots, labelled) row = Inr acc"
    and rest: "export_rows lib mode labels t acc rows = Inr (items', slots', labelled')"
    by (auto split: sum.splits)
  from export_row_item[OF row] obtain item slot l
    where acc: "acc = (items @ [item], slots @ slot, l)" and item: "item_of_row lib mode row item"
    by blast
  from Cons.IH[OF rest[unfolded acc]] obtain new
    where "items' = (items @ [item]) @ new" "list_all2 (item_of_row lib mode) rows new" by blast
  with item show ?case by (intro exI[of _ "item # new"]) simp
qed simp


text \<open>Reading an artifact: the rows it was made of and the verdict behind it.\<close>

lemma assemble_exported:
  assumes "assemble_replay_export lib gen db rid mode verified_classes ts labels = Inr artifact"
  shows "list_all2 (item_of_row lib mode) (read_recording_export_steps db rid True) (xa_steps artifact) \<and>
    xa_mode artifact = mode \<and>
    (\<exists>labels t labelled. export_rows lib mode labels t ([], [], False)
       (read_recording_export_steps db rid True) = Inr (xa_steps artifact, xa_input_slots artifact, labelled)) \<and>
    (mode = REPLAY_EXPORT_MODE_NATIVE_SKELETON \<longrightarrow>
       native_ready (read_recording_export_steps db rid False) verified_classes)"
  using assms export_rows_items[where items = "[]" and slots = "[]" and labelled = False and lib = lib
      and mode = mode and rows = "read_recording_export_steps db rid True"]
  by (auto simp: assemble_replay_export_def Let_def export_available_iff
      split: option.splits prod.splits if_splits sum.splits) blast+

lemma build_assembles:
  "build_replay_export lib gen cov db rid mode verified_classes ts labels = Inr artifact \<Longrightarrow>
     assemble_replay_export lib gen db rid mode verified_classes ts labels = Inr artifact \<and>
     first_bad_key (export_key_rejected lib) (replay_export_json cov artifact) = None"
  by (auto simp: build_replay_export_def assert_export_value_free_value_def split: sum.splits option.splits)

lemma native_mode_not_agent: "REPLAY_EXPORT_MODE_NATIVE_SKELETON \<noteq> REPLAY_EXPORT_MODE_AGENT_GROUNDED"
  by (simp add: REPLAY_EXPORT_MODE_NATIVE_SKELETON_def REPLAY_EXPORT_MODE_AGENT_GROUNDED_def)

lemma replayable_item:
  assumes "item_of_row lib mode row item" "xi_native_replayable item"
  shows "mode = REPLAY_EXPORT_MODE_NATIVE_SKELETON \<and> class_of_step row = REPLAY_CLASS_ELIGIBLE \<and>
    \<not> is_excluded_gap (xs_pattern_action row) \<and> xi_replay_class item = REPLAY_CLASS_ELIGIBLE \<and>
    selector_export_block lib row = Inr (xi_selector item) \<and> xi_selector item \<noteq> None"
  using assms
  by (auto simp: item_of_row_def export_selector_def Let_def dest!: sym[of "Some _"] split: if_splits sum.splits option.splits)


section \<open>Identifiers and selectors\<close>

definition safe_identifier :: "string \<Rightarrow> bool" where
  "safe_identifier s \<longleftrightarrow>
     length s \<le> 256 \<and> list_all identifier_char s \<and>
     (\<forall>ds. sublist ds s \<and> list_all is_ascii_digit ds \<longrightarrow> length ds < 6)"

lemma digit_runs_prefix:
  "digit_runs_short run s \<Longrightarrow> run < 6 \<Longrightarrow> prefix ds s \<Longrightarrow> list_all is_ascii_digit ds \<Longrightarrow>
     length ds < 6 - run"
proof (induction s arbitrary: run ds)
  case (Cons c s)
  then show ?case
    by (cases ds) (fastforce split: if_splits)+
qed simp

lemma digit_runs_short_sublist:
  "digit_runs_short run s \<Longrightarrow> run < 6 \<Longrightarrow> sublist ds s \<Longrightarrow> list_all is_ascii_digit ds \<Longrightarrow>
     length ds < 6"
proof (induction s arbitrary: run)
  case (Cons c s)
  from Cons.prems(3) consider "prefix ds (c # s)" | "sublist ds s" by (auto simp: sublist_Cons_right)
  then show ?case
  proof cases
    case 1
    from digit_runs_prefix[OF Cons.prems(1,2) this Cons.prems(4)] show ?thesis by simp
  next
    case 2
    with Cons show ?thesis by (auto split: if_splits)
  qed
qed simp

lemma export_safe_identifier:
  "selector_identifier_is_export_safe s \<Longrightarrow> safe_identifier (trim s)"
  using digit_runs_short_sublist[of 0 "trim s"]
  by (auto simp: selector_identifier_is_export_safe_def Let_def safe_identifier_def
      MAX_REPLAY_EXPORT_SELECTOR_IDENTIFIER_CHARS_def)

text \<open>A number's text carries no surrounding white space.\<close>

definition numbers_are_trimmed :: "json_lib \<Rightarrow> bool" where
  "numbers_are_trimmed lib \<longleftrightarrow> (\<forall>n. trim (jl_text lib (JNumber n)) = jl_text lib (JNumber n))"

lemma clean_value_text_trimmed:
  "numbers_are_trimmed lib \<Longrightarrow> trim (clean_value_text lib v) = clean_value_text lib v"
  by (cases "(lib, v)" rule: clean_value_text.cases)
    (auto simp: numbers_are_trimmed_def, simp_all add: string_defs)

definition safe_hop :: "selector_hop_export \<Rightarrow> bool" where
  "safe_hop h \<longleftrightarrow> safe_identifier (xh_automation_id h) \<and> safe_identifier (xh_class_name h)"

lemma selector_hop_export_of_safe:
  assumes "numbers_are_trimmed lib" "selector_hop_export_of lib hop = Inr (Some h)"
  shows "safe_hop h"
  using assms export_safe_identifier[of "clean_value_text lib (json_get ''automation_id'' hop)"]
    export_safe_identifier[of "clean_value_text lib (json_get ''class_name'' hop)"]
  by (auto simp: selector_hop_export_of_def selector_hop_identifiers_are_export_safe_def
      selector_identifier_is_export_safe_value_def safe_hop_def clean_value_text_trimmed
      split: if_splits sum.splits)

lemma export_hops_safe:
  "numbers_are_trimmed lib \<Longrightarrow> export_hops lib hops = Inr (Some exported) \<Longrightarrow> list_all safe_hop exported"
proof (induction hops arbitrary: exported)
  case (Cons hop hops)
  then show ?case
    by (auto split: sum.splits option.splits intro: selector_hop_export_of_safe)
qed simp

definition safe_selector :: "selector_export \<Rightarrow> bool" where
  "safe_selector sel \<longleftrightarrow>
     xe_backend sel \<in> set REPLAY_EXPORT_SELECTOR_BACKENDS \<and> list_all safe_hop (xe_hops sel)"

lemma selector_export_block_safe:
  assumes "numbers_are_trimmed lib" "selector_export_block lib row = Inr (Some sel)"
  shows "safe_selector sel"
  using assms export_hops_safe[OF assms(1)]
  by (auto simp: selector_export_block_def safe_selector_def selector_backend_export_value_def Let_def
      split: if_splits sum.splits option.splits)

lemma item_selector_safe:
  assumes "numbers_are_trimmed lib" "item_of_row lib mode row item" "xi_selector item = Some sel"
  shows "safe_selector sel \<and> \<not> is_excluded_gap (xs_pattern_action row)"
  using assms selector_export_block_safe[OF assms(1)]
  by (auto simp: item_of_row_def export_selector_def Let_def selector_export_hint_def
      split: if_splits sum.splits option.splits)


section \<open>The final guard\<close>

text \<open>The keys of the artifact's JSON, those of the two identifiers apart.\<close>

definition plain_export_keys :: "string list" where
  "plain_export_keys =
     [''metadata'', ''steps'', ''input_slots'', ''schema'', ''schema_version'', ''value_free'', ''generated_ts'',
      ''record_session_id'', ''title'', ''app_allowlist'', ''mode'', ''verdict'', ''state'',
      ''export_available'', ''coverage_line'', ''source'', ''app_version'', ''git_sha'', ''review_labels'',
      ''included'', ''max_chars'', ''seq'', ''offset_ms_from_recording_start'', ''action_type'',
      ''pattern_action'', ''intent'', ''framework_class'', ''trust_basis'', ''exe'', ''replay_class'',
      ''native_replayable'', ''selector'', ''input_slot_ref'', ''review_label'', ''backend'', ''hops'',
      ''path_hash'', ''leaf_rect'', ''left'', ''top'', ''right'', ''bottom'', ''control_type'',
      ''control_type_label'', ''ordinal'', ''slot_id'', ''at_step_seq'', ''role'', ''type'',
      ''target_selector_ref'']"

definition identifier_keys :: "string list" where
  "identifier_keys = [''automation_id'', ''class_name'']"

text \<open>Case folding leaves a lower-case ASCII key as it is.\<close>

definition folds_export_keys :: "json_lib \<Rightarrow> bool" where
  "folds_export_keys lib \<longleftrightarrow> list_all (\<lambda>k. jl_casefold lib k = k) (plain_export_keys @ identifier_keys)"

lemma export_keys_table:
  "list_all (\<lambda>k. trim k = k \<and> k \<notin> set forbidden_keys \<and>
     to_lowercase k \<notin> {''automation_id'', ''class_name''}) plain_export_keys"
  "list_all (\<lambda>k. trim k = k \<and> k \<notin> set forbidden_keys) identifier_keys"
  by code_simp+

lemma export_key_accepted:
  assumes "folds_export_keys lib"
  shows "k \<in> set plain_export_keys \<Longrightarrow> \<not> export_key_rejected lib k v"
    and "k \<in> set identifier_keys \<Longrightarrow> selector_identifier_is_export_safe_value lib (Some v) \<Longrightarrow>
      \<not> export_key_rejected lib k v"
  using export_keys_table assms
  by (auto simp: folds_export_keys_def list_all_iff export_key_rejected_def
      is_replay_export_forbidden_key_def is_replay_export_selector_identifier_key_def)

lemma plain_keys_accepted:
  assumes "folds_export_keys lib"
  shows "list_all (\<lambda>k. \<forall>v. \<not> export_key_rejected lib k v) plain_export_keys"
  using export_key_accepted(1)[OF assms] by (simp add: list_all_iff)

lemmas accepted_keys = plain_keys_accepted[unfolded plain_export_keys_def list.pred_inject]

text \<open>Nothing below an atom is a key.\<close>

lemma first_bad_atoms [simp]:
  "first_bad_key bad (int_json n) = None"
  "(\<And>v. value = Some v \<Longrightarrow> first_bad_key bad (f v) = None) \<Longrightarrow> first_bad_key bad (opt_json f value) = None"
  by (auto simp: int_json_def opt_json_def split: option.split)

lemma first_bad_elements:
  "(\<And>x. x \<in> set xs \<Longrightarrow> first_bad_key bad (f x) = None) \<Longrightarrow> first_bad_element bad (map f xs) = None"
  by (induction xs) auto

lemma hop_json_accepted:
  assumes "folds_export_keys lib"
    and "selector_identifier_is_export_safe_value lib (Some (JString (xh_automation_id h)))"
    and "selector_identifier_is_export_safe_value lib (Some (JString (xh_class_name h)))"
  shows "first_bad_key (export_key_rejected lib) (hop_json h) = None"
  using accepted_keys[OF assms(1)] export_key_accepted(2)[OF assms(1)] assms(2,3)
  by (simp add: hop_json_def identifier_keys_def)

lemma leaf_rect_json_accepted:
  "folds_export_keys lib \<Longrightarrow> first_bad_key (export_key_rejected lib) (leaf_rect_json r) = None"
  using accepted_keys[of lib] by (simp add: leaf_rect_json_def)

text \<open>The identifiers a hop carries pass the guard's own test.\<close>

definition guarded_hop :: "selector_hop_export \<Rightarrow> bool" where
  "guarded_hop h \<longleftrightarrow>
     selector_identifier_is_export_safe (xh_automation_id h) \<and>
     selector_identifier_is_export_safe (xh_class_name h)"

lemma identifier_safe_trim:
  "selector_identifier_is_export_safe (trim s) = selector_identifier_is_export_safe s"
  by (simp add: selector_identifier_is_export_safe_def)

lemma export_hops_guarded:
  "export_hops lib hops = Inr (Some exported) \<Longrightarrow> h \<in> set exported \<Longrightarrow> guarded_hop h"
proof (induction hops arbitrary: exported)
  case (Cons hop hops)
  then show ?case
    by (auto simp: selector_hop_export_of_def selector_hop_identifiers_are_export_safe_def guarded_hop_def
        selector_identifier_is_export_safe_value_def split: sum.splits option.splits if_splits)
qed simp


lemma selector_block_guarded:
  assumes "selector_export_block lib row = Inr (Some sel)" "h \<in> set (xe_hops sel)"
  shows "guarded_hop h"
  using assms export_hops_guarded
  by (auto simp: selector_export_block_def Let_def split: if_splits sum.splits option.splits)

lemma item_hops_guarded:
  assumes "item_of_row lib mode row item" "xi_selector item = Some sel" "h \<in> set (xe_hops sel)"
  shows "guarded_hop h"
  using assms selector_block_guarded
  by (fastforce simp: item_of_row_def export_selector_def Let_def selector_export_hint_def
      split: if_splits sum.splits option.splits)

lemma selector_json_accepted:
  assumes "folds_export_keys lib" "\<And>h. h \<in> set (xe_hops sel) \<Longrightarrow> guarded_hop h"
  shows "first_bad_key (export_key_rejected lib) (selector_json sel) = None"
proof -
  have hops: "first_bad_element (export_key_rejected lib) (map hop_json (xe_hops sel)) = None"
  proof (rule first_bad_elements)
    fix h assume "h \<in> set (xe_hops sel)"
    from assms(2)[OF this] show "first_bad_key (export_key_rejected lib) (hop_json h) = None"
      by (intro hop_json_accepted assms(1))
        (simp_all add: guarded_hop_def selector_identifier_is_export_safe_value_def identifier_safe_trim)
  qed
  show ?thesis
    using accepted_keys[OF assms(1)] leaf_rect_json_accepted[OF assms(1)]
    by (simp add: selector_json_def hops split: option.split)
qed

lemma step_item_json_accepted:
  assumes "folds_export_keys lib"
    "\<And>sel h. xi_selector item = Some sel \<Longrightarrow> h \<in> set (xe_hops sel) \<Longrightarrow> guarded_hop h"
  shows "first_bad_key (export_key_rejected lib) (step_item_json item) = None"
  using accepted_keys[OF assms(1)] selector_json_accepted[OF assms(1)] assms(2)
  by (simp add: step_item_json_def)

lemma input_slot_json_accepted:
  "folds_export_keys lib \<Longrightarrow> first_bad_key (export_key_rejected lib) (input_slot_json n) = None"
  using accepted_keys[of lib] by (simp add: input_slot_json_def)

lemma replay_export_json_accepted:
  assumes "folds_export_keys lib"
    "\<And>item sel h. item \<in> set (xa_steps a) \<Longrightarrow> xi_selector item = Some sel \<Longrightarrow> h \<in> set (xe_hops sel) \<Longrightarrow>
       guarded_hop h"
  shows "first_bad_key (export_key_rejected lib) (replay_export_json cov a) = None"
proof -
  have "first_bad_element (export_key_rejected lib) (map step_item_json (xa_steps a)) = None"
    by (rule first_bad_elements, rule step_item_json_accepted[OF assms(1)]) (use assms(2) in blast)
  moreover have "first_bad_element (export_key_rejected lib) (map input_slot_json (xa_input_slots a)) = None"
    by (rule first_bad_elements) (rule input_slot_json_accepted[OF assms(1)])
  moreover have "first_bad_element (export_key_rejected lib) (map JString xs) = None" for xs
    by (rule first_bad_elements) simp
  ultimately show ?thesis
    using accepted_keys[OF assms(1)]
    by (simp add: replay_export_json_def split: option.split)
qed

lemma guard_accepts_assembled:
  assumes "folds_export_keys lib"
    "assemble_replay_export lib gen db rid mode verified_classes ts labels = Inr a"
  shows "first_bad_key (export_key_rejected lib) (replay_export_json cov a) = None"
proof (rule replay_export_json_accepted[OF assms(1)])
  fix item sel h
  assume item: "item \<in> set (xa_steps a)" and sel: "xi_selector item = Some sel" "h \<in> set (xe_hops sel)"
  from assemble_exported[OF assms(2)]
  have "list_all2 (item_of_row lib mode) (read_recording_export_steps db rid True) (xa_steps a)" by blast
  with item obtain row where "item_of_row lib mode row item"
    by (auto simp: in_set_conv_nth list_all2_conv_all_nth)
  from item_hops_guarded[OF this sel] show "guarded_hop h" .
qed

lemma build_is_assemble:
  "folds_export_keys lib \<Longrightarrow>
     build_replay_export lib gen cov db rid mode verified_classes ts labels =
     assemble_replay_export lib gen db rid mode verified_classes ts labels"
  using guard_accepts_assembled[where gen = gen and db = db and rid = rid and mode = mode
      and verified_classes = verified_classes and ts = ts and labels = labels and cov = cov]
  by (simp add: build_replay_export_def assert_export_value_free_value_def split: sum.splits)

section \<open>Input slots\<close>

definition edit_rows :: "export_step list \<Rightarrow> export_step list" where
  "edit_rows = filter (\<lambda>row. clean_text (Some (xs_action_type row)) = ''edit_committed'')"

definition slot_name :: "nat \<Rightarrow> string" where "slot_name i = ''input_'' @ show_nat i"

lemma slot_name_inj: "inj slot_name"
  by (rule injI) (simp add: slot_name_def show_nat_inj)

text \<open>The slots a run of rows adds, and the references of its items to them.\<close>

lemma export_rows_slots:
  assumes "export_rows lib mode labels t (items, slots, labelled) rows = Inr (items', slots', labelled')"
  shows "map xn_slot_id slots' = map xn_slot_id slots @
      map slot_name [length slots + 1..<length slots + 1 + length (edit_rows rows)] \<and>
    map xn_at_step_seq slots' = map xn_at_step_seq slots @ map xs_seq (edit_rows rows) \<and>
    List.map_filter xi_input_slot_ref items' = List.map_filter xi_input_slot_ref items @
      map slot_name [length slots + 1..<length slots + 1 + length (edit_rows rows)]"
  using assms
proof (induction rows arbitrary: items slots labelled)
  case Nil
  then show ?case by (simp add: edit_rows_def)
next
  case (Cons row rows)
  then obtain acc where row: "export_row lib mode labels t (items, slots, labelled) row = Inr acc"
    and rest: "export_rows lib mode labels t acc rows = Inr (items', slots', labelled')"
    by (auto split: sum.splits)
  from export_row_item[OF row] obtain item slot l
    where acc: "acc = (items @ [item], slots @ slot, l)"
      and slot: "case slot_of lib row (length slots) of
        None \<Rightarrow> slot = [] \<and> xi_input_slot_ref item = None
      | Some s \<Rightarrow> slot = [s] \<and> xi_input_slot_ref item = Some (xn_slot_id s)"
    by blast
  show ?case
  proof (cases "clean_text (Some (xs_action_type row)) = ''edit_committed''")
    case True
    then show ?thesis
      using Cons.IH[OF rest[unfolded acc]] slot upt_conv_Cons[of "length slots + 1"
          "length slots + 1 + length (edit_rows (row # rows))"]
      by (auto simp: slot_of_def edit_rows_def slot_name_def map_filter_def)
  next
    case False
    then show ?thesis
      using Cons.IH[OF rest[unfolded acc]] slot
      by (auto simp: slot_of_def edit_rows_def map_filter_def)
  qed
qed


text \<open>A test that rejects less finds nothing where a stricter one found nothing.\<close>

lemma first_bad_mono:
  "first_bad_key bad v = None \<Longrightarrow> (\<And>k v. weak k v \<Longrightarrow> bad k v) \<Longrightarrow> first_bad_key weak v = None"
  "first_bad_member bad members = None \<Longrightarrow> (\<And>k v. weak k v \<Longrightarrow> bad k v) \<Longrightarrow> first_bad_member weak members = None"
  "first_bad_element bad vs = None \<Longrightarrow> (\<And>k v. weak k v \<Longrightarrow> bad k v) \<Longrightarrow> first_bad_element weak vs = None"
  by (induction bad v and bad members and bad vs rule: first_bad_key_first_bad_member_first_bad_element.induct)
    (auto split: if_splits option.splits)

lemmas first_bad_key_mono = first_bad_mono(1)

lemma export_intent_gap:
  "is_excluded_gap (xs_pattern_action row) \<Longrightarrow> export_intent row sel = EXCLUDED_APP_GAP_LABEL"
  by (simp add: is_excluded_gap_def export_intent_def Let_def clean_text_def EXCLUDED_APP_GAP_PATTERN_def
      string_defs)

section \<open>The agent handoff\<close>

lemma agent_rows_exported:
  "\<exists>acc'. export_rows lib REPLAY_EXPORT_MODE_AGENT_GROUNDED labels t acc rows = Inr acc'"
proof (induction rows arbitrary: acc)
  case (Cons row rows)
  have "\<exists>acc'. export_row lib REPLAY_EXPORT_MODE_AGENT_GROUNDED labels t acc row = Inr acc'"
    using native_mode_not_agent
    by (auto simp: export_row_def export_selector_def Let_def split: prod.splits sum.splits if_splits)
  with Cons.IH show ?case by auto
qed (rule exI, rule export_rows.simps)

definition exportable :: "replay_db \<Rightarrow> int \<Rightarrow> bool" where
  "exportable db rid =
     (case read_recording_export_metadata db rid of
        None \<Rightarrow> False
      | Some (recording, session) \<Rightarrow> rm_ended_ts recording \<noteq> None)"

lemma agent_export_assembles:
  "(\<exists>a. assemble_replay_export lib gen db rid REPLAY_EXPORT_MODE_AGENT_GROUNDED verified_classes ts labels =
      Inr a) \<longleftrightarrow> exportable db rid"
proof (cases "read_recording_export_metadata db rid")
  case (Some found)
  obtain recording session where found: "found = (recording, session)" by (cases found)
  obtain acc where "export_rows lib REPLAY_EXPORT_MODE_AGENT_GROUNDED (clean_export_review_labels labels)
      (rm_started_ts recording) ([], [], False) (read_recording_export_steps db rid True) = Inr acc"
    using agent_rows_exported by blast
  with Some found native_mode_not_agent show ?thesis
    by (auto simp: assemble_replay_export_def exportable_def Let_def split: prod.splits)
qed (simp add: assemble_replay_export_def exportable_def)

section \<open>A recording to export\<close>

definition demo_lib :: json_lib where
  "demo_lib =
     \<lparr>jl_parse = (\<lambda>s. if s = ''[]'' then Some (JArray
        [JObject [(''automation_id'', JString '' x ''), (''class_name'', JString ''B''),
                  (''control_type'', JNumber ''7''), (''ordinal'', JNumber ''0'')]]) else None),
      jl_as_i64 = parse_i64, jl_f64_as_i64 = (\<lambda>_. None), jl_text = (\<lambda>_. []),
      jl_casefold = to_lowercase\<rparr>"

definition demo_row :: "int \<Rightarrow> string \<Rightarrow> string option \<Rightarrow> step_row" where
  "demo_row s ty pattern =
     \<lparr>ra_seq = s, ra_ts = 1000 + s, ra_record_session_id = 1, ra_action_type = ty,
      ra_pattern_action = pattern, ra_selector_id = Some 5, ra_framework_class = ''native'',
      ra_trust_basis = ''pid_match'', ra_exe = Some ''calc.exe'', ra_is_sensitive = 0\<rparr>"

definition demo_db :: replay_db where
  "demo_db =
     \<lparr>rd_actions = Some [demo_row 3 ''edit_committed'' None, demo_row 1 ''ui_invoked'' (Some ''invoke''),
        demo_row 2 ''ui_toggled'' (Some ''toggle''), demo_row 4 ''ui_action_gap'' (Some ''excluded_app_gap'')],
      rd_framework_class_column = True,
      rd_selectors = Some [\<lparr>sp_selector_id = 5, sp_path_hash = ''h'', sp_framework = ''uia'', sp_depth = 1,
        sp_has_name = 1, sp_path_json = ''[]'', sp_leaf_rect = Some ''1, 2, 3, 4''\<rparr>],
      rd_recordings = Some [\<lparr>rm_record_session_id = 1, rm_session_id = 1, rm_started_ts = 1000,
        rm_ended_ts = Some 2000\<rparr>],
      rd_sessions = []\<rparr>"

lemma demo_lib_hypotheses: "folds_export_keys demo_lib" "numbers_are_trimmed demo_lib"
  by code_simp (simp add: numbers_are_trimmed_def demo_lib_def string_defs)



definition demo_hop :: "(string \<times> json) list" where
  "demo_hop =
     [(''automation_id'', JString '' x ''), (''class_name'', JString ''B''),
      (''control_type'', JNumber ''7''), (''ordinal'', JNumber ''0'')]"

lemma demo_texts:
  "selector_identifier_is_export_safe ''x''" "selector_identifier_is_export_safe ''B''"
  "trim '' x '' = ''x''" "trim ''B'' = ''B''" "trim ''h'' = ''h''" "trim ''[]'' = ''[]''"
  by (simp_all add: selector_identifier_is_export_safe_def identifier_char_def
      MAX_REPLAY_EXPORT_SELECTOR_IDENTIFIER_CHARS_def string_defs)

lemma demo_numbers: "parse_i64 ''7'' = Some 7" "parse_i64 ''0'' = Some 0"
  by code_simp+

lemma demo_backend: "selector_backend_export_value (Some ''uia'') = Some ''uia''"
  by code_simp

lemma demo_parsed:
  "jl_parse demo_lib ''[]'' = Some (JArray [JObject demo_hop])" "jl_as_i64 demo_lib = parse_i64"
  by (simp_all add: demo_lib_def demo_hop_def)

lemma demo_keys: "assert_export_forbidden_keys_free demo_lib (JArray [JObject demo_hop]) = Inr ()"
  by code_simp

lemma demo_hops:
  "export_hops demo_lib [demo_hop] =
     Inr (Some [\<lparr>xh_control_type = 7, xh_control_type_label = ''target control'',
       xh_automation_id = ''x'', xh_class_name = ''B'', xh_ordinal = 0\<rparr>])"
  by (simp add: selector_hop_export_of_def selector_hop_identifiers_are_export_safe_def
      selector_identifier_is_export_safe_value_def demo_hop_def json_get_def demo_texts
      json_value_int_or_default_def demo_parsed demo_numbers control_type_label_def control_type_labels_def)

lemma demo_block:
  "\<exists>sel. selector_export_block demo_lib (export_step_of True demo_db (demo_row n ty pattern)) = Inr (Some sel)"
  by (simp add: selector_export_block_def export_step_of_def demo_db_def demo_row_def joined_selector_def
      clean_text_def demo_texts demo_parsed demo_keys expect_selector_hops_def demo_hops demo_backend
      del: export_hops.simps)

lemma demo_steps:
  "read_recording_export_steps demo_db 1 b = map (export_step_of b demo_db)
     [demo_row 1 ''ui_invoked'' (Some ''invoke''), demo_row 2 ''ui_toggled'' (Some ''toggle''),
      demo_row 3 ''edit_committed'' None, demo_row 4 ''ui_action_gap'' (Some ''excluded_app_gap'')]"
  by (simp add: read_recording_export_steps_def recorded_actions_def demo_db_def demo_row_def)

lemma demo_classes:
  "class_of_step (export_step_of b demo_db (demo_row n ''ui_invoked'' (Some ''invoke''))) = REPLAY_CLASS_ELIGIBLE"
  "class_of_step (export_step_of b demo_db (demo_row n ''ui_toggled'' (Some ''toggle''))) = REPLAY_CLASS_ELIGIBLE"
  "class_of_step (export_step_of b demo_db (demo_row n ''edit_committed'' None)) = REPLAY_CLASS_FREE_INPUT"
  by (simp_all add: class_of_step_def step_replay_class_def clean_text_def export_step_of_def demo_row_def
      demo_db_def joined_selector_def framework_class_of_def control_pattern_def string_defs)

lemma demo_selected:
  assumes "class_of_step (export_step_of True demo_db (demo_row n ty pattern)) = REPLAY_CLASS_ELIGIBLE"
    "\<not> is_excluded_gap pattern"
  shows "\<exists>sel. export_selector demo_lib REPLAY_EXPORT_MODE_NATIVE_SKELETON
    (export_step_of True demo_db (demo_row n ty pattern)) = Inr (REPLAY_CLASS_ELIGIBLE, Some sel, True)"
  using assms demo_block[of n ty pattern]
  by (auto simp: export_selector_def Let_def export_step_of_def demo_row_def)

lemma demo_passed:
  assumes "class_of_step (export_step_of True demo_db (demo_row n ty pattern)) = REPLAY_CLASS_FREE_INPUT \<or>
    is_excluded_gap pattern"
  shows "\<exists>cls. export_selector demo_lib REPLAY_EXPORT_MODE_NATIVE_SKELETON
    (export_step_of True demo_db (demo_row n ty pattern)) = Inr (cls, None, False)"
  using assms replay_classes_distinct native_mode_not_agent
  by (auto simp: export_selector_def Let_def export_step_of_def demo_row_def)

lemma demo_edits:
  "map xs_seq (filter (\<lambda>row. clean_text (Some (xs_action_type row)) = ''edit_committed'')
     (read_recording_export_steps demo_db 1 True)) = [3]"
proof -
  have "clean_text (Some ''ui_invoked'') = ''ui_invoked''" "clean_text (Some ''ui_toggled'') = ''ui_toggled''"
    "clean_text (Some ''edit_committed'') = ''edit_committed''"
    "clean_text (Some ''ui_action_gap'') = ''ui_action_gap''"
    by (simp_all add: clean_text_def string_defs)
  then show ?thesis by (simp add: demo_steps export_step_of_def demo_row_def Let_def)
qed

lemma demo_verdict:
  "rv_export_available (recording_replay_verdict (read_recording_export_steps demo_db 1 False) {''native''})"
  by code_simp

lemma demo_export:
  "\<exists>a. build_replay_export demo_lib (\<lambda>_. []) [] demo_db 1 REPLAY_EXPORT_MODE_NATIVE_SKELETON {''native''} 0
     (\<lambda>_. None) = Inr a \<and> map xi_native_replayable (xa_steps a) = [True, True, False, False]"
proof -
  obtain s1 s2 c3 c4 where selected:
    "export_selector demo_lib REPLAY_EXPORT_MODE_NATIVE_SKELETON
       (export_step_of True demo_db (demo_row 1 ''ui_invoked'' (Some ''invoke''))) = Inr (REPLAY_CLASS_ELIGIBLE, Some s1, True)"
    "export_selector demo_lib REPLAY_EXPORT_MODE_NATIVE_SKELETON
       (export_step_of True demo_db (demo_row 2 ''ui_toggled'' (Some ''toggle''))) = Inr (REPLAY_CLASS_ELIGIBLE, Some s2, True)"
    "export_selector demo_lib REPLAY_EXPORT_MODE_NATIVE_SKELETON
       (export_step_of True demo_db (demo_row 3 ''edit_committed'' None)) = Inr (c3, None, False)"
    "export_selector demo_lib REPLAY_EXPORT_MODE_NATIVE_SKELETON
       (export_step_of True demo_db (demo_row 4 ''ui_action_gap'' (Some ''excluded_app_gap''))) = Inr (c4, None, False)"
    using demo_selected[OF demo_classes(1), of 1] demo_selected[OF demo_classes(2), of 2]
      demo_passed[OF disjI1, OF demo_classes(3), of 3]
      demo_passed[OF disjI2, of "Some ''excluded_app_gap''" 4 "''ui_action_gap''"]
    by (auto simp: is_excluded_gap_def EXCLUDED_APP_GAP_PATTERN_def)
  have "read_recording_export_metadata demo_db 1 = Some (\<lparr>rm_record_session_id = 1, rm_session_id = 1,
      rm_started_ts = 1000, rm_ended_ts = Some 2000\<rparr>, None)"
    by (simp add: read_recording_export_metadata_def demo_db_def)
  with demo_verdict selected native_mode_not_agent show ?thesis
    by (simp add: build_is_assemble demo_lib_hypotheses assemble_replay_export_def demo_steps export_row_def Let_def)
qed


section \<open>Properties\<close>

text \<open>
  C28 (\<open>build_replay_export\<close>, \<open>recording_replay_verdict\<close>): a native blueprint is exported only of
  a recording whose verdict is verified: no step of a web or virtualised application, none of
  provisional trust, at least two actionable steps of which nine in ten are eligible; and each
  item marked replayable comes from an eligible row that is no excluded gap and carries its
  selector.
\<close>

theorem native_export_is_verified:
  assumes "build_replay_export lib gen cov db rid REPLAY_EXPORT_MODE_NATIVE_SKELETON verified_classes ts labels =
    Inr artifact"
  shows "native_ready (read_recording_export_steps db rid False) verified_classes \<and>
    list_all2 (\<lambda>row item. xi_native_replayable item \<longrightarrow>
        class_of_step row = REPLAY_CLASS_ELIGIBLE \<and> \<not> is_excluded_gap (xs_pattern_action row) \<and>
        selector_export_block lib row = Inr (xi_selector item) \<and> xi_selector item \<noteq> None)
      (read_recording_export_steps db rid True) (xa_steps artifact)"
proof -
  from build_assembles[OF assms] have "assemble_replay_export lib gen db rid REPLAY_EXPORT_MODE_NATIVE_SKELETON
      verified_classes ts labels = Inr artifact" by blast
  note exported = assemble_exported[OF this]
  then have "list_all2 (item_of_row lib REPLAY_EXPORT_MODE_NATIVE_SKELETON)
      (read_recording_export_steps db rid True) (xa_steps artifact)" by blast
  then have "list_all2 (\<lambda>row item. xi_native_replayable item \<longrightarrow>
        class_of_step row = REPLAY_CLASS_ELIGIBLE \<and> \<not> is_excluded_gap (xs_pattern_action row) \<and>
        selector_export_block lib row = Inr (xi_selector item) \<and> xi_selector item \<noteq> None)
      (read_recording_export_steps db rid True) (xa_steps artifact)"
  proof (rule list_all2_mono)
    fix row item assume "item_of_row lib REPLAY_EXPORT_MODE_NATIVE_SKELETON row item"
    then show "xi_native_replayable item \<longrightarrow>
        class_of_step row = REPLAY_CLASS_ELIGIBLE \<and> \<not> is_excluded_gap (xs_pattern_action row) \<and>
        selector_export_block lib row = Inr (xi_selector item) \<and> xi_selector item \<noteq> None"
      using replayable_item by simp
  qed
  with exported show ?thesis by simp
qed

theorem native_export_is_verified_witness:
  "\<exists>artifact. build_replay_export demo_lib (\<lambda>_. []) [] demo_db 1 REPLAY_EXPORT_MODE_NATIVE_SKELETON
      {''native''} 0 (\<lambda>_. None) = Inr artifact \<and>
     native_ready (read_recording_export_steps demo_db 1 False) {''native''} \<and>
     (\<exists>item \<in> set (xa_steps artifact). xi_native_replayable item)"
proof -
  from demo_export obtain a where a: "build_replay_export demo_lib (\<lambda>_. []) [] demo_db 1
      REPLAY_EXPORT_MODE_NATIVE_SKELETON {''native''} 0 (\<lambda>_. None) = Inr a"
    and items: "map xi_native_replayable (xa_steps a) = [True, True, False, False]"
    by (elim exE conjE)
  from items have "xa_steps a ! 0 \<in> set (xa_steps a) \<and> xi_native_replayable (xa_steps a ! 0)"
    by (auto simp: map_eq_Cons_conv)
  with native_export_is_verified[OF a, THEN conjunct1] a show ?thesis by blast
qed

text \<open>
  C29 (\<open>selector_export_block\<close>, \<open>assert_replay_export_value_free\<close>): an export of either mode holds no
  key of captured content at any depth of its JSON, and the selectors it carries come from a
  known backend and name their controls only by identifiers of at most 256 harmless characters
  with no six digits in a row.
\<close>

theorem exported_selectors_are_value_free:
  assumes "numbers_are_trimmed lib"
    and "build_replay_export lib gen cov db rid mode verified_classes ts labels = Inr artifact"
  shows "(\<forall>item \<in> set (xa_steps artifact). \<forall>sel. xi_selector item = Some sel \<longrightarrow> safe_selector sel) \<and>
    first_bad_key (\<lambda>key _. is_replay_export_forbidden_key lib key) (replay_export_json cov artifact) = None"
proof
  note assembled = build_assembles[OF assms(2)]
  from assembled have "list_all2 (item_of_row lib mode) (read_recording_export_steps db rid True) (xa_steps artifact)"
    using assemble_exported by blast
  then show "\<forall>item \<in> set (xa_steps artifact). \<forall>sel. xi_selector item = Some sel \<longrightarrow> safe_selector sel"
    using item_selector_safe[OF assms(1)] by (auto simp: in_set_conv_nth list_all2_conv_all_nth) blast
  from assembled show "first_bad_key (\<lambda>key _. is_replay_export_forbidden_key lib key) (replay_export_json cov artifact) = None"
    by (auto elim!: first_bad_key_mono simp: export_key_rejected_def)
qed

theorem exported_selectors_are_value_free_witness:
  "\<exists>artifact. build_replay_export demo_lib (\<lambda>_. []) [] demo_db 1 REPLAY_EXPORT_MODE_NATIVE_SKELETON
      {''native''} 0 (\<lambda>_. None) = Inr artifact \<and>
     (\<forall>item \<in> set (xa_steps artifact). \<forall>sel. xi_selector item = Some sel \<longrightarrow> safe_selector sel)"
proof -
  from demo_export obtain a where a: "build_replay_export demo_lib (\<lambda>_. []) [] demo_db 1
      REPLAY_EXPORT_MODE_NATIVE_SKELETON {''native''} 0 (\<lambda>_. None) = Inr a" by blast
  from exported_selectors_are_value_free[OF demo_lib_hypotheses(2) a] a show ?thesis by blast
qed

text \<open>
  \<open>build_replay_export\<close>: the agent handoff of a recording succeeds exactly when the
  recording is found and has ended: no selector, label or row of it can make the export fail,
  and the final guard never refuses what the exporter built.
\<close>

theorem agent_handoff_succeeds_iff_ended:
  assumes "folds_export_keys lib"
  shows "(\<exists>artifact. build_replay_export lib gen cov db rid REPLAY_EXPORT_MODE_AGENT_GROUNDED verified_classes
      ts labels = Inr artifact) \<longleftrightarrow>
    (\<exists>recording session. read_recording_export_metadata db rid = Some (recording, session) \<and>
       rm_ended_ts recording \<noteq> None)"
  using agent_export_assembles[of lib gen db rid verified_classes ts labels]
  by (auto simp: build_is_assemble[OF assms] exportable_def split: option.splits prod.splits)

theorem agent_handoff_succeeds_iff_ended_witness:
  "\<exists>artifact. build_replay_export demo_lib (\<lambda>_. []) [] demo_db 1 REPLAY_EXPORT_MODE_AGENT_GROUNDED
      {} 0 (\<lambda>_. Some ''x'') = Inr artifact"
  unfolding agent_handoff_succeeds_iff_ended[OF demo_lib_hypotheses(1)]
  by (simp add: read_recording_export_metadata_def demo_db_def)

text \<open>
  \<open>build_replay_export\<close>: of a row behind an excluded application only the fixed marker is
  exported: no selector, no replay, and the marker's label as its intent.
\<close>

theorem excluded_gaps_export_only_their_marker:
  assumes "build_replay_export lib gen cov db rid mode verified_classes ts labels = Inr artifact"
  shows "list_all2 (\<lambda>row item. is_excluded_gap (xs_pattern_action row) \<longrightarrow>
      xi_selector item = None \<and> \<not> xi_native_replayable item \<and> xi_intent item = EXCLUDED_APP_GAP_LABEL)
    (read_recording_export_steps db rid True) (xa_steps artifact)"
proof -
  from build_assembles[OF assms] assemble_exported
  have "list_all2 (item_of_row lib mode) (read_recording_export_steps db rid True) (xa_steps artifact)" by blast
  then show ?thesis
    by (rule list_all2_mono) (auto simp: item_of_row_def export_selector_def export_intent_gap)
qed

theorem excluded_gaps_export_only_their_marker_witness:
  "\<exists>artifact. build_replay_export demo_lib (\<lambda>_. []) [] demo_db 1 REPLAY_EXPORT_MODE_NATIVE_SKELETON
      {''native''} 0 (\<lambda>_. None) = Inr artifact \<and>
     xi_intent (xa_steps artifact ! 3) = EXCLUDED_APP_GAP_LABEL"
proof -
  from demo_export obtain a where a: "build_replay_export demo_lib (\<lambda>_. []) [] demo_db 1
      REPLAY_EXPORT_MODE_NATIVE_SKELETON {''native''} 0 (\<lambda>_. None) = Inr a" by blast
  from list_all2_nthD[OF excluded_gaps_export_only_their_marker[OF a], of 3] a show ?thesis
    by (auto simp: demo_steps is_excluded_gap_def export_step_of_def demo_row_def EXCLUDED_APP_GAP_PATTERN_def
        Let_def)
qed

text \<open>
  \<open>build_replay_export\<close>: there is one input slot for each committed edit, in the order of
  the rows and numbered from one without holes; the items refer to these slots, each once.
\<close>

theorem input_slots_are_numbered:
  assumes "build_replay_export lib gen cov db rid mode verified_classes ts labels = Inr artifact"
  defines "edits \<equiv> filter (\<lambda>row. clean_text (Some (xs_action_type row)) = ''edit_committed'')
      (read_recording_export_steps db rid True)"
  shows "map xn_slot_id (xa_input_slots artifact) =
      map (\<lambda>i. ''input_'' @ show_nat i) [1..<length edits + 1] \<and>
    map xn_at_step_seq (xa_input_slots artifact) = map xs_seq edits \<and>
    List.map_filter xi_input_slot_ref (xa_steps artifact) = map xn_slot_id (xa_input_slots artifact) \<and>
    distinct (map xn_slot_id (xa_input_slots artifact))"
proof -
  from build_assembles[OF assms(1)] assemble_exported obtain labels t labelled where
    "export_rows lib mode labels t ([], [], False) (read_recording_export_steps db rid True) =
      Inr (xa_steps artifact, xa_input_slots artifact, labelled)" by blast
  from export_rows_slots[OF this] slot_name_inj show ?thesis
    by (simp add: edits_def edit_rows_def slot_name_def[abs_def] distinct_map inj_on_def inj_def map_filter_simps
        add.commute)
qed

theorem input_slots_are_numbered_witness:
  "\<exists>artifact. build_replay_export demo_lib (\<lambda>_. []) [] demo_db 1 REPLAY_EXPORT_MODE_NATIVE_SKELETON
      {''native''} 0 (\<lambda>_. None) = Inr artifact \<and>
     map xn_at_step_seq (xa_input_slots artifact) = [3]"
proof -
  from demo_export obtain a where a: "build_replay_export demo_lib (\<lambda>_. []) [] demo_db 1
      REPLAY_EXPORT_MODE_NATIVE_SKELETON {''native''} 0 (\<lambda>_. None) = Inr a" by blast
  from input_slots_are_numbered[OF a, THEN conjunct2, THEN conjunct1] a show ?thesis
    by (auto simp: demo_edits)
qed

end
