(* ===== verification/Record_Coalescer.thy ===== *)
theory Record_Coalescer
  imports Event_Model Rust_Strings
begin

text \<open>
  The recorder's action classifier and coalescer
  (crates/gilbreth-capture-windows/src/record_routine.rs): what UI Automation reports of an
  element becomes an action, repeated scrolls and edit marks are merged, repeated equal
  actions are suppressed, and a pending scroll or edit is emitted before what follows it.
  The instant kept with a pending edit and \<open>idle_commit_ms\<close> are never read by the code.
\<close>

section \<open>Classification\<close>

record coalescer_timing =
  ct_scroll_quiet_ms :: nat
  ct_dedup_window_ms :: nat
  ct_idle_commit_ms :: "nat option"

definition coalescer_timing_default :: coalescer_timing where
  "coalescer_timing_default =
     \<lparr>ct_scroll_quiet_ms = 500, ct_dedup_window_ms = 500, ct_idle_commit_ms = None\<rparr>"

record pattern_availability =
  pa_invoke :: bool
  pa_toggle :: bool
  pa_select :: bool
  pa_expand_collapse :: bool
  pa_scroll :: bool
  pa_text_edit :: bool

text \<open>The two scroll percentages of \<open>CachedActionState\<close> are only read by \<open>scroll_delta\<close>.\<close>

record cached_action_state =
  cs_toggle_state :: "toggle_action_state option"
  cs_expand_collapse_state :: "expand_collapse_action_state option"

record scroll_delta =
  sd_direction :: scroll_direction
  sd_amount_bucket :: "nat option"

record classified_action =
  cl_action_type :: action_type
  cl_payload :: action_payload
  cl_pattern_action :: "string option"

definition classify_cached_action ::
    "pattern_availability \<Rightarrow> cached_action_state \<Rightarrow> scroll_delta option \<Rightarrow> classified_action" where
  "classify_cached_action availability state delta =
     (let invoke_or_other =
        (if pa_invoke availability then
           \<lparr>cl_action_type = action_type.Invoke, cl_payload = action_payload.Invoke None None,
            cl_pattern_action = Some ''invoke''\<rparr>
         else
           \<lparr>cl_action_type = action_type.UiActionOther,
            cl_payload = action_payload.UiActionOther None None None,
            cl_pattern_action = Some ''ui_action_other''\<rparr>)
      in if pa_expand_collapse availability then
           \<lparr>cl_action_type = action_type.ExpandCollapse,
            cl_payload = action_payload.ExpandCollapse
              (case cs_expand_collapse_state state of Some s \<Rightarrow> s | None \<Rightarrow> Expanded) None None,
            cl_pattern_action = Some ''expand_collapse''\<rparr>
         else if pa_select availability then
           \<lparr>cl_action_type = action_type.Select, cl_payload = action_payload.Select None None None None,
            cl_pattern_action = Some ''select''\<rparr>
         else if pa_toggle availability then
           \<lparr>cl_action_type = action_type.Toggle,
            cl_payload = action_payload.Toggle
              (case cs_toggle_state state of Some s \<Rightarrow> s | None \<Rightarrow> On) None None,
            cl_pattern_action = Some ''toggle''\<rparr>
         else if pa_scroll availability then
           (case delta of
              Some d \<Rightarrow>
                \<lparr>cl_action_type = action_type.Scroll,
                 cl_payload = action_payload.Scroll (sd_direction d) (sd_amount_bucket d) None None,
                 cl_pattern_action = Some ''scroll''\<rparr>
            | None \<Rightarrow> invoke_or_other)
         else invoke_or_other)"

record trust_probe =
  tp_element_pid_in_target_tree :: bool
  tp_owner_window_pid_in_target_tree :: bool
  tp_rect_contained_by_owner_window :: bool
  tp_scoped_invoke_sender :: bool

definition classify_trust :: "trust_probe \<Rightarrow> selector_trust_basis option" where
  "classify_trust probe =
     (if tp_element_pid_in_target_tree probe then Some PidMatch
      else if tp_owner_window_pid_in_target_tree probe \<and> tp_rect_contained_by_owner_window probe
      then Some WindowOwnership
      else if tp_scoped_invoke_sender probe then Some ScopedInvokeSender
      else None)"

section \<open>The coalescer\<close>

record captured_element =
  ce_target_key :: string
  ce_selector_path :: selector_path
  ce_trust_basis :: selector_trust_basis
  ce_exe :: "string option"
  ce_has_name :: bool
  ce_framework :: string
  ce_framework_class :: framework_class
  ce_framework_id :: string
  ce_depth :: nat
  ce_leaf_rect :: "string option"

text \<open>\<open>ActionDraft\<close> and \<open>CoalescedAction\<close> have the same fields; emitting copies them.\<close>

record action_draft =
  ad_target :: captured_element
  ad_action_type :: action_type
  ad_payload :: action_payload
  ad_pattern_action :: "string option"
  ad_captured_at :: instant
  ad_diag :: action_diag

type_synonym coalesced_action = action_draft

datatype coalescer_input =
    CAction action_draft
  | EditMarker captured_element instant "modality option" action_diag
  | CommitEdit instant edit_commit_signal
  | FocusChange instant edit_commit_signal
  | StopRecording instant edit_commit_signal

record pending_edit =
  pe_target :: captured_element
  pe_captured_at :: instant
  pe_from_modality :: "modality option"
  pe_diag :: action_diag

record pending_scroll =
  ps_draft :: action_draft
  ps_last_seen :: instant

record action_coalescer =
  ac_timing :: coalescer_timing
  ac_last :: "string \<times> action_type \<rightharpoonup> action_payload \<times> instant"
  ac_pending_scroll :: "pending_scroll option"
  ac_pending_edit :: "pending_edit option"

definition coalescer_new :: "coalescer_timing \<Rightarrow> action_coalescer" where
  "coalescer_new timing =
     \<lparr>ac_timing = timing, ac_last = Map.empty, ac_pending_scroll = None, ac_pending_edit = None\<rparr>"

definition merge_action_diag :: "action_diag \<Rightarrow> action_diag \<Rightarrow> action_diag" where
  "merge_action_diag left right =
     left\<lparr>d_repeat_count := sat_add_u64 (d_repeat_count left) (d_repeat_count right),
          d_callback_latency_ns := max (d_callback_latency_ns left) (d_callback_latency_ns right),
          d_event_to_selector_complete_ns :=
            max (d_event_to_selector_complete_ns left) (d_event_to_selector_complete_ns right),
          d_queue_depth_at_enqueue :=
            max (d_queue_depth_at_enqueue left) (d_queue_depth_at_enqueue right)\<rparr>"

fun same_scroll_direction :: "action_payload \<Rightarrow> action_payload \<Rightarrow> bool" where
  "same_scroll_direction (action_payload.Scroll left _ _ _) (action_payload.Scroll right _ _ _) = (left = right)"
| "same_scroll_direction _ _ = False"

text \<open>The buckets are \<open>u8\<close>; \<open>saturating_add\<close> there stops at 255.\<close>

fun merge_amount_bucket :: "nat option \<Rightarrow> nat option \<Rightarrow> nat option" where
  "merge_amount_bucket (Some left) (Some right) = Some (min (min 255 (left + right)) 10)"
| "merge_amount_bucket (Some v) None = Some v"
| "merge_amount_bucket None (Some v) = Some v"
| "merge_amount_bucket None None = None"

fun merge_scroll_payload :: "action_payload \<Rightarrow> action_payload \<Rightarrow> action_payload" where
  "merge_scroll_payload (action_payload.Scroll direction left _ _) (action_payload.Scroll _ right _ _) =
     action_payload.Scroll direction (merge_amount_bucket left right) None None"
| "merge_scroll_payload _ right = right"

definition emit_draft :: "action_coalescer \<Rightarrow> action_draft \<Rightarrow> action_coalescer \<times> coalesced_action" where
  "emit_draft c draft =
     (c\<lparr>ac_last := (ac_last c)((ce_target_key (ad_target draft), ad_action_type draft) \<mapsto>
          (ad_payload draft, ad_captured_at draft))\<rparr>, draft)"

definition flush_pending_scroll :: "action_coalescer \<Rightarrow> action_coalescer \<times> coalesced_action list" where
  "flush_pending_scroll c =
     (case ac_pending_scroll c of
        None \<Rightarrow> (c, [])
      | Some pending \<Rightarrow>
          (case emit_draft (c\<lparr>ac_pending_scroll := None\<rparr>) (ps_draft pending) of (c, a) \<Rightarrow> (c, [a])))"

definition committed_edit :: "pending_edit \<Rightarrow> instant \<Rightarrow> edit_commit_signal \<Rightarrow> coalesced_action" where
  "committed_edit pending captured_at signal =
     \<lparr>ad_target = pe_target pending, ad_action_type = action_type.EditCommitted,
      ad_payload = action_payload.EditCommitted (pe_from_modality pending) None,
      ad_pattern_action = Some ''edit_committed'', ad_captured_at = captured_at,
      ad_diag = (pe_diag pending)\<lparr>d_action_type := Some action_type.EditCommitted,
                                 d_edit_commit_signal := Some signal\<rparr>\<rparr>"

definition flush_edit ::
    "action_coalescer \<Rightarrow> instant \<Rightarrow> edit_commit_signal \<Rightarrow> action_coalescer \<times> coalesced_action list" where
  "flush_edit c captured_at signal =
     (case ac_pending_edit c of
        None \<Rightarrow> (c, [])
      | Some pending \<Rightarrow> (c\<lparr>ac_pending_edit := None\<rparr>, [committed_edit pending captured_at signal]))"

definition is_duplicate :: "action_coalescer \<Rightarrow> action_draft \<Rightarrow> bool" where
  "is_duplicate c draft =
     (case ac_last c (ce_target_key (ad_target draft), ad_action_type draft) of
        None \<Rightarrow> False
      | Some (payload, seen_at) \<Rightarrow>
          payload = ad_payload draft \<and>
          duration_since (ad_captured_at draft) seen_at \<le> from_millis (ct_dedup_window_ms (ac_timing c)))"

definition handle_non_scroll :: "action_coalescer \<Rightarrow> action_draft \<Rightarrow> action_coalescer \<times> coalesced_action list" where
  "handle_non_scroll c draft =
     (let (c, scrolled) = flush_pending_scroll c;
          (c, edited) = flush_edit c (ad_captured_at draft) FocusLoss
      in if is_duplicate c draft then (c, scrolled @ edited)
         else let (c, a) = emit_draft c draft in (c, scrolled @ edited @ [a]))"

definition merged_scroll :: "pending_scroll \<Rightarrow> action_draft \<Rightarrow> pending_scroll" where
  "merged_scroll pending draft =
     \<lparr>ps_draft = (ps_draft pending)
        \<lparr>ad_captured_at := ad_captured_at draft,
         ad_payload := merge_scroll_payload (ad_payload (ps_draft pending)) (ad_payload draft),
         ad_diag := merge_action_diag (ad_diag (ps_draft pending)) (ad_diag draft)\<rparr>,
      ps_last_seen = ad_captured_at draft\<rparr>"

definition handle_scroll :: "action_coalescer \<Rightarrow> action_draft \<Rightarrow> action_coalescer \<times> coalesced_action list" where
  "handle_scroll c draft =
     (let (c, edited) = flush_edit c (ad_captured_at draft) FocusLoss;
          fresh = \<lparr>ps_draft = draft, ps_last_seen = ad_captured_at draft\<rparr>
      in case ac_pending_scroll c of
           None \<Rightarrow> (c\<lparr>ac_pending_scroll := Some fresh\<rparr>, edited)
         | Some pending \<Rightarrow>
             if ce_target_key (ad_target (ps_draft pending)) = ce_target_key (ad_target draft) \<and>
                same_scroll_direction (ad_payload (ps_draft pending)) (ad_payload draft)
             then (c\<lparr>ac_pending_scroll := Some (merged_scroll pending draft)\<rparr>, edited)
             else let (c, a) = emit_draft (c\<lparr>ac_pending_scroll := None\<rparr>) (ps_draft pending)
                  in (c\<lparr>ac_pending_scroll := Some fresh\<rparr>, edited @ [a]))"

definition flush_all_with_signal ::
    "action_coalescer \<Rightarrow> instant \<Rightarrow> edit_commit_signal \<Rightarrow> action_coalescer \<times> coalesced_action list" where
  "flush_all_with_signal c now signal =
     (let (c, scrolled) = flush_pending_scroll c; (c, edited) = flush_edit c now signal
      in (c, scrolled @ edited))"

definition flush_all :: "action_coalescer \<Rightarrow> instant \<Rightarrow> action_coalescer \<times> coalesced_action list" where
  "flush_all c now = flush_all_with_signal c now Stop"

definition flush_due :: "action_coalescer \<Rightarrow> instant \<Rightarrow> action_coalescer \<times> coalesced_action list" where
  "flush_due c now =
     (case ac_pending_scroll c of
        None \<Rightarrow> (c, [])
      | Some pending \<Rightarrow>
          if duration_since now (ps_last_seen pending) \<ge> from_millis (ct_scroll_quiet_ms (ac_timing c))
          then (case emit_draft (c\<lparr>ac_pending_scroll := None\<rparr>) (ps_draft pending) of (c, a) \<Rightarrow> (c, [a]))
          else (c, []))"

definition edit_marker ::
    "action_coalescer \<Rightarrow> captured_element \<Rightarrow> instant \<Rightarrow> modality option \<Rightarrow> action_diag
     \<Rightarrow> action_coalescer \<times> coalesced_action list" where
  "edit_marker c target captured_at from_modality diag =
     (let (c, scrolled) = flush_pending_scroll c;
          fresh = \<lparr>pe_target = target, pe_captured_at = captured_at, pe_from_modality = from_modality,
                   pe_diag = diag\<rparr>;
          replace = (let (c, edited) = flush_edit c captured_at FocusLoss
                     in (c\<lparr>ac_pending_edit := Some fresh\<rparr>, scrolled @ edited))
      in case ac_pending_edit c of
           None \<Rightarrow> replace
         | Some pending \<Rightarrow>
             if ce_target_key (pe_target pending) = ce_target_key target
             then (c\<lparr>ac_pending_edit := Some (pending
                     \<lparr>pe_captured_at := captured_at,
                      pe_from_modality :=
                        (if pe_from_modality pending \<noteq> None then pe_from_modality pending else from_modality),
                      pe_diag := merge_action_diag (pe_diag pending) diag\<rparr>)\<rparr>, scrolled)
             else replace)"

fun handle :: "action_coalescer \<Rightarrow> coalescer_input \<Rightarrow> action_coalescer \<times> coalesced_action list" where
  "handle c (CAction draft) =
     (if ad_action_type draft = action_type.Scroll then handle_scroll c draft else handle_non_scroll c draft)"
| "handle c (EditMarker target captured_at from_modality diag) =
     edit_marker c target captured_at from_modality diag"
| "handle c (CommitEdit captured_at signal) =
     (let (c, scrolled) = flush_pending_scroll c; (c, edited) = flush_edit c captured_at signal
      in (c, scrolled @ edited))"
| "handle c (FocusChange captured_at signal) =
     (let (c, scrolled) = flush_pending_scroll c; (c, edited) = flush_edit c captured_at signal
      in (c, scrolled @ edited))"
| "handle c (StopRecording captured_at signal) = flush_all_with_signal c captured_at signal"

text \<open>\<open>CoalescedAction::into_capture\<close>.\<close>

definition into_action_capture :: "coalesced_action \<Rightarrow> int \<Rightarrow> action_capture" where
  "into_action_capture a record_session_id =
     \<lparr>a_action = \<lparr>aa_action_type = ad_action_type a, aa_selector_path = ce_selector_path (ad_target a),
                  aa_trust_basis = ce_trust_basis (ad_target a)\<rparr>,
      a_record_session_id = record_session_id, a_exe = ce_exe (ad_target a), a_is_sensitive = False,
      a_has_name = ce_has_name (ad_target a), a_pattern_action = ad_pattern_action a,
      a_framework = ce_framework (ad_target a), a_framework_class = ce_framework_class (ad_target a),
      a_depth = ce_depth (ad_target a), a_leaf_rect = ce_leaf_rect (ad_target a),
      a_payload = ad_payload a, a_captured_at = ad_captured_at a\<rparr>"

end
