(* ===== verification/Coalescer_Laws.thy ===== *)
theory Coalescer_Laws
  imports Record_Coalescer
begin

text \<open>
  What the coalescer guarantees of any run: every observed event is emitted, merged into an
  emitted action or suppressed as a repetition; what is emitted is in the order of time; and
  an action is suppressed exactly when the last emitted action on its target repeats it.
\<close>

section \<open>Runs\<close>

datatype coalescer_op = Handle coalescer_input | FlushDue instant | FlushAll instant

fun coalescer_step :: "action_coalescer \<Rightarrow> coalescer_op \<Rightarrow> action_coalescer \<times> coalesced_action list" where
  "coalescer_step c (Handle input) = handle c input"
| "coalescer_step c (FlushDue now) = flush_due c now"
| "coalescer_step c (FlushAll now) = flush_all c now"

lemmas coalescer_defs = flush_pending_scroll_def flush_edit_def handle_non_scroll_def handle_scroll_def
  flush_all_with_signal_def flush_all_def flush_due_def edit_marker_def emit_draft_def committed_edit_def
  merged_scroll_def Let_def

lemmas coalescer_splits = option.splits prod.splits if_splits

text \<open>A pending scroll is a scroll, and a scroll and an edit are never pending together.\<close>

definition coalescer_wf :: "action_coalescer \<Rightarrow> bool" where
  "coalescer_wf c \<longleftrightarrow>
     (\<forall>p. ac_pending_scroll c = Some p \<longrightarrow>
        ad_action_type (ps_draft p) = action_type.Scroll \<and> ps_last_seen p = ad_captured_at (ps_draft p) \<and>
        ac_pending_edit c = None)"

lemma coalescer_new_wf [simp]: "coalescer_wf (coalescer_new timing)"
  by (simp add: coalescer_wf_def coalescer_new_def)

lemma coalescer_step_wf: "coalescer_wf c \<Longrightarrow> coalescer_wf (fst (coalescer_step c op))"
proof (cases op)
  case (Handle input)
  then show "coalescer_wf c \<Longrightarrow> coalescer_wf (fst (coalescer_step c op))"
    by (cases input) (auto simp: coalescer_wf_def coalescer_defs split: coalescer_splits)
qed (auto simp: coalescer_wf_def coalescer_defs split: coalescer_splits)

lemma coalescer_step_timing: "ac_timing (fst (coalescer_step c op)) = ac_timing c"
proof (cases op)
  case (Handle input)
  then show ?thesis by (cases input) (auto simp: coalescer_defs split: coalescer_splits)
qed (auto simp: coalescer_defs split: coalescer_splits)

section \<open>Nothing is lost\<close>

definition draft_repeats :: "action_draft \<Rightarrow> nat" where
  "draft_repeats a = d_repeat_count (ad_diag a)"

fun op_repeats :: "coalescer_op \<Rightarrow> nat" where
  "op_repeats (Handle (CAction draft)) = draft_repeats draft"
| "op_repeats (Handle (EditMarker _ _ _ diag)) = d_repeat_count diag"
| "op_repeats _ = 0"

definition pending_repeats :: "action_coalescer \<Rightarrow> nat" where
  "pending_repeats c =
     (case ac_pending_scroll c of None \<Rightarrow> 0 | Some p \<Rightarrow> draft_repeats (ps_draft p)) +
     (case ac_pending_edit c of None \<Rightarrow> 0 | Some p \<Rightarrow> d_repeat_count (pe_diag p))"

text \<open>An action that repeats the last emitted one on its target.\<close>

fun suppressed :: "action_coalescer \<Rightarrow> coalescer_op \<Rightarrow> bool" where
  "suppressed c (Handle (CAction draft)) \<longleftrightarrow> ad_action_type draft \<noteq> action_type.Scroll \<and> is_duplicate c draft"
| "suppressed c _ \<longleftrightarrow> False"

fun suppressed_repeats :: "action_coalescer \<Rightarrow> coalescer_op list \<Rightarrow> nat" where
  "suppressed_repeats c [] = 0"
| "suppressed_repeats c (op # ops) =
     (if suppressed c op then op_repeats op else 0) + suppressed_repeats (fst (coalescer_step c op)) ops"

text \<open>Flushing what is pending does not change the verdict on a following action.\<close>

lemma duplicate_after_flush:
  assumes "coalescer_wf c" "ad_action_type draft \<noteq> action_type.Scroll"
  shows "is_duplicate (fst (flush_edit (fst (flush_pending_scroll c)) t signal)) draft = is_duplicate c draft"
  using assms by (auto simp: is_duplicate_def coalescer_defs coalescer_wf_def split: coalescer_splits)

lemma coalescer_step_repeats:
  assumes "coalescer_wf c" "pending_repeats c + op_repeats op \<le> u64_max"
  shows "sum_list (map draft_repeats (snd (coalescer_step c op))) + pending_repeats (fst (coalescer_step c op)) +
      (if suppressed c op then op_repeats op else 0) = pending_repeats c + op_repeats op"
proof (cases op)
  case op: (Handle input)
  then show ?thesis
  proof (cases input)
    case (CAction draft)
    show ?thesis
    proof (cases "ad_action_type draft = action_type.Scroll")
      case True
      with op CAction assms show ?thesis
        by (auto simp: pending_repeats_def draft_repeats_def coalescer_defs merge_action_diag_def
            sat_add_u64_def coalescer_wf_def split: coalescer_splits)
    next
      case False
      with op CAction assms duplicate_after_flush[OF assms(1) False, of "ad_captured_at draft" FocusLoss]
      show ?thesis
        by (auto simp: pending_repeats_def draft_repeats_def coalescer_defs split: coalescer_splits)
    qed
  qed (use op assms in \<open>auto simp: pending_repeats_def draft_repeats_def coalescer_defs
      merge_action_diag_def sat_add_u64_def split: coalescer_splits\<close>)
qed (auto simp: pending_repeats_def draft_repeats_def coalescer_defs split: coalescer_splits)

lemma coalescer_run_repeats:
  assumes "coalescer_wf c" "pending_repeats c + sum_list (map op_repeats ops) \<le> u64_max"
  shows "sum_list (map draft_repeats (outputs coalescer_step c ops)) +
      pending_repeats (final coalescer_step c ops) + suppressed_repeats c ops =
    pending_repeats c + sum_list (map op_repeats ops)"
  using assms
proof (induction ops arbitrary: c)
  case (Cons op ops)
  from Cons.prems have bound: "pending_repeats c + op_repeats op \<le> u64_max" by simp
  note step = coalescer_step_repeats[OF Cons.prems(1) bound]
  with Cons.prems have "pending_repeats (fst (coalescer_step c op)) + sum_list (map op_repeats ops) \<le> u64_max"
    by simp
  from Cons.IH[OF coalescer_step_wf[OF Cons.prems(1)] this] step show ?case by simp
qed simp

lemma flush_all_empties_coalescer:
  "pending_repeats (fst (coalescer_step c (FlushAll now))) = 0"
  by (auto simp: pending_repeats_def coalescer_defs split: coalescer_splits)


section \<open>The order of what is emitted\<close>

fun input_time :: "coalescer_input \<Rightarrow> instant" where
  "input_time (CAction draft) = ad_captured_at draft"
| "input_time (EditMarker _ t _ _) = t"
| "input_time (CommitEdit t _) = t"
| "input_time (FocusChange t _) = t"
| "input_time (StopRecording t _) = t"

fun op_time :: "coalescer_op \<Rightarrow> instant" where
  "op_time (Handle input) = input_time input"
| "op_time (FlushDue now) = now"
| "op_time (FlushAll now) = now"

text \<open>Between the last emission \<open>m\<close> and now \<open>t\<close> lies the pending scroll, if any.\<close>

definition scroll_between :: "action_coalescer \<Rightarrow> instant \<Rightarrow> instant \<Rightarrow> bool" where
  "scroll_between c m t \<longleftrightarrow>
     m \<le> t \<and>
     (\<forall>p. ac_pending_scroll c = Some p \<longrightarrow> m \<le> ad_captured_at (ps_draft p) \<and> ad_captured_at (ps_draft p) \<le> t)"

lemma coalescer_step_order:
  assumes "coalescer_wf c" "scroll_between c m t" "t \<le> op_time op"
  shows "\<exists>m'. sorted (m # map ad_captured_at (snd (coalescer_step c op)) @ [m']) \<and>
    scroll_between (fst (coalescer_step c op)) m' (op_time op)"
proof -
  let ?out = "map ad_captured_at (snd (coalescer_step c op))"
  let ?m' = "if ?out = [] then m else last ?out"
  have "sorted (m # ?out @ [?m']) \<and> scroll_between (fst (coalescer_step c op)) ?m' (op_time op)"
  proof (cases op)
    case op: (Handle input)
    with assms show ?thesis
      by (cases input)
        (auto simp: coalescer_wf_def scroll_between_def coalescer_defs split: coalescer_splits)
  qed (use assms in \<open>auto simp: coalescer_wf_def scroll_between_def coalescer_defs split: coalescer_splits\<close>)
  then show ?thesis by blast
qed

lemma coalescer_run_order:
  assumes "coalescer_wf c" "scroll_between c m t" "sorted (t # map op_time ops)"
  shows "sorted (m # map ad_captured_at (outputs coalescer_step c ops))"
  using assms
proof (induction ops arbitrary: c m t)
  case (Cons op ops)
  from Cons.prems(3) have "t \<le> op_time op" by simp
  from coalescer_step_order[OF Cons.prems(1,2) this] obtain m'
    where step: "sorted (m # map ad_captured_at (snd (coalescer_step c op)) @ [m'])"
      and between: "scroll_between (fst (coalescer_step c op)) m' (op_time op)" by blast
  from Cons.IH[OF coalescer_step_wf[OF Cons.prems(1)] between] Cons.prems(3)
  have "sorted (m' # map ad_captured_at (outputs coalescer_step (fst (coalescer_step c op)) ops))" by simp
  with step show ?case by (auto simp: sorted_append intro: order_trans)
qed simp

section \<open>Suppression\<close>

text \<open>The last action emitted of a type on a target.\<close>

definition last_emitted :: "string \<Rightarrow> action_type \<Rightarrow> coalesced_action list \<Rightarrow> coalesced_action option" where
  "last_emitted key ty actions =
     find (\<lambda>a. ce_target_key (ad_target a) = key \<and> ad_action_type a = ty) (rev actions)"

lemma last_emitted_simps [simp]:
  "last_emitted key ty [] = None"
  "last_emitted key ty (actions @ [a]) =
     (if ce_target_key (ad_target a) = key \<and> ad_action_type a = ty then Some a
      else last_emitted key ty actions)"
  by (simp_all add: last_emitted_def)

definition remembers :: "action_coalescer \<Rightarrow> coalesced_action list \<Rightarrow> bool" where
  "remembers c actions \<longleftrightarrow>
     (\<forall>key ty. ty \<noteq> action_type.EditCommitted \<longrightarrow>
        ac_last c (key, ty) = map_option (\<lambda>a. (ad_payload a, ad_captured_at a)) (last_emitted key ty actions))"

text \<open>One action emitted through the table, and one commit past it.\<close>

lemma remembers_emit:
  "remembers c actions \<Longrightarrow> emit_draft c draft = (c', a) \<Longrightarrow> remembers c' (actions @ [a])"
  by (auto simp: remembers_def emit_draft_def)

lemma remembers_commit:
  "remembers c actions \<Longrightarrow> remembers c (actions @ [committed_edit pending t signal])"
  by (simp add: remembers_def committed_edit_def)

lemma remembers_frame [simp]:
  "remembers (c\<lparr>ac_pending_scroll := p\<rparr>) actions = remembers c actions"
  "remembers (c\<lparr>ac_pending_edit := e\<rparr>) actions = remembers c actions"
  by (simp_all add: remembers_def)

lemma remembers_flush_scroll:
  "remembers c actions \<Longrightarrow> flush_pending_scroll c = (c', out) \<Longrightarrow> remembers c' (actions @ out)"
  by (auto simp: flush_pending_scroll_def split: option.splits prod.splits
      intro: remembers_emit[of "c\<lparr>ac_pending_scroll := None\<rparr>"])

lemma remembers_flush_edit:
  "remembers c actions \<Longrightarrow> flush_edit c t signal = (c', out) \<Longrightarrow> remembers c' (actions @ out)"
  by (auto simp: flush_edit_def remembers_commit split: option.splits)

lemma remembers_flush_both:
  assumes "remembers c actions" "flush_pending_scroll c = (c1, scrolled)" "flush_edit c1 t signal = (c2, edited)"
  shows "remembers c2 (actions @ scrolled @ edited)"
  using remembers_flush_edit[OF remembers_flush_scroll[OF assms(1,2)] assms(3)] by simp

lemma remembers_non_scroll:
  assumes "remembers c actions" "handle_non_scroll c draft = (c', out)"
  shows "remembers c' (actions @ out)"
proof -
  obtain c1 scrolled where 1: "flush_pending_scroll c = (c1, scrolled)" by (cases "flush_pending_scroll c")
  obtain c2 edited where 2: "flush_edit c1 (ad_captured_at draft) FocusLoss = (c2, edited)"
    by (cases "flush_edit c1 (ad_captured_at draft) FocusLoss")
  note both = remembers_flush_both[OF assms(1) 1 2]
  show ?thesis
  proof (cases "is_duplicate c2 draft")
    case True
    with both assms(2) 1 2 show ?thesis by (auto simp: handle_non_scroll_def)
  next
    case False
    with assms(2) 1 2 remembers_emit[OF both] show ?thesis
      by (auto simp: handle_non_scroll_def split: prod.splits)
  qed
qed

lemma remembers_scroll:
  assumes "remembers c actions" "handle_scroll c draft = (c', out)"
  shows "remembers c' (actions @ out)"
proof -
  obtain c1 edited where 1: "flush_edit c (ad_captured_at draft) FocusLoss = (c1, edited)"
    by (cases "flush_edit c (ad_captured_at draft) FocusLoss")
  note edit = remembers_flush_edit[OF assms(1) 1]
  then have "remembers (c1\<lparr>ac_pending_scroll := None\<rparr>) (actions @ edited)" by simp
  from remembers_emit[OF this] edit assms(2) 1 show ?thesis
    by (auto simp: handle_scroll_def Let_def split: option.splits if_splits prod.splits)
qed

lemma remembers_marker:
  assumes "remembers c actions" "edit_marker c target t modality diag = (c', out)"
  shows "remembers c' (actions @ out)"
proof -
  obtain c1 scrolled where 1: "flush_pending_scroll c = (c1, scrolled)" by (cases "flush_pending_scroll c")
  obtain c2 edited where 2: "flush_edit c1 t FocusLoss = (c2, edited)" by (cases "flush_edit c1 t FocusLoss")
  from remembers_flush_scroll[OF assms(1) 1] remembers_flush_both[OF assms(1) 1 2] assms(2) 1 2
  show ?thesis by (auto simp: edit_marker_def Let_def split: option.splits if_splits)
qed

lemma remembers_step:
  assumes "remembers c actions"
  shows "remembers (fst (coalescer_step c op)) (actions @ snd (coalescer_step c op))"
proof (cases op)
  case op: (Handle input)
  show ?thesis
  proof (cases input)
    case (CAction draft)
    with op remembers_scroll[OF assms] remembers_non_scroll[OF assms] show ?thesis
      by (cases "coalescer_step c op") (auto split: if_splits)
  next
    case EditMarker
    with op remembers_marker[OF assms] show ?thesis by (cases "coalescer_step c op") auto
  qed (use op remembers_flush_both[OF assms] in
      \<open>auto simp: flush_all_with_signal_def Let_def split: prod.splits\<close>)
next
  case (FlushDue now)
  from assms have "remembers (c\<lparr>ac_pending_scroll := None\<rparr>) actions" by simp
  from FlushDue assms remembers_emit[OF this] show ?thesis
    by (auto simp: flush_due_def split: option.splits prod.splits)
next
  case FlushAll
  with remembers_flush_both[OF assms] show ?thesis
    by (auto simp: flush_all_def flush_all_with_signal_def Let_def split: prod.splits)
qed

lemma remembers_run:
  "remembers c actions \<Longrightarrow> remembers (final coalescer_step c ops) (actions @ outputs coalescer_step c ops)"
proof (induction ops arbitrary: c actions)
  case (Cons op ops)
  from Cons.IH[OF remembers_step[OF Cons.prems]] show ?case by simp
qed simp

lemma final_coalescer:
  "coalescer_wf c \<Longrightarrow> coalescer_wf (final coalescer_step c ops) \<and>
     ac_timing (final coalescer_step c ops) = ac_timing c"
  by (induction ops arbitrary: c) (simp_all add: coalescer_step_wf coalescer_step_timing)


section \<open>Properties\<close>

definition demo_element :: "string \<Rightarrow> captured_element" where
  "demo_element key =
     \<lparr>ce_target_key = key, ce_selector_path = \<lparr>s_backend = ''uia'', s_hops = []\<rparr>, ce_trust_basis = PidMatch,
      ce_exe = None, ce_has_name = False, ce_framework = ''uia'', ce_framework_class = Native,
      ce_framework_id = ''WPF'', ce_depth = 1, ce_leaf_rect = None\<rparr>"

definition demo_diag :: "nat \<Rightarrow> action_diag" where
  "demo_diag n =
     \<lparr>d_record_session_id = 1, d_worker_ordinal = n, d_event_kind = ''invoke'', d_callback_latency_ns = 0,
      d_event_to_selector_complete_ns = 0, d_queue_depth_at_enqueue = 0, d_repeat_count = 1,
      d_edit_commit_signal = None, d_trust_basis = None, d_action_type = None\<rparr>"

definition demo_toggle :: "instant \<Rightarrow> action_draft" where
  "demo_toggle t =
     \<lparr>ad_target = demo_element ''check'', ad_action_type = action_type.Toggle,
      ad_payload = action_payload.Toggle On None None, ad_pattern_action = Some ''toggle'',
      ad_captured_at = t, ad_diag = demo_diag t\<rparr>"

definition demo_ops :: "coalescer_op list" where
  "demo_ops = [Handle (EditMarker (demo_element ''field'') 1 None (demo_diag 0)),
     Handle (CAction (demo_toggle 2)), Handle (CAction (demo_toggle 3))]"

lemmas demo_defs = demo_ops_def demo_toggle_def demo_element_def demo_diag_def coalescer_new_def
  coalescer_timing_default_def is_duplicate_def draft_repeats_def time_defs coalescer_defs

text \<open>
  C20 (\<open>ActionCoalescer\<close>): when a recording stops, every event handed to the coalescer has been
  counted once: in the repeat count of an emitted action, or as a suppressed repetition of
  the last action emitted on its target.  Nothing stays pending.
\<close>

theorem coalescer_accounts_for_every_event:
  assumes "sum_list (map op_repeats ops) \<le> u64_max"
  shows "sum_list (map draft_repeats (outputs coalescer_step (coalescer_new timing) (ops @ [FlushAll now]))) +
      suppressed_repeats (coalescer_new timing) ops = sum_list (map op_repeats ops)"
proof -
  have new: "pending_repeats (coalescer_new timing) = 0" by (simp add: pending_repeats_def coalescer_new_def)
  with assms have "pending_repeats (coalescer_new timing) + sum_list (map op_repeats (ops @ [FlushAll now])) \<le> u64_max"
    by simp
  note run = coalescer_run_repeats[OF coalescer_new_wf this]
  have "suppressed_repeats c (xs @ [FlushAll now]) = suppressed_repeats c xs" for c xs
    by (induction xs arbitrary: c) simp_all
  with run new flush_all_empties_coalescer[of "final coalescer_step (coalescer_new timing) ops" now] show ?thesis by simp
qed

theorem coalescer_accounts_for_every_event_witness:
  "sum_list (map draft_repeats (outputs coalescer_step (coalescer_new coalescer_timing_default)
     (demo_ops @ [FlushAll 4]))) = 2 \<and>
   suppressed_repeats (coalescer_new coalescer_timing_default) demo_ops = 1"
proof -
  have "sum_list (map op_repeats demo_ops) = 3"
    by (simp add: demo_ops_def demo_toggle_def demo_diag_def draft_repeats_def)
  moreover have "suppressed_repeats (coalescer_new coalescer_timing_default) demo_ops = 1"
    by (simp add: demo_defs)
  ultimately show ?thesis
    using coalescer_accounts_for_every_event[of demo_ops coalescer_timing_default 4] by (simp add: u64_max_def)
qed

text \<open>
  \<open>ActionCoalescer\<close>: the actions of a recording are emitted in the order of their capture,
  though scrolls and edits are held back: what is pending is always emitted before anything
  later.
\<close>

theorem coalesced_actions_in_time_order:
  assumes "sorted (map op_time ops)"
  shows "sorted (map ad_captured_at (outputs coalescer_step (coalescer_new timing) ops))"
proof -
  have "scroll_between (coalescer_new timing) 0 0" by (simp add: scroll_between_def coalescer_new_def)
  moreover from assms have "sorted (0 # map op_time ops)" by simp
  ultimately show ?thesis using coalescer_run_order[OF coalescer_new_wf] by fastforce
qed

theorem coalesced_actions_in_time_order_witness:
  "sorted (map ad_captured_at (outputs coalescer_step (coalescer_new coalescer_timing_default) demo_ops))"
  by (rule coalesced_actions_in_time_order) (simp add: demo_ops_def demo_toggle_def)

text \<open>
  \<open>ActionCoalescer::is_duplicate\<close>: an action other than a scroll is suppressed exactly when
  the last action of its type emitted on its target had the same payload no longer ago than
  the deduplication window; otherwise it is emitted at once.
\<close>

theorem repetitions_are_suppressed_exactly:
  fixes draft :: action_draft and timing :: coalescer_timing and ops :: "coalescer_op list"
  assumes "ad_action_type draft \<notin> {action_type.Scroll, action_type.EditCommitted}"
  defines "before \<equiv> outputs coalescer_step (coalescer_new timing) ops"
  defines "now_emitted \<equiv> snd (coalescer_step (final coalescer_step (coalescer_new timing) ops) (Handle (CAction draft)))"
  shows "filter (\<lambda>a. ad_action_type a = ad_action_type draft) now_emitted =
    (case last_emitted (ce_target_key (ad_target draft)) (ad_action_type draft) before of
       None \<Rightarrow> [draft]
     | Some a \<Rightarrow>
         if ad_payload a = ad_payload draft \<and>
            duration_since (ad_captured_at draft) (ad_captured_at a) \<le> from_millis (ct_dedup_window_ms timing)
         then [] else [draft])"
proof -
  let ?c = "final coalescer_step (coalescer_new timing) ops"
  have wf: "coalescer_wf ?c" "ac_timing ?c = timing"
    using final_coalescer[OF coalescer_new_wf[of timing], of ops] by (auto simp: coalescer_new_def)
  have "remembers (coalescer_new timing) []" by (simp add: remembers_def coalescer_new_def)
  from remembers_run[OF this, of ops] have "remembers ?c before" by (simp add: before_def)
  with assms(1) wf(2) have dup: "is_duplicate ?c draft \<longleftrightarrow>
      (case last_emitted (ce_target_key (ad_target draft)) (ad_action_type draft) before of
         None \<Rightarrow> False
       | Some a \<Rightarrow> ad_payload a = ad_payload draft \<and>
           duration_since (ad_captured_at draft) (ad_captured_at a) \<le> from_millis (ct_dedup_window_ms timing))"
    by (auto simp: is_duplicate_def remembers_def split: option.splits)
  have "filter (\<lambda>a. ad_action_type a = ad_action_type draft) now_emitted = (if is_duplicate ?c draft then [] else [draft])"
    using assms(1) wf(1) duplicate_after_flush[OF wf(1), of draft "ad_captured_at draft" FocusLoss]
    by (auto simp: now_emitted_def handle_non_scroll_def emit_draft_def flush_pending_scroll_def flush_edit_def
        committed_edit_def coalescer_wf_def Let_def split: coalescer_splits)
  with dup show ?thesis by (simp split: option.splits)
qed

theorem repetitions_are_suppressed_exactly_witness:
  "filter (\<lambda>a. ad_action_type a = action_type.Toggle)
     (snd (coalescer_step (final coalescer_step (coalescer_new coalescer_timing_default) demo_ops)
        (Handle (CAction (demo_toggle 600000000))))) = [demo_toggle 600000000]"
proof -
  have "last_emitted ''check'' action_type.Toggle
      (outputs coalescer_step (coalescer_new coalescer_timing_default) demo_ops) = Some (demo_toggle 2)"
    by (simp add: demo_defs last_emitted_def)
  then show ?thesis
    using repetitions_are_suppressed_exactly[of "demo_toggle 600000000" coalescer_timing_default demo_ops]
    by (simp add: demo_toggle_def demo_element_def time_defs coalescer_timing_default_def)
qed

end
