(* ===== verification/Record_Worker.thy ===== *)
theory Record_Worker
  imports Coalescer_Laws Selector_Path
begin

text \<open>
  The recorder's worker (crates/gilbreth-capture-windows/src/record_routine.rs): the process
  tree of the recorded window, which elements are trusted, how a UI Automation event becomes
  coalescer input or a rejection, the statistics, and the loop that sends actions to the
  writer.  What Windows answers about an element, a window or a subscription comes with each
  event; so does the state of the channel at each send.  Log lines are left out.
\<close>

section \<open>The process tree\<close>

text \<open>The snapshot's map from process to parent, in any order of enumeration.\<close>

type_synonym process_entries = "(nat \<times> nat) list"

fun scan_children :: "nat \<Rightarrow> process_entries \<Rightarrow> nat set \<Rightarrow> nat list \<Rightarrow> nat set \<times> nat list" where
  "scan_children parent [] result queue = (result, queue)"
| "scan_children parent ((pid, parent_pid) # entries) result queue =
     (if parent_pid = parent \<and> pid \<notin> result
      then scan_children parent entries (insert pid result) (queue @ [pid])
      else scan_children parent entries result queue)"

lemma scan_children_measure:
  assumes "scan_children parent entries result queue = (result', queue')"
    "finite A" "fst ` set entries \<subseteq> A"
  shows "2 * card (A - result') + length queue' \<le> 2 * card (A - result) + length queue"
  using assms
proof (induction entries arbitrary: result queue)
  case (Cons entry entries)
  obtain pid parent_pid where entry: "entry = (pid, parent_pid)" by (cases entry)
  show ?case
  proof (cases "parent_pid = parent \<and> pid \<notin> result")
    case True
    with entry Cons.prems have "pid \<in> A - result" by auto
    moreover have "A - insert pid result = (A - result) - {pid}" by auto
    ultimately have "card (A - result) = card (A - insert pid result) + 1"
      using Cons.prems(2) card_Suc_Diff1[of "A - result" pid] by simp
    with True entry Cons show ?thesis by fastforce
  next
    case False
    with entry Cons show ?thesis by auto
  qed
qed simp

function process_tree_loop :: "process_entries \<Rightarrow> nat set \<Rightarrow> nat list \<Rightarrow> nat set" where
  "process_tree_loop entries result [] = result"
| "process_tree_loop entries result (parent # queue) =
     (case scan_children parent entries result queue of
        (result', queue') \<Rightarrow> process_tree_loop entries result' queue')"
  by pat_completeness auto
termination
proof (relation "measure (\<lambda>(entries, result, queue). 2 * card (fst ` set entries - result) + length queue)")
  fix entries result parent queue x result' queue'
  assume "(result', queue') = scan_children parent entries result queue"
  from scan_children_measure[OF this[symmetric], of "fst ` set entries"]
  show "((entries, result', queue'), entries, result, parent # queue)
    \<in> measure (\<lambda>(entries, result, queue). 2 * card (fst ` set entries - result) + length queue)"
    by simp
qed auto

definition process_tree :: "process_entries \<Rightarrow> nat \<Rightarrow> nat set" where
  "process_tree entries root_pid = process_tree_loop entries {root_pid} [root_pid]"

section \<open>Trusted elements\<close>

record rect =
  rc_left :: int
  rc_top :: int
  rc_right :: int
  rc_bottom :: int

definition RECT_CONTAINMENT_TOLERANCE_PX :: int where "RECT_CONTAINMENT_TOLERANCE_PX = 2"

definition rect_contains_with_tolerance :: "rect \<Rightarrow> rect \<Rightarrow> int \<Rightarrow> bool" where
  "rect_contains_with_tolerance outer inner tolerance \<longleftrightarrow>
     rc_left inner \<ge> rc_left outer - tolerance \<and> rc_top inner \<ge> rc_top outer - tolerance \<and>
     rc_right inner \<le> rc_right outer + tolerance \<and> rc_bottom inner \<le> rc_bottom outer + tolerance"

definition rect_center :: "rect \<Rightarrow> (int \<times> int) option" where
  "rect_center r =
     (if rc_right r \<le> rc_left r \<or> rc_bottom r \<le> rc_top r then None
      else Some (rc_left r + (rc_right r - rc_left r) div 2, rc_top r + (rc_bottom r - rc_top r) div 2))"

definition rect_string :: "rect \<Rightarrow> string" where
  "rect_string r =
     show_int (rc_left r) @ '','' @ show_int (rc_top r) @ '','' @ show_int (rc_right r) @ '','' @
     show_int (rc_bottom r)"

text \<open>What Windows answers of the visible window that owns a point: its process and rectangle.\<close>

type_synonym window_at = "int \<times> int \<Rightarrow> (nat \<times> rect option) option"

record owner_window_probe =
  ow_pid :: nat
  ow_contains_rect :: bool

definition owner_window_probe_of :: "window_at \<Rightarrow> rect \<Rightarrow> owner_window_probe option" where
  "owner_window_probe_of window_at r =
     (case rect_center r of
        None \<Rightarrow> None
      | Some point \<Rightarrow>
          map_option (\<lambda>(pid, owner_rect).
            \<lparr>ow_pid = pid,
             ow_contains_rect =
               (case owner_rect of
                  Some outer \<Rightarrow> rect_contains_with_tolerance outer r RECT_CONTAINMENT_TOLERANCE_PX
                | None \<Rightarrow> False)\<rparr>) (window_at point))"

record cached_node =
  cn_process_id :: nat
  cn_control_type :: int
  cn_automation_id :: string
  cn_class_name :: string
  cn_framework_id :: string
  cn_rect :: rect

text \<open>What is read of one element: the node, its selector path, its process's path, its patterns.\<close>

record uia_element =
  ue_leaf :: "string + cached_node"
  ue_selector_path :: "string + selector_path"
  ue_process_path :: "string option"
  ue_availability :: pattern_availability
  ue_state :: cached_action_state

record target_window =
  tw_hwnd :: nat
  tw_pid :: nat
  tw_processes :: "nat set"
  tw_exe :: "string option"

definition target_window_from_root ::
    "process_entries option \<Rightarrow> (nat \<Rightarrow> string option) \<Rightarrow> nat \<Rightarrow> nat \<Rightarrow> nat list \<Rightarrow> target_window" where
  "target_window_from_root snapshot process_path root pid extra_trusted_pids =
     \<lparr>tw_hwnd = root, tw_pid = pid,
      tw_processes =
        (case snapshot of Some entries \<Rightarrow> process_tree entries pid | None \<Rightarrow> {pid}) \<union> set extra_trusted_pids,
      tw_exe = process_path pid\<rparr>"

record element_snapshot =
  es_element :: captured_element
  es_availability :: pattern_availability
  es_state :: cached_action_state
  es_control_type :: int
  es_automation_id :: string
  es_framework_id :: string

definition trust_probe_of :: "window_at \<Rightarrow> target_window \<Rightarrow> bool \<Rightarrow> cached_node \<Rightarrow> trust_probe" where
  "trust_probe_of window_at target scoped_sender leaf =
     (let probe = owner_window_probe_of window_at (cn_rect leaf)
      in \<lparr>tp_element_pid_in_target_tree = (cn_process_id leaf \<in> tw_processes target),
          tp_owner_window_pid_in_target_tree =
            (case probe of Some p \<Rightarrow> ow_pid p \<in> tw_processes target | None \<Rightarrow> False),
          tp_rect_contained_by_owner_window = (case probe of Some p \<Rightarrow> ow_contains_rect p | None \<Rightarrow> False),
          tp_scoped_invoke_sender = scoped_sender\<rparr>)"

definition BACKEND_UIA :: string where "BACKEND_UIA = ''uia''"

definition capture_element ::
    "(string \<Rightarrow> nat list) \<Rightarrow> window_at \<Rightarrow> target_window \<Rightarrow> bool \<Rightarrow> uia_element \<Rightarrow> string + element_snapshot" where
  "capture_element sha256 window_at target scoped_sender e =
     (case ue_leaf e of
        Inl error \<Rightarrow> Inl error
      | Inr leaf \<Rightarrow>
          (case classify_trust (trust_probe_of window_at target scoped_sender leaf) of
             None \<Rightarrow> Inl ''UIA element failed target trust classification''
           | Some trust_basis \<Rightarrow>
               (case ue_selector_path e of
                  Inl error \<Rightarrow> Inl error
                | Inr path \<Rightarrow> Inr
                    \<lparr>es_element =
                       \<lparr>ce_target_key = selector_path_hash_v1 sha256 path, ce_selector_path = path,
                        ce_trust_basis = trust_basis,
                        ce_exe = (case ue_process_path e of Some p \<Rightarrow> Some p | None \<Rightarrow> tw_exe target),
                        ce_has_name = False, ce_framework = BACKEND_UIA,
                        ce_framework_class = framework_class_from_id (cn_framework_id leaf),
                        ce_framework_id = cn_framework_id leaf, ce_depth = length (s_hops path),
                        ce_leaf_rect = Some (rect_string (cn_rect leaf))\<rparr>,
                     es_availability = ue_availability e, es_state = ue_state e,
                     es_control_type = cn_control_type leaf, es_automation_id = cn_automation_id leaf,
                     es_framework_id = cn_framework_id leaf\<rparr>)))"

definition is_non_actionable_chromium_root :: "element_snapshot \<Rightarrow> bool" where
  "is_non_actionable_chromium_root s \<longleftrightarrow>
     to_ascii_lowercase (es_framework_id s) = ''chrome'' \<and> es_automation_id s = ''RootWebArea'' \<and>
     es_control_type s = 50030"


section \<open>From an event to an input\<close>

datatype raw_uia_event_kind =
    KFocusChanged
  | KInvoke
  | KSelection
  | KPropertyChanged int
  | KTextEditCompositionFinalized
  | KMenuOpened

fun diag_name :: "raw_uia_event_kind \<Rightarrow> string" where
  "diag_name KFocusChanged = ''focus_changed''"
| "diag_name KInvoke = ''invoke''"
| "diag_name KSelection = ''selection''"
| "diag_name (KPropertyChanged property) = ''property_changed:'' @ show_int property"
| "diag_name KTextEditCompositionFinalized = ''text_edit_composition_finalized''"
| "diag_name KMenuOpened = ''menu_opened''"

record raw_uia_event =
  ru_kind :: raw_uia_event_kind
  ru_captured_at :: instant
  ru_enqueued_at :: instant
  ru_queue_depth_at_enqueue :: nat
  ru_element :: "uia_element option"
  ru_scoped_sender :: bool

text \<open>
  What else is asked while an event is processed: the focused element, the change of the
  scroll position since the last event of the element, and the time when the selector is
  complete.
\<close>

record uia_answers =
  ua_focused :: "uia_element option"
  ua_scroll_delta :: "element_snapshot \<Rightarrow> int \<Rightarrow> scroll_delta option"
  ua_completed_at :: instant
  ua_window_at :: window_at

definition duration_ns :: "duration \<Rightarrow> nat" where "duration_ns d = min d u64_max"

definition base_action_diag :: "int \<Rightarrow> nat \<Rightarrow> raw_uia_event \<Rightarrow> instant \<Rightarrow> action_diag" where
  "base_action_diag record_session_id worker_ordinal raw dequeued_at =
     \<lparr>d_record_session_id = record_session_id, d_worker_ordinal = worker_ordinal,
      d_event_kind = diag_name (ru_kind raw),
      d_callback_latency_ns = duration_ns (duration_since dequeued_at (ru_enqueued_at raw)),
      d_event_to_selector_complete_ns = 0, d_queue_depth_at_enqueue = ru_queue_depth_at_enqueue raw,
      d_repeat_count = 1, d_edit_commit_signal = None, d_trust_basis = None, d_action_type = None\<rparr>"

definition finalize_action_diag ::
    "instant \<Rightarrow> action_diag \<Rightarrow> raw_uia_event \<Rightarrow> element_snapshot \<Rightarrow> action_diag" where
  "finalize_action_diag completed_at diag raw s =
     diag\<lparr>d_event_to_selector_complete_ns := duration_ns (duration_since completed_at (ru_captured_at raw)),
          d_trust_basis := Some (ce_trust_basis (es_element s))\<rparr>"

definition rejected_from_raw ::
    "instant \<Rightarrow> int \<Rightarrow> nat \<Rightarrow> raw_uia_event \<Rightarrow> instant \<Rightarrow> rejected_action_reason
     \<Rightarrow> selector_trust_basis option \<Rightarrow> rejected_action" where
  "rejected_from_raw completed_at record_session_id worker_ordinal raw dequeued_at reason trust_basis =
     (let diag = base_action_diag record_session_id worker_ordinal raw dequeued_at
      in \<lparr>r_record_session_id = record_session_id, r_worker_ordinal = worker_ordinal,
          r_event_kind = d_event_kind diag, r_captured_at = ru_captured_at raw, r_reason = reason,
          r_trust_basis = trust_basis, r_callback_latency_ns = d_callback_latency_ns diag,
          r_event_to_selector_complete_ns = duration_ns (duration_since completed_at (ru_captured_at raw)),
          r_queue_depth_at_enqueue = ru_queue_depth_at_enqueue raw\<rparr>)"

text \<open>The prefix of the error's text, "windows api error: ", holds none of these words.\<close>

definition rejected_reason_for_error :: "string \<Rightarrow> rejected_action_reason" where
  "rejected_reason_for_error error =
     (let message = to_ascii_lowercase error
      in if contains message ''access denied'' \<or> contains message ''uipi'' \<or> contains message ''elevated'' \<or>
            contains message ''0x80070005''
         then ElevatedOrUipiDenied
         else if contains message ''trust classification'' then TrustRejected
         else SelectorCaptureFailed)"

definition UIA_ScrollHorizontalScrollPercentPropertyId :: int where
  "UIA_ScrollHorizontalScrollPercentPropertyId = 30053"
definition UIA_ScrollVerticalScrollPercentPropertyId :: int where
  "UIA_ScrollVerticalScrollPercentPropertyId = 30055"

text \<open>The snapshot of the event's element, or of the focused one when a focus event's own fails.\<close>

definition event_snapshot ::
    "(string \<Rightarrow> nat list) \<Rightarrow> target_window \<Rightarrow> raw_uia_event \<Rightarrow> uia_answers
     \<Rightarrow> rejected_action_reason + element_snapshot" where
  "event_snapshot sha256 target raw answers =
     (case ru_element raw of
        None \<Rightarrow> Inl NullElement
      | Some element \<Rightarrow>
          (case capture_element sha256 (ua_window_at answers) target (ru_scoped_sender raw) element of
             Inr s \<Rightarrow> Inr s
           | Inl error \<Rightarrow>
               if ru_kind raw = KFocusChanged then
                 (case ua_focused answers of
                    None \<Rightarrow> Inl (rejected_reason_for_error error)
                  | Some focused \<Rightarrow>
                      (case capture_element sha256 (ua_window_at answers) target False focused of
                         Inr s \<Rightarrow> Inr s
                       | Inl fallback_error \<Rightarrow> Inl (rejected_reason_for_error fallback_error)))
               else Inl (rejected_reason_for_error error)))"

definition process_raw_event ::
    "(string \<Rightarrow> nat list) \<Rightarrow> target_window \<Rightarrow> raw_uia_event \<Rightarrow> uia_answers \<Rightarrow> int \<Rightarrow> nat \<Rightarrow> instant
     \<Rightarrow> rejected_action + coalescer_input" where
  "process_raw_event sha256 target raw answers record_session_id worker_ordinal dequeued_at =
     (let reject = rejected_from_raw (ua_completed_at answers) record_session_id worker_ordinal raw dequeued_at;
          diag = base_action_diag record_session_id worker_ordinal raw dequeued_at
      in case event_snapshot sha256 target raw answers of
           Inl reason \<Rightarrow> Inl (reject reason None)
         | Inr s \<Rightarrow>
             let trust_basis = Some (ce_trust_basis (es_element s));
                 full_diag = finalize_action_diag (ua_completed_at answers) diag raw s
             in if is_non_actionable_chromium_root s then Inl (reject NonActionableElement trust_basis)
                else if ru_kind raw = KFocusChanged then
                  (if pa_text_edit (es_availability s)
                   then Inr (EditMarker (es_element s) (ru_captured_at raw) None full_diag)
                   else Inr (FocusChange (ru_captured_at raw) FocusLoss))
                else if ru_kind raw = KTextEditCompositionFinalized
                then Inr (CommitEdit (ru_captured_at raw) CompositionFinalized)
                else
                  let delta = (case ru_kind raw of
                        KPropertyChanged property \<Rightarrow>
                          if property = UIA_ScrollVerticalScrollPercentPropertyId \<or>
                             property = UIA_ScrollHorizontalScrollPercentPropertyId
                          then ua_scroll_delta answers s property else None
                      | _ \<Rightarrow> None);
                      classified = classify_cached_action (es_availability s) (es_state s) delta
                  in if cl_action_type classified = action_type.UiActionOther \<and> ru_kind raw = KMenuOpened
                     then Inl (reject BenignNoAction trust_basis)
                     else Inr (CAction
                       \<lparr>ad_target = es_element s, ad_action_type = cl_action_type classified,
                        ad_payload = cl_payload classified, ad_pattern_action = cl_pattern_action classified,
                        ad_captured_at = ru_captured_at raw,
                        ad_diag = full_diag\<lparr>d_action_type := Some (cl_action_type classified)\<rparr>\<rparr>))"

section \<open>Statistics\<close>

record routine_stats =
  rs_max_queue_depth :: nat
  rs_callback_latencies_ns :: "nat list"
  rs_selector_latencies_ns :: "nat list"
  rs_trust_basis_counts :: "string \<rightharpoonup> nat"
  rs_action_type_counts :: "string \<rightharpoonup> nat"
  rs_failure_counts :: "string \<rightharpoonup> nat"
  rs_edit_commit_signal_counts :: "string \<rightharpoonup> nat"
  rs_windows_recorded :: "nat set"

definition routine_stats_new :: routine_stats where
  "routine_stats_new =
     \<lparr>rs_max_queue_depth = 0, rs_callback_latencies_ns = [], rs_selector_latencies_ns = [],
      rs_trust_basis_counts = Map.empty, rs_action_type_counts = Map.empty, rs_failure_counts = Map.empty,
      rs_edit_commit_signal_counts = Map.empty, rs_windows_recorded = {}\<rparr>"

definition increment_count :: "(string \<rightharpoonup> nat) \<Rightarrow> string \<Rightarrow> string \<rightharpoonup> nat" where
  "increment_count counts key = counts(key \<mapsto> (case counts key of None \<Rightarrow> 0 | Some n \<Rightarrow> n) + 1)"

definition record_window :: "routine_stats \<Rightarrow> nat \<Rightarrow> routine_stats" where
  "record_window stats hwnd = stats\<lparr>rs_windows_recorded := insert hwnd (rs_windows_recorded stats)\<rparr>"

definition record_common_diag :: "routine_stats \<Rightarrow> action_diag \<Rightarrow> routine_stats" where
  "record_common_diag stats diag =
     stats\<lparr>rs_max_queue_depth := max (rs_max_queue_depth stats) (d_queue_depth_at_enqueue diag),
           rs_callback_latencies_ns := rs_callback_latencies_ns stats @ [d_callback_latency_ns diag],
           rs_selector_latencies_ns := rs_selector_latencies_ns stats @ [d_event_to_selector_complete_ns diag]\<rparr>"

definition count_option :: "('a \<Rightarrow> string) \<Rightarrow> 'a option \<Rightarrow> (string \<rightharpoonup> nat) \<Rightarrow> string \<rightharpoonup> nat" where
  "count_option name v counts = (case v of None \<Rightarrow> counts | Some x \<Rightarrow> increment_count counts (name x))"

definition record_action_diag :: "routine_stats \<Rightarrow> action_diag \<Rightarrow> routine_stats" where
  "record_action_diag stats diag =
     (let stats = record_common_diag stats diag
      in stats\<lparr>rs_trust_basis_counts :=
                 count_option selector_trust_basis_as_str (d_trust_basis diag) (rs_trust_basis_counts stats),
               rs_action_type_counts :=
                 count_option action_type_as_str (d_action_type diag) (rs_action_type_counts stats),
               rs_edit_commit_signal_counts :=
                 count_option edit_commit_signal_as_str (d_edit_commit_signal diag)
                   (rs_edit_commit_signal_counts stats)\<rparr>)"

definition record_rejected :: "routine_stats \<Rightarrow> rejected_action \<Rightarrow> routine_stats" where
  "record_rejected stats rejected =
     stats\<lparr>rs_max_queue_depth := max (rs_max_queue_depth stats) (r_queue_depth_at_enqueue rejected),
           rs_callback_latencies_ns := rs_callback_latencies_ns stats @ [r_callback_latency_ns rejected],
           rs_selector_latencies_ns := rs_selector_latencies_ns stats @ [r_event_to_selector_complete_ns rejected],
           rs_trust_basis_counts :=
             count_option selector_trust_basis_as_str (r_trust_basis rejected) (rs_trust_basis_counts stats),
           rs_failure_counts :=
             increment_count (rs_failure_counts stats) (rejected_action_reason_as_str (r_reason rejected))\<rparr>"

definition percentile_sorted :: "nat list \<Rightarrow> nat \<Rightarrow> nat" where
  "percentile_sorted vs percentile =
     (let rank = sat_add_u64 (length vs * percentile) 99 div 100 - 1
      in vs ! min rank (length vs - 1))"

record latency_summary =
  ls_p50_ns :: nat
  ls_p95_ns :: nat
  ls_max_ns :: nat

definition summarize_latencies :: "nat list \<Rightarrow> latency_summary" where
  "summarize_latencies values =
     (if values = [] then \<lparr>ls_p50_ns = 0, ls_p95_ns = 0, ls_max_ns = 0\<rparr>
      else let vs = sort values
           in \<lparr>ls_p50_ns = percentile_sorted vs 50, ls_p95_ns = percentile_sorted vs 95,
               ls_max_ns = last vs\<rparr>)"

section \<open>The loop\<close>

record worker_config =
  wc_record_session_id :: int
  wc_timing :: coalescer_timing
  wc_emit_diagnostics :: bool
  wc_follow_foreground :: bool

datatype channel_state = Accepting | Full | Disconnected

record routine_worker =
  rw_target :: target_window
  rw_coalescer :: action_coalescer
  rw_ordinal :: nat
  rw_stopped :: bool
  rw_stats :: routine_stats
  rw_sends :: nat

text \<open>
  \<open>channel n\<close> is the state the channel to the writer is in at the worker's \<open>n\<close>th send.
  \<open>send\<close> waits while it is full; \<open>try_send\<close> gives up.
\<close>

definition try_send ::
    "(nat \<Rightarrow> channel_state) \<Rightarrow> routine_worker \<Rightarrow> writer_input \<Rightarrow> routine_worker \<times> writer_input list \<times> bool" where
  "try_send channel w input =
     (let next = w\<lparr>rw_sends := rw_sends w + 1\<rparr>
      in case channel (rw_sends w) of
           Accepting \<Rightarrow> (next, [input], True)
         | Full \<Rightarrow> (next, [], True)
         | Disconnected \<Rightarrow> (next, [], False))"

definition send_blocking ::
    "(nat \<Rightarrow> channel_state) \<Rightarrow> routine_worker \<Rightarrow> writer_input \<Rightarrow> routine_worker \<times> writer_input list \<times> bool" where
  "send_blocking channel w input =
     (let next = w\<lparr>rw_sends := rw_sends w + 1\<rparr>
      in if channel (rw_sends w) = Disconnected then (next, [], False) else (next, [input], True))"

definition send_coalesced_action ::
    "(nat \<Rightarrow> channel_state) \<Rightarrow> worker_config \<Rightarrow> routine_worker \<Rightarrow> coalesced_action
     \<Rightarrow> routine_worker \<times> writer_input list \<times> bool" where
  "send_coalesced_action channel config w action =
     (let record = Action (into_action_capture action (wc_record_session_id config))
      in if wc_emit_diagnostics config then
           (let w = w\<lparr>rw_stats := record_action_diag (rw_stats w) (ad_diag action)\<rparr>;
                (w, sent, ok) = try_send channel w (ActionDiag (ad_diag action))
            in if \<not> ok then (w, sent, False)
               else let (w, rest, ok) = send_blocking channel w record in (w, sent @ rest, ok))
         else send_blocking channel w record)"

definition send_rejected_action ::
    "(nat \<Rightarrow> channel_state) \<Rightarrow> worker_config \<Rightarrow> routine_worker \<Rightarrow> rejected_action
     \<Rightarrow> routine_worker \<times> writer_input list \<times> bool" where
  "send_rejected_action channel config w rejected =
     (if \<not> wc_emit_diagnostics config then (w, [], True)
      else try_send channel (w\<lparr>rw_stats := record_rejected (rw_stats w) rejected\<rparr>) (RejectedAction rejected))"

text \<open>The actions one after another, until a send fails.\<close>

fun send_all ::
    "(nat \<Rightarrow> channel_state) \<Rightarrow> worker_config \<Rightarrow> routine_worker \<Rightarrow> coalesced_action list
     \<Rightarrow> routine_worker \<times> writer_input list \<times> bool" where
  "send_all channel config w [] = (w, [], True)"
| "send_all channel config w (action # actions) =
     (case send_coalesced_action channel config w action of
        (w, sent, ok) \<Rightarrow>
          if ok then (case send_all channel config w actions of (w, rest, ok) \<Rightarrow> (w, sent @ rest, ok))
          else (w, sent, False))"

text \<open>
  An iteration: an event with its answers, the window in the foreground and whether it could
  be subscribed to; or a timeout.
\<close>

datatype worker_event =
    Received raw_uia_event uia_answers instant "target_window option" bool
  | TimedOut instant

definition stop_unless :: "bool \<Rightarrow> routine_worker \<Rightarrow> routine_worker" where
  "stop_unless ok w = (if ok then w else w\<lparr>rw_stopped := True\<rparr>)"

text \<open>\<open>None\<close> where the loop goes on without processing the event.\<close>

definition follow_foreground ::
    "(nat \<Rightarrow> channel_state) \<Rightarrow> worker_config \<Rightarrow> routine_worker \<Rightarrow> raw_uia_event \<Rightarrow> uia_answers \<Rightarrow> instant
     \<Rightarrow> target_window option \<Rightarrow> bool \<Rightarrow> routine_worker \<times> writer_input list \<times> bool" where
  "follow_foreground channel config w raw answers dequeued_at new_target subscribed =
     (if wc_follow_foreground config \<and> ru_kind raw = KFocusChanged then
        (case new_target of
           None \<Rightarrow>
             (let rejected = rejected_from_raw (ua_completed_at answers) (wc_record_session_id config)
                    (rw_ordinal w) raw dequeued_at WindowMismatch None;
                  (w, sent, ok) = send_rejected_action channel config w rejected
              in (stop_unless ok w, sent, False))
         | Some target \<Rightarrow>
             if tw_hwnd target \<noteq> tw_hwnd (rw_target w) then
               (if subscribed then
                  (let w = w\<lparr>rw_target := target\<rparr>
                   in (if wc_emit_diagnostics config
                       then w\<lparr>rw_stats := record_window (rw_stats w) (tw_hwnd target)\<rparr> else w, [], True))
                else (w, [], False))
             else (w, [], True))
      else (w, [], True))"

definition deliver ::
    "(nat \<Rightarrow> channel_state) \<Rightarrow> worker_config \<Rightarrow> routine_worker \<Rightarrow> action_coalescer \<times> coalesced_action list
     \<Rightarrow> routine_worker \<times> writer_input list" where
  "deliver channel config w emitted =
     (let (w, sent, ok) = send_all channel config (w\<lparr>rw_coalescer := fst emitted\<rparr>) (snd emitted)
      in (stop_unless ok w, sent))"

fun worker_step ::
    "(string \<Rightarrow> nat list) \<Rightarrow> (nat \<Rightarrow> channel_state) \<Rightarrow> worker_config \<Rightarrow> routine_worker \<Rightarrow> worker_event
     \<Rightarrow> routine_worker \<times> writer_input list" where
  "worker_step sha256 channel config w (Received raw answers dequeued_at new_target subscribed) =
     (if rw_stopped w then (w, [])
      else
        let w = w\<lparr>rw_ordinal := sat_add_u64 (rw_ordinal w) 1\<rparr>;
            (w, sent, going_on) = follow_foreground channel config w raw answers dequeued_at new_target subscribed
        in if \<not> going_on then (w, sent)
           else case process_raw_event sha256 (rw_target w) raw answers (wc_record_session_id config)
                       (rw_ordinal w) dequeued_at of
                  Inr input \<Rightarrow> deliver channel config w (handle (rw_coalescer w) input)
                | Inl rejected \<Rightarrow>
                    (let (w, sent, ok) = send_rejected_action channel config w rejected
                     in (stop_unless ok w, sent)))"
| "worker_step sha256 channel config w (TimedOut now) =
     (if rw_stopped w then (w, []) else deliver channel config w (flush_due (rw_coalescer w) now))"

definition worker_new :: "worker_config \<Rightarrow> target_window \<Rightarrow> routine_worker" where
  "worker_new config target =
     \<lparr>rw_target = target, rw_coalescer = coalescer_new (wc_timing config), rw_ordinal = 0,
      rw_stopped = False,
      rw_stats = (if wc_emit_diagnostics config then record_window routine_stats_new (tw_hwnd target)
                  else routine_stats_new),
      rw_sends = 0\<rparr>"

text \<open>The loop until the stop, and the flush after it.\<close>

definition run_record_routine_worker ::
    "(string \<Rightarrow> nat list) \<Rightarrow> (nat \<Rightarrow> channel_state) \<Rightarrow> worker_config \<Rightarrow> target_window \<Rightarrow> worker_event list
     \<Rightarrow> instant \<Rightarrow> routine_worker \<times> writer_input list" where
  "run_record_routine_worker sha256 channel config target events stopped_at =
     (let w = final (worker_step sha256 channel config) (worker_new config target) events;
          sent = outputs (worker_step sha256 channel config) (worker_new config target) events;
          (c, emitted) = flush_all (rw_coalescer w) stopped_at;
          (w, rest, ok) = send_all channel config (w\<lparr>rw_coalescer := c\<rparr>) emitted
      in (w, sent @ rest))"

end
