(* ===== verification/Worker_Laws.thy ===== *)
theory Worker_Laws
  imports Record_Worker
begin

text \<open>
  What the recorder's worker guarantees: the process tree is the set of descendants, every
  recorded action comes from a trusted element of the recorded window, and what reaches the
  writer is the coalesced run of the processed events, with or without diagnostics.
\<close>

section \<open>Descendants\<close>

definition children :: "process_entries \<Rightarrow> (nat \<times> nat) set" where
  "children entries = {(parent, pid). (pid, parent) \<in> set entries}"

lemma scan_children_spec:
  assumes "scan_children parent entries result queue = (result', queue')"
  shows "result' = result \<union> {pid. (pid, parent) \<in> set entries} \<and>
    set queue' = set queue \<union> {pid \<in> result'. pid \<notin> result}"
  using assms
proof (induction entries arbitrary: result queue)
  case (Cons entry entries)
  obtain pid parent_pid where entry: "entry = (pid, parent_pid)" by (cases entry)
  show ?case
  proof (cases "parent_pid = parent \<and> pid \<notin> result")
    case True
    with entry Cons.prems have "scan_children parent entries (insert pid result) (queue @ [pid]) = (result', queue')"
      by simp
    from Cons.IH[OF this] True entry show ?thesis by auto
  next
    case False
    with entry Cons.prems have "scan_children parent entries result queue = (result', queue')" by auto
    from Cons.IH[OF this] False entry show ?thesis by auto
  qed
qed simp

lemma process_tree_loop_spec:
  assumes "set queue \<subseteq> result" "result \<subseteq> T" "children entries `` T \<subseteq> T"
    and "children entries `` (result - set queue) \<subseteq> result"
  shows "result \<subseteq> process_tree_loop entries result queue \<and> process_tree_loop entries result queue \<subseteq> T \<and>
    children entries `` process_tree_loop entries result queue \<subseteq> process_tree_loop entries result queue"
  using assms
proof (induction entries result queue rule: process_tree_loop.induct)
  case (2 entries result parent queue)
  obtain result' queue' where scan: "scan_children parent entries result queue = (result', queue')"
    by (cases "scan_children parent entries result queue")
  note spec = scan_children_spec[OF scan]
  have "{pid. (pid, parent) \<in> set entries} = children entries `` {parent}" by (auto simp: children_def)
  with spec "2.prems" have "set queue' \<subseteq> result'" "result' \<subseteq> T" by auto
  moreover have "children entries `` (result' - set queue') \<subseteq> result'"
  proof -
    have "result' - set queue' \<subseteq> insert parent (result - set (parent # queue))" using spec "2.prems"(1) by auto
    moreover have "children entries `` {parent} \<subseteq> result'" using spec by (auto simp: children_def)
    ultimately show ?thesis using "2.prems"(4) spec by blast
  qed
  ultimately show ?case using "2.IH"[OF scan[symmetric]] "2.prems"(3) scan spec by auto
qed auto

section \<open>What is sent\<close>

definition actions_in :: "writer_input list \<Rightarrow> action_capture list" where
  "actions_in = List.map_filter (\<lambda>i. case i of Action a \<Rightarrow> Some a | _ \<Rightarrow> None)"

lemma actions_in_simps [simp]:
  "actions_in [] = []"
  "actions_in (xs @ ys) = actions_in xs @ actions_in ys"
  "actions_in (Action a # xs) = a # actions_in xs" "actions_in (ActionDiag d # xs) = actions_in xs"
  "actions_in (RejectedAction r # xs) = actions_in xs"
  by (simp_all add: actions_in_def map_filter_def)

text \<open>A send leaves the target, the coalescer, the count of events and the stop alone.\<close>

definition same_work :: "routine_worker \<Rightarrow> routine_worker \<Rightarrow> bool" where
  "same_work w w' \<longleftrightarrow>
     rw_target w' = rw_target w \<and> rw_coalescer w' = rw_coalescer w \<and> rw_ordinal w' = rw_ordinal w \<and>
     rw_stopped w' = rw_stopped w"

lemmas send_defs = try_send_def send_blocking_def send_coalesced_action_def send_rejected_action_def
  same_work_def Let_def

lemma send_coalesced_action_spec:
  assumes "send_coalesced_action channel config w action = (w', sent, ok)"
  shows "same_work w w' \<and>
    actions_in sent = (if ok then [into_action_capture action (wc_record_session_id config)] else []) \<and>
    ((\<forall>n. channel n \<noteq> Disconnected) \<longrightarrow> ok)"
  using assms by (auto simp: send_defs split: if_splits channel_state.splits)

lemma send_rejected_action_spec:
  assumes "send_rejected_action channel config w rejected = (w', sent, ok)"
  shows "same_work w w' \<and> actions_in sent = [] \<and> ((\<forall>n. channel n \<noteq> Disconnected) \<longrightarrow> ok)"
  using assms by (auto simp: send_defs split: if_splits channel_state.splits)

lemma send_all_spec:
  assumes "send_all channel config w actions = (w', sent, ok)"
  shows "same_work w w' \<and>
    (\<exists>n. actions_in sent = map (\<lambda>a. into_action_capture a (wc_record_session_id config)) (take n actions) \<and>
       (ok \<longrightarrow> n = length actions)) \<and>
    ((\<forall>n. channel n \<noteq> Disconnected) \<longrightarrow> ok)"
  using assms
proof (induction actions arbitrary: w w' sent ok)
  case (Cons action actions)
  obtain w1 s1 ok1 where one: "send_coalesced_action channel config w action = (w1, s1, ok1)"
    by (cases "send_coalesced_action channel config w action")
  note spec = send_coalesced_action_spec[OF one]
  show ?case
  proof (cases ok1)
    case True
    obtain w2 s2 ok2 where two: "send_all channel config w1 actions = (w2, s2, ok2)"
      by (cases "send_all channel config w1 actions")
    from Cons.IH[OF two] obtain n
      where "actions_in s2 = map (\<lambda>a. into_action_capture a (wc_record_session_id config)) (take n actions)"
        "ok2 \<longrightarrow> n = length actions" by blast
    with Cons.IH[OF two] Cons.prems one two spec True show ?thesis
      by (intro conjI exI[of _ "Suc n"]) (auto simp: same_work_def)
  next
    case False
    with Cons.prems one spec show ?thesis by (intro conjI exI[of _ 0]) auto
  qed
qed (auto simp: same_work_def)

section \<open>The coalesced run\<close>

text \<open>The window an event is processed against, \<open>None\<close> where it is not processed.\<close>

definition followed_target ::
    "worker_config \<Rightarrow> target_window \<Rightarrow> raw_uia_event \<Rightarrow> target_window option \<Rightarrow> bool \<Rightarrow> target_window option" where
  "followed_target config target raw new_target subscribed =
     (if wc_follow_foreground config \<and> ru_kind raw = KFocusChanged then
        (case new_target of
           None \<Rightarrow> None
         | Some t \<Rightarrow>
             if tw_hwnd t = tw_hwnd target then Some target else if subscribed then Some t else None)
      else Some target)"

lemma follow_foreground_spec:
  assumes "follow_foreground channel config w raw answers d new_target subscribed = (w', sent, going_on)"
  shows "actions_in sent = [] \<and> rw_coalescer w' = rw_coalescer w \<and> rw_ordinal w' = rw_ordinal w \<and>
    (case followed_target config (rw_target w) raw new_target subscribed of
       None \<Rightarrow> \<not> going_on \<and> rw_target w' = rw_target w
     | Some t \<Rightarrow> going_on \<and> rw_target w' = t \<and> rw_stopped w' = rw_stopped w) \<and>
    ((\<forall>n. channel n \<noteq> Disconnected) \<longrightarrow> rw_stopped w' = rw_stopped w)"
  using assms
  by (auto simp: follow_foreground_def followed_target_def stop_unless_def send_defs
      split: option.splits if_splits channel_state.splits)

text \<open>The operations on the coalescer: the run without channel, statistics and diagnostics.\<close>

fun worker_ops ::
    "(string \<Rightarrow> nat list) \<Rightarrow> worker_config \<Rightarrow> target_window \<Rightarrow> nat \<Rightarrow> worker_event list \<Rightarrow> coalescer_op list" where
  "worker_ops sha256 config target n [] = []"
| "worker_ops sha256 config target n (TimedOut now # events) =
     FlushDue now # worker_ops sha256 config target n events"
| "worker_ops sha256 config target n (Received raw answers d new_target subscribed # events) =
     (let n = sat_add_u64 n 1
      in case followed_target config target raw new_target subscribed of
           None \<Rightarrow> worker_ops sha256 config target n events
         | Some target \<Rightarrow>
             (case process_raw_event sha256 target raw answers (wc_record_session_id config) n d of
                Inl _ \<Rightarrow> worker_ops sha256 config target n events
              | Inr input \<Rightarrow> Handle input # worker_ops sha256 config target n events))"

lemma deliver_spec:
  assumes "deliver channel config w emitted = (w', sent)"
  shows "rw_target w' = rw_target w \<and> rw_coalescer w' = fst emitted \<and> rw_ordinal w' = rw_ordinal w \<and>
    (\<exists>n. actions_in sent = map (\<lambda>a. into_action_capture a (wc_record_session_id config)) (take n (snd emitted))) \<and>
    ((\<forall>n. channel n \<noteq> Disconnected) \<longrightarrow> rw_stopped w' = rw_stopped w \<and>
       actions_in sent = map (\<lambda>a. into_action_capture a (wc_record_session_id config)) (snd emitted))"
proof -
  obtain w1 s ok where sent: "send_all channel config (w\<lparr>rw_coalescer := fst emitted\<rparr>) (snd emitted) = (w1, s, ok)"
    by (cases "send_all channel config (w\<lparr>rw_coalescer := fst emitted\<rparr>) (snd emitted)")
  from send_all_spec[OF sent] assms sent show ?thesis
    by (auto simp: deliver_def stop_unless_def same_work_def)
qed


text \<open>One event, when the channel stays open.\<close>

lemma worker_step_simulates:
  assumes "\<forall>n. channel n \<noteq> Disconnected" "\<not> rw_stopped w"
    and "worker_step sha256 channel config w event = (w', sent)"
  shows "\<not> rw_stopped w' \<and>
    (\<exists>ops. (\<forall>events. worker_ops sha256 config (rw_target w) (rw_ordinal w) (event # events) =
          ops @ worker_ops sha256 config (rw_target w') (rw_ordinal w') events) \<and>
       actions_in sent = map (\<lambda>a. into_action_capture a (wc_record_session_id config))
         (outputs coalescer_step (rw_coalescer w) ops) \<and>
       rw_coalescer w' = final coalescer_step (rw_coalescer w) ops)"
proof (cases event)
  case (TimedOut now)
  with assms deliver_spec[of channel config w "flush_due (rw_coalescer w) now" w' sent] show ?thesis
    by (intro conjI exI[of _ "[FlushDue now]"]) auto
next
  case (Received raw answers d new_target subscribed)
  let ?w = "w\<lparr>rw_ordinal := sat_add_u64 (rw_ordinal w) 1\<rparr>"
  obtain w1 s1 going_on where
    follow: "follow_foreground channel config ?w raw answers d new_target subscribed = (w1, s1, going_on)"
    by (cases "follow_foreground channel config ?w raw answers d new_target subscribed")
  note spec = follow_foreground_spec[OF follow]
  show ?thesis
  proof (cases "followed_target config (rw_target w) raw new_target subscribed")
    case None
    with spec assms Received follow show ?thesis
      by (intro conjI exI[of _ "[]"]) (auto simp: Let_def)
  next
    case (Some t)
    show ?thesis
    proof (cases "process_raw_event sha256 t raw answers (wc_record_session_id config) (rw_ordinal w1) d")
      case (Inl rejected)
      obtain w2 s2 ok where rej: "send_rejected_action channel config w1 rejected = (w2, s2, ok)"
        by (cases "send_rejected_action channel config w1 rejected")
      from send_rejected_action_spec[OF rej] spec Some assms Received follow Inl rej show ?thesis
        by (intro conjI exI[of _ "[]"]) (auto simp: Let_def stop_unless_def same_work_def)
    next
      case (Inr input)
      with spec Some assms Received follow
        deliver_spec[of channel config w1 "handle (rw_coalescer w1) input" w' sent] show ?thesis
        by (intro conjI exI[of _ "[Handle input]"]) (auto simp: Let_def)
    qed
  qed
qed

lemma worker_run_simulates:
  assumes "\<forall>n. channel n \<noteq> Disconnected" "\<not> rw_stopped w"
  shows "actions_in (outputs (worker_step sha256 channel config) w events) =
      map (\<lambda>a. into_action_capture a (wc_record_session_id config))
        (outputs coalescer_step (rw_coalescer w) (worker_ops sha256 config (rw_target w) (rw_ordinal w) events)) \<and>
    rw_coalescer (final (worker_step sha256 channel config) w events) =
      final coalescer_step (rw_coalescer w) (worker_ops sha256 config (rw_target w) (rw_ordinal w) events)"
  using assms(2)
proof (induction events arbitrary: w)
  case (Cons event events)
  obtain w' sent where step: "worker_step sha256 channel config w event = (w', sent)"
    by (cases "worker_step sha256 channel config w event")
  from worker_step_simulates[OF assms(1) Cons.prems step] obtain ops where
    "\<not> rw_stopped w'" and
    "worker_ops sha256 config (rw_target w) (rw_ordinal w) (event # events) =
       ops @ worker_ops sha256 config (rw_target w') (rw_ordinal w') events" and
    "actions_in sent = map (\<lambda>a. into_action_capture a (wc_record_session_id config))
       (outputs coalescer_step (rw_coalescer w) ops)" and
    "rw_coalescer w' = final coalescer_step (rw_coalescer w) ops" by blast
  with Cons.IH[of w'] step show ?case by (simp add: outputs_append)
qed simp

section \<open>Trusted elements only\<close>

text \<open>The targets of what the coalescer holds back.\<close>

definition pending_targets :: "action_coalescer \<Rightarrow> captured_element set" where
  "pending_targets c =
     (case ac_pending_scroll c of None \<Rightarrow> {} | Some p \<Rightarrow> {ad_target (ps_draft p)}) \<union>
     (case ac_pending_edit c of None \<Rightarrow> {} | Some p \<Rightarrow> {pe_target p})"

fun input_targets :: "coalescer_input \<Rightarrow> captured_element set" where
  "input_targets (CAction draft) = {ad_target draft}"
| "input_targets (EditMarker target _ _ _) = {target}"
| "input_targets _ = {}"

lemma handle_targets:
  "pending_targets (fst (handle c input)) \<union> ad_target ` set (snd (handle c input)) \<subseteq>
     pending_targets c \<union> input_targets input"
  by (cases input) (auto simp: pending_targets_def coalescer_defs split: coalescer_splits)

lemma flush_targets:
  "pending_targets (fst (flush_due c now)) \<union> ad_target ` set (snd (flush_due c now)) \<subseteq> pending_targets c"
  "pending_targets (fst (flush_all c now)) \<union> ad_target ` set (snd (flush_all c now)) \<subseteq> pending_targets c"
  by (auto simp: pending_targets_def coalescer_defs split: coalescer_splits)

text \<open>How an element is tied to the recorded window, for each basis of trust.\<close>

definition tied_to :: "window_at \<Rightarrow> target_window \<Rightarrow> bool \<Rightarrow> cached_node \<Rightarrow> selector_trust_basis \<Rightarrow> bool" where
  "tied_to window_at target scoped leaf basis =
     (case basis of
        PidMatch \<Rightarrow> cn_process_id leaf \<in> tw_processes target
      | WindowOwnership \<Rightarrow>
          (\<exists>p. owner_window_probe_of window_at (cn_rect leaf) = Some p \<and> ow_pid p \<in> tw_processes target \<and>
             ow_contains_rect p)
      | ScopedInvokeSender \<Rightarrow> scoped)"

lemma classify_trust_tied:
  "classify_trust (trust_probe_of window_at target scoped leaf) = Some basis \<Longrightarrow>
     tied_to window_at target scoped leaf basis"
  by (auto simp: classify_trust_def trust_probe_of_def tied_to_def Let_def split: if_splits option.splits)

definition seen_in :: "target_window set \<Rightarrow> worker_event list \<Rightarrow> captured_element \<Rightarrow> bool" where
  "seen_in targets events element \<longleftrightarrow>
     (\<exists>raw answers d new_target subscribed target e scoped leaf.
        Received raw answers d new_target subscribed \<in> set events \<and> target \<in> targets \<and>
        (ru_element raw = Some e \<and> scoped = ru_scoped_sender raw \<or> ua_focused answers = Some e \<and> \<not> scoped) \<and>
        ue_leaf e = Inr leaf \<and> ue_selector_path e = Inr (ce_selector_path element) \<and>
        tied_to (ua_window_at answers) target scoped leaf (ce_trust_basis element))"

lemma capture_element_tied:
  assumes "capture_element sha256 window_at target scoped e = Inr s"
  shows "\<exists>leaf. ue_leaf e = Inr leaf \<and> ue_selector_path e = Inr (ce_selector_path (es_element s)) \<and>
    tied_to window_at target scoped leaf (ce_trust_basis (es_element s))"
  using assms classify_trust_tied by (auto simp: capture_element_def split: sum.splits option.splits)

lemma event_snapshot_seen:
  assumes "event_snapshot sha256 target raw answers = Inr s" "target \<in> targets"
    "Received raw answers d new_target subscribed \<in> set events"
  shows "seen_in targets events (es_element s)"
proof -
  from assms(1) obtain e scoped where e: "capture_element sha256 (ua_window_at answers) target scoped e = Inr s"
    "ru_element raw = Some e \<and> scoped = ru_scoped_sender raw \<or> ua_focused answers = Some e \<and> \<not> scoped"
    by (auto simp: event_snapshot_def split: option.splits sum.splits if_splits)
  from capture_element_tied[OF e(1)] e(2) assms(2,3) show ?thesis unfolding seen_in_def by blast
qed

lemma process_raw_event_seen:
  assumes "process_raw_event sha256 target raw answers rid n d = Inr input" "target \<in> targets"
    "Received raw answers d new_target subscribed \<in> set events"
  shows "\<forall>element \<in> input_targets input. seen_in targets events element"
  using assms(1) event_snapshot_seen[OF _ assms(2,3)]
  by (auto simp: process_raw_event_def Let_def split: sum.splits if_splits)

definition event_targets :: "worker_event list \<Rightarrow> target_window set" where
  "event_targets events = {t. \<exists>raw answers d subscribed. Received raw answers d (Some t) subscribed \<in> set events}"

lemma worker_step_seen:
  assumes "worker_step sha256 channel config w event = (w', sent)" "event \<in> set events"
    and "rw_target w \<in> targets" "event_targets events \<subseteq> targets"
    and "\<forall>element \<in> pending_targets (rw_coalescer w). seen_in targets events element"
  shows "rw_target w' \<in> targets \<and>
    (\<forall>element \<in> pending_targets (rw_coalescer w'). seen_in targets events element) \<and>
    (\<forall>a \<in> set (actions_in sent). \<exists>draft. a = into_action_capture draft (wc_record_session_id config) \<and>
       seen_in targets events (ad_target draft))"
proof (cases event)
  case (TimedOut now)
  show ?thesis
  proof (cases "rw_stopped w")
    case False
    with assms(1) TimedOut deliver_spec[of channel config w "flush_due (rw_coalescer w) now" w' sent]
      flush_targets(1)[of "rw_coalescer w" now] assms(3,5)
    show ?thesis by (fastforce dest: in_set_takeD)
  qed (use assms TimedOut in auto)
next
  case (Received raw answers d new_target subscribed)
  let ?w = "w\<lparr>rw_ordinal := sat_add_u64 (rw_ordinal w) 1\<rparr>"
  obtain w1 s1 going_on where
    follow: "follow_foreground channel config ?w raw answers d new_target subscribed = (w1, s1, going_on)"
    by (cases "follow_foreground channel config ?w raw answers d new_target subscribed")
  note spec = follow_foreground_spec[OF follow]
  have "t \<in> targets" if "new_target = Some t" for t
    using that assms(2,4) Received unfolding event_targets_def by blast
  with spec assms(3) have target: "rw_target w1 \<in> targets"
    by (auto simp: followed_target_def split: option.splits if_splits)
  show ?thesis
  proof (cases "rw_stopped w \<or> \<not> going_on")
    case True
    have "w' = w \<and> sent = [] \<or> w' = w1 \<and> sent = s1"
      using assms(1) Received follow True by (cases "rw_stopped w") (simp_all add: Let_def)
    with spec assms target show ?thesis by auto
  next
    case going: False
    show ?thesis
    proof (cases "process_raw_event sha256 (rw_target w1) raw answers (wc_record_session_id config) (rw_ordinal w1) d")
      case (Inl rejected)
      obtain w2 s2 ok where rej: "send_rejected_action channel config w1 rejected = (w2, s2, ok)"
        by (cases "send_rejected_action channel config w1 rejected")
      have "w' = stop_unless ok w2 \<and> sent = s2"
        using assms(1) Received follow going Inl rej by (simp add: Let_def)
      with send_rejected_action_spec[OF rej] spec assms target show ?thesis
        by (simp add: stop_unless_def same_work_def)
    next
      case (Inr input)
      from assms(2) Received have "Received raw answers d new_target subscribed \<in> set events" by simp
      note seen = process_raw_event_seen[OF Inr target this]
      have delivered: "deliver channel config w1 (handle (rw_coalescer w1) input) = (w', sent)"
        using assms(1) Received follow going Inr by (simp add: Let_def)
      have "\<forall>element \<in> pending_targets (fst (handle (rw_coalescer w1) input)) \<union>
          ad_target ` set (snd (handle (rw_coalescer w1) input)). seen_in targets events element"
        using handle_targets[of "rw_coalescer w1" input] seen assms(5) spec by auto
      moreover have "\<exists>draft \<in> set (snd (handle (rw_coalescer w1) input)).
          a = into_action_capture draft (wc_record_session_id config)" if "a \<in> set (actions_in sent)" for a
        using that deliver_spec[OF delivered] by (force dest: in_set_takeD)
      ultimately show ?thesis using deliver_spec[OF delivered] target by (fastforce simp: ball_Un)
    qed
  qed
qed

lemma worker_run_seen:
  assumes "set xs \<subseteq> set events" "rw_target w \<in> targets" "event_targets events \<subseteq> targets"
    and "\<forall>element \<in> pending_targets (rw_coalescer w). seen_in targets events element"
  shows "(\<forall>element \<in> pending_targets (rw_coalescer (final (worker_step sha256 channel config) w xs)).
      seen_in targets events element) \<and>
    (\<forall>a \<in> set (actions_in (outputs (worker_step sha256 channel config) w xs)). \<exists>draft.
       a = into_action_capture draft (wc_record_session_id config) \<and> seen_in targets events (ad_target draft))"
  using assms(1,2,4)
proof (induction xs arbitrary: w)
  case (Cons event xs)
  obtain w' sent where step: "worker_step sha256 channel config w event = (w', sent)"
    by (cases "worker_step sha256 channel config w event")
  from Cons.prems(1) have "event \<in> set events" by simp
  note one = worker_step_seen[OF step this Cons.prems(2) assms(3) Cons.prems(3)]
  from Cons.IH[of w'] Cons.prems(1) one step show ?case by auto
qed simp


section \<open>Properties\<close>

definition demo_config :: "bool \<Rightarrow> worker_config" where
  "demo_config diagnostics =
     \<lparr>wc_record_session_id = 7, wc_timing = coalescer_timing_default, wc_emit_diagnostics = diagnostics,
      wc_follow_foreground = True\<rparr>"

definition demo_target :: target_window where
  "demo_target = \<lparr>tw_hwnd = 1, tw_pid = 10, tw_processes = {10}, tw_exe = None\<rparr>"

definition demo_uia_element :: "nat \<Rightarrow> uia_element" where
  "demo_uia_element pid =
     \<lparr>ue_leaf = Inr \<lparr>cn_process_id = pid, cn_control_type = 50000, cn_automation_id = ''ok'',
        cn_class_name = ''Button'', cn_framework_id = ''WPF'',
        cn_rect = \<lparr>rc_left = 0, rc_top = 0, rc_right = 4, rc_bottom = 4\<rparr>\<rparr>,
      ue_selector_path = Inr \<lparr>s_backend = ''uia'', s_hops = []\<rparr>, ue_process_path = None,
      ue_availability = \<lparr>pa_invoke = True, pa_toggle = False, pa_select = False, pa_expand_collapse = False,
        pa_scroll = False, pa_text_edit = False\<rparr>,
      ue_state = \<lparr>cs_toggle_state = None, cs_expand_collapse_state = None\<rparr>\<rparr>"

text \<open>An invoked button of the target and one of another process.\<close>

definition demo_invoked :: "nat \<Rightarrow> worker_event" where
  "demo_invoked pid =
     Received \<lparr>ru_kind = KInvoke, ru_captured_at = 5, ru_enqueued_at = 5, ru_queue_depth_at_enqueue = 1,
       ru_element = Some (demo_uia_element pid), ru_scoped_sender = False\<rparr>
       \<lparr>ua_focused = None, ua_scroll_delta = (\<lambda>_ _. None), ua_completed_at = 6, ua_window_at = (\<lambda>_. None)\<rparr>
       6 None False"

definition demo_sha256 :: "string \<Rightarrow> nat list" where "demo_sha256 s = []"

lemmas demo_run_defs = demo_invoked_def demo_config_def demo_target_def demo_uia_element_def demo_sha256_def
  worker_new_def follow_foreground_def process_raw_event_def event_snapshot_def capture_element_def
  classify_trust_def trust_probe_of_def owner_window_probe_of_def rect_center_def deliver_def send_coalesced_action_def
  send_blocking_def send_rejected_action_def is_non_actionable_chromium_root_def classify_cached_action_def
  coalescer_new_def is_duplicate_def stop_unless_def coalescer_defs

text \<open>
  C21 (\<open>ProcessSnapshot::process_tree\<close>): the breadth-first walk ends with exactly the processes
  descended from the root, in whatever order the snapshot enumerates them and whatever cycles
  reused process identifiers make.
\<close>

theorem process_tree_is_the_descendants:
  "process_tree entries root_pid =
     {pid. (root_pid, pid) \<in> {(parent, child). (child, parent) \<in> set entries}\<^sup>*}"
proof -
  let ?R = "{(parent, child). (child, parent) \<in> set entries}"
  let ?T = "?R\<^sup>* `` {root_pid}"
  have R: "children entries = ?R" by (simp add: children_def)
  have "children entries `` ?T \<subseteq> ?T" unfolding R by (auto intro: rtrancl_into_rtrancl)
  then have spec: "{root_pid} \<subseteq> process_tree entries root_pid \<and> process_tree entries root_pid \<subseteq> ?T \<and>
      children entries `` process_tree entries root_pid \<subseteq> process_tree entries root_pid"
    unfolding process_tree_def by (intro process_tree_loop_spec) auto
  have "?T \<subseteq> process_tree entries root_pid"
  proof
    fix pid assume "pid \<in> ?T"
    then have "(root_pid, pid) \<in> ?R\<^sup>*" by simp
    then show "pid \<in> process_tree entries root_pid"
      by induction (use spec R in auto)
  qed
  with spec show ?thesis by auto
qed

text \<open>
  C18 (\<open>run_record_routine_worker\<close>): while the writer's channel stays open, the actions that reach
  the writer are the coalesced run of the processed events followed by the final flush,
  however full the channel is.  That run mentions neither the diagnostics nor the statistics,
  so turning diagnostics on changes no recorded action.
\<close>

theorem worker_records_the_coalesced_run:
  assumes "\<forall>n. channel n \<noteq> Disconnected"
  shows "actions_in (snd (run_record_routine_worker sha256 channel config target events stopped_at)) =
    map (\<lambda>a. into_action_capture a (wc_record_session_id config))
      (outputs coalescer_step (coalescer_new (wc_timing config))
         (worker_ops sha256 config target 0 events @ [FlushAll stopped_at]))"
proof -
  let ?w = "worker_new config target"
  let ?f = "final (worker_step sha256 channel config) ?w events"
  have w: "\<not> rw_stopped ?w" "rw_coalescer ?w = coalescer_new (wc_timing config)" "rw_target ?w = target"
    "rw_ordinal ?w = 0"
    by (simp_all add: worker_new_def)
  note sim = worker_run_simulates[OF assms w(1), of sha256 config events]
  obtain c emitted where flush: "flush_all (rw_coalescer ?f) stopped_at = (c, emitted)"
    by (cases "flush_all (rw_coalescer ?f) stopped_at")
  obtain w' rest ok where sent: "send_all channel config (?f\<lparr>rw_coalescer := c\<rparr>) emitted = (w', rest, ok)"
    by (cases "send_all channel config (?f\<lparr>rw_coalescer := c\<rparr>) emitted")
  from send_all_spec[OF sent] assms
  have "actions_in rest = map (\<lambda>a. into_action_capture a (wc_record_session_id config)) emitted" by auto
  with sim flush sent w show ?thesis
    by (simp add: run_record_routine_worker_def Let_def outputs_append)
qed

theorem worker_records_the_coalesced_run_witness:
  "actions_in (snd (run_record_routine_worker demo_sha256 (\<lambda>n. if even n then Full else Accepting)
      (demo_config True) demo_target [demo_invoked 10] 9)) =
   actions_in (snd (run_record_routine_worker demo_sha256 (\<lambda>_. Accepting) (demo_config False) demo_target
      [demo_invoked 10] 9))"
proof -
  have "worker_ops demo_sha256 (demo_config True) demo_target 0 [demo_invoked 10] =
      worker_ops demo_sha256 (demo_config False) demo_target 0 [demo_invoked 10]"
    by (simp add: demo_invoked_def demo_config_def followed_target_def Let_def split: option.split sum.split)
  then show ?thesis
    by (simp add: worker_records_the_coalesced_run) (simp add: demo_config_def)
qed



end
