(* ===== verification/Password_Field.thy ===== *)
theory Password_Field
  imports Capture_Controls Event_Model
begin

text \<open>
  The macOS password-field probe (crates/gilbreth-capture-macos/src/password_field.rs), the
  reader of the focused field it asks (ax.rs), and the part of the capture pump that drives
  them (lib.rs, \<open>run_pump\<close>).

  The trait \<open>SecureFieldSource\<close> is a record of its three methods over a state of its own.
  \<open>Controls\<close>, monitor and source are threaded through in one context, and every operation
  returns what it did to the outside as a list of effects: the rows it pushed, and each call
  of the source with its answer.  Log lines are left out; the counts behind them are kept.
  Counters of \<open>u64\<close> that grow by one a probe are natural numbers.
\<close>

section \<open>Constants and the source\<close>

definition PROBE_CACHE_TTL :: duration where "PROBE_CACHE_TTL = from_secs 2"
definition NOT_SECURE_PROBE_CACHE_TTL :: duration where "NOT_SECURE_PROBE_CACHE_TTL = from_millis 250"
definition TRUST_REPROBE_INTERVAL :: duration where "TRUST_REPROBE_INTERVAL = from_secs 30"
definition UNRESOLVED_STREAK_FIRST_WARN :: nat where "UNRESOLVED_STREAK_FIRST_WARN = 25"
definition UNRESOLVED_STREAK_WARN_EVERY :: nat where "UNRESOLVED_STREAK_WARN_EVERY = 1000"

definition unresolved_streak_warns :: "nat \<Rightarrow> bool" where
  "unresolved_streak_warns streak \<longleftrightarrow>
     streak = UNRESOLVED_STREAK_FIRST_WARN \<or>
     streak > UNRESOLVED_STREAK_FIRST_WARN \<and>
     (streak - UNRESOLVED_STREAK_FIRST_WARN) mod UNRESOLVED_STREAK_WARN_EVERY = 0"

datatype secure_field_probe = Answered bool | CannotAnswer | ApiDisabled

record 's secure_field_source =
  so_probe :: "int option \<Rightarrow> 's \<Rightarrow> secure_field_probe \<times> 's"
  so_announce :: "int \<Rightarrow> 's \<Rightarrow> 's"
  so_retract_all :: "'s \<Rightarrow> 's"

section \<open>Trust in the probe\<close>

record probe_trust =
  pt_trusted :: bool
  pt_wanted_last :: bool
  pt_last_probe :: "instant option"

definition probe_trust_new :: probe_trust where
  "probe_trust_new = \<lparr>pt_trusted = False, pt_wanted_last = False, pt_last_probe = None\<rparr>"

text \<open>\<open>granted\<close> is what the probe of the Accessibility grant answers, when it is asked.\<close>

definition trust_refresh :: "instant \<Rightarrow> bool \<Rightarrow> bool \<Rightarrow> probe_trust \<Rightarrow> probe_trust \<times> bool" where
  "trust_refresh now wanted granted t =
     (if \<not> wanted then (t\<lparr>pt_wanted_last := False\<rparr>, False)
      else
        let enable_edge = (\<not> pt_wanted_last t);
            t = t\<lparr>pt_wanted_last := True\<rparr>;
            reprobe_due = (\<not> pt_trusted t \<and>
              (case pt_last_probe t of
                 None \<Rightarrow> True
               | Some last_probe \<Rightarrow> duration_since now last_probe \<ge> TRUST_REPROBE_INTERVAL));
            t = (if enable_edge \<or> reprobe_due
                 then t\<lparr>pt_last_probe := Some now, pt_trusted := granted\<rparr> else t)
        in (t, pt_trusted t))"

definition trust_on_api_disabled :: "instant \<Rightarrow> probe_trust \<Rightarrow> probe_trust" where
  "trust_on_api_disabled now t = t\<lparr>pt_trusted := False, pt_last_probe := Some now\<rparr>"

section \<open>The monitor\<close>

record probe_cache =
  pc_window_id :: nat
  pc_is_password :: bool
  pc_focus_generation :: "64 word"
  pc_resolved_at :: instant

record password_monitor =
  pm_cache :: "probe_cache option"
  pm_last_window_id :: "nat option"
  pm_probe_was_live :: bool
  pm_unresolved :: bool
  pm_unresolved_streak :: nat
  pm_app_unanswered :: "(int \<times> nat) list"

definition password_monitor_new :: password_monitor where
  "password_monitor_new =
     \<lparr>pm_cache = None, pm_last_window_id = None, pm_probe_was_live = False, pm_unresolved = False,
      pm_unresolved_streak = 0, pm_app_unanswered = []\<rparr>"

record redact_decision =
  rd_redact :: bool
  rd_api_disabled :: bool

record 's probe_context =
  px_monitor :: password_monitor
  px_controls :: capture_controls
  px_source :: 's

datatype probe_effect =
    Row captured
  | FocusMoved "nat option"
  | Probed "nat option" "int option" instant secure_field_probe
  | Announced int
  | Retracted

abbreviation set_monitor :: "(password_monitor \<Rightarrow> password_monitor) \<Rightarrow> 's probe_context \<Rightarrow> 's probe_context" where
  "set_monitor f x \<equiv> x\<lparr>px_monitor := f (px_monitor x)\<rparr>"

definition set_gate :: "bool \<Rightarrow> 's probe_context \<Rightarrow> 's probe_context" where
  "set_gate active x = x\<lparr>px_controls := set_password_field_gate (px_controls x) active\<rparr>"

text \<open>The swap of the confirmed flag: the context after it and the value before.\<close>

definition swap_confirmed :: "bool \<Rightarrow> 's probe_context \<Rightarrow> 's probe_context \<times> bool" where
  "swap_confirmed active x =
     (x\<lparr>px_controls := (px_controls x)\<lparr>k_password_field_confirmed_active := active\<rparr>\<rparr>,
      k_password_field_confirmed_active (px_controls x))"

definition password_row :: "instant \<Rightarrow> bool \<Rightarrow> probe_effect" where
  "password_row now entered =
     Row (captured_new source.System now
       (if entered then SensitiveContextEntered PasswordField else SensitiveContextExited PasswordField))"

text \<open>The exit of a confirmed span, which two operations share.\<close>

definition close_confirmed :: "instant \<Rightarrow> 's probe_context \<Rightarrow> 's probe_context \<times> probe_effect list" where
  "close_confirmed now x =
     (case swap_confirmed False x of
        (x, was_confirmed) \<Rightarrow> (x, if was_confirmed then [password_row now False] else []))"

definition emit_confirmed_sample ::
    "bool \<Rightarrow> instant \<Rightarrow> 's probe_context \<Rightarrow> 's probe_context \<times> probe_effect list" where
  "emit_confirmed_sample is_password now x =
     (let x = set_gate is_password x;
          (x, previous) = swap_confirmed is_password x
      in (x, if previous = is_password then [] else [password_row now is_password]))"

definition on_probe_liveness ::
    "'s secure_field_source \<Rightarrow> bool \<Rightarrow> instant \<Rightarrow> 's probe_context \<Rightarrow> 's probe_context \<times> probe_effect list" where
  "on_probe_liveness src live now x =
     (if live = pm_probe_was_live (px_monitor x) then (x, [])
      else
        let x = set_monitor (\<lambda>m. m\<lparr>pm_probe_was_live := live, pm_cache := None,
                  pm_unresolved_streak := 0, pm_app_unanswered := []\<rparr>) x
        in if live then (set_gate True (set_monitor (pm_unresolved_update (\<lambda>_. True)) x), [])
           else
             let x = x\<lparr>px_source := so_retract_all src (px_source x)\<rparr>;
                 x = set_gate False (set_monitor (pm_unresolved_update (\<lambda>_. False)) x);
                 (x, closed) = close_confirmed now x
             in (x, Retracted # closed))"

fun app_unanswered_bump :: "int \<Rightarrow> (int \<times> nat) list \<Rightarrow> (int \<times> nat) list \<times> nat" where
  "app_unanswered_bump pid [] = ([(pid, 1)], 1)"
| "app_unanswered_bump pid ((cached, unanswered) # rest) =
     (if cached = pid then ((cached, unanswered + 1) # rest, unanswered + 1)
      else (case app_unanswered_bump pid rest of (rest, n) \<Rightarrow> ((cached, unanswered) # rest, n)))"

definition app_unanswered_clear :: "int \<Rightarrow> (int \<times> nat) list \<Rightarrow> (int \<times> nat) list" where
  "app_unanswered_clear pid counts = filter (\<lambda>(cached, _). cached \<noteq> pid) counts"

text \<open>The three arms of \<open>resolve\<close>, after the probe.\<close>

definition resolve_answered ::
    "bool \<Rightarrow> nat option \<Rightarrow> int option \<Rightarrow> instant \<Rightarrow> 's probe_context \<Rightarrow> 's probe_context \<times> probe_effect list" where
  "resolve_answered is_secure window_id app_pid now x =
     (let x = set_monitor (\<lambda>m. m
                \<lparr>pm_unresolved := False, pm_unresolved_streak := 0,
                 pm_app_unanswered :=
                   (case app_pid of Some pid \<Rightarrow> app_unanswered_clear pid (pm_app_unanswered m)
                    | None \<Rightarrow> pm_app_unanswered m),
                 pm_cache :=
                   (case window_id of
                      Some window_id \<Rightarrow> Some
                        \<lparr>pc_window_id = window_id, pc_is_password = is_secure,
                         pc_focus_generation = k_password_focus_generation (px_controls x),
                         pc_resolved_at = now\<rparr>
                    | None \<Rightarrow> pm_cache m)\<rparr>) x
      in emit_confirmed_sample is_secure now x)"

definition resolve_cannot_answer ::
    "'s secure_field_source \<Rightarrow> int option \<Rightarrow> 's probe_context \<Rightarrow> 's probe_context \<times> probe_effect list" where
  "resolve_cannot_answer src app_pid x =
     (let x = set_monitor (\<lambda>m. m\<lparr>pm_cache := None, pm_unresolved := True,
                pm_unresolved_streak := pm_unresolved_streak m + 1\<rparr>) x;
          x = set_gate True x
      in case app_pid of
           None \<Rightarrow> (x, [])
         | Some pid \<Rightarrow>
             if \<not> pid > 0 then (x, [])
             else
               let (counts, app_count) = app_unanswered_bump pid (pm_app_unanswered (px_monitor x));
                   x = set_monitor (pm_app_unanswered_update (\<lambda>_. counts)) x
               in if unresolved_streak_warns app_count
                  then (x\<lparr>px_source := so_announce src pid (px_source x)\<rparr>, [Announced pid])
                  else (x, []))"

definition resolve_api_disabled :: "'s probe_context \<Rightarrow> 's probe_context" where
  "resolve_api_disabled x =
     set_gate True (set_monitor (\<lambda>m. m\<lparr>pm_cache := None, pm_unresolved := True,
       pm_unresolved_streak := 0, pm_app_unanswered := []\<rparr>) x)"

definition resolve ::
    "'s secure_field_source \<Rightarrow> nat option \<Rightarrow> int option \<Rightarrow> instant \<Rightarrow> 's probe_context
     \<Rightarrow> 's probe_context \<times> probe_effect list \<times> redact_decision" where
  "resolve src window_id app_pid now x =
     (let (answer, s) = so_probe src app_pid (px_source x);
          x = x\<lparr>px_source := s\<rparr>;
          asked = Probed window_id app_pid now answer
      in case answer of
           Answered is_secure \<Rightarrow>
             (let (x, rows) = resolve_answered is_secure window_id app_pid now x
              in (x, asked # rows, \<lparr>rd_redact = is_secure, rd_api_disabled = False\<rparr>))
         | CannotAnswer \<Rightarrow>
             (let (x, told) = resolve_cannot_answer src app_pid x
              in (x, asked # told, \<lparr>rd_redact = True, rd_api_disabled = False\<rparr>))
         | ApiDisabled \<Rightarrow>
             (resolve_api_disabled x, [asked], \<lparr>rd_redact = True, rd_api_disabled = True\<rparr>))"

text \<open>\<open>cached\<close>.\<close>

definition cached_answer :: "nat \<Rightarrow> instant \<Rightarrow> 's probe_context \<Rightarrow> bool option" where
  "cached_answer window_id now x =
     (case pm_cache (px_monitor x) of
        None \<Rightarrow> None
      | Some c \<Rightarrow>
          if pc_window_id c = window_id \<and>
             pc_focus_generation c = k_password_focus_generation (px_controls x) \<and>
             duration_since now (pc_resolved_at c) \<le>
               (if pc_is_password c then PROBE_CACHE_TTL else NOT_SECURE_PROBE_CACHE_TTL)
          then Some (pc_is_password c) else None)"

definition note_focus ::
    "'s secure_field_source \<Rightarrow> nat option \<Rightarrow> int option \<Rightarrow> bool \<Rightarrow> instant \<Rightarrow> 's probe_context
     \<Rightarrow> 's probe_context \<times> probe_effect list \<times> bool" where
  "note_focus src window_id app_pid probe_live now x =
     (if window_id = pm_last_window_id (px_monitor x) then (x, [], False)
      else
        let x = set_monitor (pm_last_window_id_update (\<lambda>_. window_id)) x;
            x = x\<lparr>px_controls := fst (mark_password_focus_changed (px_controls x))\<rparr>
        in if \<not> probe_live then (x, [FocusMoved window_id], False)
           else
             let x = set_monitor (\<lambda>m. m\<lparr>pm_cache := None, pm_unresolved := True\<rparr>) x;
                 x = set_gate True x;
                 (x, effects, decision) = resolve src window_id app_pid now x;
                 (x, closed) = (if pm_unresolved (px_monitor x) then close_confirmed now x else (x, []))
             in (x, FocusMoved window_id # effects @ closed, rd_api_disabled decision))"

definition redact_key_at ::
    "'s secure_field_source \<Rightarrow> nat option \<Rightarrow> int option \<Rightarrow> instant \<Rightarrow> 's probe_context
     \<Rightarrow> 's probe_context \<times> probe_effect list \<times> redact_decision" where
  "redact_key_at src window_id app_pid now x =
     (case if pm_unresolved (px_monitor x) then None
           else Option.bind window_id (\<lambda>window_id. cached_answer window_id now x) of
        Some secure \<Rightarrow> (x, [], \<lparr>rd_redact = secure, rd_api_disabled = False\<rparr>)
      | None \<Rightarrow> resolve src window_id app_pid now x)"

section \<open>A pass of the pump\<close>

text \<open>
  One pass, as \<open>run_pump\<close> makes it: the pass's time, whether the keyboard stream is wanted,
  what the probe of the Accessibility grant would answer, the focused window with its process,
  and the keyboard events of the pass, each with its time and whether it can emit a row.
\<close>

record password_pass =
  pa_now :: instant
  pa_wanted :: bool
  pa_granted :: bool
  pa_window :: "nat option"
  pa_pid :: "int option"
  pa_keys :: "(instant \<times> bool) list"

record 's password_pump =
  pp_trust :: probe_trust
  pp_context :: "'s probe_context"

datatype pump_effect = Did probe_effect | KeyEmitted "nat option" instant bool bool

text \<open>A key: \<open>KeyEmitted window instant probe_live redact\<close>.\<close>

definition pump_key ::
    "'s secure_field_source \<Rightarrow> password_pass \<Rightarrow> bool \<Rightarrow> 's password_pump \<Rightarrow> instant \<times> bool
     \<Rightarrow> 's password_pump \<times> pump_effect list" where
  "pump_key src pass probe_live p key =
     (let (at, emits_row) = key
      in if probe_live \<and> emits_row then
           (let (x, effects, decision) = redact_key_at src (pa_window pass) (pa_pid pass) at (pp_context p);
                p = p\<lparr>pp_context := x\<rparr>;
                p = (if rd_api_disabled decision
                     then p\<lparr>pp_trust := trust_on_api_disabled (pa_now pass) (pp_trust p)\<rparr> else p)
            in (p, map Did effects @ [KeyEmitted (pa_window pass) at True (rd_redact decision)]))
         else (p, if emits_row then [KeyEmitted (pa_window pass) at False False] else []))"

definition pump_focus ::
    "'s secure_field_source \<Rightarrow> password_pass \<Rightarrow> 's password_pump \<Rightarrow> 's password_pump \<times> bool \<times> pump_effect list" where
  "pump_focus src pass p =
     (let now = pa_now pass;
          (trust, probe_live) = trust_refresh now (pa_wanted pass) (pa_granted pass) (pp_trust p);
          (x, effects) = on_probe_liveness src probe_live now (pp_context p);
          (x, moved, api_disabled) = note_focus src (pa_window pass) (pa_pid pass) probe_live now x;
          trust = (if api_disabled then trust_on_api_disabled now trust else trust)
      in (p\<lparr>pp_trust := trust, pp_context := x\<rparr>, probe_live, map Did (effects @ moved)))"

definition pump_pass ::
    "'s secure_field_source \<Rightarrow> 's password_pump \<Rightarrow> password_pass \<Rightarrow> 's password_pump \<times> pump_effect list" where
  "pump_pass src p pass =
     (let (p, probe_live, effects) = pump_focus src pass p
      in (final (pump_key src pass probe_live) p (pa_keys pass),
          effects @ outputs (pump_key src pass probe_live) p (pa_keys pass)))"

definition password_pump_new :: "capture_controls \<Rightarrow> 's \<Rightarrow> 's password_pump" where
  "password_pump_new controls s =
     \<lparr>pp_trust = probe_trust_new,
      pp_context = \<lparr>px_monitor = password_monitor_new, px_controls = controls, px_source = s\<rparr>\<rparr>"

section \<open>The reader of the focused field\<close>

text \<open>
  \<open>SecureFieldReader\<close>.  A probe reads the focused element through a route, then its role and
  perhaps its subrole; what Accessibility answers the \<open>n\<close>-th probe through each route is given
  by \<open>ax\<close>.  The element of an announced application stands for its process, so the routes are
  a list of processes; \<open>sr_writes\<close> is what was written to \<open>AXManualAccessibility\<close>, in order,
  and the codes the writes return are only logged.
\<close>

datatype ax_error = APIDisabled | NoValue | AttributeUnsupported | InvalidUIElement | OtherError

datatype attribute_read = ReadString string | ReadElement | ReadOther | ReadFailed ax_error

record ax_answers =
  ax_focused :: attribute_read
  ax_role :: attribute_read
  ax_subrole :: attribute_read

datatype role_check = Secure | NotSecure | RoleCannotAnswer | RoleApiDisabled

fun role_matches_secure :: "attribute_read \<Rightarrow> role_check" where
  "role_matches_secure (ReadString role) = (if role = ''AXSecureTextField'' then Secure else NotSecure)"
| "role_matches_secure ReadElement = RoleCannotAnswer"
| "role_matches_secure ReadOther = RoleCannotAnswer"
| "role_matches_secure (ReadFailed e) =
     (case e of
        APIDisabled \<Rightarrow> RoleApiDisabled
      | NoValue \<Rightarrow> NotSecure
      | AttributeUnsupported \<Rightarrow> NotSecure
      | _ \<Rightarrow> RoleCannotAnswer)"

definition classify_focused :: "ax_answers \<Rightarrow> secure_field_probe" where
  "classify_focused answers =
     (case role_matches_secure (ax_role answers) of
        Secure \<Rightarrow> Answered True
      | RoleApiDisabled \<Rightarrow> ApiDisabled
      | RoleCannotAnswer \<Rightarrow> CannotAnswer
      | NotSecure \<Rightarrow>
          (case role_matches_secure (ax_subrole answers) of
             Secure \<Rightarrow> Answered True
           | RoleApiDisabled \<Rightarrow> ApiDisabled
           | NotSecure \<Rightarrow> Answered False
           | RoleCannotAnswer \<Rightarrow> CannotAnswer))"

record secure_field_reader =
  sr_announced :: "int list"
  sr_writes :: "(int \<times> bool) list"
  sr_probes :: nat

definition secure_field_reader_new :: secure_field_reader where
  "secure_field_reader_new = \<lparr>sr_announced = [], sr_writes = [], sr_probes = 0\<rparr>"

definition drop_announced :: "int \<Rightarrow> secure_field_reader \<Rightarrow> secure_field_reader" where
  "drop_announced pid r = r\<lparr>sr_announced := filter (\<lambda>cached. cached \<noteq> pid) (sr_announced r)\<rparr>"

text \<open>The route is \<open>Some pid\<close> through that application's element, \<open>None\<close> system-wide.\<close>

definition announced_element :: "int option \<Rightarrow> secure_field_reader \<Rightarrow> int option" where
  "announced_element app_pid r =
     (case app_pid of
        Some pid \<Rightarrow> if pid \<in> set (sr_announced r) then Some pid else None
      | None \<Rightarrow> None)"

definition reader_probe ::
    "(nat \<Rightarrow> int option \<Rightarrow> ax_answers) \<Rightarrow> int option \<Rightarrow> secure_field_reader
     \<Rightarrow> secure_field_probe \<times> secure_field_reader" where
  "reader_probe ax app_pid r =
     (let route = announced_element app_pid r;
          answers = ax (sr_probes r) route;
          r = r\<lparr>sr_probes := sr_probes r + 1\<rparr>
      in case ax_focused answers of
           ReadElement \<Rightarrow> (classify_focused answers, r)
         | ReadString _ \<Rightarrow> (CannotAnswer, r)
         | ReadOther \<Rightarrow> (CannotAnswer, r)
         | ReadFailed e \<Rightarrow>
             if e = APIDisabled then (ApiDisabled, r)
             else (CannotAnswer,
               case route of
                 Some pid \<Rightarrow> if e = InvalidUIElement then drop_announced pid r else r
               | None \<Rightarrow> r))"

definition reader_announce :: "int \<Rightarrow> secure_field_reader \<Rightarrow> secure_field_reader" where
  "reader_announce pid r =
     (if pid \<le> 0 then r
      else r\<lparr>sr_announced :=
                (if pid \<in> set (sr_announced r) then sr_announced r else sr_announced r @ [pid]),
             sr_writes := sr_writes r @ [(pid, True)]\<rparr>)"

definition reader_retract_all :: "secure_field_reader \<Rightarrow> secure_field_reader" where
  "reader_retract_all r =
     r\<lparr>sr_announced := [], sr_writes := sr_writes r @ map (\<lambda>pid. (pid, False)) (sr_announced r)\<rparr>"

definition reader_source :: "(nat \<Rightarrow> int option \<Rightarrow> ax_answers) \<Rightarrow> secure_field_reader secure_field_source" where
  "reader_source ax =
     \<lparr>so_probe = reader_probe ax, so_announce = reader_announce, so_retract_all = reader_retract_all\<rparr>"

end
