(* ===== verification/Password_Laws.thy ===== *)
theory Password_Laws
  imports Password_Field
begin

text \<open>
  The laws of the password-field probe, over whole runs of the pump and in terms of what the
  run did: which answer still stands, which span of a password field is open, how often an
  application left a probe unanswered, and which applications are announced to.
\<close>

section \<open>Runs with their history\<close>

lemma final_history:
  assumes "\<And>s h x. P s h \<Longrightarrow> P (fst (step s x)) (h @ snd (step s x))"
    and "P s h"
  shows "P (final step s xs) (h @ outputs step s xs)"
  using assms(2)
proof (induction xs arbitrary: s h)
  case (Cons x xs)
  from Cons.IH[OF assms(1)[OF Cons.prems]] show ?case by simp
qed simp

text \<open>The answer that stands after a history: the last one, unless something voided it.\<close>

fun standing_step :: "(nat option \<times> instant \<times> bool) option \<Rightarrow> pump_effect \<Rightarrow> (nat option \<times> instant \<times> bool) option" where
  "standing_step a (Did (Probed window pid at answer)) =
     (case answer of Answered secure \<Rightarrow> Some (window, at, secure) | _ \<Rightarrow> None)"
| "standing_step a (Did (Row _)) = a"
| "standing_step a (Did _) = None"
| "standing_step a (KeyEmitted _ _ _ _) = a"

definition standing :: "pump_effect list \<Rightarrow> (nat option \<times> instant \<times> bool) option" where
  "standing h = foldl standing_step None h"

text \<open>Whether the rows left a password field open; \<open>None\<close> where two rows in a row say the same.\<close>

definition row_step :: "bool option \<Rightarrow> pump_effect \<Rightarrow> bool option" where
  "row_step b e =
     (case e of
        Did (Row r) \<Rightarrow>
          (case (b, c_payload r) of
             (Some False, SensitiveContextEntered PasswordField) \<Rightarrow> Some True
           | (Some True, SensitiveContextExited PasswordField) \<Rightarrow> Some False
           | _ \<Rightarrow> None)
      | _ \<Rightarrow> b)"

definition span_open :: "pump_effect list \<Rightarrow> bool option" where
  "span_open h = foldl row_step (Some False) h"

text \<open>
  How often a process left a probe unanswered and was announced to, since it last answered,
  the grant was revoked or the announcements were retracted.
\<close>

fun tally_step :: "int \<Rightarrow> nat \<times> nat \<Rightarrow> pump_effect \<Rightarrow> nat \<times> nat" where
  "tally_step pid (n, told) (Did (Probed _ app_pid _ answer)) =
     (case answer of
        ApiDisabled \<Rightarrow> (0, 0)
      | CannotAnswer \<Rightarrow> if app_pid = Some pid then (n + 1, told) else (n, told)
      | Answered _ \<Rightarrow> if app_pid = Some pid then (0, 0) else (n, told))"
| "tally_step pid (n, told) (Did (Announced p)) = (if p = pid then (n, told + 1) else (n, told))"
| "tally_step pid (n, told) (Did Retracted) = (0, 0)"
| "tally_step pid (n, told) _ = (n, told)"

definition tally :: "int \<Rightarrow> pump_effect list \<Rightarrow> nat \<times> nat" where
  "tally pid h = foldl (tally_step pid) (0, 0) h"

definition announcements_due :: "nat \<Rightarrow> nat" where
  "announcements_due n =
     (if n < UNRESOLVED_STREAK_FIRST_WARN then 0
      else (n - UNRESOLVED_STREAK_FIRST_WARN) div UNRESOLVED_STREAK_WARN_EVERY + 1)"

lemma history_append [simp]:
  "standing (h @ g) = foldl standing_step (standing h) g"
  "span_open (h @ g) = foldl row_step (span_open h) g"
  "tally pid (h @ g) = foldl (tally_step pid) (tally pid h) g"
  by (simp_all add: standing_def span_open_def tally_def)

lemma announcements_due_step:
  "announcements_due (Suc n) = announcements_due n + (if unresolved_streak_warns (Suc n) then 1 else 0)"
proof (cases "n < UNRESOLVED_STREAK_FIRST_WARN")
  case True
  then show ?thesis
    by (auto simp: announcements_due_def unresolved_streak_warns_def)
next
  case False
  then obtain d where n: "n = UNRESOLVED_STREAK_FIRST_WARN + d" by (metis le_add_diff_inverse not_le)
  show ?thesis
    by (simp add: n announcements_due_def unresolved_streak_warns_def UNRESOLVED_STREAK_WARN_EVERY_def div_Suc)
qed

section \<open>The invariant\<close>

definition unanswered_of :: "int \<Rightarrow> (int \<times> nat) list \<Rightarrow> nat" where
  "unanswered_of pid counts = (case map_of counts pid of Some n \<Rightarrow> n | None \<Rightarrow> 0)"

lemma bump_result:
  "app_unanswered_bump pid counts = (counts', n) \<Longrightarrow>
   n = unanswered_of pid counts + 1 \<and>
   (\<forall>p. unanswered_of p counts' = (if p = pid then n else unanswered_of p counts))"
proof (induction pid counts arbitrary: counts' n rule: app_unanswered_bump.induct)
  case (2 pid cached unanswered rest)
  show ?case
  proof (cases "cached = pid")
    case True
    with 2 show ?thesis by (auto simp: unanswered_of_def)
  next
    case False
    then obtain rest' where "app_unanswered_bump pid rest = (rest', n)"
      "counts' = (cached, unanswered) # rest'"
      using 2(2) by (auto split: prod.splits)
    with 2(1)[OF False] False show ?thesis by (auto simp: unanswered_of_def)
  qed
qed (auto simp: unanswered_of_def)

lemma clear_result [simp]:
  "unanswered_of p (app_unanswered_clear pid counts) = (if p = pid then 0 else unanswered_of p counts)"
  by (induction counts) (auto simp: unanswered_of_def app_unanswered_clear_def)

definition flags_ok :: "'s probe_context \<Rightarrow> bool" where
  "flags_ok x \<longleftrightarrow>
     k_password_field_active (px_controls x) =
       (pm_probe_was_live (px_monitor x) \<and>
        (pm_unresolved (px_monitor x) \<or> k_password_field_confirmed_active (px_controls x))) \<and>
     (k_password_field_confirmed_active (px_controls x) \<longrightarrow> pm_probe_was_live (px_monitor x)) \<and>
     (\<not> pm_probe_was_live (px_monitor x) \<longrightarrow>
        pm_cache (px_monitor x) = None \<and> pm_app_unanswered (px_monitor x) = []) \<and>
     (\<forall>c. pm_cache (px_monitor x) = Some c \<longrightarrow> pm_last_window_id (px_monitor x) = Some (pc_window_id c))"

definition counts_ok :: "(int \<times> nat) list \<Rightarrow> pump_effect list \<Rightarrow> bool" where
  "counts_ok counts h \<longleftrightarrow>
     (\<forall>pid. if pid > 0
        then tally pid h = (unanswered_of pid counts, announcements_due (unanswered_of pid counts))
        else snd (tally pid h) = 0)"

definition cache_ok :: "probe_cache option \<Rightarrow> pump_effect list \<Rightarrow> bool" where
  "cache_ok cache h \<longleftrightarrow>
     (\<forall>c. cache = Some c \<longrightarrow> standing h = Some (Some (pc_window_id c), pc_resolved_at c, pc_is_password c))"

definition history_ok :: "'s probe_context \<Rightarrow> pump_effect list \<Rightarrow> bool" where
  "history_ok x h \<longleftrightarrow>
     span_open h = Some (k_password_field_confirmed_active (px_controls x)) \<and>
     cache_ok (pm_cache (px_monitor x)) h \<and> counts_ok (pm_app_unanswered (px_monitor x)) h"

definition monitor_inv :: "'s probe_context \<Rightarrow> pump_effect list \<Rightarrow> bool" where
  "monitor_inv x h \<longleftrightarrow> flags_ok x \<and> history_ok x h"

lemmas context_defs = set_gate_def set_password_field_gate_def swap_confirmed_def close_confirmed_def
  emit_confirmed_sample_def mark_password_focus_changed_def

lemma row_step_password_row [simp]:
  "row_step b (Did (password_row now entered)) =
     (if b = Some (\<not> entered) then Some entered else None)"
  by (cases b) (auto simp: row_step_def password_row_def captured_new_def)

lemma row_step_other [simp]:
  "row_step b (Did (FocusMoved w)) = b" "row_step b (Did (Probed w p t a)) = b"
  "row_step b (Did (Announced pid)) = b" "row_step b (Did Retracted) = b"
  "row_step b (KeyEmitted w t live redact) = b"
  by (simp_all add: row_step_def)

lemma step_password_row [simp]:
  "standing_step a (Did (password_row now entered)) = a"
  "tally_step pid t (Did (password_row now entered)) = t"
  by (cases t; simp add: password_row_def)+

lemma tally_step_other [simp]:
  "tally_step pid t (Did (FocusMoved w)) = t" "tally_step pid t (KeyEmitted w at live redact) = t"
  "tally_step pid t (Did Retracted) = (0, 0)"
  by (cases t; simp)+

lemma cache_ok_None [simp]: "cache_ok None h"
  by (simp add: cache_ok_def)

lemma cache_ok_row [simp]: "cache_ok cache (h @ [Did (password_row now entered)]) = cache_ok cache h"
  by (simp add: cache_ok_def)

lemma announcements_due_0 [simp]: "announcements_due 0 = 0"
  by (simp add: announcements_due_def UNRESOLVED_STREAK_FIRST_WARN_def)

lemma unanswered_of_Nil [simp]: "unanswered_of pid [] = 0"
  by (simp add: unanswered_of_def)

lemma counts_ok_retracted [simp]: "counts_ok [] (h @ [Did Retracted])"
  by (simp add: counts_ok_def)

lemma counts_ok_neutral [simp]:
  "counts_ok counts (h @ [Did (password_row now entered)]) = counts_ok counts h"
  "counts_ok counts (h @ [Did (FocusMoved w)]) = counts_ok counts h"
  "counts_ok counts (h @ [KeyEmitted w at live redact]) = counts_ok counts h"
  "counts_ok counts (h @ [e, Did (password_row now entered)]) = counts_ok counts (h @ [e])"
  by (simp_all add: counts_ok_def)

lemma liveness_inv:
  assumes "monitor_inv x h" "on_probe_liveness src live now x = (x', effects)"
  shows "monitor_inv x' (h @ map Did effects) \<and> pm_probe_was_live (px_monitor x') = live"
proof (cases "live = pm_probe_was_live (px_monitor x)")
  case True
  with assms show ?thesis by (simp add: on_probe_liveness_def)
next
  case False
  show ?thesis
  proof (cases live)
    case True
    with False assms show ?thesis
      by (simp add: on_probe_liveness_def context_defs monitor_inv_def flags_ok_def history_ok_def)
        auto
  next
    case off: False
    with False assms have eff: "effects = Retracted #
        (if k_password_field_confirmed_active (px_controls x) then [password_row now False] else [])"
      by (auto simp: on_probe_liveness_def context_defs)
    from off False assms show ?thesis
      by (simp add: on_probe_liveness_def context_defs monitor_inv_def flags_ok_def history_ok_def eff)
        (auto simp: counts_ok_def)
  qed
qed

lemma counts_ok_answered:
  assumes "counts_ok counts h"
  shows "counts_ok (case app_pid of Some pid \<Rightarrow> app_unanswered_clear pid counts | None \<Rightarrow> counts)
    (h @ [Did (Probed w app_pid at (Answered secure))])"
proof -
  have "tally_step pid t (Did (Probed w app_pid at (Answered secure))) =
      (if app_pid = Some pid then (0, 0) else t)" for pid t
    by (cases t) simp
  with assms show ?thesis by (auto simp: counts_ok_def split: option.split)
qed

lemma counts_ok_disabled: "counts_ok [] (h @ [Did (Probed w app_pid at ApiDisabled)])"
proof -
  have "tally_step pid t (Did (Probed w app_pid at ApiDisabled)) = (0, 0)" for pid t
    by (cases t) simp
  then show ?thesis by (simp add: counts_ok_def)
qed

lemma tally_step_unanswered:
  "tally_step pid (tally_step pid t (Did (Probed w app_pid at CannotAnswer))) (Did (Announced p)) =
     (fst t + (if app_pid = Some pid then 1 else 0), snd t + (if p = pid then 1 else 0))"
  "tally_step pid t (Did (Probed w app_pid at CannotAnswer)) =
     (fst t + (if app_pid = Some pid then 1 else 0), snd t)"
  by (cases t; simp)+

lemma counts_ok_unanswered:
  assumes "counts_ok counts h" "app_unanswered_bump pid counts = (counts', n)" "pid > 0"
  shows "counts_ok counts' (h @ Did (Probed w (Some pid) at CannotAnswer) #
     (if unresolved_streak_warns n then [Did (Announced pid)] else []))"
  using assms bump_result[OF assms(2)]
  by (auto simp: counts_ok_def tally_step_unanswered announcements_due_step)

lemma counts_ok_unattributed:
  assumes "counts_ok counts h" "\<forall>pid. app_pid = Some pid \<longrightarrow> \<not> pid > 0"
  shows "counts_ok counts (h @ [Did (Probed w app_pid at CannotAnswer)])"
  using assms by (auto simp: counts_ok_def tally_step_unanswered)

lemma answered_inv:
  assumes "monitor_inv x h" "pm_probe_was_live (px_monitor x)" "window = pm_last_window_id (px_monitor x)"
    "resolve_answered secure window app_pid now x = (x', rows)"
  shows "monitor_inv x' (h @ Did (Probed window app_pid now (Answered secure)) # map Did rows) \<and>
    pm_probe_was_live (px_monitor x') \<and> pm_last_window_id (px_monitor x') = window \<and>
    standing (h @ Did (Probed window app_pid now (Answered secure)) # map Did rows) =
      Some (window, now, secure)"
proof -
  note counts = counts_ok_answered[of "pm_app_unanswered (px_monitor x)" h app_pid window now secure]
  have rows: "rows = (if k_password_field_confirmed_active (px_controls x) = secure then []
      else [password_row now secure])"
    using assms(4) by (auto simp: resolve_answered_def context_defs Let_def)
  have "cache_ok (pm_cache (px_monitor x')) (h @ Did (Probed window app_pid now (Answered secure)) # map Did rows)"
    using assms
    by (auto simp: resolve_answered_def context_defs Let_def cache_ok_def rows monitor_inv_def flags_ok_def
        split: option.splits)
  moreover have "counts_ok (pm_app_unanswered (px_monitor x'))
      (h @ Did (Probed window app_pid now (Answered secure)) # map Did rows)"
  proof -
    have "pm_app_unanswered (px_monitor x') = (case app_pid of
        Some pid \<Rightarrow> app_unanswered_clear pid (pm_app_unanswered (px_monitor x)) | None \<Rightarrow> pm_app_unanswered (px_monitor x))"
      using assms(4) by (auto simp: resolve_answered_def context_defs Let_def split: option.splits)
    with assms(1) counts show ?thesis by (simp add: monitor_inv_def history_ok_def rows)
  qed
  moreover have "span_open (h @ Did (Probed window app_pid now (Answered secure)) # map Did rows) = Some secure"
    "standing (h @ Did (Probed window app_pid now (Answered secure)) # map Did rows) = Some (window, now, secure)"
    using assms(1) by (auto simp: monitor_inv_def history_ok_def rows)
  moreover have "px_controls x' = (px_controls x)
      \<lparr>k_password_field_active := secure, k_password_field_confirmed_active := secure\<rparr>"
    "\<not> pm_unresolved (px_monitor x')" "pm_probe_was_live (px_monitor x')"
    "pm_last_window_id (px_monitor x') = window"
    "\<forall>c. pm_cache (px_monitor x') = Some c \<longrightarrow> window = Some (pc_window_id c)"
    using assms by (auto simp: resolve_answered_def context_defs Let_def monitor_inv_def flags_ok_def split: option.splits)
  ultimately show ?thesis by (simp add: monitor_inv_def flags_ok_def history_ok_def)
qed

lemma cannot_answer_inv:
  assumes "monitor_inv x h" "pm_probe_was_live (px_monitor x)"
    "resolve_cannot_answer src app_pid x = (x', told)"
  shows "monitor_inv x' (h @ Did (Probed window app_pid now CannotAnswer) # map Did told) \<and>
    px_controls x' = set_password_field_gate (px_controls x) True \<and>
    pm_probe_was_live (px_monitor x') \<and> pm_unresolved (px_monitor x') \<and>
    pm_last_window_id (px_monitor x') = pm_last_window_id (px_monitor x)"
proof (cases "\<exists>pid. app_pid = Some pid \<and> pid > 0")
  case True
  then obtain pid where pid: "app_pid = Some pid" "pid > 0" by blast
  obtain counts n where bump: "app_unanswered_bump pid (pm_app_unanswered (px_monitor x)) = (counts, n)"
    by fastforce
  have told: "told = (if unresolved_streak_warns n then [Announced pid] else [])"
    using assms(3) pid bump by (auto simp: resolve_cannot_answer_def context_defs Let_def split: if_splits)
  from assms(1) have "counts_ok counts (h @ Did (Probed window app_pid now CannotAnswer) # map Did told)"
    using counts_ok_unanswered[OF _ bump pid(2), of h window now]
    by (simp only: monitor_inv_def history_ok_def pid(1) told if_distrib[of "map Did"] list.map)
  with assms pid bump told show ?thesis
    by (auto simp: resolve_cannot_answer_def context_defs Let_def monitor_inv_def flags_ok_def history_ok_def
        split: if_splits)
next
  case False
  then have "told = []" "counts_ok (pm_app_unanswered (px_monitor x)) (h @ [Did (Probed window app_pid now CannotAnswer)])"
    using assms counts_ok_unattributed[of "pm_app_unanswered (px_monitor x)" h app_pid window now]
    by (auto simp: resolve_cannot_answer_def context_defs Let_def monitor_inv_def history_ok_def
        split: if_splits option.splits)
  with False assms show ?thesis
    by (auto simp: resolve_cannot_answer_def context_defs Let_def monitor_inv_def flags_ok_def history_ok_def
        split: if_splits option.splits)
qed

lemma api_disabled_inv:
  assumes "monitor_inv x h" "pm_probe_was_live (px_monitor x)" "x' = resolve_api_disabled x"
  shows "monitor_inv x' (h @ [Did (Probed window app_pid now ApiDisabled)]) \<and>
    pm_probe_was_live (px_monitor x') \<and> pm_unresolved (px_monitor x') \<and>
    pm_last_window_id (px_monitor x') = pm_last_window_id (px_monitor x)"
  using assms counts_ok_disabled[of h window app_pid now]
  by (simp add: resolve_api_disabled_def context_defs monitor_inv_def flags_ok_def history_ok_def)

lemma monitor_inv_source [simp]: "monitor_inv (x\<lparr>px_source := s\<rparr>) h = monitor_inv x h"
  by (simp add: monitor_inv_def flags_ok_def history_ok_def)

lemma resolve_inv:
  assumes "monitor_inv x h" "pm_probe_was_live (px_monitor x)" "window = pm_last_window_id (px_monitor x)"
    "resolve src window app_pid now x = (x', effects, decision)"
  shows "monitor_inv x' (h @ map Did effects) \<and>
    pm_probe_was_live (px_monitor x') \<and> pm_last_window_id (px_monitor x') = window \<and>
    (\<not> rd_redact decision \<longrightarrow> standing (h @ map Did effects) = Some (window, now, False))"
proof -
  obtain answer s where ask: "so_probe src app_pid (px_source x) = (answer, s)" by fastforce
  let ?x = "x\<lparr>px_source := s\<rparr>"
  have pre: "monitor_inv ?x h" "pm_probe_was_live (px_monitor ?x)" "window = pm_last_window_id (px_monitor ?x)"
    using assms by simp_all
  show ?thesis
  proof (cases answer)
    case (Answered secure)
    obtain y rows where r: "resolve_answered secure window app_pid now ?x = (y, rows)" by fastforce
    with assms(4) ask Answered have "x' = y" "effects = Probed window app_pid now (Answered secure) # rows"
      "rd_redact decision = secure"
      by (auto simp: resolve_def)
    with answered_inv[OF pre r] show ?thesis by (cases secure) simp_all
  next
    case CannotAnswer
    obtain y told where r: "resolve_cannot_answer src app_pid ?x = (y, told)" by fastforce
    with assms(4) ask CannotAnswer have "x' = y" "effects = Probed window app_pid now CannotAnswer # told"
      "rd_redact decision"
      by (auto simp: resolve_def)
    with cannot_answer_inv[OF pre(1,2) r, of window now] pre(3) show ?thesis by simp
  next
    case ApiDisabled
    with assms(4) ask have "x' = resolve_api_disabled ?x" "effects = [Probed window app_pid now ApiDisabled]"
      "rd_redact decision"
      by (auto simp: resolve_def)
    with api_disabled_inv[OF pre(1,2) refl, of window app_pid now] pre(3) show ?thesis by simp
  qed
qed

lemma close_confirmed_inv:
  assumes "monitor_inv x h" "pm_unresolved (px_monitor x)" "close_confirmed now x = (x', effects)"
  shows "monitor_inv x' (h @ map Did effects) \<and> px_monitor x' = px_monitor x"
  using assms by (auto simp: close_confirmed_def swap_confirmed_def monitor_inv_def flags_ok_def history_ok_def)

lemma note_focus_inv:
  assumes "monitor_inv x h" "pm_probe_was_live (px_monitor x) = probe_live"
    "note_focus src window app_pid probe_live now x = (x', effects, disabled)"
  shows "monitor_inv x' (h @ map Did effects) \<and> pm_probe_was_live (px_monitor x') = probe_live \<and>
    pm_last_window_id (px_monitor x') = window"
proof (cases "window = pm_last_window_id (px_monitor x)")
  case True
  with assms show ?thesis by (auto simp: note_focus_def)
next
  case moved: False
  show ?thesis
  proof (cases probe_live)
    case False
    with moved assms show ?thesis
      by (auto simp: note_focus_def context_defs monitor_inv_def flags_ok_def history_ok_def)
  next
    case True
    define y where "y = set_gate True (x\<lparr>px_controls := fst (mark_password_focus_changed (px_controls x)),
      px_monitor := (px_monitor x)\<lparr>pm_last_window_id := window, pm_cache := None, pm_unresolved := True\<rparr>\<rparr>)"
    have y: "monitor_inv y (h @ [Did (FocusMoved window)])" "pm_probe_was_live (px_monitor y)"
      "window = pm_last_window_id (px_monitor y)"
      using assms(1,2) True
      by (auto simp: y_def context_defs monitor_inv_def flags_ok_def history_ok_def)
    obtain z asked decision where r: "resolve src window app_pid now y = (z, asked, decision)"
      by (metis surj_pair)
    from resolve_inv[OF y r] have z: "monitor_inv z ((h @ [Did (FocusMoved window)]) @ map Did asked)"
      "pm_probe_was_live (px_monitor z)" "pm_last_window_id (px_monitor z) = window" by blast+
    obtain z' closed where c: "(if pm_unresolved (px_monitor z) then close_confirmed now z else (z, [])) = (z', closed)"
      by fastforce
    have e: "x' = z'" "effects = FocusMoved window # asked @ closed"
      using assms(3) moved True r c by (auto simp: note_focus_def Let_def y_def[symmetric])
    have "monitor_inv z' (((h @ [Did (FocusMoved window)]) @ map Did asked) @ map Did closed) \<and>
        px_monitor z' = px_monitor z"
    proof (cases "pm_unresolved (px_monitor z)")
      case True
      with c close_confirmed_inv[OF z(1) True] show ?thesis by (simp only: if_True)
    next
      case False
      with c z show ?thesis by simp
    qed
    with e z True show ?thesis by simp
  qed
qed

lemma redact_key_inv:
  assumes "monitor_inv x h" "pm_probe_was_live (px_monitor x)" "window = pm_last_window_id (px_monitor x)"
    "redact_key_at src window app_pid at x = (x', effects, decision)"
  shows "monitor_inv x' (h @ map Did effects) \<and>
    pm_probe_was_live (px_monitor x') \<and> pm_last_window_id (px_monitor x') = window \<and>
    (\<not> rd_redact decision \<longrightarrow>
      (\<exists>t. standing (h @ map Did effects) = Some (window, t, False) \<and>
        duration_since at t \<le> NOT_SECURE_PROBE_CACHE_TTL))"
proof (cases "if pm_unresolved (px_monitor x) then None
    else Option.bind window (\<lambda>window_id. cached_answer window_id at x)")
  case None
  with assms(4) have "resolve src window app_pid at x = (x', effects, decision)"
    by (simp add: redact_key_at_def)
  from resolve_inv[OF assms(1-3) this] show ?thesis by (auto simp: duration_since_def)
next
  case (Some secure)
  then obtain c where c: "pm_cache (px_monitor x) = Some c" "window = Some (pc_window_id c)"
    "secure = pc_is_password c"
    "duration_since at (pc_resolved_at c) \<le> (if pc_is_password c then PROBE_CACHE_TTL else NOT_SECURE_PROBE_CACHE_TTL)"
    by (auto simp: cached_answer_def split: if_splits option.splits bind_splits)
  from Some assms(4) have "x' = x" "effects = []" "rd_redact decision = secure"
    by (auto simp: redact_key_at_def)
  with assms c show ?thesis by (auto simp: monitor_inv_def history_ok_def cache_ok_def)
qed

section \<open>The pump\<close>

text \<open>What every key of a history satisfies, given what went before it.\<close>

definition keys_ok :: "pump_effect list \<Rightarrow> bool" where
  "keys_ok h \<longleftrightarrow>
     (\<forall>before window at after. h = before @ KeyEmitted window at True False # after \<longrightarrow>
        (\<exists>t. standing before = Some (window, t, False) \<and> duration_since at t \<le> NOT_SECURE_PROBE_CACHE_TTL))"

lemma keys_ok_Nil [simp]: "keys_ok []"
  by (simp add: keys_ok_def)

lemma keys_ok_snoc:
  "keys_ok (h @ [e]) \<longleftrightarrow> keys_ok h \<and>
     (\<forall>window at. e = KeyEmitted window at True False \<longrightarrow>
        (\<exists>t. standing h = Some (window, t, False) \<and> duration_since at t \<le> NOT_SECURE_PROBE_CACHE_TTL))"
  (is "?l \<longleftrightarrow> ?r")
proof
  assume ?l
  then show ?r unfolding keys_ok_def by (metis append.assoc append_Cons)
next
  assume ?r
  show ?l unfolding keys_ok_def
  proof (intro allI impI)
    fix before window at later
    assume "h @ [e] = before @ KeyEmitted window at True False # later"
    then consider "later = []" "h = before" "e = KeyEmitted window at True False"
      | rest where "h = before @ KeyEmitted window at True False # rest"
      by (cases later rule: rev_cases) auto
    then show "\<exists>t. standing before = Some (window, t, False) \<and> duration_since at t \<le> NOT_SECURE_PROBE_CACHE_TTL"
      using \<open>?r\<close> by cases (auto simp: keys_ok_def)
  qed
qed

lemma keys_ok_did [simp]: "keys_ok (h @ map Did effects) = keys_ok h"
proof (induction effects rule: rev_induct)
  case (snoc e es)
  then show ?case by (simp add: keys_ok_snoc flip: append_assoc)
qed simp

definition pump_inv :: "'s password_pump \<Rightarrow> pump_effect list \<Rightarrow> bool" where
  "pump_inv p h \<longleftrightarrow> monitor_inv (pp_context p) h \<and> keys_ok h"

lemma monitor_inv_key [simp]: "monitor_inv x (h @ [KeyEmitted window at live redact]) = monitor_inv x h"
  by (simp add: monitor_inv_def history_ok_def cache_ok_def)

lemma pump_key_inv:
  assumes "pump_inv p h" "pm_probe_was_live (px_monitor (pp_context p)) = probe_live"
    "pm_last_window_id (px_monitor (pp_context p)) = pa_window pass"
    "pump_key src pass probe_live p key = (p', effects)"
  shows "pump_inv p' (h @ effects) \<and> pm_probe_was_live (px_monitor (pp_context p')) = probe_live \<and>
    pm_last_window_id (px_monitor (pp_context p')) = pa_window pass"
proof -
  obtain at emits_row where key: "key = (at, emits_row)" by fastforce
  show ?thesis
  proof (cases "probe_live \<and> emits_row")
    case False
    with assms key show ?thesis by (auto simp: pump_key_def pump_inv_def keys_ok_snoc)
  next
    case True
    obtain x did decision where r:
      "redact_key_at src (pa_window pass) (pa_pid pass) at (pp_context p) = (x, did, decision)"
      by (metis surj_pair)
    from assms True have "monitor_inv (pp_context p) h" "pm_probe_was_live (px_monitor (pp_context p))"
      "pa_window pass = pm_last_window_id (px_monitor (pp_context p))"
      by (simp_all add: pump_inv_def)
    note inv = redact_key_inv[OF this r]
    have "pp_context p' = x" "effects = map Did did @ [KeyEmitted (pa_window pass) at True (rd_redact decision)]"
      using assms(4) True key r by (auto simp: pump_key_def Let_def)
    moreover have "keys_ok (h @ map Did did)" using assms(1) by (simp add: pump_inv_def)
    ultimately show ?thesis using inv True
      by (auto simp: pump_inv_def keys_ok_snoc simp flip: append_assoc)
  qed
qed

lemma pump_keys_inv:
  assumes "pump_inv p h" "pm_probe_was_live (px_monitor (pp_context p)) = probe_live"
    "pm_last_window_id (px_monitor (pp_context p)) = pa_window pass"
  shows "pump_inv (final (pump_key src pass probe_live) p keys)
      (h @ outputs (pump_key src pass probe_live) p keys) \<and>
    pm_probe_was_live (px_monitor (pp_context (final (pump_key src pass probe_live) p keys))) = probe_live"
proof -
  let ?P = "\<lambda>p h. pump_inv p h \<and> pm_probe_was_live (px_monitor (pp_context p)) = probe_live \<and>
    pm_last_window_id (px_monitor (pp_context p)) = pa_window pass"
  have step: "?P (fst (pump_key src pass probe_live p key)) (h @ snd (pump_key src pass probe_live p key))"
    if "?P p h" for p h key
    using pump_key_inv[of p h probe_live pass src key] that by (simp add: prod_eq_iff)
  have "?P (final (pump_key src pass probe_live) p keys) (h @ outputs (pump_key src pass probe_live) p keys)"
    by (rule final_history[of ?P, OF step]) (use assms in auto)
  then show ?thesis by blast
qed

lemma pump_pass_inv:
  assumes "pump_inv p h"
  shows "pump_inv (fst (pump_pass src p pass)) (h @ snd (pump_pass src p pass)) \<and>
    pm_probe_was_live (px_monitor (pp_context (fst (pump_pass src p pass)))) =
      snd (trust_refresh (pa_now pass) (pa_wanted pass) (pa_granted pass) (pp_trust p))"
proof -
  obtain trust live where t: "trust_refresh (pa_now pass) (pa_wanted pass) (pa_granted pass) (pp_trust p) = (trust, live)"
    by fastforce
  obtain x did where l: "on_probe_liveness src live (pa_now pass) (pp_context p) = (x, did)" by fastforce
  obtain y moved disabled where f:
    "note_focus src (pa_window pass) (pa_pid pass) live (pa_now pass) x = (y, moved, disabled)"
    by (metis surj_pair)
  define q where "q = p\<lparr>pp_trust := (if disabled then trust_on_api_disabled (pa_now pass) trust else trust),
    pp_context := y\<rparr>"
  have focus: "pump_focus src pass p = (q, live, map Did (did @ moved))"
    by (simp add: pump_focus_def t l f q_def)
  from liveness_inv[OF _ l] assms have x: "monitor_inv x (h @ map Did did)" "pm_probe_was_live (px_monitor x) = live"
    by (auto simp: pump_inv_def)
  from note_focus_inv[OF x f] assms have "pump_inv q (h @ map Did (did @ moved))"
    "pm_probe_was_live (px_monitor (pp_context q)) = live"
    "pm_last_window_id (px_monitor (pp_context q)) = pa_window pass"
    by (simp_all add: pump_inv_def q_def keys_ok_did[of _ "did @ moved", simplified] append_assoc[symmetric]
        del: append_assoc)
  from pump_keys_inv[OF this, of src "pa_keys pass"] show ?thesis
    by (simp add: pump_pass_def focus t)
qed

lemma pump_new_inv:
  assumes "\<not> k_password_field_active controls" "\<not> k_password_field_confirmed_active controls"
  shows "pump_inv (password_pump_new controls s) []"
  using assms
  by (simp add: pump_inv_def password_pump_new_def password_monitor_new_def monitor_inv_def flags_ok_def
      history_ok_def span_open_def counts_ok_def tally_def)

lemma pump_run_inv:
  assumes "\<not> k_password_field_active controls" "\<not> k_password_field_confirmed_active controls"
  shows "pump_inv (final (pump_pass src) (password_pump_new controls s) passes)
    (outputs (pump_pass src) (password_pump_new controls s) passes)"
  using final_history[of pump_inv "pump_pass src" "password_pump_new controls s" "[]" passes]
    pump_pass_inv pump_new_inv[OF assms] by fastforce

section \<open>The properties\<close>

text \<open>
  C22 (\<open>PasswordFieldMonitor::redact_key_at\<close>): while the probe is live, a key leaves the pump
  unredacted only if the last answer of a probe was that this window's focus is no password
  field, nothing since then asked again, moved the focus or took the answer back, and it is at
  most a quarter of a second old.  Every other key is redacted, whatever the probes answer.
\<close>

theorem unredacted_keys_have_a_fresh_answer:
  assumes "\<not> k_password_field_active controls" "\<not> k_password_field_confirmed_active controls"
    and "outputs (pump_pass src) (password_pump_new controls s) passes =
      before @ KeyEmitted window at True False # later"
  shows "\<exists>t. standing before = Some (window, t, False) \<and> duration_since at t \<le> from_millis 250"
proof -
  from pump_run_inv[OF assms(1,2), of src s passes]
  have "keys_ok (outputs (pump_pass src) (password_pump_new controls s) passes)"
    by (simp add: pump_inv_def)
  with assms(3) show ?thesis
    unfolding keys_ok_def NOT_SECURE_PROBE_CACHE_TTL_def by blast
qed

text \<open>
  C23 (\<open>PasswordFieldMonitor\<close>): the rows that enter and leave a password field alternate in any
  run, the confirmed flag says whether one is open, and the shared gate is up exactly while the
  probe is live and the focus is unresolved or confirmed to be a password field.
\<close>

theorem password_spans_alternate:
  fixes src :: "'s secure_field_source" and s :: 's and passes :: "password_pass list"
    and controls :: capture_controls
  assumes "\<not> k_password_field_active controls" "\<not> k_password_field_confirmed_active controls"
  defines "x \<equiv> pp_context (final (pump_pass src) (password_pump_new controls s) passes)"
  shows "span_open (outputs (pump_pass src) (password_pump_new controls s) passes) =
      Some (k_password_field_confirmed_active (px_controls x)) \<and>
    (k_password_field_active (px_controls x) \<longleftrightarrow> pm_probe_was_live (px_monitor x) \<and>
      (pm_unresolved (px_monitor x) \<or> k_password_field_confirmed_active (px_controls x)))"
  using pump_run_inv[OF assms(1,2), of src s passes]
  by (auto simp: x_def pump_inv_def monitor_inv_def flags_ok_def history_ok_def)

text \<open>
  \<open>PasswordFieldMonitor::resolve\<close>: an application is announced to exactly on its 25th
  unanswered probe and every thousandth after, counted since its last answer, whatever other
  applications answer in between; and never without a real process.
\<close>

theorem announcements_follow_the_unanswered_probes:
  assumes "\<not> k_password_field_active controls" "\<not> k_password_field_confirmed_active controls"
    and "tally pid (outputs (pump_pass src) (password_pump_new controls s) passes) = (unanswered, announced)"
  shows "announced = (if pid > 0 then announcements_due unanswered else 0)"
  using pump_run_inv[OF assms(1,2), of src s passes] assms(3)
  by (auto simp: pump_inv_def monitor_inv_def history_ok_def counts_ok_def split: if_splits)

section \<open>Sources that announce\<close>

text \<open>
  What the monitor relies on in a source: only an announcement adds a route, retracting leaves
  none, and some invariant of the source's own is kept.
\<close>

locale assistive_source =
  fixes src :: "'s secure_field_source"
    and routes :: "'s \<Rightarrow> int set"
    and inv :: "'s \<Rightarrow> bool"
  assumes probe_routes: "routes (snd (so_probe src app_pid s)) \<subseteq> routes s"
    and announce_routes: "routes (so_announce src pid s) \<subseteq> insert pid (routes s)"
    and retract_routes: "routes (so_retract_all src s) = {}"
    and probe_inv: "inv s \<Longrightarrow> inv (snd (so_probe src app_pid s))"
    and announce_inv: "inv s \<Longrightarrow> inv (so_announce src pid s)"
    and retract_inv: "inv s \<Longrightarrow> inv (so_retract_all src s)"
begin

definition restored :: "'s probe_context \<Rightarrow> bool" where
  "restored x \<longleftrightarrow> inv (px_source x) \<and> (\<not> pm_probe_was_live (px_monitor x) \<longrightarrow> routes (px_source x) = {})"

lemma resolve_restored:
  assumes "restored x" "pm_probe_was_live (px_monitor x)"
  shows "restored (fst (resolve src window app_pid now x)) \<and>
    pm_probe_was_live (px_monitor (fst (resolve src window app_pid now x)))"
proof -
  obtain answer s where ask: "so_probe src app_pid (px_source x) = (answer, s)" by fastforce
  have s: "inv s" using probe_inv[of "px_source x" app_pid] assms ask by (simp add: restored_def)
  show ?thesis
    using assms s announce_inv[OF s]
    by (cases answer) (auto simp: resolve_def ask resolve_answered_def resolve_cannot_answer_def
        resolve_api_disabled_def context_defs restored_def Let_def split: option.split prod.split)
qed

lemma liveness_restored:
  assumes "restored x"
  shows "restored (fst (on_probe_liveness src live now x)) \<and>
    pm_probe_was_live (px_monitor (fst (on_probe_liveness src live now x))) = live"
  using assms retract_inv[of "px_source x"] retract_routes
  by (auto simp: on_probe_liveness_def context_defs restored_def Let_def)

lemma close_confirmed_restored:
  "restored (fst (close_confirmed now x)) = restored x"
  "px_monitor (fst (close_confirmed now x)) = px_monitor x"
  by (simp_all add: close_confirmed_def swap_confirmed_def restored_def)

lemma note_focus_restored:
  assumes "restored x" "pm_probe_was_live (px_monitor x) = live"
  shows "restored (fst (note_focus src window app_pid live now x)) \<and>
    pm_probe_was_live (px_monitor (fst (note_focus src window app_pid live now x))) = live"
proof -
  define y where "y = set_gate True (x\<lparr>px_controls := fst (mark_password_focus_changed (px_controls x)),
    px_monitor := (px_monitor x)\<lparr>pm_last_window_id := window, pm_cache := None, pm_unresolved := True\<rparr>\<rparr>)"
  have "restored y" "pm_probe_was_live (px_monitor y) = live"
    using assms by (simp_all add: y_def restored_def context_defs)
  then show ?thesis
    using assms resolve_restored[of y window app_pid now] close_confirmed_restored
    by (auto simp: note_focus_def Let_def y_def[symmetric] split: prod.split)
      (auto simp: restored_def context_defs dest: arg_cong[of _ _ fst])
qed

lemma redact_key_restored:
  assumes "restored x" "pm_probe_was_live (px_monitor x)"
  shows "restored (fst (redact_key_at src window app_pid at x)) \<and>
    pm_probe_was_live (px_monitor (fst (redact_key_at src window app_pid at x)))"
  using assms resolve_restored[OF assms] by (auto simp: redact_key_at_def split: option.split)

lemma pump_key_restored:
  assumes "restored (pp_context p)" "pm_probe_was_live (px_monitor (pp_context p)) = live"
  shows "restored (pp_context (fst (pump_key src pass live p key))) \<and>
    pm_probe_was_live (px_monitor (pp_context (fst (pump_key src pass live p key)))) = live"
proof -
  obtain at emits_row where key: "key = (at, emits_row)" by fastforce
  obtain x did decision where r:
    "redact_key_at src (pa_window pass) (pa_pid pass) at (pp_context p) = (x, did, decision)"
    by (metis surj_pair)
  from redact_key_restored[of "pp_context p" "pa_window pass" "pa_pid pass" at] r assms
  show ?thesis by (auto simp: pump_key_def key Let_def)
qed

lemma pump_keys_restored:
  assumes "restored (pp_context p)" "pm_probe_was_live (px_monitor (pp_context p)) = live"
  shows "restored (pp_context (final (pump_key src pass live) p keys)) \<and>
    pm_probe_was_live (px_monitor (pp_context (final (pump_key src pass live) p keys))) = live"
  using assms by (induction keys arbitrary: p) (simp_all add: pump_key_restored)

lemma pump_pass_restored:
  assumes "restored (pp_context p)"
  shows "restored (pp_context (fst (pump_pass src p pass))) \<and>
    pm_probe_was_live (px_monitor (pp_context (fst (pump_pass src p pass)))) =
      snd (trust_refresh (pa_now pass) (pa_wanted pass) (pa_granted pass) (pp_trust p))"
proof -
  obtain trust live where t: "trust_refresh (pa_now pass) (pa_wanted pass) (pa_granted pass) (pp_trust p) = (trust, live)"
    by fastforce
  obtain x did where l: "on_probe_liveness src live (pa_now pass) (pp_context p) = (x, did)" by fastforce
  obtain y moved disabled where f:
    "note_focus src (pa_window pass) (pa_pid pass) live (pa_now pass) x = (y, moved, disabled)"
    by (metis surj_pair)
  from liveness_restored[OF assms, of live "pa_now pass"] l
  have "restored x" "pm_probe_was_live (px_monitor x) = live" by simp_all
  from note_focus_restored[OF this, of "pa_window pass" "pa_pid pass" "pa_now pass"] f
  have "restored y" "pm_probe_was_live (px_monitor y) = live" by simp_all
  then show ?thesis
    using pump_keys_restored[of "p\<lparr>pp_trust := u, pp_context := y\<rparr>" live pass "pa_keys pass" for u]
    by (simp add: pump_pass_def pump_focus_def t l f)
qed

lemma pump_run_restored:
  "restored (pp_context p) \<Longrightarrow> restored (pp_context (final (pump_pass src) p passes))"
  by (induction passes arbitrary: p) (simp_all add: pump_pass_restored)

end

text \<open>The reader: what was last written to a process, and the announcements not taken back.\<close>

definition last_write :: "int \<Rightarrow> (int \<times> bool) list \<Rightarrow> bool option" where
  "last_write pid writes = map_of (rev writes) pid"

definition element_died :: "(nat \<Rightarrow> int option \<Rightarrow> ax_answers) \<Rightarrow> nat \<Rightarrow> int \<Rightarrow> bool" where
  "element_died ax probes pid \<longleftrightarrow>
     (\<exists>n<probes. ax_focused (ax n (Some pid)) = ReadFailed InvalidUIElement)"

definition writes_ok :: "(nat \<Rightarrow> int option \<Rightarrow> ax_answers) \<Rightarrow> secure_field_reader \<Rightarrow> bool" where
  "writes_ok ax r \<longleftrightarrow>
     (\<forall>pid. last_write pid (sr_writes r) = Some True \<longrightarrow>
        pid \<in> set (sr_announced r) \<or> element_died ax (sr_probes r) pid)"

lemma last_write_snoc:
  "last_write pid (writes @ [(p, on)]) = (if p = pid then Some on else last_write pid writes)"
  by (simp add: last_write_def)

lemma last_write_retracted:
  "last_write pid (writes @ map (\<lambda>p. (p, False)) ps) = (if pid \<in> set ps then Some False else last_write pid writes)"
  by (auto simp: last_write_def rev_map map_add_def map_of_map_restrict restrict_map_def
      split: option.split) 

lemma element_died_Suc: "element_died ax n pid \<Longrightarrow> element_died ax (Suc n) pid"
  unfolding element_died_def using less_SucI by blast

lemma reader_probe_writes:
  assumes "writes_ok ax r"
  shows "writes_ok ax (snd (reader_probe ax app_pid r))"
  using assms
  by (auto simp: reader_probe_def writes_ok_def Let_def drop_announced_def element_died_Suc announced_element_def
      split: attribute_read.split option.split if_splits)
    (auto simp: element_died_def)

interpretation reader: assistive_source "reader_source ax" "\<lambda>r. set (sr_announced r)" "writes_ok ax" for ax
proof
  show "set (sr_announced (snd (so_probe (reader_source ax) app_pid s))) \<subseteq> set (sr_announced s)" for app_pid s
    by (auto simp: reader_source_def reader_probe_def Let_def drop_announced_def
        split: attribute_read.split option.split)
  show "writes_ok ax s \<Longrightarrow> writes_ok ax (snd (so_probe (reader_source ax) app_pid s))" for app_pid s
    by (simp add: reader_source_def reader_probe_writes)
qed (auto simp: reader_source_def reader_announce_def reader_retract_all_def writes_ok_def
    last_write_snoc last_write_retracted split: if_splits)

text \<open>
  C24 (\<open>SecureFieldReader::retract_all\<close>): once the keyboard stream is off, or its capture paused,
  no application stays announced to: the last thing written to each is that assistance is off,
  except where its element had died, and with it what was written.
\<close>

theorem announcements_are_taken_back:
  fixes controls :: capture_controls and passes :: "password_pass list"
    and ax :: "nat \<Rightarrow> int option \<Rightarrow> ax_answers"
  assumes "\<not> pa_wanted pass"
  defines "r \<equiv> px_source (pp_context (final (pump_pass (reader_source ax))
    (password_pump_new controls secure_field_reader_new) (passes @ [pass])))"
  shows "sr_announced r = [] \<and>
    (last_write pid (sr_writes r) \<noteq> Some True \<or> element_died ax (sr_probes r) pid)"
proof -
  let ?p = "final (pump_pass (reader_source ax)) (password_pump_new controls secure_field_reader_new) passes"
  have "reader.restored ax (pp_context (password_pump_new controls secure_field_reader_new))"
    by (simp add: reader.restored_def password_pump_new_def secure_field_reader_new_def writes_ok_def
        last_write_def)
  then have "reader.restored ax (pp_context ?p)" by (rule reader.pump_run_restored)
  from reader.pump_pass_restored[OF this, of pass] assms(1) show ?thesis
    by (auto simp: r_def reader.restored_def trust_refresh_def writes_ok_def)
qed

section \<open>Concrete runs\<close>

definition demo_pass :: "int option \<Rightarrow> (instant \<times> bool) list \<Rightarrow> password_pass" where
  "demo_pass pid keys =
     \<lparr>pa_now = 5, pa_wanted = True, pa_granted = True, pa_window = Some 1, pa_pid = pid, pa_keys = keys\<rparr>"

definition demo_source :: "secure_field_probe \<Rightarrow> nat secure_field_source" where
  "demo_source answer = \<lparr>so_probe = \<lambda>_ n. (answer, n), so_announce = \<lambda>_ n. n + 1, so_retract_all = \<lambda>n. n\<rparr>"

lemmas demo_password_defs = demo_pass_def demo_source_def pump_pass_def pump_focus_def pump_key_def trust_refresh_def
  password_pump_new_def password_monitor_new_def probe_trust_new_def on_probe_liveness_def note_focus_def
  redact_key_at_def cached_answer_def resolve_def resolve_answered_def resolve_cannot_answer_def context_defs
  controls_all_enabled_def controls_new_def settings_all_enabled_def unresolved_streak_warns_def
  UNRESOLVED_STREAK_FIRST_WARN_def UNRESOLVED_STREAK_WARN_EVERY_def NOT_SECURE_PROBE_CACHE_TTL_def Let_def

theorem unredacted_keys_have_a_fresh_answer_witness:
  "\<exists>t. standing [Did (FocusMoved (Some 1)), Did (Probed (Some 1) None 5 (Answered False))] =
      Some (Some 1, t, False) \<and> duration_since 9 t \<le> from_millis 250"
  by (rule unredacted_keys_have_a_fresh_answer[of controls_all_enabled "demo_source (Answered False)" 0
        "[demo_pass None [(9, True)]]" _ "Some 1" 9 "[]"])
    (simp_all add: demo_password_defs time_defs)

theorem password_spans_alternate_witness:
  "span_open (outputs (pump_pass (demo_source (Answered True))) (password_pump_new controls_all_enabled 0)
     [demo_pass None [(9, True)]]) = Some True"
proof -
  have "k_password_field_confirmed_active (px_controls (pp_context (final (pump_pass (demo_source (Answered True)))
      (password_pump_new controls_all_enabled 0) [demo_pass None [(9, True)]])))"
    by (simp add: demo_password_defs time_defs PROBE_CACHE_TTL_def)
  with password_spans_alternate[of controls_all_enabled "demo_source (Answered True)" 0 "[demo_pass None [(9, True)]]"]
  show ?thesis by (simp add: controls_all_enabled_def controls_new_def)
qed

theorem announcements_follow_the_unanswered_probes_witness:
  "tally 7 (outputs (pump_pass (demo_source CannotAnswer)) (password_pump_new controls_all_enabled 0)
     [demo_pass (Some 7) [(9, True), (12, True)]]) = (3, 0)"
proof -
  let ?h = "outputs (pump_pass (demo_source CannotAnswer)) (password_pump_new controls_all_enabled 0)
     [demo_pass (Some 7) [(9, True), (12, True)]]"
  have "fst (tally 7 ?h) = 3"
    by (simp add: demo_password_defs tally_def)
  with announcements_follow_the_unanswered_probes[of controls_all_enabled 7 "demo_source CannotAnswer" 0
      "[demo_pass (Some 7) [(9, True), (12, True)]]"]
  show ?thesis
    by (cases "tally 7 ?h") (simp add: controls_all_enabled_def controls_new_def announcements_due_def UNRESOLVED_STREAK_FIRST_WARN_def)
qed

theorem announcements_are_taken_back_witness:
  "\<forall>ax. sr_announced (px_source (pp_context (final (pump_pass (reader_source ax))
      (password_pump_new controls_all_enabled secure_field_reader_new)
      [demo_pass (Some 7) (replicate 30 (9, True)), (demo_pass (Some 7) [])\<lparr>pa_wanted := False\<rparr>]))) = []"
proof
  fix ax :: "nat \<Rightarrow> int option \<Rightarrow> ax_answers"
  have "\<not> pa_wanted ((demo_pass (Some 7) [])\<lparr>pa_wanted := False\<rparr>)" by (simp add: demo_pass_def)
  from announcements_are_taken_back[OF this, of ax controls_all_enabled "[demo_pass (Some 7) (replicate 30 (9, True))]"]
  show "sr_announced (px_source (pp_context (final (pump_pass (reader_source ax))
      (password_pump_new controls_all_enabled secure_field_reader_new)
      [demo_pass (Some 7) (replicate 30 (9, True)), (demo_pass (Some 7) [])\<lparr>pa_wanted := False\<rparr>]))) = []"
    by simp
qed

end
