(* ===== verification/Win_Input.thy ===== *)
theory Win_Input
  imports Clock Rust_Strings "HOL-Library.Word"
begin

unbundle bit_operations_syntax

text \<open>
  The input machines of the Windows capture (crates/gilbreth-capture-windows/src/lib.rs):
  \<open>IdleState\<close>, \<open>KeyboardState\<close> and \<open>MouseState\<close>, from the raw keyboard and mouse messages to
  the rows they make.

  The flag values are those of the Win32 raw input API.  Coordinates are \<open>i32\<close> and their
  differences \<open>i64\<close>, both integers here with the saturation written out.  The one use of
  floating point, the rounded hypotenuse of a movement, is the integer nearest the square
  root; the two agree while both components stay below \<open>2^23\<close>, far beyond any screen.
\<close>

section \<open>Idle time\<close>

record idle_state =
  id_threshold :: duration
  id_is_idle :: bool

definition idle_state_new :: "duration \<Rightarrow> idle_state" where
  "idle_state_new threshold = \<lparr>id_threshold = threshold, id_is_idle = False\<rparr>"

definition idle_event :: "nat \<Rightarrow> instant \<Rightarrow> captured" where
  "idle_event idle_ms captured_at = captured_new source.System captured_at (event_payload.Idle idle_ms)"

definition active_event :: "nat \<Rightarrow> instant \<Rightarrow> captured" where
  "active_event idle_ms captured_at = captured_new source.System captured_at (Active idle_ms)"

definition idle_on_sample_at :: "idle_state \<Rightarrow> nat \<Rightarrow> instant \<Rightarrow> idle_state \<times> captured option" where
  "idle_on_sample_at s idle_ms captured_at =
     (if \<not> id_is_idle s \<and> idle_ms \<ge> duration_ms (id_threshold s)
      then (s\<lparr>id_is_idle := True\<rparr>, Some (idle_event idle_ms captured_at))
      else if id_is_idle s \<and> idle_ms < duration_ms (id_threshold s)
      then (s\<lparr>id_is_idle := False\<rparr>, Some (active_event idle_ms captured_at))
      else (s, None))"

definition idle_on_activity_at :: "idle_state \<Rightarrow> nat \<Rightarrow> instant \<Rightarrow> idle_state \<times> captured option" where
  "idle_on_activity_at s idle_ms captured_at =
     (if \<not> id_is_idle s then (s, None)
      else (s\<lparr>id_is_idle := False\<rparr>, Some (active_event idle_ms captured_at)))"

section \<open>The keyboard\<close>

type_synonym vkey = "16 word"

definition RI_KEY_BREAK :: "16 word" where "RI_KEY_BREAK = 0x0001"

datatype modifier_key = Shift | Ctrl | Alt | Win

definition modifier_from_vkey :: "vkey \<Rightarrow> modifier_key option" where
  "modifier_from_vkey vkey =
     (if vkey \<in> {0x10, 0xa0, 0xa1} then Some Shift
      else if vkey \<in> {0x11, 0xa2, 0xa3} then Some Ctrl
      else if vkey \<in> {0x12, 0xa4, 0xa5} then Some Alt
      else if vkey \<in> {0x5b, 0x5c} then Some Win
      else None)"

definition vk_hex :: "vkey \<Rightarrow> string" where
  "vk_hex vkey = ''VK_0x'' @ (if vkey < 0x10 then ''0'' else []) @ show_hex (unat vkey)"

text \<open>The named keys; the digits, letters, number pad and function keys are ranges.\<close>

definition key_names :: "(vkey \<times> string) list" where
  "key_names =
     [(0x08, ''Backspace''), (0x09, ''Tab''), (0x0d, ''Enter''), (0x10, ''Shift''), (0xa0, ''Shift''),
      (0xa1, ''Shift''), (0x11, ''Ctrl''), (0xa2, ''Ctrl''), (0xa3, ''Ctrl''), (0x12, ''Alt''),
      (0xa4, ''Alt''), (0xa5, ''Alt''), (0x13, ''Pause''), (0x14, ''CapsLock''), (0x1b, ''Escape''),
      (0x20, ''Space''), (0x21, ''PageUp''), (0x22, ''PageDown''), (0x23, ''End''), (0x24, ''Home''),
      (0x25, ''ArrowLeft''), (0x26, ''ArrowUp''), (0x27, ''ArrowRight''), (0x28, ''ArrowDown''),
      (0x2d, ''Insert''), (0x2e, ''Delete''), (0x5b, ''Win''), (0x5c, ''Win''), (0x5d, ''Apps''),
      (0x6a, ''NumpadMultiply''), (0x6b, ''NumpadAdd''), (0x6c, ''NumpadSeparator''),
      (0x6d, ''NumpadSubtract''), (0x6e, ''NumpadDecimal''), (0x6f, ''NumpadDivide''),
      (0x90, ''NumLock''), (0x91, ''ScrollLock''), (0xba, '';''), (0xbb, ''=''), (0xbc, '',''),
      (0xbd, ''-''), (0xbe, ''.''), (0xbf, ''/''), (0xc0, ''`''), (0xdb, ''[''),
      (0xdc, [CHR 0x5c]), (0xdd, '']''), (0xde, [CHR 0x27])]"

definition key_to_string :: "vkey \<Rightarrow> string" where
  "key_to_string vkey =
     (if 0x30 \<le> vkey \<and> vkey \<le> 0x39 \<or> 0x41 \<le> vkey \<and> vkey \<le> 0x5a then [char_of (unat vkey)]
      else if 0x60 \<le> vkey \<and> vkey \<le> 0x69 then ''Numpad'' @ show_nat (unat (vkey - 0x60))
      else if 0x70 \<le> vkey \<and> vkey \<le> 0x87 then ''F'' @ show_nat (unat (vkey - 0x6f))
      else case map_of key_names vkey of Some name \<Rightarrow> name | None \<Rightarrow> vk_hex vkey)"

record raw_keyboard_event =
  rk_vkey :: vkey
  rk_flags :: "16 word"

definition is_key_down :: "raw_keyboard_event \<Rightarrow> bool" where
  "is_key_down raw \<longleftrightarrow> rk_flags raw AND RI_KEY_BREAK = 0"

definition key_may_change_focus :: "raw_keyboard_event \<Rightarrow> bool \<Rightarrow> bool" where
  "key_may_change_focus raw alt_was_down \<longleftrightarrow>
     is_key_down raw \<and>
     (alt_was_down \<or> rk_vkey raw \<in> {0x09, 0x0d, 0x12, 0x1b, 0x20, 0x75, 0xa4, 0xa5} \<or>
      0x21 \<le> rk_vkey raw \<and> rk_vkey raw \<le> 0x28)"

record keyboard_state =
  ks_mods :: modifiers
  ks_pressed_keys :: "vkey set"

definition keyboard_default :: keyboard_state where
  "keyboard_default = \<lparr>ks_mods = default_modifiers, ks_pressed_keys = {}\<rparr>"

fun set_modifier :: "modifier_key \<Rightarrow> bool \<Rightarrow> modifiers \<Rightarrow> modifiers" where
  "set_modifier Shift pressed m = m\<lparr>m_shift := pressed\<rparr>"
| "set_modifier Ctrl pressed m = m\<lparr>m_ctrl := pressed\<rparr>"
| "set_modifier Alt pressed m = m\<lparr>m_alt := pressed\<rparr>"
| "set_modifier Win pressed m = m\<lparr>m_win := pressed\<rparr>"

definition on_raw_key ::
    "keyboard_state \<Rightarrow> raw_keyboard_event \<Rightarrow> window_ref option \<Rightarrow> instant \<Rightarrow> bool
     \<Rightarrow> keyboard_state \<times> captured option" where
  "on_raw_key s raw window captured_at redact_key =
     (let is_release = (rk_flags raw AND RI_KEY_BREAK \<noteq> 0);
          s = (case modifier_from_vkey (rk_vkey raw) of
                 Some modifier \<Rightarrow> s\<lparr>ks_mods := set_modifier modifier (\<not> is_release) (ks_mods s)\<rparr>
               | None \<Rightarrow> s)
      in if is_release then (s\<lparr>ks_pressed_keys := ks_pressed_keys s - {rk_vkey raw}\<rparr>, None)
         else if rk_vkey raw \<in> ks_pressed_keys s then (s, None)
         else
           let s = s\<lparr>ks_pressed_keys := insert (rk_vkey raw) (ks_pressed_keys s)\<rparr>;
               window = (if redact_key then map_option (\<lambda>w. w\<lparr>w_title := ''<redacted>''\<rparr>) window else window)
           in (s, Some (captured_new source.Keyboard captured_at
                 (Key (if redact_key then ''<redacted>'' else key_to_string (rk_vkey raw))
                      (if redact_key then default_modifiers else ks_mods s) window None))))"

definition keyboard_reset_after_boundary :: "keyboard_state \<Rightarrow> keyboard_state" where
  "keyboard_reset_after_boundary s = s\<lparr>ks_pressed_keys := {}, ks_mods := default_modifiers\<rparr>"

definition resync_pressed_keys :: "(vkey \<Rightarrow> bool) \<Rightarrow> keyboard_state \<Rightarrow> keyboard_state" where
  "resync_pressed_keys key_down s =
     \<lparr>ks_mods = \<lparr>m_shift = list_ex key_down [0x10, 0xa0, 0xa1],
                m_ctrl = list_ex key_down [0x11, 0xa2, 0xa3],
                m_alt = list_ex key_down [0x12, 0xa4, 0xa5],
                m_win = list_ex key_down [0x5b, 0x5c]\<rparr>,
      ks_pressed_keys = {vkey \<in> ks_pressed_keys s. key_down vkey}\<rparr>"

section \<open>The mouse\<close>

definition i32_max :: int where "i32_max = 2147483647"
definition i32_min :: int where "i32_min = -2147483648"

definition sat_add_i32 :: "int \<Rightarrow> int \<Rightarrow> int" where
  "sat_add_i32 a b = max i32_min (min i32_max (a + b))"

definition MOUSE_MOVE_FLUSH_INTERVAL :: duration where "MOUSE_MOVE_FLUSH_INTERVAL = from_millis 250"
definition FALLBACK_DOUBLE_CLICK_MS :: nat where "FALLBACK_DOUBLE_CLICK_MS = 500"
definition FALLBACK_DOUBLE_CLICK_BOX_PX :: int where "FALLBACK_DOUBLE_CLICK_BOX_PX = 4"
definition FALLBACK_DRAG_BOX_PX :: int where "FALLBACK_DRAG_BOX_PX = 8"
definition REMOTE_RELAY_PINNED_CENTER_SAMPLES :: nat where "REMOTE_RELAY_PINNED_CENTER_SAMPLES = 2"

text \<open>Coordinates.  Halving a width rounds towards zero, as \<open>i32\<close> division does.\<close>

record mouse_position =
  mp_x :: int
  mp_y :: int

record virtual_screen =
  vs_x0 :: int
  vs_y0 :: int
  vs_width :: int
  vs_height :: int

definition half_towards_zero :: "int \<Rightarrow> int" where
  "half_towards_zero n = (if n < 0 then - ((- n) div 2) else n div 2)"

definition screen_x1 :: "virtual_screen \<Rightarrow> int" where "screen_x1 s = sat_add_i32 (vs_x0 s) (vs_width s)"
definition screen_y1 :: "virtual_screen \<Rightarrow> int" where "screen_y1 s = sat_add_i32 (vs_y0 s) (vs_height s)"

definition screen_center :: "virtual_screen \<Rightarrow> mouse_position" where
  "screen_center s =
     \<lparr>mp_x = sat_add_i32 (vs_x0 s) (half_towards_zero (vs_width s)),
      mp_y = sat_add_i32 (vs_y0 s) (half_towards_zero (vs_height s))\<rparr>"

definition is_virtual_screen_center :: "mouse_position \<Rightarrow> virtual_screen \<Rightarrow> bool" where
  "is_virtual_screen_center position screen \<longleftrightarrow> position = screen_center screen"

record mouse_box =
  mb_half_width :: int
  mb_half_height :: int

definition exceeded_by :: "mouse_box \<Rightarrow> int \<Rightarrow> int \<Rightarrow> int \<Rightarrow> int \<Rightarrow> bool" where
  "exceeded_by box start_x start_y end_x end_y \<longleftrightarrow>
     \<bar>end_x - start_x\<bar> > max (mb_half_width box) 1 \<or> \<bar>end_y - start_y\<bar> > max (mb_half_height box) 1"

definition box_contains :: "mouse_box \<Rightarrow> int \<Rightarrow> int \<Rightarrow> int \<Rightarrow> int \<Rightarrow> bool" where
  "box_contains box start_x start_y end_x end_y \<longleftrightarrow> \<not> exceeded_by box start_x start_y end_x end_y"

definition max_dimension :: "mouse_box \<Rightarrow> nat" where
  "max_dimension box = nat (max (max (mb_half_width box) (mb_half_height box)) 1)"

definition system_double_click_interval :: "nat \<Rightarrow> duration" where
  "system_double_click_interval reported =
     from_millis (min (if reported = 0 then FALLBACK_DOUBLE_CLICK_MS else reported) 5000)"

definition positive_system_metric :: "int \<Rightarrow> int \<Rightarrow> int" where
  "positive_system_metric reported fallback =
     max (if reported = 0 \<or> reported = i32_min then fallback
          else if reported < 0 then - reported else reported) 1"

definition system_box :: "int \<Rightarrow> int \<Rightarrow> int \<Rightarrow> mouse_box" where
  "system_box reported_width reported_height fallback =
     \<lparr>mb_half_width = max (positive_system_metric reported_width fallback div 2) 1,
      mb_half_height = max (positive_system_metric reported_height fallback div 2) 1\<rparr>"

text \<open>The integer square root and the rounded hypotenuse.\<close>

fun isqrt :: "nat \<Rightarrow> nat" where
  "isqrt n =
     (if n = 0 then 0
      else let r = 2 * isqrt (n div 4) in if (r + 1) * (r + 1) \<le> n then r + 1 else r)"

declare isqrt.simps [simp del]

record mouse_movement =
  mv_dx :: int
  mv_dy :: int

definition movement_distance_px :: "mouse_movement \<Rightarrow> nat" where
  "movement_distance_px m =
     (let n = nat (mv_dx m * mv_dx m + mv_dy m * mv_dy m); r = isqrt n in if n > r * r + r then r + 1 else r)"

record raw_mouse_event =
  rm_flags :: "16 word"
  rm_button_flags :: "16 word"
  rm_button_data :: "16 word"
  rm_last_x :: int
  rm_last_y :: int

definition MOUSE_MOVE_ABSOLUTE :: "16 word" where "MOUSE_MOVE_ABSOLUTE = 0x0001"
definition RI_MOUSE_WHEEL :: "16 word" where "RI_MOUSE_WHEEL = 0x0400"
definition RI_MOUSE_HWHEEL :: "16 word" where "RI_MOUSE_HWHEEL = 0x0800"

definition has_flag :: "16 word \<Rightarrow> 16 word \<Rightarrow> bool" where
  "has_flag flags flag \<longleftrightarrow> flags AND flag \<noteq> 0"

definition has_movement :: "raw_mouse_event \<Rightarrow> bool" where
  "has_movement raw \<longleftrightarrow> rm_last_x raw \<noteq> 0 \<or> rm_last_y raw \<noteq> 0"

definition is_absolute_movement :: "raw_mouse_event \<Rightarrow> bool" where
  "is_absolute_movement raw \<longleftrightarrow> has_flag (rm_flags raw) MOUSE_MOVE_ABSOLUTE"

definition down_buttons :: "raw_mouse_event \<Rightarrow> mouse_button list" where
  "down_buttons raw = map snd (filter (\<lambda>(flag, _). has_flag (rm_button_flags raw) flag)
     [(0x0001, mouse_button.Left), (0x0004, mouse_button.Right), (0x0010, Middle), (0x0040, X1), (0x0100, X2)])"

definition up_buttons :: "raw_mouse_event \<Rightarrow> mouse_button list" where
  "up_buttons raw = map snd (filter (\<lambda>(flag, _). has_flag (rm_button_flags raw) flag)
     [(0x0002, mouse_button.Left), (0x0008, mouse_button.Right), (0x0020, Middle), (0x0080, X1), (0x0200, X2)])"

definition wheel_delta :: "raw_mouse_event \<Rightarrow> int" where
  "wheel_delta raw = sint (rm_button_data raw)"

definition mouse_may_change_focus :: "raw_mouse_event \<Rightarrow> bool" where
  "mouse_may_change_focus raw \<longleftrightarrow> down_buttons raw \<noteq> []"

definition remote_relay_signature ::
    "raw_mouse_event \<Rightarrow> mouse_position option \<Rightarrow> mouse_position option \<Rightarrow> virtual_screen \<Rightarrow> bool" where
  "remote_relay_signature raw position previous_position screen =
     (if \<not> has_movement raw \<or> is_absolute_movement raw then False
      else case (position, previous_position) of
             (Some position, Some previous_position) \<Rightarrow>
               position = previous_position \<and> is_virtual_screen_center position screen
           | _ \<Rightarrow> False)"

section \<open>Buttons held and movement pending\<close>

record completed_mouse_click =
  cc_button :: mouse_button
  cc_started_at :: instant
  cc_x :: "int option"
  cc_y :: "int option"
  cc_hwnd :: "nat option"

text \<open>What a held button and a pending movement accumulate alike.\<close>

record movement_totals =
  mt_dx_total :: int
  mt_dy_total :: int
  mt_distance_px :: nat
  mt_raw_event_count :: nat

definition totals_zero :: movement_totals where
  "totals_zero = \<lparr>mt_dx_total = 0, mt_dy_total = 0, mt_distance_px = 0, mt_raw_event_count = 0\<rparr>"

definition add_totals :: "mouse_movement \<Rightarrow> movement_totals \<Rightarrow> movement_totals" where
  "add_totals m t =
     \<lparr>mt_dx_total = sat_add_i64 (mt_dx_total t) (mv_dx m),
      mt_dy_total = sat_add_i64 (mt_dy_total t) (mv_dy m),
      mt_distance_px = sat_add_u64 (mt_distance_px t) (movement_distance_px m),
      mt_raw_event_count = sat_add_u64 (mt_raw_event_count t) 1\<rparr>"

record active_mouse_button =
  am_button :: mouse_button
  am_started_at :: instant
  am_start_x :: "int option"
  am_start_y :: "int option"
  am_end_x :: "int option"
  am_end_y :: "int option"
  am_totals :: movement_totals
  am_window :: "window_ref option"
  am_input_origin :: "input_origin option"
  am_seed_completed_click :: bool

definition active_new ::
    "mouse_button \<Rightarrow> mouse_position option \<Rightarrow> window_ref option \<Rightarrow> instant \<Rightarrow> input_origin option \<Rightarrow> bool
     \<Rightarrow> active_mouse_button" where
  "active_new button position window captured_at input_origin seed_completed_click =
     \<lparr>am_button = button, am_started_at = captured_at,
      am_start_x = map_option mp_x position, am_start_y = map_option mp_y position,
      am_end_x = map_option mp_x position, am_end_y = map_option mp_y position,
      am_totals = totals_zero, am_window = window, am_input_origin = input_origin,
      am_seed_completed_click = seed_completed_click\<rparr>"

definition active_finish ::
    "window_ref option \<Rightarrow> mouse_position option \<Rightarrow> input_origin option \<Rightarrow> active_mouse_button
     \<Rightarrow> active_mouse_button" where
  "active_finish window position input_origin a =
     a\<lparr>am_end_x := (case position of Some p \<Rightarrow> Some (mp_x p) | None \<Rightarrow> am_end_x a),
       am_end_y := (case position of Some p \<Rightarrow> Some (mp_y p) | None \<Rightarrow> am_end_y a),
       am_window := (if window \<noteq> None then window else am_window a),
       am_input_origin := (if input_origin \<noteq> None then input_origin else am_input_origin a)\<rparr>"

definition active_add_movement ::
    "mouse_movement \<Rightarrow> window_ref option \<Rightarrow> mouse_position option \<Rightarrow> input_origin option
     \<Rightarrow> active_mouse_button \<Rightarrow> active_mouse_button" where
  "active_add_movement movement window position input_origin a =
     active_finish window position input_origin (a\<lparr>am_totals := add_totals movement (am_totals a)\<rparr>)"

definition is_drag :: "mouse_box \<Rightarrow> active_mouse_button \<Rightarrow> bool" where
  "is_drag drag_box a \<longleftrightarrow>
     (case (am_start_x a, am_start_y a, am_end_x a, am_end_y a) of
        (Some start_x, Some start_y, Some end_x, Some end_y) \<Rightarrow>
          exceeded_by drag_box start_x start_y end_x end_y \<or>
          mt_distance_px (am_totals a) \<ge> max_dimension drag_box
      | _ \<Rightarrow> mt_distance_px (am_totals a) \<ge> max_dimension drag_box)"

definition into_drag :: "instant \<Rightarrow> active_mouse_button \<Rightarrow> captured" where
  "into_drag ended_at a =
     captured_new source.Mouse ended_at
       (MouseDrag (am_button a) (mt_dx_total (am_totals a)) (mt_dy_total (am_totals a))
          (mt_distance_px (am_totals a)) (mt_raw_event_count (am_totals a))
          (duration_ms (duration_since ended_at (am_started_at a)))
          (am_start_x a) (am_start_y a) (am_end_x a) (am_end_y a) (am_window a)
          (am_button a = mouse_button.Left) (am_input_origin a))"

definition option_or :: "'a option \<Rightarrow> 'a option \<Rightarrow> 'a option" where
  "option_or a b = (if a = None then b else a)"

definition into_completed_click :: "active_mouse_button \<Rightarrow> completed_mouse_click" where
  "into_completed_click a =
     \<lparr>cc_button = am_button a, cc_started_at = am_started_at a,
      cc_x = option_or (am_start_x a) (am_end_x a), cc_y = option_or (am_start_y a) (am_end_y a),
      cc_hwnd = map_option w_hwnd (am_window a)\<rparr>"

record pending_mouse_move =
  pv_started_at :: instant
  pv_last_at :: instant
  pv_totals :: movement_totals
  pv_x :: "int option"
  pv_y :: "int option"
  pv_window :: "window_ref option"
  pv_input_origin :: "input_origin option"

definition pending_add ::
    "mouse_movement \<Rightarrow> window_ref option \<Rightarrow> mouse_position option \<Rightarrow> instant \<Rightarrow> input_origin option
     \<Rightarrow> pending_mouse_move \<Rightarrow> pending_mouse_move" where
  "pending_add movement window position captured_at input_origin p =
     p\<lparr>pv_last_at := captured_at,
       pv_totals := add_totals movement (pv_totals p),
       pv_x := (case position of Some q \<Rightarrow> Some (mp_x q) | None \<Rightarrow> pv_x p),
       pv_y := (case position of Some q \<Rightarrow> Some (mp_y q) | None \<Rightarrow> pv_y p),
       pv_window := (if window \<noteq> None then window else pv_window p),
       pv_input_origin := (if input_origin \<noteq> None then input_origin else pv_input_origin p)\<rparr>"

definition pending_new ::
    "mouse_movement \<Rightarrow> window_ref option \<Rightarrow> mouse_position option \<Rightarrow> instant \<Rightarrow> input_origin option
     \<Rightarrow> pending_mouse_move" where
  "pending_new movement window position captured_at input_origin =
     pending_add movement window position captured_at input_origin
       \<lparr>pv_started_at = captured_at, pv_last_at = captured_at, pv_totals = totals_zero, pv_x = None,
        pv_y = None, pv_window = None, pv_input_origin = None\<rparr>"

definition pending_into_captured :: "pending_mouse_move \<Rightarrow> captured" where
  "pending_into_captured p =
     captured_new source.Mouse (pv_last_at p)
       (MouseMove (mt_dx_total (pv_totals p)) (mt_dy_total (pv_totals p)) (mt_distance_px (pv_totals p))
          (mt_raw_event_count (pv_totals p)) (duration_ms (duration_since (pv_last_at p) (pv_started_at p)))
          (pv_x p) (pv_y p) (pv_window p) (pv_input_origin p))"

section \<open>The mouse machine\<close>

record mouse_state =
  ms_pending_move :: "pending_mouse_move option"
  ms_active_buttons :: "mouse_button \<Rightarrow> active_mouse_button option"
  ms_last_completed_click :: "completed_mouse_click option"
  ms_last_cursor_position :: "mouse_position option"
  ms_move_flush_interval :: duration
  ms_double_click_interval :: duration
  ms_double_click_box :: mouse_box
  ms_drag_box :: mouse_box
  ms_pinned_center_raw_delta_count :: nat
  ms_remote_relay_suspected :: bool

text \<open>The default state, given what Windows reports of its double-click and drag metrics.\<close>

definition mouse_default :: "nat \<Rightarrow> int \<times> int \<Rightarrow> int \<times> int \<Rightarrow> mouse_state" where
  "mouse_default double_click_ms double_click_metric drag_metric =
     \<lparr>ms_pending_move = None, ms_active_buttons = Map.empty, ms_last_completed_click = None,
      ms_last_cursor_position = None, ms_move_flush_interval = MOUSE_MOVE_FLUSH_INTERVAL,
      ms_double_click_interval = system_double_click_interval double_click_ms,
      ms_double_click_box = system_box (fst double_click_metric) (snd double_click_metric) FALLBACK_DOUBLE_CLICK_BOX_PX,
      ms_drag_box = system_box (fst drag_metric) (snd drag_metric) FALLBACK_DRAG_BOX_PX,
      ms_pinned_center_raw_delta_count = 0, ms_remote_relay_suspected = False\<rparr>"

definition mouse_flush_pending :: "mouse_state \<Rightarrow> mouse_state \<times> captured option" where
  "mouse_flush_pending s = (s\<lparr>ms_pending_move := None\<rparr>, map_option pending_into_captured (ms_pending_move s))"

definition mouse_flush_due :: "mouse_state \<Rightarrow> instant \<Rightarrow> mouse_state \<times> captured option" where
  "mouse_flush_due s now =
     (case ms_pending_move s of
        None \<Rightarrow> (s, None)
      | Some pending \<Rightarrow>
          if duration_since now (pv_started_at pending) < ms_move_flush_interval s then (s, None)
          else mouse_flush_pending s)"

definition mouse_reset_after_boundary :: "mouse_state \<Rightarrow> mouse_state" where
  "mouse_reset_after_boundary s = s\<lparr>ms_active_buttons := Map.empty, ms_last_completed_click := None\<rparr>"

definition resync_active_buttons :: "(mouse_button \<Rightarrow> bool) \<Rightarrow> mouse_state \<Rightarrow> mouse_state" where
  "resync_active_buttons button_down s =
     s\<lparr>ms_active_buttons := (\<lambda>button. if button_down button then ms_active_buttons s button else None)\<rparr>"

definition update_input_origin ::
    "raw_mouse_event \<Rightarrow> mouse_position option \<Rightarrow> virtual_screen \<Rightarrow> mouse_state \<Rightarrow> mouse_state \<times> input_origin option" where
  "update_input_origin raw position screen s =
     (let s =
        (if remote_relay_signature raw position (ms_last_cursor_position s) screen then
           (let samples = min (min 255 (ms_pinned_center_raw_delta_count s + 1)) REMOTE_RELAY_PINNED_CENTER_SAMPLES
            in s\<lparr>ms_pinned_center_raw_delta_count := samples,
                 ms_remote_relay_suspected :=
                   (samples \<ge> REMOTE_RELAY_PINNED_CENTER_SAMPLES \<or> ms_remote_relay_suspected s)\<rparr>)
         else if has_movement raw \<or>
           (case position of Some p \<Rightarrow> \<not> is_virtual_screen_center p screen | None \<Rightarrow> False) then
           s\<lparr>ms_pinned_center_raw_delta_count := 0, ms_remote_relay_suspected := False\<rparr>
         else s)
      in (s, if ms_remote_relay_suspected s then Some RemoteRelaySuspected else None))"

definition movement_delta :: "raw_mouse_event \<Rightarrow> mouse_position option \<Rightarrow> mouse_state \<Rightarrow> mouse_movement option" where
  "movement_delta raw position s =
     (if is_absolute_movement raw then
        (case position of
           None \<Rightarrow> None
         | Some p \<Rightarrow>
             (case ms_last_cursor_position s of
                None \<Rightarrow> Some \<lparr>mv_dx = 0, mv_dy = 0\<rparr>
              | Some previous \<Rightarrow> Some \<lparr>mv_dx = mp_x p - mp_x previous, mv_dy = mp_y p - mp_y previous\<rparr>))
      else Some \<lparr>mv_dx = rm_last_x raw, mv_dy = rm_last_y raw\<rparr>)"

definition record_movement ::
    "mouse_movement \<Rightarrow> window_ref option \<Rightarrow> mouse_position option \<Rightarrow> instant \<Rightarrow> input_origin option
     \<Rightarrow> mouse_state \<Rightarrow> mouse_state" where
  "record_movement movement window position captured_at input_origin s =
     s\<lparr>ms_pending_move := Some
         (case ms_pending_move s of
            Some pending \<Rightarrow> pending_add movement window position captured_at input_origin pending
          | None \<Rightarrow> pending_new movement window position captured_at input_origin)\<rparr>"

definition record_active_button_movement ::
    "mouse_movement \<Rightarrow> window_ref option \<Rightarrow> mouse_position option \<Rightarrow> input_origin option
     \<Rightarrow> mouse_state \<Rightarrow> mouse_state" where
  "record_active_button_movement movement window position input_origin s =
     s\<lparr>ms_active_buttons :=
         map_option (active_add_movement movement window position input_origin) \<circ> ms_active_buttons s\<rparr>"

definition double_click_interval_ms ::
    "mouse_button \<Rightarrow> mouse_position option \<Rightarrow> window_ref option \<Rightarrow> instant \<Rightarrow> mouse_state \<Rightarrow> nat option" where
  "double_click_interval_ms button position window captured_at s =
     (case ms_last_completed_click s of
        None \<Rightarrow> None
      | Some previous \<Rightarrow>
          if cc_button previous \<noteq> button then None
          else case checked_duration_since captured_at (cc_started_at previous) of
            None \<Rightarrow> None
          | Some elapsed \<Rightarrow>
              if elapsed > ms_double_click_interval s then None
              else case (cc_hwnd previous, window, position, cc_x previous, cc_y previous) of
                (Some previous_hwnd, Some w, Some p, Some previous_x, Some previous_y) \<Rightarrow>
                  if previous_hwnd = w_hwnd w \<and>
                     box_contains (ms_double_click_box s) previous_x previous_y (mp_x p) (mp_y p)
                  then Some (duration_ms elapsed) else None
              | _ \<Rightarrow> None)"

definition press_button ::
    "mouse_position option \<Rightarrow> window_ref option \<Rightarrow> instant \<Rightarrow> input_origin option
     \<Rightarrow> mouse_state \<Rightarrow> mouse_button \<Rightarrow> mouse_state \<times> captured list" where
  "press_button position window captured_at input_origin s button =
     (let interval = double_click_interval_ms button position window captured_at s;
          x = map_option mp_x position; y = map_option mp_y position;
          s = s\<lparr>ms_active_buttons := (ms_active_buttons s)(button \<mapsto>
                active_new button position window captured_at input_origin (interval = None))\<rparr>;
          click = captured_new source.Mouse captured_at (MouseClick button x y window input_origin)
      in case interval of
           None \<Rightarrow> (s, [click])
         | Some interval_ms \<Rightarrow>
             (s\<lparr>ms_last_completed_click := None\<rparr>,
              [click, captured_new source.Mouse captured_at
                        (MouseDoubleClick button interval_ms x y window input_origin)]))"

definition release_button ::
    "mouse_position option \<Rightarrow> window_ref option \<Rightarrow> instant \<Rightarrow> input_origin option
     \<Rightarrow> mouse_state \<Rightarrow> mouse_button \<Rightarrow> mouse_state \<times> captured list" where
  "release_button position window captured_at input_origin s button =
     (case ms_active_buttons s button of
        None \<Rightarrow> (s, [])
      | Some active \<Rightarrow>
          (let s = s\<lparr>ms_active_buttons := (ms_active_buttons s)(button := None)\<rparr>;
               active = active_finish window position input_origin active
           in if is_drag (ms_drag_box s) active
              then (s\<lparr>ms_last_completed_click := None\<rparr>, [into_drag captured_at active])
              else if am_seed_completed_click active
              then (s\<lparr>ms_last_completed_click := Some (into_completed_click active)\<rparr>, [])
              else (s\<lparr>ms_last_completed_click := None\<rparr>, [])))"

definition wheel_rows ::
    "raw_mouse_event \<Rightarrow> mouse_position option \<Rightarrow> window_ref option \<Rightarrow> instant \<Rightarrow> input_origin option
     \<Rightarrow> captured list" where
  "wheel_rows raw position window captured_at input_origin =
     (let row = (\<lambda>axis. captured_new source.Mouse captured_at
            (MouseWheel axis (wheel_delta raw) (map_option mp_x position) (map_option mp_y position)
               window input_origin))
      in (if has_flag (rm_button_flags raw) RI_MOUSE_WHEEL then [row Vertical] else []) @
         (if has_flag (rm_button_flags raw) RI_MOUSE_HWHEEL then [row Horizontal] else []))"

definition option_list :: "'a option \<Rightarrow> 'a list" where
  "option_list x = (case x of Some y \<Rightarrow> [y] | None \<Rightarrow> [])"

definition on_raw_mouse ::
    "virtual_screen \<Rightarrow> raw_mouse_event \<Rightarrow> window_ref option \<Rightarrow> mouse_position option \<Rightarrow> instant
     \<Rightarrow> mouse_state \<Rightarrow> mouse_state \<times> captured list" where
  "on_raw_mouse screen raw window position captured_at s =
     (let (s, input_origin) = update_input_origin raw position screen s;
          has_discrete_input =
            (down_buttons raw \<noteq> [] \<or> up_buttons raw \<noteq> [] \<or>
             has_flag (rm_button_flags raw) RI_MOUSE_WHEEL \<or> has_flag (rm_button_flags raw) RI_MOUSE_HWHEEL);
          movement = (if has_movement raw then movement_delta raw position s else None);
          s = (if position \<noteq> None then s\<lparr>ms_last_cursor_position := position\<rparr> else s);
          s = (case movement of
                 Some m \<Rightarrow>
                   record_active_button_movement m window position input_origin
                     (record_movement m window position captured_at input_origin s)
               | None \<Rightarrow> s);
          (s, moved) = (if has_discrete_input then mouse_flush_pending s else mouse_flush_due s captured_at);
          press = press_button position window captured_at input_origin;
          release = release_button position window captured_at input_origin;
          pressed = outputs press s (down_buttons raw);
          s = final press s (down_buttons raw);
          released = outputs release s (up_buttons raw);
          s = final release s (up_buttons raw)
      in (s, option_list moved @ pressed @ wheel_rows raw position window captured_at input_origin @ released))"

end
