(* ===== verification/Win_Input_Laws.thy ===== *)
theory Win_Input_Laws
  imports Win_Input
begin

text \<open>
  The laws of the Windows input machines over whole runs: no movement of the mouse is lost, a
  double click is made of two clicks, a relayed mouse is told by its pinned cursor, a key makes
  one row however long it is held, and a redacted key row says nothing about the key.
\<close>

section \<open>Runs\<close>

datatype mouse_op =
    RawMouse virtual_screen raw_mouse_event "window_ref option" "mouse_position option" instant
  | FlushDue instant
  | FlushPending
  | ResetButtons
  | ResyncButtons "mouse_button \<Rightarrow> bool"

primrec mouse_step :: "mouse_state \<Rightarrow> mouse_op \<Rightarrow> mouse_state \<times> captured list" where
  "mouse_step s (RawMouse screen raw window position at) = on_raw_mouse screen raw window position at s"
| "mouse_step s (FlushDue now) = map_prod id option_list (mouse_flush_due s now)"
| "mouse_step s FlushPending = map_prod id option_list (mouse_flush_pending s)"
| "mouse_step s ResetButtons = (mouse_reset_after_boundary s, [])"
| "mouse_step s (ResyncButtons down) = (resync_active_buttons down s, [])"

datatype keyboard_op =
    RawKey raw_keyboard_event "window_ref option" instant bool
  | ResetKeys
  | ResyncKeys "vkey \<Rightarrow> bool"

primrec keyboard_step :: "keyboard_state \<Rightarrow> keyboard_op \<Rightarrow> keyboard_state \<times> captured list" where
  "keyboard_step s (RawKey raw window at redact) = map_prod id option_list (on_raw_key s raw window at redact)"
| "keyboard_step s ResetKeys = (keyboard_reset_after_boundary s, [])"
| "keyboard_step s (ResyncKeys down) = (resync_pressed_keys down s, [])"

lemma option_list_simps [simp]:
  "option_list None = []" "option_list (Some x) = [x]"
  by (simp_all add: option_list_def)

section \<open>The keyboard\<close>

text \<open>Whether a key is held after a history, the latest operation first.\<close>

fun held :: "vkey \<Rightarrow> keyboard_op list \<Rightarrow> bool" where
  "held vkey [] = False"
| "held vkey (RawKey raw _ _ _ # older) =
     (if rk_vkey raw = vkey then is_key_down raw else held vkey older)"
| "held vkey (ResetKeys # older) = False"
| "held vkey (ResyncKeys down # older) = (down vkey \<and> held vkey older)"

lemma pressed_keys_held:
  "ks_pressed_keys (final keyboard_step keyboard_default ops) = {vkey. held vkey (rev ops)}"
proof (induction ops rule: rev_induct)
  case (snoc op ops)
  then show ?case
    by (cases op) (auto simp: on_raw_key_def is_key_down_def keyboard_reset_after_boundary_def
        resync_pressed_keys_def Let_def split: option.split)
qed (simp add: keyboard_default_def)

text \<open>
  \<open>KeyboardState::on_raw_key\<close>: a key makes a row exactly when it goes down and is not held
  already, whatever was pressed, released, reset or resynchronised before.
\<close>

theorem key_row_iff_fresh_press:
  "snd (keyboard_step (final keyboard_step keyboard_default ops) (RawKey raw window at redact)) \<noteq> [] \<longleftrightarrow>
     is_key_down raw \<and> \<not> held (rk_vkey raw) (rev ops)"
proof -
  have "rk_vkey raw \<in> ks_pressed_keys (final keyboard_step keyboard_default ops) \<longleftrightarrow> held (rk_vkey raw) (rev ops)"
    by (simp add: pressed_keys_held)
  then show ?thesis
    by (auto simp: on_raw_key_def is_key_down_def Let_def split: option.split)
qed

text \<open>
  \<open>KeyboardState::on_raw_key_with_capture_redaction\<close>: two redacted rows of one window at one
  time are the same row, whichever keys and modifiers made them and whatever the window's title.
\<close>

theorem redacted_keys_are_indistinguishable:
  assumes "on_raw_key s raw (Some w) at True = (t, Some row)"
    and "on_raw_key s' raw' (Some (w\<lparr>w_title := title\<rparr>)) at True = (t', Some row')"
  shows "row = row'"
  using assms by (auto simp: on_raw_key_def Let_def split: if_splits option.splits)

theorem redacted_keys_are_indistinguishable_witness:
  "\<exists>t t' row. on_raw_key keyboard_default \<lparr>rk_vkey = 0x41, rk_flags = 0\<rparr>
       (Some \<lparr>w_hwnd = 1, w_exe = ''a.exe'', w_title = ''one'', w_pid = 2\<rparr>) 5 True = (t, Some row) \<and>
     on_raw_key keyboard_default \<lparr>rk_vkey = 0x10, rk_flags = 0\<rparr>
       (Some \<lparr>w_hwnd = 1, w_exe = ''a.exe'', w_title = ''two'', w_pid = 2\<rparr>) 5 True = (t', Some row)"
proof -
  let ?w = "\<lparr>w_hwnd = 1, w_exe = ''a.exe'', w_title = ''one'', w_pid = 2\<rparr>"
  obtain t row where a: "on_raw_key keyboard_default \<lparr>rk_vkey = 0x41, rk_flags = 0\<rparr> (Some ?w) 5 True = (t, Some row)"
    by (simp add: on_raw_key_def keyboard_default_def modifier_from_vkey_def)
  obtain t' row' where b: "on_raw_key keyboard_default \<lparr>rk_vkey = 0x10, rk_flags = 0\<rparr>
      (Some (?w\<lparr>w_title := ''two''\<rparr>)) 5 True = (t', Some row')"
    by (simp add: on_raw_key_def keyboard_default_def modifier_from_vkey_def)
  from redacted_keys_are_indistinguishable[OF a b] a b show ?thesis by auto
qed

section \<open>Movement\<close>

text \<open>The movements a run was told of, and those its rows report.\<close>

fun moves_of :: "mouse_state \<Rightarrow> mouse_op list \<Rightarrow> mouse_movement list" where
  "moves_of s [] = []"
| "moves_of s (op # ops) =
     (case op of
        RawMouse screen raw window position at \<Rightarrow>
          if has_movement raw then option_list (movement_delta raw position s) else []
      | _ \<Rightarrow> []) @ moves_of (fst (mouse_step s op)) ops"

fun reported :: "captured list \<Rightarrow> movement_totals list" where
  "reported [] = []"
| "reported (r # rows) =
     (case c_payload r of
        MouseMove dx dy distance events _ _ _ _ _ \<Rightarrow>
          \<lparr>mt_dx_total = dx, mt_dy_total = dy, mt_distance_px = distance, mt_raw_event_count = events\<rparr> # reported rows
      | _ \<Rightarrow> reported rows)"

definition sums :: "movement_totals list \<Rightarrow> int \<times> int \<times> nat \<times> nat" where
  "sums ts = (sum_list (map mt_dx_total ts), sum_list (map mt_dy_total ts),
     sum_list (map mt_distance_px ts), sum_list (map mt_raw_event_count ts))"

definition of_move :: "mouse_movement \<Rightarrow> movement_totals" where
  "of_move m = \<lparr>mt_dx_total = mv_dx m, mt_dy_total = mv_dy m, mt_distance_px = movement_distance_px m,
     mt_raw_event_count = 1\<rparr>"

definition pending_totals :: "mouse_state \<Rightarrow> movement_totals" where
  "pending_totals s = (case ms_pending_move s of Some p \<Rightarrow> pv_totals p | None \<Rightarrow> totals_zero)"

text \<open>The movements fit the counters: their absolute sums stay in range.\<close>

definition fits :: "movement_totals list \<Rightarrow> bool" where
  "fits ts \<longleftrightarrow>
     sum_list (map (\<lambda>t. \<bar>mt_dx_total t\<bar>) ts) \<le> i64_max \<and> sum_list (map (\<lambda>t. \<bar>mt_dy_total t\<bar>) ts) \<le> i64_max \<and>
     sum_list (map mt_distance_px ts) \<le> u64_max \<and> sum_list (map mt_raw_event_count ts) \<le> u64_max"

lemma reported_append [simp]: "reported (xs @ ys) = reported xs @ reported ys"
  by (induction xs) (auto split: event_payload.split)

lemma press_button_reported [simp]: "reported (snd (press_button position window at origin s button)) = []"
  by (simp add: press_button_def captured_new_def Let_def split: option.split)

lemma release_button_reported [simp]: "reported (snd (release_button position window at origin s button)) = []"
  by (simp add: release_button_def into_drag_def captured_new_def Let_def split: option.split)

lemma outputs_reported:
  assumes "\<And>s x. reported (snd (step s x)) = []"
  shows "reported (outputs step s xs) = []"
  using assms by (induction xs arbitrary: s) auto

lemma wheel_reported [simp]: "reported (wheel_rows raw position window at origin) = []"
  by (simp add: wheel_rows_def captured_new_def Let_def)

lemma press_button_pending [simp]:
  "ms_pending_move (fst (press_button position window at origin s button)) = ms_pending_move s"
  by (simp add: press_button_def Let_def split: option.split)

lemma release_button_pending [simp]:
  "ms_pending_move (fst (release_button position window at origin s button)) = ms_pending_move s"
  by (simp add: release_button_def Let_def split: option.split)

lemma final_pending:
  assumes "\<And>s x. ms_pending_move (fst (step s x)) = ms_pending_move s"
  shows "ms_pending_move (final step s xs) = ms_pending_move s"
  using assms by (induction xs arbitrary: s) auto

lemma update_input_origin_frame [simp]:
  "ms_pending_move (fst (update_input_origin raw position screen s)) = ms_pending_move s"
  "ms_last_cursor_position (fst (update_input_origin raw position screen s)) = ms_last_cursor_position s"
  "ms_active_buttons (fst (update_input_origin raw position screen s)) = ms_active_buttons s"
  "ms_last_completed_click (fst (update_input_origin raw position screen s)) = ms_last_completed_click s"
  by (simp_all add: update_input_origin_def Let_def)

definition pending_after :: "mouse_movement option \<Rightarrow> window_ref option \<Rightarrow> mouse_position option \<Rightarrow> instant
    \<Rightarrow> input_origin option \<Rightarrow> pending_mouse_move option \<Rightarrow> pending_mouse_move option" where
  "pending_after movement window position at origin pending =
     (case movement of
        None \<Rightarrow> pending
      | Some m \<Rightarrow> Some (case pending of
            Some p \<Rightarrow> pending_add m window position at origin p
          | None \<Rightarrow> pending_new m window position at origin))"

lemma reported_pending [simp]: "reported [pending_into_captured p] = [pv_totals p]"
  by (cases "pv_totals p") (simp add: pending_into_captured_def captured_new_def)

lemma flush_cases:
  assumes "mouse_flush_pending s = (t, moved) \<or> mouse_flush_due s now = (t, moved)"
  shows "ms_pending_move t = ms_pending_move s \<and> moved = None \<or>
    (\<exists>p. ms_pending_move s = Some p \<and> ms_pending_move t = None \<and> moved = Some (pending_into_captured p))"
  using assms
  by (auto simp: mouse_flush_pending_def mouse_flush_due_def split: option.splits if_splits)

lemma record_movement_pending [simp]:
  "ms_pending_move (record_movement m window position at origin s) =
     pending_after (Some m) window position at origin (ms_pending_move s)"
  "ms_pending_move (record_active_button_movement m window position origin s) = ms_pending_move s"
  by (simp_all add: record_movement_def pending_after_def record_active_button_movement_def)

lemma on_raw_mouse_pending:
  fixes s screen raw window position at
  defines "pending \<equiv> pending_after (if has_movement raw then movement_delta raw position s else None) window position at
    (snd (update_input_origin raw position screen s)) (ms_pending_move s)"
  shows "ms_pending_move (fst (on_raw_mouse screen raw window position at s)) = pending \<and>
      reported (snd (on_raw_mouse screen raw window position at s)) = [] \<or>
    (\<exists>p. pending = Some p \<and> ms_pending_move (fst (on_raw_mouse screen raw window position at s)) = None \<and>
      reported (snd (on_raw_mouse screen raw window position at s)) = [pv_totals p])"
proof -
  obtain s1 origin where o: "update_input_origin raw position screen s = (s1, origin)" by fastforce
  have s1: "ms_pending_move s1 = ms_pending_move s" "ms_last_cursor_position s1 = ms_last_cursor_position s"
    using update_input_origin_frame(1,2)[of raw position screen s] o by simp_all
  define movement where "movement = (if has_movement raw then movement_delta raw position s1 else None)"
  have movement: "movement = (if has_movement raw then movement_delta raw position s else None)"
    by (cases position) (simp_all add: movement_def movement_delta_def s1)
  define s2 where "s2 = (if position \<noteq> None then s1\<lparr>ms_last_cursor_position := position\<rparr> else s1)"
  define s3 where "s3 = (case movement of
      Some m \<Rightarrow> record_active_button_movement m window position origin (record_movement m window position at origin s2)
    | None \<Rightarrow> s2)"
  have s3: "ms_pending_move s3 = pending"
    by (simp add: s3_def s2_def pending_def o s1 movement pending_after_def split: option.split)
  define discrete where "discrete = (down_buttons raw \<noteq> [] \<or> up_buttons raw \<noteq> [] \<or>
      has_flag (rm_button_flags raw) RI_MOUSE_WHEEL \<or> has_flag (rm_button_flags raw) RI_MOUSE_HWHEEL)"
  obtain s4 moved where f: "(if discrete then mouse_flush_pending s3 else mouse_flush_due s3 at) = (s4, moved)"
    by fastforce
  let ?press = "press_button position window at origin"
  let ?release = "release_button position window at origin"
  have r: "on_raw_mouse screen raw window position at s =
      (final ?release (final ?press s4 (down_buttons raw)) (up_buttons raw),
       option_list moved @ outputs ?press s4 (down_buttons raw) @ wheel_rows raw window_pos window at origin
         @ outputs ?release (final ?press s4 (down_buttons raw)) (up_buttons raw))"
    if "window_pos = position" for window_pos
    unfolding on_raw_mouse_def o that
    by (simp only: Let_def prod.case movement_def[symmetric] s2_def[symmetric] s3_def[symmetric]
        discrete_def[symmetric] f)
  have "reported (snd (on_raw_mouse screen raw window position at s)) = reported (option_list moved)"
    by (simp add: r[OF refl] outputs_reported)
  moreover have "ms_pending_move (fst (on_raw_mouse screen raw window position at s)) = ms_pending_move s4"
    by (simp add: r[OF refl] final_pending)
  ultimately show ?thesis
    using flush_cases[of s3 s4 moved at] f s3 by (auto split: if_splits simp del: reported.simps(2))
qed

definition totals_of :: "mouse_movement list \<Rightarrow> movement_totals" where
  "totals_of ms = foldl (\<lambda>t m. add_totals m t) totals_zero ms"

lemma totals_of_snoc [simp]: "totals_of (ms @ [m]) = add_totals m (totals_of ms)"
  by (simp add: totals_of_def)

lemma totals_of_Nil [simp]: "totals_of [] = totals_zero"
  by (simp add: totals_of_def)

definition chunked :: "mouse_state \<Rightarrow> captured list \<Rightarrow> mouse_movement list \<Rightarrow> bool" where
  "chunked s rows ms \<longleftrightarrow>
     (\<exists>chunks open_chunk. concat chunks @ open_chunk = ms \<and> [] \<notin> set chunks \<and>
        reported rows = map totals_of chunks \<and>
        (case ms_pending_move s of
           None \<Rightarrow> open_chunk = []
         | Some p \<Rightarrow> open_chunk \<noteq> [] \<and> pv_totals p = totals_of open_chunk))"

text \<open>A step that adds movement to what is pending and then keeps it or reports it.\<close>

lemma chunked_step:
  assumes "chunked s rows ms"
    and "pending = pending_after movement window position at origin (ms_pending_move s)"
    and "ms_pending_move t = pending \<and> reported new = [] \<or>
      (\<exists>p. pending = Some p \<and> ms_pending_move t = None \<and> reported new = [pv_totals p])"
  shows "chunked t (rows @ new) (ms @ option_list movement)"
proof -
  from assms(1) obtain chunks open_chunk where c: "concat chunks @ open_chunk = ms" "[] \<notin> set chunks"
    "reported rows = map totals_of chunks"
    and p: "case ms_pending_move s of None \<Rightarrow> open_chunk = []
      | Some p \<Rightarrow> open_chunk \<noteq> [] \<and> pv_totals p = totals_of open_chunk"
    unfolding chunked_def by blast
  let ?q = "open_chunk @ option_list movement"
  have q: "case pending of None \<Rightarrow> ?q = [] | Some p \<Rightarrow> ?q \<noteq> [] \<and> pv_totals p = totals_of ?q"
    using p by (auto simp: assms(2) pending_after_def pending_new_def pending_add_def split: option.splits)
  from assms(3) show ?thesis
  proof
    assume "ms_pending_move t = pending \<and> reported new = []"
    with c q show ?thesis unfolding chunked_def
      by (intro exI[of _ chunks] exI[of _ ?q]) auto
  next
    assume "\<exists>p. pending = Some p \<and> ms_pending_move t = None \<and> reported new = [pv_totals p]"
    with c q show ?thesis unfolding chunked_def
      by (intro exI[of _ "chunks @ [?q]"] exI[of _ "[]"]) auto
  qed
qed

lemma chunked_flush:
  assumes "chunked s rows ms" "mouse_flush_pending s = (t, moved) \<or> mouse_flush_due s now = (t, moved)"
  shows "chunked t (rows @ option_list moved) ms"
  using chunked_step[OF assms(1), of "ms_pending_move s" None undefined undefined undefined undefined t "option_list moved"]
    flush_cases[OF assms(2)]
  by (auto simp: pending_after_def simp del: reported.simps(2))

lemma chunked_mouse_step:
  assumes "chunked s rows ms"
  shows "chunked (fst (mouse_step s op)) (rows @ snd (mouse_step s op)) (ms @ moves_of s [op])"
proof (cases op)
  case (RawMouse screen raw window position at)
  have "moves_of s [op] = option_list (if has_movement raw then movement_delta raw position s else None)"
    by (simp add: RawMouse)
  with chunked_step[OF assms refl on_raw_mouse_pending] show ?thesis by (simp add: RawMouse)
next
  case (FlushDue now)
  obtain t moved where "mouse_flush_due s now = (t, moved)" by fastforce
  with chunked_flush[OF assms, of t moved now] show ?thesis by (simp add: FlushDue)
next
  case FlushPending
  obtain t moved where "mouse_flush_pending s = (t, moved)" by fastforce
  with chunked_flush[OF assms, of t moved] show ?thesis by (simp add: FlushPending)
next
  case ResetButtons
  with assms show ?thesis by (simp add: chunked_def mouse_reset_after_boundary_def)
next
  case (ResyncButtons down)
  with assms show ?thesis by (simp add: chunked_def resync_active_buttons_def)
qed

lemma chunked_run:
  assumes "chunked s rows ms"
  shows "chunked (final mouse_step s ops) (rows @ outputs mouse_step s ops) (ms @ moves_of s ops)"
  using assms
proof (induction ops arbitrary: s rows ms)
  case (Cons op ops)
  from Cons.IH[OF chunked_mouse_step[OF Cons.prems, of op]] show ?case by simp
qed simp


section \<open>Double clicks\<close>

definition clicks :: "captured list \<Rightarrow> nat" where
  "clicks rows = length (filter (\<lambda>r. case c_payload r of MouseClick _ _ _ _ _ \<Rightarrow> True | _ \<Rightarrow> False) rows)"

definition double_clicks :: "captured list \<Rightarrow> nat" where
  "double_clicks rows = length (filter (\<lambda>r. case c_payload r of MouseDoubleClick _ _ _ _ _ _ \<Rightarrow> True | _ \<Rightarrow> False) rows)"

lemma click_counts_append [simp]:
  "clicks (xs @ ys) = clicks xs + clicks ys" "double_clicks (xs @ ys) = double_clicks xs + double_clicks ys"
  "clicks [] = 0" "double_clicks [] = 0"
  by (simp_all add: clicks_def double_clicks_def)

text \<open>The clicks that may still become the first of a double click.\<close>

definition seeding :: "(mouse_button \<Rightarrow> active_mouse_button option) \<Rightarrow> mouse_button \<Rightarrow> nat" where
  "seeding active button = (case active button of Some a \<Rightarrow> if am_seed_completed_click a then 1 else 0 | None \<Rightarrow> 0)"

definition seeds :: "mouse_state \<Rightarrow> nat" where
  "seeds s = (if ms_last_completed_click s = None then 0 else 1) +
     sum_list (map (seeding (ms_active_buttons s)) [mouse_button.Left, mouse_button.Right, Middle, X1, X2])"

definition click_budget :: "mouse_state \<Rightarrow> captured list \<Rightarrow> bool" where
  "click_budget s rows \<longleftrightarrow> seeds s + 2 * double_clicks rows \<le> clicks rows"

lemma seeding_upd:
  "seeding (m(button := a)) b = (if b = button then seeding (\<lambda>_. a) b else seeding m b)"
  by (simp add: seeding_def)

lemma seeding_sum_upd:
  "sum_list (map (seeding (m(button := a))) [mouse_button.Left, mouse_button.Right, Middle, X1, X2]) + seeding m button =
   sum_list (map (seeding m) [mouse_button.Left, mouse_button.Right, Middle, X1, X2]) + seeding (\<lambda>_. a) button"
  by (cases button) (simp_all add: seeding_upd)

lemma press_button_budget:
  assumes "click_budget s rows"
  shows "click_budget (fst (press_button position window at origin s button))
    (rows @ snd (press_button position window at origin s button))"
proof -
  let ?m = "ms_active_buttons s"
  note sum = seeding_sum_upd[of ?m button]
  show ?thesis
  proof (cases "double_click_interval_ms button position window at s")
    case None
    with assms sum show ?thesis
      by (auto simp: press_button_def click_budget_def seeds_def captured_new_def clicks_def double_clicks_def
          Let_def seeding_def active_new_def)
  next
    case (Some interval)
    then have "ms_last_completed_click s \<noteq> None"
      by (cases "ms_last_completed_click s") (simp_all add: double_click_interval_ms_def)
    moreover have "seeding (\<lambda>_. Some (active_new button position window at origin False)) button = 0"
      by (simp add: seeding_def active_new_def)
    ultimately show ?thesis
      using Some assms seeding_sum_upd[of ?m button "Some (active_new button position window at origin False)"]
      by (auto simp: press_button_def click_budget_def seeds_def captured_new_def clicks_def double_clicks_def
          Let_def)
  qed
qed

lemma release_button_budget:
  assumes "click_budget s rows"
  shows "click_budget (fst (release_button position window at origin s button))
    (rows @ snd (release_button position window at origin s button))"
proof (cases "ms_active_buttons s button")
  case None
  with assms show ?thesis by (simp add: release_button_def)
next
  case (Some a)
  let ?m = "ms_active_buttons s"
  have "seeding ?m button = (if am_seed_completed_click a then 1 else 0)" "seeding (\<lambda>_. None) button = 0"
    by (simp_all add: seeding_def Some)
  with Some assms seeding_sum_upd[of ?m button None] show ?thesis
    by (auto simp: release_button_def click_budget_def seeds_def captured_new_def clicks_def double_clicks_def
        Let_def into_drag_def active_finish_def split: if_splits)
qed

lemma final_budget:
  assumes "\<And>s rows x. click_budget s rows \<Longrightarrow> click_budget (fst (step s x)) (rows @ snd (step s x))"
    and "click_budget s rows"
  shows "click_budget (final step s xs) (rows @ outputs step s xs)"
  using assms(2)
proof (induction xs arbitrary: s rows)
  case (Cons x xs)
  from Cons.IH[OF assms(1)[OF Cons.prems]] show ?case by simp
qed simp

lemma budget_frame:
  assumes "click_budget s rows" "ms_last_completed_click t = ms_last_completed_click s"
    "\<forall>b. seeding (ms_active_buttons t) b \<le> seeding (ms_active_buttons s) b"
    "clicks new = 0" "double_clicks new = 0"
  shows "click_budget t (rows @ new)"
proof -
  from assms(3) have "sum_list (map (seeding (ms_active_buttons t)) [mouse_button.Left, mouse_button.Right, Middle, X1, X2])
      \<le> sum_list (map (seeding (ms_active_buttons s)) [mouse_button.Left, mouse_button.Right, Middle, X1, X2])"
    by (intro sum_list_map_le) simp
  with assms show ?thesis by (simp add: click_budget_def seeds_def)
qed

lemma counts_of_other_rows [simp]:
  "clicks (option_list (map_option pending_into_captured p)) = 0"
  "double_clicks (option_list (map_option pending_into_captured p)) = 0"
  "clicks [pending_into_captured q] = 0" "double_clicks [pending_into_captured q] = 0"
  "clicks (wheel_rows raw position window at origin) = 0"
  "double_clicks (wheel_rows raw position window at origin) = 0"
  by (cases p; simp add: clicks_def double_clicks_def pending_into_captured_def captured_new_def wheel_rows_def Let_def)+

lemma click_flush_frame:
  assumes "mouse_flush_pending s = (t, moved) \<or> mouse_flush_due s now = (t, moved)"
  shows "ms_last_completed_click t = ms_last_completed_click s \<and> ms_active_buttons t = ms_active_buttons s \<and>
    clicks (option_list moved) = 0 \<and> double_clicks (option_list moved) = 0"
  using assms by (auto simp: mouse_flush_pending_def mouse_flush_due_def split: option.splits if_splits)

lemma seeding_after_movement [simp]:
  "seeding (map_option (active_add_movement m window position origin) \<circ> active) b = seeding active b"
  by (simp add: seeding_def active_add_movement_def active_finish_def split: option.split)

lemma on_raw_mouse_budget:
  assumes "click_budget s rows"
  shows "click_budget (fst (on_raw_mouse screen raw window position at s))
    (rows @ snd (on_raw_mouse screen raw window position at s))"
proof -
  obtain s1 origin where o: "update_input_origin raw position screen s = (s1, origin)" by fastforce
  have s1: "ms_active_buttons s1 = ms_active_buttons s" "ms_last_completed_click s1 = ms_last_completed_click s"
    using update_input_origin_frame(3,4)[of raw position screen s] o by simp_all
  define s3 where "s3 = (case (if has_movement raw then movement_delta raw position s1 else None) of
      Some m \<Rightarrow> record_active_button_movement m window position origin (record_movement m window position at origin
        (if position \<noteq> None then s1\<lparr>ms_last_cursor_position := position\<rparr> else s1))
    | None \<Rightarrow> (if position \<noteq> None then s1\<lparr>ms_last_cursor_position := position\<rparr> else s1))"
  have s3: "ms_last_completed_click s3 = ms_last_completed_click s"
    "\<forall>b. seeding (ms_active_buttons s3) b = seeding (ms_active_buttons s) b"
    by (auto simp: s3_def record_movement_def record_active_button_movement_def s1 split: option.split)
  define discrete where "discrete = (down_buttons raw \<noteq> [] \<or> up_buttons raw \<noteq> [] \<or>
      has_flag (rm_button_flags raw) RI_MOUSE_WHEEL \<or> has_flag (rm_button_flags raw) RI_MOUSE_HWHEEL)"
  obtain s4 moved where f: "(if discrete then mouse_flush_pending s3 else mouse_flush_due s3 at) = (s4, moved)"
    by fastforce
  let ?press = "press_button position window at origin"
  let ?release = "release_button position window at origin"
  have r: "on_raw_mouse screen raw window position at s =
      (final ?release (final ?press s4 (down_buttons raw)) (up_buttons raw),
       option_list moved @ outputs ?press s4 (down_buttons raw) @ wheel_rows raw position window at origin
         @ outputs ?release (final ?press s4 (down_buttons raw)) (up_buttons raw))"
    unfolding on_raw_mouse_def o
    by (simp only: Let_def prod.case s3_def[symmetric] discrete_def[symmetric] f)
  have "mouse_flush_pending s3 = (s4, moved) \<or> mouse_flush_due s3 at = (s4, moved)"
    using f by (auto split: if_splits)
  from click_flush_frame[OF this] s3 assms have "click_budget s4 (rows @ option_list moved)"
    by (intro budget_frame[OF assms]) auto
  from final_budget[OF press_button_budget this]
  have "click_budget (final ?press s4 (down_buttons raw))
      ((rows @ option_list moved) @ outputs ?press s4 (down_buttons raw))" .
  then have "click_budget (final ?press s4 (down_buttons raw))
      (((rows @ option_list moved) @ outputs ?press s4 (down_buttons raw)) @ wheel_rows raw position window at origin)"
    by (rule budget_frame) simp_all
  from final_budget[OF release_button_budget this] show ?thesis by (simp add: r)
qed

lemma mouse_step_budget:
  assumes "click_budget s rows"
  shows "click_budget (fst (mouse_step s op)) (rows @ snd (mouse_step s op))"
proof (cases op)
  case (FlushDue now)
  obtain t moved where f: "mouse_flush_due s now = (t, moved)" by fastforce
  with click_flush_frame[of s t moved now] have "click_budget t (rows @ option_list moved)"
    by (intro budget_frame[OF assms]) simp_all
  with FlushDue f show ?thesis by simp
next
  case FlushPending
  obtain t moved where f: "mouse_flush_pending s = (t, moved)" by fastforce
  with click_flush_frame[of s t moved] have "click_budget t (rows @ option_list moved)"
    by (intro budget_frame[OF assms]) simp_all
  with FlushPending f show ?thesis by simp
next
  case ResetButtons
  with assms show ?thesis
    by (simp add: click_budget_def seeds_def mouse_reset_after_boundary_def seeding_def)
next
  case (ResyncButtons down)
  have "click_budget (resync_active_buttons down s) (rows @ [])"
    by (rule budget_frame[OF assms]) (simp_all add: resync_active_buttons_def seeding_def)
  with ResyncButtons show ?thesis by simp
qed (simp add: on_raw_mouse_budget assms)

text \<open>
  \<open>MouseState::double_click_interval_ms\<close>: every double click of a run is made of two clicks
  of its own: no click is the second of one double click and the first of the next, whatever
  buttons interleave.
\<close>

theorem a_double_click_takes_two_clicks:
  "2 * double_clicks (outputs mouse_step (mouse_default ms click_box drag_box) ops)
     \<le> clicks (outputs mouse_step (mouse_default ms click_box drag_box) ops)"
proof -
  let ?s = "mouse_default ms click_box drag_box"
  have "click_budget ?s []" by (simp add: click_budget_def seeds_def mouse_default_def seeding_def)
  have "click_budget (final mouse_step ?s ops) ([] @ outputs mouse_step ?s ops)"
    by (rule final_budget[OF mouse_step_budget \<open>click_budget ?s []\<close>])
  then show ?thesis by (simp add: click_budget_def)
qed

section \<open>The relayed mouse\<close>

text \<open>
  How many relative movements in a row left the cursor pinned to the centre of the screen; a
  movement of another kind or a cursor elsewhere ends the row, an event without either keeps it.
\<close>

fun relay_streak :: "mouse_state \<Rightarrow> nat \<Rightarrow> mouse_op list \<Rightarrow> nat" where
  "relay_streak s n [] = n"
| "relay_streak s n (op # ops) =
     relay_streak (fst (mouse_step s op))
       (case op of
          RawMouse screen raw window position at \<Rightarrow>
            if remote_relay_signature raw position (ms_last_cursor_position s) screen then n + 1
            else if has_movement raw \<or>
              (case position of Some p \<Rightarrow> \<not> is_virtual_screen_center p screen | None \<Rightarrow> False) then 0
            else n
        | _ \<Rightarrow> n) ops"

definition relay_ok :: "mouse_state \<Rightarrow> nat \<Rightarrow> bool" where
  "relay_ok s n \<longleftrightarrow> ms_pinned_center_raw_delta_count s = min n 2 \<and> (ms_remote_relay_suspected s \<longleftrightarrow> 2 \<le> n)"

lemma press_release_relay [simp]:
  "relay_ok (fst (press_button position window at origin s button)) n = relay_ok s n"
  "relay_ok (fst (release_button position window at origin s button)) n = relay_ok s n"
  by (auto simp: press_button_def release_button_def relay_ok_def Let_def split: option.split)

lemma final_relay:
  assumes "\<And>s x. relay_ok (fst (step s x)) n = relay_ok s n"
  shows "relay_ok (final step s xs) n = relay_ok s n"
  using assms by (induction xs arbitrary: s) auto

lemma on_raw_mouse_relay:
  "relay_ok (fst (on_raw_mouse screen raw window position at s)) n =
     relay_ok (fst (update_input_origin raw position screen s)) n"
proof -
  obtain s1 origin where o: "update_input_origin raw position screen s = (s1, origin)" by fastforce
  define s3 where "s3 = (case (if has_movement raw then movement_delta raw position s1 else None) of
      Some m \<Rightarrow> record_active_button_movement m window position origin (record_movement m window position at origin
        (if position \<noteq> None then s1\<lparr>ms_last_cursor_position := position\<rparr> else s1))
    | None \<Rightarrow> (if position \<noteq> None then s1\<lparr>ms_last_cursor_position := position\<rparr> else s1))"
  have s3: "relay_ok s3 n = relay_ok s1 n"
    by (auto simp: s3_def record_movement_def record_active_button_movement_def relay_ok_def split: option.split)
  define discrete where "discrete = (down_buttons raw \<noteq> [] \<or> up_buttons raw \<noteq> [] \<or>
      has_flag (rm_button_flags raw) RI_MOUSE_WHEEL \<or> has_flag (rm_button_flags raw) RI_MOUSE_HWHEEL)"
  obtain s4 moved where f: "(if discrete then mouse_flush_pending s3 else mouse_flush_due s3 at) = (s4, moved)"
    by fastforce
  then have "relay_ok s4 n = relay_ok s3 n"
    by (auto simp: mouse_flush_pending_def mouse_flush_due_def relay_ok_def split: if_splits option.splits)
  moreover have "fst (on_raw_mouse screen raw window position at s) =
      final (release_button position window at origin)
        (final (press_button position window at origin) s4 (down_buttons raw)) (up_buttons raw)"
    unfolding on_raw_mouse_def o
    by (simp only: Let_def prod.case fst_conv s3_def[symmetric] discrete_def[symmetric] f)
  ultimately show ?thesis by (simp add: final_relay s3 o)
qed

lemma relay_run:
  "relay_ok s n \<Longrightarrow> relay_ok (final mouse_step s ops) (relay_streak s n ops)"
proof (induction ops arbitrary: s n)
  case (Cons op ops)
  show ?case
  proof (cases op)
    case (RawMouse screen raw window position at)
    have "relay_ok (fst (mouse_step s op))
        (if remote_relay_signature raw position (ms_last_cursor_position s) screen then n + 1
         else if has_movement raw \<or> (case position of Some p \<Rightarrow> \<not> is_virtual_screen_center p screen | None \<Rightarrow> False)
         then 0 else n)"
      using Cons.prems unfolding RawMouse mouse_step.simps on_raw_mouse_relay
      by (auto simp: relay_ok_def update_input_origin_def Let_def
          REMOTE_RELAY_PINNED_CENTER_SAMPLES_def min_def)
    from Cons.IH[OF this] show ?thesis by (simp add: RawMouse)
  next
    case (FlushDue now)
    have "relay_ok (fst (mouse_step s op)) n"
      using Cons.prems by (auto simp: FlushDue mouse_flush_due_def mouse_flush_pending_def relay_ok_def split: option.split)
    from Cons.IH[OF this] show ?thesis by (simp add: FlushDue)
  next
    case FlushPending
    have "relay_ok (fst (mouse_step s op)) n"
      using Cons.prems by (simp add: FlushPending mouse_flush_pending_def relay_ok_def)
    from Cons.IH[OF this] show ?thesis by (simp add: FlushPending)
  next
    case ResetButtons
    have "relay_ok (fst (mouse_step s op)) n"
      using Cons.prems by (simp add: ResetButtons mouse_reset_after_boundary_def relay_ok_def)
    from Cons.IH[OF this] show ?thesis by (simp add: ResetButtons)
  next
    case (ResyncButtons down)
    have "relay_ok (fst (mouse_step s op)) n"
      using Cons.prems by (simp add: ResyncButtons resync_active_buttons_def relay_ok_def)
    from Cons.IH[OF this] show ?thesis by (simp add: ResyncButtons)
  qed
qed simp

text \<open>
  \<open>MouseState::update_input_origin\<close>: the mouse is suspected of being relayed from another
  machine exactly while the last two or more relative movements left the cursor where it was,
  in the centre of the virtual screen.
\<close>

theorem relay_suspected_iff_pinned_twice:
  "ms_remote_relay_suspected (final mouse_step (mouse_default ms click_box drag_box) ops) \<longleftrightarrow>
     2 \<le> relay_streak (mouse_default ms click_box drag_box) 0 ops"
proof -
  have "relay_ok (mouse_default ms click_box drag_box) 0" by (simp add: relay_ok_def mouse_default_def)
  from relay_run[OF this, of ops] show ?thesis by (simp add: relay_ok_def)
qed

section \<open>Distances and idle time\<close>

lemma isqrt_bounds: "isqrt n * isqrt n \<le> n \<and> n < (isqrt n + 1) * (isqrt n + 1)"
proof (induction n rule: isqrt.induct)
  case (1 n)
  show ?case
  proof (cases "n = 0")
    case False
    let ?r = "isqrt (n div 4)"
    from 1[OF False] have r: "?r * ?r \<le> n div 4" "n div 4 < (?r + 1) * (?r + 1)" by simp_all
    have n: "n = 4 * (n div 4) + n mod 4" "n mod 4 < 4" by simp_all
    from r(1) n have low: "(2 * ?r) * (2 * ?r) \<le> n" by simp
    from r(2) have "n div 4 + 1 \<le> (?r + 1) * (?r + 1)" by simp
    with n have "n < 4 * ((?r + 1) * (?r + 1))" by linarith
    then have "n < (2 * ?r + 2) * (2 * ?r + 2)" by (simp add: algebra_simps)
    moreover have "isqrt n = (if (2 * ?r + 1) * (2 * ?r + 1) \<le> n then 2 * ?r + 1 else 2 * ?r)"
      by (subst isqrt.simps) (simp add: False Let_def)
    ultimately show ?thesis using low by (auto simp del: mult_Suc mult_Suc_right)
  qed (simp add: isqrt.simps)
qed

lemma isqrt_nearest:
  assumes "d = (if n > isqrt n * isqrt n + isqrt n then isqrt n + 1 else isqrt n)"
  shows "4 * int n < (2 * int d + 1) * (2 * int d + 1) \<and> (d = 0 \<or> (2 * int d - 1) * (2 * int d - 1) < 4 * int n)"
proof -
  let ?r = "isqrt n"
  have "?r * ?r \<le> n" "n < (?r + 1) * (?r + 1)" using isqrt_bounds[of n] by simp_all
  then have "int (?r * ?r) \<le> int n" "int n < int ((?r + 1) * (?r + 1))"
    by (simp_all only: of_nat_le_iff of_nat_less_iff)
  then have b: "int ?r * int ?r \<le> int n" "int n < (int ?r + 1) * (int ?r + 1)"
    by (simp_all add: algebra_simps)
  show ?thesis
  proof (cases "n > ?r * ?r + ?r")
    case True
    then have "int (?r * ?r + ?r) < int n" by (simp only: of_nat_less_iff)
    moreover from True have "d = ?r + 1" by (simp only: assms if_True)
    ultimately show ?thesis using b by (simp add: algebra_simps)
  next
    case False
    then have "int n \<le> int (?r * ?r + ?r)" by (simp only: of_nat_le_iff not_less)
    moreover from False have "d = ?r" by (simp only: assms if_False)
    ultimately show ?thesis using b by (cases "?r = 0") (auto simp: algebra_simps)
  qed
qed

text \<open>
  \<open>MouseMovement::distance_px\<close>: the distance of a movement is the whole number nearest to
  its length: four times the squared length lies strictly between the squares of the odd
  numbers around twice the distance.
\<close>

theorem distance_is_nearest:
  "(let d = int (movement_distance_px m); n = mv_dx m * mv_dx m + mv_dy m * mv_dy m
    in 4 * n < (2 * d + 1) * (2 * d + 1) \<and> (d = 0 \<or> (2 * d - 1) * (2 * d - 1) < 4 * n))"
proof -
  have "int (nat (mv_dx m * mv_dx m + mv_dy m * mv_dy m)) = mv_dx m * mv_dx m + mv_dy m * mv_dy m" by simp
  with isqrt_nearest[of "movement_distance_px m" "nat (mv_dx m * mv_dx m + mv_dy m * mv_dy m)"]
  show ?thesis unfolding movement_distance_px_def Let_def by auto
qed

text \<open>
  \<open>IdleState::on_sample_at\<close>: after a sample the user is idle exactly when the sample reached
  the threshold, and a row is made exactly when that is a change.
\<close>

theorem idle_follows_the_samples:
  "id_is_idle (fst (idle_on_sample_at s idle_ms at)) \<longleftrightarrow> duration_ms (id_threshold s) \<le> idle_ms"
  "snd (idle_on_sample_at s idle_ms at) \<noteq> None \<longleftrightarrow>
     id_is_idle (fst (idle_on_sample_at s idle_ms at)) \<noteq> id_is_idle s"
  by (auto simp: idle_on_sample_at_def)

end
