(* ===== verification/Win_State.thy ===== *)
theory Win_State
  imports Win_Input
begin

text \<open>
  The window, display, clipboard and power bookkeeping of the Windows capture
  (crates/gilbreth-capture-windows/src/lib.rs): \<open>WindowState\<close>, \<open>SystemState\<close>, the classification
  of a clipboard and of a power status, and the bounded memory of notifications.

  The hash map of open windows is an association list with one entry a window; the order in
  which its values come out at shutdown is that list's.
\<close>

section \<open>Open windows\<close>

record open_window =
  ow_window :: window_ref
  ow_opened_at :: instant
  ow_origin :: window_lifecycle_origin

type_synonym window_state = "(nat \<times> open_window) list"

definition seed_open_window_at :: "window_ref \<Rightarrow> instant \<Rightarrow> window_state \<Rightarrow> window_state" where
  "seed_open_window_at window at W =
     (if map_of W (w_hwnd window) \<noteq> None then W
      else (w_hwnd window, \<lparr>ow_window = window, ow_opened_at = at, ow_origin = Seeded\<rparr>) # W)"

definition reseed_with_events_at :: "window_ref list \<Rightarrow> instant \<Rightarrow> window_state \<times> captured list" where
  "reseed_with_events_at windows at =
     (fold (\<lambda>window. AList.update (w_hwnd window) \<lparr>ow_window = window, ow_opened_at = at, ow_origin = Seeded\<rparr>) windows [],
      map (\<lambda>window. captured_new source.Window at (WindowOpened window Seeded)) windows)"

definition on_opened_at :: "window_ref \<Rightarrow> instant \<Rightarrow> window_state \<Rightarrow> window_state \<times> captured option" where
  "on_opened_at window at W =
     (if map_of W (w_hwnd window) \<noteq> None then (W, None)
      else ((w_hwnd window, \<lparr>ow_window = window, ow_opened_at = at, ow_origin = Observed\<rparr>) # W,
            Some (captured_new source.Window at (WindowOpened window Observed))))"

definition window_closed :: "instant \<Rightarrow> open_window \<Rightarrow> window_lifecycle_origin \<Rightarrow> captured" where
  "window_closed at w origin =
     captured_new source.Window at
       (WindowClosed (ow_window w) (duration_ms (duration_since at (ow_opened_at w))) origin)"

definition on_closed_at :: "nat \<Rightarrow> instant \<Rightarrow> window_state \<Rightarrow> window_state \<times> captured option" where
  "on_closed_at hwnd at W =
     (AList.delete hwnd W, map_option (\<lambda>w. window_closed at w (ow_origin w)) (map_of W hwnd))"

definition close_all_at :: "instant \<Rightarrow> window_state \<Rightarrow> window_state \<times> captured list" where
  "close_all_at at W = ([], map (\<lambda>(_, w). window_closed at w Synthesized) W)"

section \<open>The display and the clipboard\<close>

record clipboard_metadata =
  cm_sequence_number :: nat
  cm_format_kind :: clipboard_format_kind
  cm_format_count :: nat
  cm_text_char_count :: "nat option"
  cm_byte_size :: "nat option"

record system_state =
  ss_last_virtual_screen :: "virtual_screen option"
  ss_last_clipboard_sequence :: "nat option"

definition system_default :: system_state where
  "system_default = \<lparr>ss_last_virtual_screen = None, ss_last_clipboard_sequence = None\<rparr>"

definition virtual_screen_event :: "virtual_screen \<Rightarrow> instant \<Rightarrow> captured" where
  "virtual_screen_event screen at =
     captured_new source.System at
       (VirtualScreen (vs_x0 screen) (vs_y0 screen) (screen_x1 screen) (screen_y1 screen)
          (vs_width screen) (vs_height screen))"

definition system_seed_with_at ::
    "event_payload \<Rightarrow> virtual_screen \<Rightarrow> instant \<Rightarrow> system_state \<Rightarrow> system_state \<times> captured list" where
  "system_seed_with_at system_info screen at s =
     (s\<lparr>ss_last_virtual_screen := Some screen\<rparr>,
      [captured_new source.System at system_info, virtual_screen_event screen at])"

definition on_virtual_screen_at :: "virtual_screen \<Rightarrow> instant \<Rightarrow> system_state \<Rightarrow> system_state \<times> captured option" where
  "on_virtual_screen_at screen at s =
     (if ss_last_virtual_screen s = Some screen then (s, None)
      else (s\<lparr>ss_last_virtual_screen := Some screen\<rparr>, Some (virtual_screen_event screen at)))"

definition clipboard_event :: "clipboard_metadata \<Rightarrow> instant \<Rightarrow> captured" where
  "clipboard_event m at =
     captured_new source.System at
       (ClipboardUsed (cm_sequence_number m) (cm_format_kind m) (cm_format_count m) (cm_text_char_count m)
          (cm_byte_size m))"

definition system_clipboard_update_at ::
    "clipboard_metadata \<Rightarrow> instant \<Rightarrow> system_state \<Rightarrow> system_state \<times> captured option" where
  "system_clipboard_update_at m at s =
     (if ss_last_clipboard_sequence s = Some (cm_sequence_number m) then (s, None)
      else (s\<lparr>ss_last_clipboard_sequence := Some (cm_sequence_number m)\<rparr>, Some (clipboard_event m at)))"

subsection \<open>What a clipboard holds\<close>

text \<open>The formats, and the global memory size Windows reports of each (zero for none).\<close>

definition CF_TEXT :: nat where "CF_TEXT = 1"
definition CF_BITMAP :: nat where "CF_BITMAP = 2"
definition CF_METAFILEPICT :: nat where "CF_METAFILEPICT = 3"
definition CF_SYLK :: nat where "CF_SYLK = 4"
definition CF_DIF :: nat where "CF_DIF = 5"
definition CF_TIFF :: nat where "CF_TIFF = 6"
definition CF_OEMTEXT :: nat where "CF_OEMTEXT = 7"
definition CF_DIB :: nat where "CF_DIB = 8"
definition CF_PENDATA :: nat where "CF_PENDATA = 10"
definition CF_RIFF :: nat where "CF_RIFF = 11"
definition CF_WAVE :: nat where "CF_WAVE = 12"
definition CF_UNICODETEXT :: nat where "CF_UNICODETEXT = 13"
definition CF_ENHMETAFILE :: nat where "CF_ENHMETAFILE = 14"
definition CF_HDROP :: nat where "CF_HDROP = 15"
definition CF_LOCALE :: nat where "CF_LOCALE = 16"
definition CF_DIBV5 :: nat where "CF_DIBV5 = 17"

lemmas clipboard_formats = CF_TEXT_def CF_BITMAP_def CF_METAFILEPICT_def CF_SYLK_def CF_DIF_def CF_TIFF_def
  CF_OEMTEXT_def CF_DIB_def CF_PENDATA_def CF_RIFF_def CF_WAVE_def CF_UNICODETEXT_def CF_ENHMETAFILE_def
  CF_HDROP_def CF_LOCALE_def CF_DIBV5_def

definition text_clipboard_format :: "nat list \<Rightarrow> nat option" where
  "text_clipboard_format formats = find (\<lambda>f. f \<in> set formats) [CF_UNICODETEXT, CF_TEXT, CF_OEMTEXT]"

definition classify_clipboard_formats :: "nat list \<Rightarrow> clipboard_format_kind" where
  "classify_clipboard_formats formats =
     (if formats = [] then Empty
      else if text_clipboard_format formats \<noteq> None then Text
      else if CF_HDROP \<in> set formats then Files
      else if list_ex (\<lambda>f. f \<in> {CF_BITMAP, CF_DIB, CF_DIBV5, CF_TIFF, CF_ENHMETAFILE, CF_METAFILEPICT}) formats
      then Image
      else if list_ex (\<lambda>f. f \<in> {CF_WAVE, CF_RIFF}) formats then Audio
      else Custom)"

definition primary_clipboard_format :: "clipboard_format_kind \<Rightarrow> nat list \<Rightarrow> nat option" where
  "primary_clipboard_format kind formats =
     (case kind of
        Text \<Rightarrow> text_clipboard_format formats
      | Files \<Rightarrow> if CF_HDROP \<in> set formats then Some CF_HDROP else None
      | Image \<Rightarrow> find (\<lambda>f. f \<in> set formats)
          [CF_DIBV5, CF_DIB, CF_TIFF, CF_ENHMETAFILE, CF_BITMAP, CF_METAFILEPICT]
      | Audio \<Rightarrow> find (\<lambda>f. f \<in> set formats) [CF_WAVE, CF_RIFF]
      | _ \<Rightarrow> None)"

definition clipboard_format_is_global_memory :: "nat \<Rightarrow> bool" where
  "clipboard_format_is_global_memory format \<longleftrightarrow>
     format \<in> {CF_TEXT, CF_SYLK, CF_DIF, CF_TIFF, CF_OEMTEXT, CF_DIB, CF_PENDATA, CF_RIFF, CF_WAVE,
       CF_UNICODETEXT, CF_HDROP, CF_LOCALE, CF_DIBV5}"

definition clipboard_global_size :: "(nat \<Rightarrow> nat) \<Rightarrow> nat \<Rightarrow> nat option" where
  "clipboard_global_size memory format =
     (if \<not> clipboard_format_is_global_memory format then None
      else if memory format > 0 then Some (memory format) else None)"

definition clipboard_text_char_count :: "(nat \<Rightarrow> nat) \<Rightarrow> nat \<Rightarrow> nat option" where
  "clipboard_text_char_count memory format =
     (case clipboard_global_size memory format of
        None \<Rightarrow> None
      | Some byte_size \<Rightarrow>
          if format = CF_UNICODETEXT then Some (byte_size div 2 - 1)
          else if format \<in> {CF_TEXT, CF_OEMTEXT} then Some (byte_size - 1)
          else None)"

definition clipboard_unavailable :: "nat \<Rightarrow> clipboard_metadata" where
  "clipboard_unavailable sequence_number =
     \<lparr>cm_sequence_number = sequence_number, cm_format_kind = Unavailable, cm_format_count = 0,
      cm_text_char_count = None, cm_byte_size = None\<rparr>"

definition clipboard_from_formats :: "(nat \<Rightarrow> nat) \<Rightarrow> nat \<Rightarrow> nat list \<Rightarrow> clipboard_metadata" where
  "clipboard_from_formats memory sequence_number formats =
     (let kind = classify_clipboard_formats formats
      in \<lparr>cm_sequence_number = sequence_number, cm_format_kind = kind,
          cm_format_count = min (length formats) u32_max,
          cm_text_char_count = Option.bind (text_clipboard_format formats) (clipboard_text_char_count memory),
          cm_byte_size = Option.bind (primary_clipboard_format kind formats) (clipboard_global_size memory)\<rparr>)"

text \<open>The enumeration asks for the format after the current one, and stops at zero or at 256.\<close>

function enumerate_from :: "(nat \<Rightarrow> nat) \<Rightarrow> nat \<Rightarrow> nat list \<Rightarrow> nat list" where
  "enumerate_from next_format current formats =
     (let f = next_format current
      in if f = 0 then formats
         else if length formats + 1 \<ge> 256 then formats @ [f]
         else enumerate_from next_format f (formats @ [f]))"
  by pat_completeness auto
termination
  by (relation "measure (\<lambda>(_, _, formats). 256 - length formats)") auto

declare enumerate_from.simps [simp del]

definition enumerate_clipboard_formats :: "(nat \<Rightarrow> nat) \<Rightarrow> nat list" where
  "enumerate_clipboard_formats next_format = enumerate_from next_format 0 []"

definition inspect_clipboard_metadata :: "nat \<Rightarrow> bool \<Rightarrow> (nat \<Rightarrow> nat) \<Rightarrow> (nat \<Rightarrow> nat) \<Rightarrow> clipboard_metadata" where
  "inspect_clipboard_metadata sequence_number opened next_format memory =
     (if \<not> opened then clipboard_unavailable sequence_number
      else clipboard_from_formats memory sequence_number (enumerate_clipboard_formats next_format))"

section \<open>Power status and the input desktop\<close>

record system_power_status =
  sp_ac_line_status :: nat
  sp_battery_life_percent :: nat
  sp_system_status_flag :: nat

definition power_status_fields :: "system_power_status \<Rightarrow> bool option \<times> nat option \<times> bool option" where
  "power_status_fields p =
     (if sp_ac_line_status p = 0 then Some False else if sp_ac_line_status p = 1 then Some True else None,
      if sp_battery_life_percent p \<le> 100 then Some (sp_battery_life_percent p) else None,
      Some (odd (sp_system_status_flag p)))"

datatype input_desktop_sensitivity = Normal | Protected

definition input_desktop_sensitivity_from_name :: "string option \<Rightarrow> input_desktop_sensitivity" where
  "input_desktop_sensitivity_from_name name =
     (case map_option trim name of
        Some n \<Rightarrow> if n \<noteq> [] \<and> to_ascii_lowercase n = ''default'' then Normal else Protected
      | None \<Rightarrow> Protected)"

section \<open>Notifications\<close>

definition NOTIFICATION_SEEN_IDS_MAX :: nat where "NOTIFICATION_SEEN_IDS_MAX = 512"
definition NOTIFICATION_APP_LABEL_MAX_CHARS :: nat where "NOTIFICATION_APP_LABEL_MAX_CHARS = 128"

record notification_seen =
  ns_ordered :: "nat list"
  ns_set :: "nat set"

definition notification_seen_default :: notification_seen where
  "notification_seen_default = \<lparr>ns_ordered = [], ns_set = {}\<rparr>"

fun forget_oldest :: "nat list \<Rightarrow> nat set \<Rightarrow> nat list \<times> nat set" where
  "forget_oldest [] seen = ([], seen)"
| "forget_oldest (old # ordered) seen =
     (if length (old # ordered) > NOTIFICATION_SEEN_IDS_MAX then forget_oldest ordered (seen - {old})
      else (old # ordered, seen))"

definition remember_notification :: "nat \<Rightarrow> notification_seen \<Rightarrow> notification_seen \<times> bool" where
  "remember_notification notification_id n =
     (if notification_id \<in> ns_set n then (n, False)
      else (case forget_oldest (ns_ordered n @ [notification_id]) (insert notification_id (ns_set n)) of
              (ordered, seen) \<Rightarrow> (\<lparr>ns_ordered = ordered, ns_set = seen\<rparr>, True)))"

definition note_polled_notification ::
    "bool \<Rightarrow> nat \<Rightarrow> string option \<Rightarrow> notification_seen \<times> (string option \<times> nat) list
     \<Rightarrow> notification_seen \<times> (string option \<times> nat) list" where
  "note_polled_notification seed_only notification_id app state =
     (case state of (seen, by_app) \<Rightarrow>
        (case remember_notification notification_id seen of
           (seen, fresh) \<Rightarrow>
             if \<not> fresh \<or> seed_only then (seen, by_app)
             else (seen, AList.update app ((case map_of by_app app of Some n \<Rightarrow> n | None \<Rightarrow> 0) + 1) by_app)))"

definition notification_app_label :: "string \<Rightarrow> string option" where
  "notification_app_label raw =
     (let trimmed = trim raw
      in if trimmed = [] \<or> length trimmed > NOTIFICATION_APP_LABEL_MAX_CHARS \<or> list_ex is_control trimmed
         then None else Some trimmed)"

end
