(* ===== verification/Win_State_Laws.thy ===== *)
theory Win_State_Laws
  imports Win_State
begin

text \<open>
  The bounded loops of the Windows bookkeeping against what they compute: the enumeration of the
  clipboard's formats, and the memory of the notifications already counted.
\<close>

section \<open>The clipboard\<close>

lemma enumerate_from_iterates:
  assumes "length formats < 256"
  shows "enumerate_from next_format current formats =
    formats @ takeWhile (\<lambda>f. f \<noteq> 0)
      (map (\<lambda>i. (next_format ^^ Suc i) current) [0..<256 - length formats])"
  using assms
proof (induction next_format current formats rule: enumerate_from.induct)
  case (1 next_format current formats)
  let ?f = "next_format current"
  obtain n where n: "256 - length formats = Suc n" using 1(2) by (cases "256 - length formats") auto
  have unroll: "map (\<lambda>i. (next_format ^^ Suc i) current) [0..<Suc n] =
      ?f # map (\<lambda>i. (next_format ^^ Suc i) ?f) [0..<n]"
    unfolding upt_conv_Cons[OF zero_less_Suc] map_Suc_upt[symmetric] by (simp add: funpow_swap1)
  show ?case
  proof (cases "?f = 0")
    case True
    then show ?thesis by (subst enumerate_from.simps) (simp add: n unroll del: upt_Suc funpow.simps)
  next
    case more: False
    show ?thesis
    proof (cases "length formats + 1 \<ge> 256")
      case True
      with n have "n = 0" by simp
      with more True show ?thesis by (subst enumerate_from.simps) (simp add: n)
    next
      case False
      have m: "255 - length formats = n" using n by simp
      from 1(1)[OF refl more False] False more m
      show ?thesis by (subst enumerate_from.simps) (simp add: n unroll Let_def del: upt_Suc funpow.simps)
    qed
  qed
qed

text \<open>
  \<open>enumerate_clipboard_formats\<close>: the formats are the answers of \<open>EnumClipboardFormats\<close> to
  zero, to its first answer, and so on, up to the first zero and at most 256 of them; so a
  clipboard that never stops answering is still read in a bounded number of calls.
\<close>

theorem clipboard_formats_are_the_answers:
  "enumerate_clipboard_formats next_format =
     takeWhile (\<lambda>f. f \<noteq> 0) (map (\<lambda>i. (next_format ^^ Suc i) 0) [0..<256])"
  using enumerate_from_iterates[of "[]" next_format 0] by (simp add: enumerate_clipboard_formats_def)

section \<open>Notifications\<close>

definition remember_step :: "notification_seen \<Rightarrow> nat \<Rightarrow> notification_seen \<times> nat list" where
  "remember_step n notification_id =
     (case remember_notification notification_id n of (n, fresh) \<Rightarrow> (n, if fresh then [notification_id] else []))"

definition last_of :: "nat \<Rightarrow> 'a list \<Rightarrow> 'a list" where
  "last_of n xs = drop (length xs - n) xs"

lemma forget_oldest_last:
  assumes "distinct ordered" "seen = set ordered"
  shows "forget_oldest ordered seen = (last_of NOTIFICATION_SEEN_IDS_MAX ordered, set (last_of NOTIFICATION_SEEN_IDS_MAX ordered))"
  using assms
proof (induction ordered seen rule: forget_oldest.induct)
  case (2 old ordered seen)
  then have "seen - {old} = set ordered" by auto
  moreover have "last_of NOTIFICATION_SEEN_IDS_MAX (old # ordered) = last_of NOTIFICATION_SEEN_IDS_MAX ordered"
    if "NOTIFICATION_SEEN_IDS_MAX < length (old # ordered)"
    using that by (simp add: last_of_def Suc_diff_le)
  ultimately show ?case using 2 by (auto simp: last_of_def)
qed (simp add: last_of_def)

lemma remember_run:
  assumes "final remember_step notification_seen_default ids = n"
    and "outputs remember_step notification_seen_default ids = fresh"
  shows "ns_ordered n = last_of NOTIFICATION_SEEN_IDS_MAX fresh \<and> ns_set n = set (ns_ordered n) \<and>
    distinct (ns_ordered n)"
  using assms
proof (induction ids arbitrary: n fresh rule: rev_induct)
  case Nil
  then show ?case by (auto simp: notification_seen_default_def last_of_def)
next
  case (snoc i ids)
  define n' fresh' where "n' = final remember_step notification_seen_default ids"
    and "fresh' = outputs remember_step notification_seen_default ids"
  have n: "n = fst (remember_step n' i)" "fresh = fresh' @ snd (remember_step n' i)"
    using snoc.prems by (auto simp: n'_def fresh'_def outputs_append)
  from snoc.IH[OF refl refl] have ih: "ns_ordered n' = last_of NOTIFICATION_SEEN_IDS_MAX fresh'"
    "ns_set n' = set (ns_ordered n')" "distinct (ns_ordered n')" unfolding n'_def fresh'_def by auto
  show ?case
  proof (cases "i \<in> ns_set n'")
    case True
    with n ih show ?thesis by (simp add: remember_step_def remember_notification_def)
  next
    case False
    with ih have d: "distinct (ns_ordered n' @ [i])" "insert i (ns_set n') = set (ns_ordered n' @ [i])" by auto
    have "Suc (length fresh' - 512) = length fresh' - 511" if "\<not> length fresh' \<le> 512"
      using that by arith
    then have last: "last_of NOTIFICATION_SEEN_IDS_MAX (last_of NOTIFICATION_SEEN_IDS_MAX fresh' @ [i]) =
        last_of NOTIFICATION_SEEN_IDS_MAX (fresh' @ [i])"
      by (cases "length fresh' \<le> 512") (auto simp: last_of_def NOTIFICATION_SEEN_IDS_MAX_def)
    have "distinct (last_of NOTIFICATION_SEEN_IDS_MAX (ns_ordered n' @ [i]))"
      using d(1) unfolding last_of_def by (rule distinct_drop)
    with False n forget_oldest_last[OF d] last ih show ?thesis
      by (auto simp: remember_step_def remember_notification_def)
  qed
qed

text \<open>
  \<open>NotificationSeenIds::remember\<close>: a notification is new exactly when its id is not among
  the last 512 ids that were new, whatever was polled before.
\<close>

theorem notifications_are_counted_once:
  "snd (remember_notification i (final remember_step notification_seen_default ids)) \<longleftrightarrow>
     i \<notin> set (last_of 512 (outputs remember_step notification_seen_default ids))"
proof -
  from remember_run[OF refl refl, of ids] show ?thesis
    by (auto simp: remember_notification_def NOTIFICATION_SEEN_IDS_MAX_def split: prod.splits)
qed

end
