(* ===== verification/Win_Capture.thy ===== *)
theory Win_Capture
  imports Win_State Foreground_State Capture_Controls Record_Worker
begin

text \<open>
  The capture pump of Windows, \<open>CaptureState\<close> (crates/gilbreth-capture-windows/src/lib.rs): every
  handler of a window message, from the raw input, focus, power, session, clipboard and timer
  messages to the rows that enter the writer's channel, and the queue of sensitive-context
  boundaries that must enter it first.

  What Windows answers while a message is handled is the message's environment; how the
  channel stands at each send is a function of the number of the send.  A handler is a
  composition of steps, each giving the new state and what it did: the rows that entered the
  channel or found it full, the contexts tracked locally, and the reconciliations put off and
  made.  A \<open>SensitiveTransitionPending\<close> is the count it holds in the shared word; dropping one
  gives the count back.  The mutex of the resume guard only keeps other threads out, and log
  lines are left out.
\<close>

section \<open>Steps\<close>

fun steps :: "('s \<Rightarrow> 's \<times> 'e list) list \<Rightarrow> 's \<Rightarrow> 's \<times> 'e list" where
  "steps [] s = (s, [])"
| "steps (f # fs) s =
     (case f s of (s, e) \<Rightarrow> (case steps fs s of (s, e') \<Rightarrow> (s, e @ e')))"

definition update :: "('s \<Rightarrow> 's) \<Rightarrow> 's \<Rightarrow> 's \<times> 'e list" where
  "update f s = (f s, [])"

definition doing :: "'e \<Rightarrow> 's \<Rightarrow> 's \<times> 'e list" where
  "doing e s = (s, [e])"

section \<open>State\<close>

definition MISSED_POWER_BOUNDARY_THRESHOLD_MS :: nat where "MISSED_POWER_BOUNDARY_THRESHOLD_MS = 30000"
definition MISSED_POWER_BOUNDARY_MAX_DWELL :: duration where
  "MISSED_POWER_BOUNDARY_MAX_DWELL = from_millis MISSED_POWER_BOUNDARY_THRESHOLD_MS"
definition POWER_RESUME_DEBOUNCE :: duration where "POWER_RESUME_DEBOUNCE = from_secs 2"
definition PASSWORD_FIELD_PROBE_TIMEOUT :: duration where "PASSWORD_FIELD_PROBE_TIMEOUT = from_millis 50"
definition PASSWORD_FIELD_PROBE_CACHE_TTL :: duration where "PASSWORD_FIELD_PROBE_CACHE_TTL = from_secs 2"

definition WTS_CONSOLE_CONNECT :: nat where "WTS_CONSOLE_CONNECT = 1"
definition WTS_CONSOLE_DISCONNECT :: nat where "WTS_CONSOLE_DISCONNECT = 2"
definition WTS_REMOTE_CONNECT :: nat where "WTS_REMOTE_CONNECT = 3"
definition WTS_REMOTE_DISCONNECT :: nat where "WTS_REMOTE_DISCONNECT = 4"
definition WTS_SESSION_LOCK :: nat where "WTS_SESSION_LOCK = 7"
definition WTS_SESSION_UNLOCK :: nat where "WTS_SESSION_UNLOCK = 8"

record password_focus_cache =
  fc_hwnd :: nat
  fc_is_password :: bool
  fc_focus_generation :: nat
  fc_resolved_at :: instant

record capture_state =
  st_controls :: capture_controls
  st_system_capture_enabled :: bool
  st_password_focus_cache :: "password_focus_cache option"
  st_foreground :: foreground_state
  st_windows :: window_state
  st_keyboard :: keyboard_state
  st_mouse :: mouse_state
  st_system :: system_state
  st_idle :: idle_state
  st_last_timer_tick_ms :: "nat option"
  st_power_suspended :: bool
  st_last_power_resume_at :: "instant option"
  st_last_power_status :: "(bool option \<times> bool option \<times> nat option) option"
  st_active_sensitive_reasons :: "sensitive_context_reason set"
  st_pending_sensitive_boundaries :: "captured list"
  st_last_reseed_generation :: "64 word"
  st_sends :: nat

text \<open>The answers of Windows and of the other threads during one message.\<close>

record win_env =
  we_power_status :: "system_power_status option"
  we_pid_exe :: "nat \<Rightarrow> string"
  we_idle_ms :: "nat option"
  we_screen :: virtual_screen
  we_probe :: "sensitive_field_probe_result option"
  we_double_click_ms :: nat
  we_double_click_metric :: "int \<times> int"
  we_drag_metric :: "int \<times> int"

datatype capture_effect =
    Enqueued captured
  | Refused captured
  | ContextOn sensitive_context_reason
  | ContextOff sensitive_context_reason
  | Deferred
  | Reconciled

type_synonym pump_step = "capture_state \<Rightarrow> capture_state \<times> capture_effect list"

abbreviation set_controls :: "(capture_controls \<Rightarrow> capture_controls) \<Rightarrow> capture_state \<Rightarrow> capture_state" where
  "set_controls f s \<equiv> s\<lparr>st_controls := f (st_controls s)\<rparr>"

definition fresh_mouse :: "win_env \<Rightarrow> mouse_state" where
  "fresh_mouse env = mouse_default (we_double_click_ms env) (we_double_click_metric env) (we_drag_metric env)"

definition capture_state_new :: "win_env \<Rightarrow> capture_controls \<Rightarrow> bool \<Rightarrow> nat \<Rightarrow> capture_state" where
  "capture_state_new env controls system_capture_enabled tick_ms =
     \<lparr>st_controls = controls, st_system_capture_enabled = system_capture_enabled,
      st_password_focus_cache = None, st_foreground = foreground_default, st_windows = [],
      st_keyboard = keyboard_default, st_mouse = fresh_mouse env, st_system = system_default,
      st_idle = idle_state_new (idle_threshold controls), st_last_timer_tick_ms = Some tick_ms,
      st_power_suspended = False, st_last_power_resume_at = None, st_last_power_status = None,
      st_active_sensitive_reasons = {}, st_pending_sensitive_boundaries = [],
      st_last_reseed_generation = k_reseed_generation controls, st_sends = 0\<rparr>"

section \<open>The boundary queue\<close>

text \<open>Dropping \<open>n\<close> transition tokens.\<close>

definition drop_tokens :: "nat \<Rightarrow> capture_state \<Rightarrow> capture_state" where
  "drop_tokens n = set_controls ((drop_sensitive_transition ^^ n))"

definition clear_pending :: "capture_state \<Rightarrow> capture_state" where
  "clear_pending s =
     (drop_tokens (length (st_pending_sensitive_boundaries s)) s)\<lparr>st_pending_sensitive_boundaries := []\<rparr>"

text \<open>The retry loop takes rows off the front while the channel accepts them.\<close>

fun flush_loop :: "(nat \<Rightarrow> channel_state) \<Rightarrow> captured list \<Rightarrow> pump_step" where
  "flush_loop channel [] s = (s\<lparr>st_pending_sensitive_boundaries := []\<rparr>, [])"
| "flush_loop channel (row # rows) s =
     (let answer = channel (st_sends s); s = s\<lparr>st_sends := st_sends s + 1\<rparr>
      in case answer of
           Accepting \<Rightarrow> (case flush_loop channel rows (drop_tokens 1 s) of (s, e) \<Rightarrow> (s, Enqueued row # e))
         | Full \<Rightarrow> (s\<lparr>st_pending_sensitive_boundaries := row # rows\<rparr>, [])
         | Disconnected \<Rightarrow>
             (drop_tokens (length (row # rows)) s\<lparr>st_pending_sensitive_boundaries := []\<rparr>, []))"

definition flush_pending_unchecked :: "(nat \<Rightarrow> channel_state) \<Rightarrow> pump_step" where
  "flush_pending_unchecked channel s = flush_loop channel (st_pending_sensitive_boundaries s) s"

definition flush_pending_boundaries :: "(nat \<Rightarrow> channel_state) \<Rightarrow> pump_step" where
  "flush_pending_boundaries channel s =
     (if sensitive_transition_should_defer (st_controls s) then
        if st_pending_sensitive_boundaries s = [] then (s, [])
        else (clear_pending (set_controls request_sensitive_context_reconcile s), [Deferred])
      else flush_pending_unchecked channel s)"

definition count_dropped :: "capture_state \<Rightarrow> capture_state" where
  "count_dropped =
     set_controls (\<lambda>k. k\<lparr>k_diagnostics := increment_capture_events_dropped (k_diagnostics k)\<rparr>)"

text \<open>\<open>send\<close>: an ordinary row.\<close>

definition send :: "(nat \<Rightarrow> channel_state) \<Rightarrow> captured \<Rightarrow> pump_step" where
  "send channel row s =
     (if \<not> enabled_for (st_controls s) row then (s, [])
      else
        let (s, e) = flush_pending_boundaries channel s;
            answer = channel (st_sends s); s = s\<lparr>st_sends := st_sends s + 1\<rparr>
        in case answer of
             Accepting \<Rightarrow> (s, e @ [Enqueued row])
           | Full \<Rightarrow> (count_dropped s, e @ [Refused row])
           | Disconnected \<Rightarrow> (s, e))"

definition send_list :: "(nat \<Rightarrow> channel_state) \<Rightarrow> captured list \<Rightarrow> pump_step" where
  "send_list channel rows = steps (map (send channel) rows)"

definition context_row :: "instant \<Rightarrow> bool \<Rightarrow> sensitive_context_reason \<Rightarrow> captured" where
  "context_row now entered reason =
     captured_new source.System now
       (if entered then SensitiveContextEntered reason else SensitiveContextExited reason)"

text \<open>The bounded send of a boundary that holds a token: queued with it when it times out.\<close>

definition queue_or_send_unchecked :: "(nat \<Rightarrow> channel_state) \<Rightarrow> captured \<Rightarrow> pump_step" where
  "queue_or_send_unchecked channel row s =
     (let (s, e) = flush_pending_unchecked channel s
      in if st_pending_sensitive_boundaries s \<noteq> [] then
           (s\<lparr>st_pending_sensitive_boundaries := st_pending_sensitive_boundaries s @ [row]\<rparr>, e)
         else
           let answer = channel (st_sends s); s = s\<lparr>st_sends := st_sends s + 1\<rparr>
           in case answer of
                Accepting \<Rightarrow> (drop_tokens 1 s, e @ [Enqueued row])
              | Full \<Rightarrow>
                  (s\<lparr>st_pending_sensitive_boundaries := st_pending_sensitive_boundaries s @ [row]\<rparr>, e)
              | Disconnected \<Rightarrow> (drop_tokens 1 s, e))"

definition queue_or_send_boundary :: "(nat \<Rightarrow> channel_state) \<Rightarrow> captured \<Rightarrow> pump_step" where
  "queue_or_send_boundary channel row s =
     (if sensitive_transition_should_defer (st_controls s)
      then (drop_tokens 1 (clear_pending (set_controls request_sensitive_context_reconcile s)), [Deferred])
      else queue_or_send_unchecked channel row s)"

definition enter_sensitive_context_at ::
    "(nat \<Rightarrow> channel_state) \<Rightarrow> instant \<Rightarrow> sensitive_context_reason \<Rightarrow> pump_step" where
  "enter_sensitive_context_at channel now reason s =
     (if reason \<in> st_active_sensitive_reasons s then (s, [])
      else steps
        [update (set_controls begin_sensitive_transition),
         update (\<lambda>s. s\<lparr>st_active_sensitive_reasons := insert reason (st_active_sensitive_reasons s)\<rparr>),
         doing (ContextOn reason),
         queue_or_send_boundary channel (context_row now True reason)] s)"

definition exit_sensitive_context_at ::
    "(nat \<Rightarrow> channel_state) \<Rightarrow> instant \<Rightarrow> sensitive_context_reason \<Rightarrow> pump_step" where
  "exit_sensitive_context_at channel now reason s =
     (if reason \<notin> st_active_sensitive_reasons s then (s, [])
      else steps
        [update (set_controls begin_sensitive_transition),
         update (\<lambda>s. s\<lparr>st_active_sensitive_reasons := st_active_sensitive_reasons s - {reason}\<rparr>),
         doing (ContextOff reason),
         queue_or_send_boundary channel (context_row now False reason)] s)"

text \<open>Blocking sends one after another, until the channel is gone.\<close>

fun send_blocking_rows ::
    "(nat \<Rightarrow> channel_state) \<Rightarrow> captured list \<Rightarrow> capture_state \<Rightarrow> capture_state \<times> capture_effect list \<times> bool" where
  "send_blocking_rows channel [] s = (s, [], True)"
| "send_blocking_rows channel (row # rows) s =
     (let answer = channel (st_sends s); s = s\<lparr>st_sends := st_sends s + 1\<rparr>
      in if answer = Disconnected then (s, [], False)
         else case send_blocking_rows channel rows s of (s, e, ok) \<Rightarrow> (s, Enqueued row # e, ok))"

definition RECONCILED_REASONS :: "sensitive_context_reason list" where
  "RECONCILED_REASONS = [SessionLocked, SessionDisconnected, SecureDesktop, PasswordField]"

definition reconcile_after_pause ::
    "(nat \<Rightarrow> channel_state) \<Rightarrow> instant \<Rightarrow> capture_state \<Rightarrow> capture_state \<times> capture_effect list \<times> bool" where
  "reconcile_after_pause channel now s =
     (let active = st_active_sensitive_reasons s \<union>
            (if k_password_field_confirmed_active (st_controls s) then {PasswordField} else {});
          (s, e, ok) = send_blocking_rows channel
            (map (context_row now False) RECONCILED_REASONS @
             map (context_row now True) (filter (\<lambda>r. r \<in> active) RECONCILED_REASONS)) (clear_pending s)
      in (s, e @ (if ok then [Reconciled] else []), ok))"

definition reconcile_for_resume ::
    "(nat \<Rightarrow> channel_state) \<Rightarrow> instant \<Rightarrow> capture_state
     \<Rightarrow> capture_state \<times> capture_effect list \<times> 64 word option" where
  "reconcile_for_resume channel now s =
     (if sensitive_transition_active (st_controls s) then (s, [], None)
      else
        let generation = sensitive_transition_generation (st_controls s);
            s = set_controls (\<lambda>k. fst (take_sensitive_context_reconcile k)) s;
            (s, e, ok) = reconcile_after_pause channel now s
        in (s, e,
            if \<not> ok \<or> sensitive_transition_active (st_controls s) \<or>
               sensitive_transition_generation (st_controls s) \<noteq> generation
            then None else Some generation))"

section \<open>The password field\<close>

text \<open>
  \<open>emit_confirmed_password_field_sample\<close>, which the pump calls on a key and the monitor's thread
  on a focus change.
\<close>

definition emit_confirmed_password_sample ::
    "(nat \<Rightarrow> channel_state) \<Rightarrow> bool \<Rightarrow> instant \<Rightarrow> pump_step" where
  "emit_confirmed_password_sample channel is_password now s =
     (let previous = k_password_field_confirmed_active (st_controls s);
          flags = (\<lambda>on k. k\<lparr>k_password_field_active := on, k_password_field_confirmed_active := on\<rparr>);
          s = set_controls (flags is_password \<circ> begin_sensitive_transition) s
      in if previous = is_password then (drop_tokens 1 s, [])
         else if sensitive_transition_should_defer (st_controls s) then
           (drop_tokens 1 (set_controls request_sensitive_context_reconcile s), [Deferred])
         else
           let answer = channel (st_sends s); s = s\<lparr>st_sends := st_sends s + 1\<rparr>
           in case answer of
                Accepting \<Rightarrow> (drop_tokens 1 s, [Enqueued (context_row now is_password PasswordField)])
              | Full \<Rightarrow> (drop_tokens 1 (set_controls (flags previous) (count_dropped s)),
                          [Refused (context_row now is_password PasswordField)])
              | Disconnected \<Rightarrow> (drop_tokens 1 (set_controls (flags previous) s), []))"

definition protect_unknown_password_focus :: "capture_state \<Rightarrow> capture_state" where
  "protect_unknown_password_focus s =
     (if enabled (st_controls s) capture_stream.Keyboard
      then (set_controls (\<lambda>k. set_password_field_gate k True) s)\<lparr>st_password_focus_cache := None\<rparr>
      else s)"

definition cached_password_focus :: "nat \<Rightarrow> instant \<Rightarrow> capture_state \<Rightarrow> bool option" where
  "cached_password_focus hwnd now s =
     (case st_password_focus_cache s of
        None \<Rightarrow> None
      | Some c \<Rightarrow>
          if fc_hwnd c = hwnd \<and> fc_focus_generation c = unat (k_password_focus_generation (st_controls s)) \<and>
             duration_since now (fc_resolved_at c) \<le> PASSWORD_FIELD_PROBE_CACHE_TTL
          then Some (fc_is_password c) else None)"

definition redact_keyboard_at ::
    "(nat \<Rightarrow> channel_state) \<Rightarrow> win_env \<Rightarrow> window_ref option \<Rightarrow> instant \<Rightarrow> capture_state
     \<Rightarrow> capture_state \<times> capture_effect list \<times> bool" where
  "redact_keyboard_at channel env window now s =
     (if k_password_field_confirmed_active (st_controls s) then (s, [], True)
      else
        case if k_password_field_active (st_controls s) then None
             else Option.bind window (\<lambda>w. cached_password_focus (w_hwnd w) now s) of
          Some cached \<Rightarrow> (s, [], cached)
        | None \<Rightarrow>
            (case probe_password_field_active (\<lambda>_ _. we_probe env) (st_controls s) PASSWORD_FIELD_PROBE_TIMEOUT of
               Some result \<Rightarrow>
                 (let s = (case window of
                        Some w \<Rightarrow> s\<lparr>st_password_focus_cache := Some
                            \<lparr>fc_hwnd = w_hwnd w, fc_is_password = pr_is_password result,
                             fc_focus_generation = pr_focus_generation result, fc_resolved_at = now\<rparr>\<rparr>
                      | None \<Rightarrow> s);
                      (s, e) = emit_confirmed_password_sample channel (pr_is_password result) now s
                  in (s, e, pr_is_password result))
             | None \<Rightarrow>
                 (set_controls (\<lambda>k. set_password_field_gate k True) (s\<lparr>st_password_focus_cache := None\<rparr>),
                  [], True)))"

section \<open>Parts that make rows\<close>

text \<open>A part of the state takes a step and its rows are sent.\<close>

definition run_part ::
    "(nat \<Rightarrow> channel_state) \<Rightarrow> (capture_state \<Rightarrow> 'p \<times> captured list) \<Rightarrow> ('p \<Rightarrow> capture_state \<Rightarrow> capture_state)
     \<Rightarrow> pump_step" where
  "run_part channel part put s = (case part s of (p, rows) \<Rightarrow> send_list channel rows (put p s))"

definition run_foreground ::
    "(nat \<Rightarrow> channel_state) \<Rightarrow> (foreground_state \<Rightarrow> foreground_state \<times> captured option) \<Rightarrow> pump_step" where
  "run_foreground channel f =
     run_part channel (\<lambda>s. map_prod id option_list (f (st_foreground s))) (\<lambda>p s. s\<lparr>st_foreground := p\<rparr>)"

definition run_mouse ::
    "(nat \<Rightarrow> channel_state) \<Rightarrow> (mouse_state \<Rightarrow> mouse_state \<times> captured list) \<Rightarrow> pump_step" where
  "run_mouse channel f = run_part channel (\<lambda>s. f (st_mouse s)) (\<lambda>p s. s\<lparr>st_mouse := p\<rparr>)"

definition run_windows ::
    "(nat \<Rightarrow> channel_state) \<Rightarrow> (window_state \<Rightarrow> window_state \<times> captured list) \<Rightarrow> pump_step" where
  "run_windows channel f = run_part channel (\<lambda>s. f (st_windows s)) (\<lambda>p s. s\<lparr>st_windows := p\<rparr>)"

definition run_system ::
    "(nat \<Rightarrow> channel_state) \<Rightarrow> (system_state \<Rightarrow> system_state \<times> captured list) \<Rightarrow> pump_step" where
  "run_system channel f = run_part channel (\<lambda>s. f (st_system s)) (\<lambda>p s. s\<lparr>st_system := p\<rparr>)"

definition run_idle ::
    "(nat \<Rightarrow> channel_state) \<Rightarrow> (idle_state \<Rightarrow> idle_state \<times> captured option) \<Rightarrow> pump_step" where
  "run_idle channel f =
     run_part channel (\<lambda>s. map_prod id option_list (f (st_idle s))) (\<lambda>p s. s\<lparr>st_idle := p\<rparr>)"

definition send_system :: "(nat \<Rightarrow> channel_state) \<Rightarrow> instant \<Rightarrow> event_payload \<Rightarrow> pump_step" where
  "send_system channel now payload = send channel (captured_new source.System now payload)"

definition flush_pending_mouse :: "(nat \<Rightarrow> channel_state) \<Rightarrow> pump_step" where
  "flush_pending_mouse channel = run_mouse channel (\<lambda>m. map_prod id option_list (mouse_flush_pending m))"

definition flush_due_mouse :: "(nat \<Rightarrow> channel_state) \<Rightarrow> instant \<Rightarrow> pump_step" where
  "flush_due_mouse channel now = run_mouse channel (\<lambda>m. map_prod id option_list (mouse_flush_due m now))"

definition reset_mouse :: pump_step where
  "reset_mouse = update (\<lambda>s. s\<lparr>st_mouse := mouse_reset_after_boundary (st_mouse s)\<rparr>)"

definition reset_keyboard :: pump_step where
  "reset_keyboard = update (\<lambda>s. s\<lparr>st_keyboard := keyboard_reset_after_boundary (st_keyboard s)\<rparr>)"

definition end_current_foreground :: "(nat \<Rightarrow> channel_state) \<Rightarrow> instant \<Rightarrow> pump_step" where
  "end_current_foreground channel now = run_foreground channel (\<lambda>F. end_current_at F now)"

definition end_current_foreground_capped :: "(nat \<Rightarrow> channel_state) \<Rightarrow> instant \<Rightarrow> pump_step" where
  "end_current_foreground_capped channel now =
     run_foreground channel (\<lambda>F. end_current_at_with_max_duration F now MISSED_POWER_BOUNDARY_MAX_DWELL)"

definition note_focused_app :: "win_env \<Rightarrow> window_ref \<Rightarrow> capture_state \<Rightarrow> capture_state" where
  "note_focused_app env window s =
     (if w_exe window \<noteq> [] then set_controls (\<lambda>k. note_foreground_exe k (w_exe window)) s
      else if we_pid_exe env (w_pid window) \<noteq> []
      then set_controls (\<lambda>k. note_foreground_exe k (we_pid_exe env (w_pid window))) s
      else s)"

definition seed_foreground_window ::
    "(nat \<Rightarrow> channel_state) \<Rightarrow> win_env \<Rightarrow> instant \<Rightarrow> window_ref option \<Rightarrow> pump_step" where
  "seed_foreground_window channel env now window =
     (case window of
        None \<Rightarrow> steps []
      | Some w \<Rightarrow> steps [update (note_focused_app env w), run_foreground channel (\<lambda>F. seed_window_at F w now)])"

definition on_foreground ::
    "(nat \<Rightarrow> channel_state) \<Rightarrow> win_env \<Rightarrow> instant \<Rightarrow> window_ref option \<Rightarrow> pump_step" where
  "on_foreground channel env now window =
     steps (update protect_unknown_password_focus #
       (case window of
          None \<Rightarrow> []
        | Some w \<Rightarrow> [update (note_focused_app env w), run_foreground channel (\<lambda>F. on_window_at F w now)]))"

text \<open>\<open>on_window_visible\<close> of a real top-level window, and \<open>on_window_destroyed\<close>.\<close>

definition on_window_visible :: "(nat \<Rightarrow> channel_state) \<Rightarrow> instant \<Rightarrow> window_ref option \<Rightarrow> pump_step" where
  "on_window_visible channel now window =
     (case window of
        None \<Rightarrow> steps []
      | Some w \<Rightarrow> run_windows channel (map_prod id option_list \<circ> on_opened_at w now))"

definition on_window_gone :: "(nat \<Rightarrow> channel_state) \<Rightarrow> instant \<Rightarrow> nat \<Rightarrow> pump_step" where
  "on_window_gone channel now hwnd =
     steps [update (\<lambda>s. s\<lparr>st_foreground := on_window_destroyed (st_foreground s) hwnd\<rparr>),
            run_windows channel (map_prod id option_list \<circ> on_closed_at hwnd now)]"

section \<open>Input\<close>

definition on_user_activity :: "(nat \<Rightarrow> channel_state) \<Rightarrow> win_env \<Rightarrow> instant \<Rightarrow> pump_step" where
  "on_user_activity channel env now =
     (case we_idle_ms env of
        None \<Rightarrow> steps []
      | Some idle_ms \<Rightarrow> run_idle channel (\<lambda>i. idle_on_activity_at i idle_ms now))"

definition send_key ::
    "(nat \<Rightarrow> channel_state) \<Rightarrow> raw_keyboard_event \<Rightarrow> window_ref option \<Rightarrow> instant \<Rightarrow> bool \<Rightarrow> pump_step" where
  "send_key channel raw window now redact_key =
     run_part channel
       (\<lambda>s. map_prod id option_list (on_raw_key (st_keyboard s) raw window now redact_key))
       (\<lambda>p s. s\<lparr>st_keyboard := p\<rparr>)"

definition on_raw_keyboard_at ::
    "(nat \<Rightarrow> channel_state) \<Rightarrow> win_env \<Rightarrow> raw_keyboard_event \<Rightarrow> window_ref option \<Rightarrow> instant \<Rightarrow> pump_step" where
  "on_raw_keyboard_at channel env raw window now s =
     (let (s, e1) = on_user_activity channel env now s;
          alt_was_down = m_alt (ks_mods (st_keyboard s));
          (s, e2, redact_key) =
            (if is_key_down raw then redact_keyboard_at channel env window now s else (s, [], False));
          (s, e3) = send_key channel raw window now redact_key s;
          s = (if key_may_change_focus raw alt_was_down then s\<lparr>st_password_focus_cache := None\<rparr> else s)
      in (s, e1 @ e2 @ e3))"

definition on_raw_mouse_at ::
    "(nat \<Rightarrow> channel_state) \<Rightarrow> win_env \<Rightarrow> raw_mouse_event \<Rightarrow> window_ref option \<Rightarrow> mouse_position option \<Rightarrow> instant
     \<Rightarrow> pump_step" where
  "on_raw_mouse_at channel env raw window position now =
     steps
       [on_user_activity channel env now,
        update (if mouse_may_change_focus raw then protect_unknown_password_focus else id),
        run_mouse channel (on_raw_mouse (we_screen env) raw window position now)]"

section \<open>Power\<close>

definition power_status_key :: "system_power_status \<Rightarrow> bool option \<times> bool option \<times> nat option" where
  "power_status_key p =
     (case power_status_fields p of
        (ac_online, battery_percent, battery_saver) \<Rightarrow>
          (ac_online, battery_saver, map_option (\<lambda>percent. percent div 10) battery_percent))"

definition on_power_status_change :: "(nat \<Rightarrow> channel_state) \<Rightarrow> win_env \<Rightarrow> instant \<Rightarrow> pump_step" where
  "on_power_status_change channel env now s =
     (case we_power_status env of
        None \<Rightarrow> (s, [])
      | Some status \<Rightarrow>
          if st_last_power_status s = Some (power_status_key status) then (s, [])
          else (case power_status_fields status of
            (ac_online, battery_percent, battery_saver) \<Rightarrow>
              send_system channel now (PowerStatusChanged ac_online battery_percent battery_saver)
                (s\<lparr>st_last_power_status := Some (power_status_key status)\<rparr>)))"

definition missed_power_boundary_gap_ms :: "nat option \<Rightarrow> capture_state \<Rightarrow> nat option" where
  "missed_power_boundary_gap_ms tick_ms s =
     (if st_power_suspended s then None
      else case (st_last_timer_tick_ms s, tick_ms) of
             (Some previous, Some current) \<Rightarrow>
               if current - previous > MISSED_POWER_BOUNDARY_THRESHOLD_MS then Some (current - previous) else None
           | _ \<Rightarrow> None)"

definition remember_tick :: "nat option \<Rightarrow> capture_state \<Rightarrow> capture_state" where
  "remember_tick tick_ms s = s\<lparr>st_last_timer_tick_ms := option_or tick_ms (st_last_timer_tick_ms s)\<rparr>"

definition on_missed_power_boundary ::
    "(nat \<Rightarrow> channel_state) \<Rightarrow> win_env \<Rightarrow> instant \<Rightarrow> window_ref option \<Rightarrow> nat \<Rightarrow> pump_step" where
  "on_missed_power_boundary channel env now foreground gap_ms =
     steps
       [flush_pending_mouse channel, reset_mouse, end_current_foreground_capped channel now, reset_keyboard,
        seed_foreground_window channel env now foreground, on_power_status_change channel env now,
        send_system channel now
          (PowerBoundaryRecovered gap_ms (duration_ms MISSED_POWER_BOUNDARY_MAX_DWELL)),
        update (\<lambda>s. s\<lparr>st_power_suspended := False, st_last_power_resume_at := Some now\<rparr>),
        update (set_controls (\<lambda>k. k\<lparr>k_diagnostics := increment_power_boundary_catches (k_diagnostics k)\<rparr>))]"

definition on_power_suspend ::
    "(nat \<Rightarrow> channel_state) \<Rightarrow> instant \<Rightarrow> nat option \<Rightarrow> pump_step" where
  "on_power_suspend channel now tick_ms =
     steps
       [flush_pending_mouse channel, reset_mouse, end_current_foreground channel now,
        send_system channel now (PowerSuspend tick_ms), reset_keyboard,
        update (\<lambda>s. remember_tick tick_ms (s\<lparr>st_power_suspended := True, st_last_power_resume_at := None\<rparr>))]"

definition is_duplicate_power_resume :: "instant \<Rightarrow> capture_state \<Rightarrow> bool" where
  "is_duplicate_power_resume now s \<longleftrightarrow>
     \<not> st_power_suspended s \<and>
     (case st_last_power_resume_at s of
        None \<Rightarrow> False
      | Some previous \<Rightarrow> duration_since now previous \<le> POWER_RESUME_DEBOUNCE)"

text \<open>A resume that is no duplicate: recovered from a gap, matched by a suspend, or neither.\<close>

definition resume_boundary ::
    "(nat \<Rightarrow> channel_state) \<Rightarrow> win_env \<Rightarrow> instant \<Rightarrow> nat option \<Rightarrow> window_ref option \<Rightarrow> bool \<Rightarrow> pump_step" where
  "resume_boundary channel env now tick_ms foreground matched_suspend s =
     (case if matched_suspend then None else missed_power_boundary_gap_ms tick_ms s of
        Some gap_ms \<Rightarrow> on_missed_power_boundary channel env now foreground gap_ms s
      | None \<Rightarrow>
          steps
            [if matched_suspend then steps [] else end_current_foreground_capped channel now,
             reset_mouse, reset_keyboard, seed_foreground_window channel env now foreground] s)"

definition on_power_resume_at ::
    "(nat \<Rightarrow> channel_state) \<Rightarrow> win_env \<Rightarrow> instant \<Rightarrow> nat option \<Rightarrow> window_ref option \<Rightarrow> capture_state
     \<Rightarrow> capture_state \<times> capture_effect list \<times> bool" where
  "on_power_resume_at channel env now tick_ms foreground s =
     (if is_duplicate_power_resume now s
      then (remember_tick tick_ms (s\<lparr>st_last_power_resume_at := Some now\<rparr>), [], False)
      else
        let matched_suspend = st_power_suspended s;
            (s, e) = steps
              [flush_pending_mouse channel,
               resume_boundary channel env now tick_ms foreground matched_suspend,
               send_system channel now (PowerResume tick_ms matched_suspend),
               update (\<lambda>s. remember_tick tick_ms
                 (s\<lparr>st_power_suspended := False, st_last_power_resume_at := Some now\<rparr>))] s
        in (s, e, True))"

definition on_power_resume ::
    "(nat \<Rightarrow> channel_state) \<Rightarrow> win_env \<Rightarrow> instant \<Rightarrow> nat option \<Rightarrow> window_ref option \<Rightarrow> pump_step" where
  "on_power_resume channel env now tick_ms foreground s =
     (let (s, e, resumed) = on_power_resume_at channel env now tick_ms foreground s
      in if resumed then (case on_power_status_change channel env now s of (s, e') \<Rightarrow> (s, e @ e')) else (s, e))"

section \<open>The input desktop and the timer\<close>

definition on_input_desktop_sample ::
    "(nat \<Rightarrow> channel_state) \<Rightarrow> input_desktop_sensitivity \<Rightarrow> instant \<Rightarrow> pump_step" where
  "on_input_desktop_sample channel desktop now =
     (case desktop of
        Normal \<Rightarrow> exit_sensitive_context_at channel now SecureDesktop
      | Protected \<Rightarrow> enter_sensitive_context_at channel now SecureDesktop)"

definition on_desktop_switch ::
    "(nat \<Rightarrow> channel_state) \<Rightarrow> input_desktop_sensitivity \<Rightarrow> instant \<Rightarrow> pump_step" where
  "on_desktop_switch channel desktop now s =
     (if st_system_capture_enabled s then on_input_desktop_sample channel desktop now s else (s, []))"

record timer_sample =
  ts_idle_ms :: "nat option"
  ts_tick_ms :: "nat option"
  ts_current_foreground :: "window_ref option"
  ts_input_desktop :: "input_desktop_sensitivity option"
  ts_now :: instant

definition timer_power :: "(nat \<Rightarrow> channel_state) \<Rightarrow> win_env \<Rightarrow> timer_sample \<Rightarrow> pump_step" where
  "timer_power channel env sample s =
     (if st_power_suspended s
      then (case on_power_resume_at channel env (ts_now sample) (ts_tick_ms sample) (ts_current_foreground sample) s of
              (s, e, _) \<Rightarrow> (s, e))
      else case missed_power_boundary_gap_ms (ts_tick_ms sample) s of
             Some gap_ms \<Rightarrow>
               on_missed_power_boundary channel env (ts_now sample) (ts_current_foreground sample) gap_ms s
           | None \<Rightarrow> (s, []))"

definition on_timer_sample ::
    "(nat \<Rightarrow> channel_state) \<Rightarrow> win_env \<Rightarrow> timer_sample \<Rightarrow> (vkey \<Rightarrow> bool) \<Rightarrow> (mouse_button \<Rightarrow> bool) \<Rightarrow> pump_step" where
  "on_timer_sample channel env sample key_down button_down =
     steps
       [flush_pending_boundaries channel,
        (case ts_input_desktop sample of
           Some desktop \<Rightarrow> on_input_desktop_sample channel desktop (ts_now sample) | None \<Rightarrow> steps []),
        timer_power channel env sample,
        update (\<lambda>s. (remember_tick (ts_tick_ms sample) s)
          \<lparr>st_keyboard := resync_pressed_keys key_down (st_keyboard s),
           st_mouse := resync_active_buttons button_down (st_mouse s)\<rparr>),
        (case ts_idle_ms sample of
           None \<Rightarrow> steps []
         | Some idle_ms \<Rightarrow> run_idle channel (\<lambda>i. idle_on_sample_at i idle_ms (ts_now sample)))]"

text \<open>The sample a periodic timer takes: the focus only after a boundary, the desktop only with
  system capture.\<close>

definition on_periodic_timer ::
    "(nat \<Rightarrow> channel_state) \<Rightarrow> win_env \<Rightarrow> instant \<Rightarrow> nat \<Rightarrow> window_ref option \<Rightarrow> input_desktop_sensitivity
     \<Rightarrow> (vkey \<Rightarrow> bool) \<Rightarrow> (mouse_button \<Rightarrow> bool) \<Rightarrow> pump_step" where
  "on_periodic_timer channel env now tick_ms foreground desktop key_down button_down s =
     on_timer_sample channel env
       \<lparr>ts_idle_ms = we_idle_ms env, ts_tick_ms = Some tick_ms,
        ts_current_foreground =
          (if st_power_suspended s \<or> missed_power_boundary_gap_ms (Some tick_ms) s \<noteq> None then foreground else None),
        ts_input_desktop = (if st_system_capture_enabled s then Some desktop else None), ts_now = now\<rparr>
       key_down button_down s"

section \<open>The session\<close>

text \<open>What leaving a session does first, and what returning to it does last.\<close>

definition session_leaves :: "(nat \<Rightarrow> channel_state) \<Rightarrow> instant \<Rightarrow> pump_step" where
  "session_leaves channel now =
     steps [flush_pending_mouse channel, reset_mouse, end_current_foreground channel now, reset_keyboard]"

definition session_returns ::
    "(nat \<Rightarrow> channel_state) \<Rightarrow> win_env \<Rightarrow> instant \<Rightarrow> window_ref option \<Rightarrow> pump_step" where
  "session_returns channel env now foreground =
     steps [reset_mouse, reset_keyboard, seed_foreground_window channel env now foreground]"

definition on_session_change ::
    "(nat \<Rightarrow> channel_state) \<Rightarrow> win_env \<Rightarrow> nat \<Rightarrow> nat \<Rightarrow> instant \<Rightarrow> window_ref option \<Rightarrow> pump_step" where
  "on_session_change channel env event session_id now foreground =
     (let connected = (\<lambda>connection.
            steps [exit_sensitive_context_at channel now SessionDisconnected,
                   session_returns channel env now foreground,
                   send_system channel now (SessionConnect session_id connection)]);
          disconnected = (\<lambda>connection.
            steps [session_leaves channel now,
                   send_system channel now (SessionDisconnect session_id connection),
                   enter_sensitive_context_at channel now SessionDisconnected])
      in if event = WTS_SESSION_LOCK then
           steps [session_leaves channel now, send_system channel now (SessionLock session_id),
                  enter_sensitive_context_at channel now SessionLocked]
         else if event = WTS_SESSION_UNLOCK then
           steps [exit_sensitive_context_at channel now SessionLocked,
                  session_returns channel env now foreground,
                  send_system channel now (SessionUnlock session_id)]
         else if event = WTS_CONSOLE_CONNECT then connected Console
         else if event = WTS_REMOTE_CONNECT then connected Remote
         else if event = WTS_CONSOLE_DISCONNECT then disconnected Console
         else if event = WTS_REMOTE_DISCONNECT then disconnected Remote
         else steps [])"

section \<open>Reseeding, the display, the clipboard and the end\<close>

definition seed_windows :: "instant \<Rightarrow> window_ref list \<Rightarrow> capture_state \<Rightarrow> capture_state" where
  "seed_windows now windows s =
     s\<lparr>st_windows := fold (\<lambda>window. seed_open_window_at window now) windows (st_windows s)\<rparr>"

definition seed_system :: "(nat \<Rightarrow> channel_state) \<Rightarrow> win_env \<Rightarrow> event_payload \<Rightarrow> instant \<Rightarrow> pump_step" where
  "seed_system channel env system_info now = run_system channel (system_seed_with_at system_info (we_screen env) now)"

definition redact_window :: "bool \<Rightarrow> window_ref \<Rightarrow> window_ref" where
  "redact_window redact_titles w = (if redact_titles then w\<lparr>w_title := ''<redacted>''\<rparr> else w)"

definition take_reconcile :: "(nat \<Rightarrow> channel_state) \<Rightarrow> instant \<Rightarrow> pump_step" where
  "take_reconcile channel now s =
     (case take_sensitive_context_reconcile (st_controls s) of
        (k, pending) \<Rightarrow>
          if pending then (case reconcile_after_pause channel now (s\<lparr>st_controls := k\<rparr>) of (s, e, _) \<Rightarrow> (s, e))
          else (s\<lparr>st_controls := k\<rparr>, []))"

definition reseed_after_reset_with_at ::
    "(nat \<Rightarrow> channel_state) \<Rightarrow> win_env \<Rightarrow> instant \<Rightarrow> window_ref option \<Rightarrow> window_ref list \<Rightarrow> event_payload
     \<Rightarrow> nat option \<Rightarrow> bool \<Rightarrow> pump_step" where
  "reseed_after_reset_with_at channel env now foreground windows system_info tick_ms redact_titles =
     steps
       [update (\<lambda>s. (remember_tick tick_ms s)
          \<lparr>st_foreground := foreground_default, st_keyboard := keyboard_default, st_mouse := fresh_mouse env,
           st_idle := idle_state_new (idle_threshold (st_controls s)), st_power_suspended := False,
           st_last_power_resume_at := None, st_last_power_status := None\<rparr>),
        take_reconcile channel now,
        seed_foreground_window channel env now (map_option (redact_window redact_titles) foreground),
        run_windows channel (\<lambda>_. reseed_with_events_at (map (redact_window redact_titles) windows) now),
        seed_system channel env system_info now]"

definition check_state_reseed ::
    "(nat \<Rightarrow> channel_state) \<Rightarrow> win_env \<Rightarrow> instant \<Rightarrow> window_ref option \<Rightarrow> window_ref list \<Rightarrow> event_payload \<Rightarrow> nat
     \<Rightarrow> pump_step" where
  "check_state_reseed channel env now foreground windows system_info tick_ms s =
     (if k_reseed_generation (st_controls s) = st_last_reseed_generation s then (s, [])
      else
        case take_title_redaction_for_reseed (st_controls s) of
          (k, redact_titles) \<Rightarrow>
            steps
              [reseed_after_reset_with_at channel env now foreground windows system_info (Some tick_ms) redact_titles,
               on_power_status_change channel env now]
              (s\<lparr>st_last_reseed_generation := k_reseed_generation (st_controls s), st_controls := k\<rparr>))"

definition on_display_change :: "(nat \<Rightarrow> channel_state) \<Rightarrow> win_env \<Rightarrow> instant \<Rightarrow> pump_step" where
  "on_display_change channel env now =
     run_system channel (map_prod id option_list \<circ> on_virtual_screen_at (we_screen env) now)"

definition on_clipboard_update :: "(nat \<Rightarrow> channel_state) \<Rightarrow> clipboard_metadata \<Rightarrow> instant \<Rightarrow> pump_step" where
  "on_clipboard_update channel metadata now =
     run_system channel (map_prod id option_list \<circ> system_clipboard_update_at metadata now)"

definition flush_shutdown_events :: "(nat \<Rightarrow> channel_state) \<Rightarrow> instant \<Rightarrow> pump_step" where
  "flush_shutdown_events channel now =
     steps [flush_pending_mouse channel, end_current_foreground channel now, run_windows channel (close_all_at now)]"

section \<open>The pump\<close>

datatype pump_message =
    Foreground win_env instant "window_ref option"
  | WindowVisible instant "window_ref option"
  | WindowDestroyed instant nat
  | RawKeyboard win_env raw_keyboard_event "window_ref option" instant
  | RawMouseInput win_env raw_mouse_event "window_ref option" "mouse_position option" instant
  | DisplayChange win_env instant
  | Suspend instant nat
  | Resume win_env instant nat "window_ref option"
  | PowerStatus win_env instant
  | SessionChange win_env nat nat instant "window_ref option"
  | ClipboardUpdate clipboard_metadata instant
  | DesktopSwitch input_desktop_sensitivity instant
  | Timer win_env instant nat "window_ref option" input_desktop_sensitivity "vkey \<Rightarrow> bool" "mouse_button \<Rightarrow> bool"
  | FlushDueMouse instant
  | CheckReseed win_env instant "window_ref option" "window_ref list" event_payload nat
  | ReconcileRequest instant
  | MonitorSample bool instant
  | OtherThread control_op
  | Shutdown instant

primrec pump_step :: "(nat \<Rightarrow> channel_state) \<Rightarrow> pump_message \<Rightarrow> pump_step" where
  "pump_step channel (Foreground env now window) = on_foreground channel env now window"
| "pump_step channel (WindowVisible now window) = on_window_visible channel now window"
| "pump_step channel (WindowDestroyed now hwnd) = on_window_gone channel now hwnd"
| "pump_step channel (RawKeyboard env raw window now) = on_raw_keyboard_at channel env raw window now"
| "pump_step channel (RawMouseInput env raw window position now) =
     on_raw_mouse_at channel env raw window position now"
| "pump_step channel (DisplayChange env now) = on_display_change channel env now"
| "pump_step channel (Suspend now tick_ms) = on_power_suspend channel now (Some tick_ms)"
| "pump_step channel (Resume env now tick_ms foreground) = on_power_resume channel env now (Some tick_ms) foreground"
| "pump_step channel (PowerStatus env now) = on_power_status_change channel env now"
| "pump_step channel (SessionChange env event session_id now foreground) =
     on_session_change channel env event session_id now foreground"
| "pump_step channel (ClipboardUpdate metadata now) = on_clipboard_update channel metadata now"
| "pump_step channel (DesktopSwitch desktop now) = on_desktop_switch channel desktop now"
| "pump_step channel (Timer env now tick_ms foreground desktop key_down button_down) =
     on_periodic_timer channel env now tick_ms foreground desktop key_down button_down"
| "pump_step channel (FlushDueMouse now) = flush_due_mouse channel now"
| "pump_step channel (CheckReseed env now foreground windows system_info tick_ms) =
     check_state_reseed channel env now foreground windows system_info tick_ms"
| "pump_step channel (ReconcileRequest now) = (\<lambda>s. case reconcile_for_resume channel now s of (s, e, _) \<Rightarrow> (s, e))"
| "pump_step channel (MonitorSample is_password now) = emit_confirmed_password_sample channel is_password now"
| "pump_step channel (OtherThread op) = update (set_controls (control_step op))"
| "pump_step channel (Shutdown now) = flush_shutdown_events channel now"

end
