(* ===== verification/Win_Laws.thy ===== *)
theory Win_Laws
  imports Win_Capture
begin

text \<open>
  The laws of the Windows capture pump over whole runs.  An invariant of the run and its
  effects is stated once for the few primitives that touch the channel, the boundary queue or
  the shared word, and holds of every handler by the locale \<open>pump_invariant\<close>; its
  interpretations say that no ordinary row enters the channel before the sensitive boundaries
  it follows, and that refused rows are counted.
\<close>

section \<open>Invariants of the pump\<close>

definition ordinary :: "captured \<Rightarrow> bool" where
  "ordinary row \<longleftrightarrow>
     (case c_payload row of SensitiveContextEntered _ \<Rightarrow> False | SensitiveContextExited _ \<Rightarrow> False | _ \<Rightarrow> True)"

definition pump_reasons :: "sensitive_context_reason set" where
  "pump_reasons = {SessionLocked, SessionDisconnected, SecureDesktop}"

text \<open>What other threads may do to the controls, besides what has a message of its own.\<close>

definition foreign_op :: "control_op \<Rightarrow> bool" where
  "foreign_op op \<longleftrightarrow> op \<notin> {BeginTransition, DropTransition, TakeReconcile}"

definition message_ok :: "pump_message \<Rightarrow> bool" where
  "message_ok m \<longleftrightarrow>
     (case m of
        OtherThread op \<Rightarrow> foreign_op op
      | CheckReseed _ _ _ _ info _ \<Rightarrow> (case info of SystemInfo _ _ _ _ _ \<Rightarrow> True | _ \<Rightarrow> False)
      | _ \<Rightarrow> True)"

text \<open>What an invariant may look at.\<close>

definition core :: "capture_state \<Rightarrow> sensitive_context_reason set \<times> captured list \<times> nat \<times> 64 word \<times> bool \<times> 64 word" where
  "core s = (st_active_sensitive_reasons s, st_pending_sensitive_boundaries s, st_sends s,
     k_sensitive_transition_state (st_controls s), k_sensitive_reconcile_pending (st_controls s),
     dc_capture_events_dropped (k_diagnostics (st_controls s)))"

definition keeps :: "(capture_state \<Rightarrow> capture_effect list \<Rightarrow> bool) \<Rightarrow> pump_step \<Rightarrow> bool" where
  "keeps P f \<longleftrightarrow> (\<forall>s h. P s h \<longrightarrow> P (fst (f s)) (h @ snd (f s)))"

lemma keepsI: "(\<And>s h s' e. P s h \<Longrightarrow> f s = (s', e) \<Longrightarrow> P s' (h @ e)) \<Longrightarrow> keeps P f"
  by (simp add: keeps_def)

lemma keepsD: "keeps P f \<Longrightarrow> P s h \<Longrightarrow> f s = (s', e) \<Longrightarrow> P s' (h @ e)"
  unfolding keeps_def by (metis fst_conv snd_conv)

lemma keeps_steps: "(\<And>f. f \<in> set fs \<Longrightarrow> keeps P f) \<Longrightarrow> keeps P (steps fs)"
proof (induction fs)
  case Nil
  then show ?case by (simp add: keeps_def)
next
  case (Cons f fs)
  show ?case
  proof (rule keepsI)
    fix s h s' e
    assume "P s h" "steps (f # fs) s = (s', e)"
    moreover obtain t e1 where "f s = (t, e1)" by fastforce
    moreover obtain e2 where "steps fs t = (s', e2)" "e = e1 @ e2"
      using calculation by (auto split: prod.splits)
    ultimately show "P s' (h @ e)"
      using Cons keepsD[of P f] keepsD[of P "steps fs"] by (metis append.assoc list.set_intros)
  qed
qed

lemma keeps_run:
  assumes "\<And>m. m \<in> set ms \<Longrightarrow> keeps P (step m)" "P s h"
  shows "P (final (\<lambda>s m. step m s) s ms) (h @ outputs (\<lambda>s m. step m s) s ms)"
  using assms
proof (induction ms arbitrary: s h)
  case (Cons m ms)
  from Cons.prems have "P (fst (step m s)) (h @ snd (step m s))" by (simp add: keeps_def)
  from Cons.IH[OF _ this] Cons.prems(1) show ?case by simp
qed simp

section \<open>The rows of the parts are ordinary\<close>

lemma ordinary_new [simp]:
  "ordinary (captured_new src at payload) =
     (case payload of SensitiveContextEntered _ \<Rightarrow> False | SensitiveContextExited _ \<Rightarrow> False | _ \<Rightarrow> True)"
  by (simp add: ordinary_def captured_new_def)

lemma ordinary_context_row [simp]: "\<not> ordinary (context_row now entered reason)"
  by (simp add: context_row_def)

lemma outputs_all:
  assumes "\<And>s x r. r \<in> set (snd (step s x)) \<Longrightarrow> good r" "r \<in> set (outputs step s xs)"
  shows "good r"
  using assms(2) by (induction xs arbitrary: s) (auto intro: assms(1))

lemma ordinary_press: "r \<in> set (snd (press_button position window at origin s button)) \<Longrightarrow> ordinary r"
  by (auto simp: press_button_def Let_def split: option.splits)

lemma ordinary_release: "r \<in> set (snd (release_button position window at origin s button)) \<Longrightarrow> ordinary r"
  by (auto simp: release_button_def Let_def into_drag_def split: option.splits if_splits)

lemma ordinary_moved:
  assumes "(if d then mouse_flush_pending s else mouse_flush_due s now) = (t, moved)" "r \<in> set (option_list moved)"
  shows "ordinary r"
  using assms
  by (auto simp: mouse_flush_pending_def mouse_flush_due_def option_list_def pending_into_captured_def
      split: if_splits option.splits)

lemma ordinary_on_raw_mouse:
  assumes "r \<in> set (snd (on_raw_mouse screen raw window position at s))"
  shows "ordinary r"
proof -
  have wheel: "ordinary r" if "r \<in> set (wheel_rows raw position window at origin)" for origin
    using that by (auto simp: wheel_rows_def Let_def split: if_splits)
  show ?thesis
    using assms ordinary_moved wheel outputs_all[OF ordinary_press] outputs_all[OF ordinary_release]
    unfolding on_raw_mouse_def Let_def by (fastforce split: prod.splits)
qed

text \<open>A step whose rows are all ordinary.\<close>

definition plain :: "'p \<times> captured list \<Rightarrow> bool" where
  "plain x \<longleftrightarrow> (\<forall>r \<in> set (snd x). ordinary r)"

lemma plain_option [simp]:
  "plain (map_prod id option_list x) \<longleftrightarrow> (\<forall>r. snd x = Some r \<longrightarrow> ordinary r)"
  by (cases x) (auto simp: plain_def option_list_def split: option.splits)

lemma plain_parts [simp]:
  "plain (on_raw_mouse screen raw window position at m)"
  "snd (mouse_flush_pending m) = Some r \<Longrightarrow> ordinary r"
  "snd (mouse_flush_due m now) = Some r \<Longrightarrow> ordinary r"
  "snd (seed_window_at F w now) = Some r \<Longrightarrow> ordinary r"
  "snd (on_window_at F w now) = Some r \<Longrightarrow> ordinary r"
  "snd (end_current_at F now) = Some r \<Longrightarrow> ordinary r"
  "snd (end_current_at_with_max_duration F now d) = Some r \<Longrightarrow> ordinary r"
  "snd (on_opened_at w now W) = Some r \<Longrightarrow> ordinary r"
  "snd (on_closed_at hwnd now W) = Some r \<Longrightarrow> ordinary r"
  "snd (on_virtual_screen_at screen now S) = Some r \<Longrightarrow> ordinary r"
  "snd (system_clipboard_update_at c now S) = Some r \<Longrightarrow> ordinary r"
  "snd (idle_on_sample_at i idle_ms now) = Some r \<Longrightarrow> ordinary r"
  "snd (idle_on_activity_at i idle_ms now) = Some r \<Longrightarrow> ordinary r"
  "snd (on_raw_key k key win now redact) = Some r \<Longrightarrow> ordinary r"
  "plain (reseed_with_events_at ws now)"
  "plain (close_all_at now W)"
  by (auto simp: plain_def ordinary_on_raw_mouse mouse_flush_pending_def mouse_flush_due_def
      pending_into_captured_def seed_window_at_def on_window_at_def focus_changed_def end_current_at_def
      end_current_at_with_max_duration_def end_current_at_with_duration_limit_def on_opened_at_def
      on_closed_at_def window_closed_def on_virtual_screen_at_def virtual_screen_event_def
      system_clipboard_update_at_def clipboard_event_def idle_on_sample_at_def idle_on_activity_at_def
      idle_event_def active_event_def on_raw_key_def reseed_with_events_at_def close_all_at_def Let_def
      split: option.splits if_splits)

section \<open>Every handler keeps an invariant of the primitives\<close>

locale pump_invariant =
  fixes channel :: "nat \<Rightarrow> channel_state"
    and P :: "capture_state \<Rightarrow> capture_effect list \<Rightarrow> bool"
  assumes frame: "P s h \<Longrightarrow> core s' = core s \<Longrightarrow> P s' h"
    and keeps_send: "ordinary row \<Longrightarrow> keeps P (send channel row)"
    and keeps_flush: "keeps P (flush_pending_boundaries channel)"
    and keeps_enter: "reason \<in> pump_reasons \<Longrightarrow> keeps P (enter_sensitive_context_at channel now reason)"
    and keeps_exit: "reason \<in> pump_reasons \<Longrightarrow> keeps P (exit_sensitive_context_at channel now reason)"
    and keeps_take: "keeps P (take_reconcile channel now)"
    and keeps_resume: "keeps P (\<lambda>s. case reconcile_for_resume channel now s of (s, e, _) \<Rightarrow> (s, e))"
    and keeps_password: "keeps P (emit_confirmed_password_sample channel is_password now)"
    and keeps_other: "foreign_op op \<Longrightarrow> keeps P (update (set_controls (control_step op)))"
begin

lemma keeps_update: "(\<And>s. core (f s) = core s) \<Longrightarrow> keeps P (update f)"
  by (rule keepsI) (auto simp: update_def intro: frame)

lemma keeps_unchanged [simp]: "keeps P (\<lambda>s. (s, []))"
  by (simp add: keeps_def)

lemma keeps_nothing [simp]: "keeps P (steps [])"
  by (rule keeps_steps) simp

lemma keeps_send_list: "(\<And>r. r \<in> set rows \<Longrightarrow> ordinary r) \<Longrightarrow> keeps P (send_list channel rows)"
  unfolding send_list_def by (rule keeps_steps) (auto intro: keeps_send)

lemma keeps_part:
  assumes "\<And>s. plain (part s)" "\<And>p s. core (put p s) = core s"
  shows "keeps P (run_part channel part put)"
proof (rule keepsI)
  fix s h s' e
  assume "P s h" "run_part channel part put s = (s', e)"
  moreover obtain p rows where part: "part s = (p, rows)" by fastforce
  moreover have "keeps P (send_list channel rows)"
    using assms(1)[of s] part by (intro keeps_send_list) (simp add: plain_def)
  ultimately show "P s' (h @ e)"
    using keepsD[of P "send_list channel rows" "put p s" h s' e] frame[OF _ assms(2)]
    by (simp add: run_part_def)
qed

lemma keeps_parts:
  "(\<And>F r. snd (f F) = Some r \<Longrightarrow> ordinary r) \<Longrightarrow> keeps P (run_foreground channel f)"
  "(\<And>m. plain (g m)) \<Longrightarrow> keeps P (run_mouse channel g)"
  "(\<And>W. plain (w W)) \<Longrightarrow> keeps P (run_windows channel w)"
  "(\<And>S. plain (y S)) \<Longrightarrow> keeps P (run_system channel y)"
  "(\<And>i r. snd (d i) = Some r \<Longrightarrow> ordinary r) \<Longrightarrow> keeps P (run_idle channel d)"
  unfolding run_foreground_def run_mouse_def run_windows_def run_system_def run_idle_def
  by (rule keeps_part; simp add: core_def)+

lemma keeps_system:
  "(case payload of SensitiveContextEntered _ \<Rightarrow> False | SensitiveContextExited _ \<Rightarrow> False | _ \<Rightarrow> True) \<Longrightarrow>
   keeps P (send_system channel now payload)"
  unfolding send_system_def by (rule keeps_send) simp

lemma keeps_mouse_keyboard:
  "keeps P (flush_pending_mouse channel)" "keeps P (flush_due_mouse channel now)"
  "keeps P reset_mouse" "keeps P reset_keyboard"
  "keeps P (end_current_foreground channel now)" "keeps P (end_current_foreground_capped channel now)"
  unfolding flush_pending_mouse_def flush_due_mouse_def end_current_foreground_def
    end_current_foreground_capped_def reset_mouse_def reset_keyboard_def
  by (rule keeps_parts keeps_update; simp add: core_def)+

lemma core_note_focused_app [simp]: "core (note_focused_app env w s) = core s"
  by (simp add: note_focused_app_def core_def note_foreground_exe_def Let_def)

lemma keeps_seed: "keeps P (seed_foreground_window channel env now window)"
proof (cases window)
  case None
  then show ?thesis by (simp add: seed_foreground_window_def del: steps.simps)
next
  case (Some w)
  have "keeps P (update (note_focused_app env w))" by (rule keeps_update) simp
  moreover have "keeps P (run_foreground channel (\<lambda>F. seed_window_at F w now))"
    by (rule keeps_parts) simp
  ultimately show ?thesis by (auto simp: seed_foreground_window_def Some intro!: keeps_steps)
qed

lemma keeps_power_status: "keeps P (on_power_status_change channel env now)"
proof (rule keepsI)
  fix s h s' e
  assume p: "P s h" "on_power_status_change channel env now s = (s', e)"
  show "P s' (h @ e)"
  proof (cases "we_power_status env = None \<or> st_last_power_status s = map_option power_status_key (we_power_status env)")
    case True
    with p show ?thesis
      by (cases "we_power_status env") (auto simp: on_power_status_change_def)
  next
    case False
    then obtain status where status: "we_power_status env = Some status" by auto
    obtain a b c where fields: "power_status_fields status = (a, b, c)" by (metis surj_pair)
    let ?t = "s\<lparr>st_last_power_status := Some (power_status_key status)\<rparr>"
    have "send_system channel now (PowerStatusChanged a b c) ?t = (s', e)"
      using p(2) False status fields by (simp add: on_power_status_change_def)
    moreover have "P ?t h" by (rule frame[OF p(1)]) (simp add: core_def)
    ultimately show ?thesis
      using keepsD[OF keeps_system[of "PowerStatusChanged a b c" now], of ?t h s' e] by simp
  qed
qed

lemma keeps_missed: "keeps P (on_missed_power_boundary channel env now foreground gap_ms)"
  unfolding on_missed_power_boundary_def
  by (rule keeps_steps)
    (auto intro!: keeps_mouse_keyboard keeps_seed keeps_power_status keeps_system keeps_update
      simp: core_def increment_power_boundary_catches_def)

lemma keeps_suspend: "keeps P (on_power_suspend channel now tick_ms)"
  unfolding on_power_suspend_def
  by (rule keeps_steps)
    (auto intro!: keeps_mouse_keyboard keeps_system keeps_update simp: core_def remember_tick_def)

lemma keeps_resume_boundary: "keeps P (resume_boundary channel env now tick_ms foreground matched)"
proof (rule keepsI)
  fix s h s' e
  assume p: "P s h" "resume_boundary channel env now tick_ms foreground matched s = (s', e)"
  let ?fs = "[if matched then steps [] else end_current_foreground_capped channel now,
    reset_mouse, reset_keyboard, seed_foreground_window channel env now foreground]"
  have "keeps P (steps ?fs)"
    by (rule keeps_steps) (auto intro!: keeps_mouse_keyboard keeps_seed keeps_steps)
  with p show "P s' (h @ e)"
    using keepsD[OF keeps_missed] keepsD[of P "steps ?fs"]
    unfolding resume_boundary_def by (auto split: option.splits simp del: steps.simps)
qed

lemma keeps_resume_at:
  assumes "P s h" "on_power_resume_at channel env now tick_ms foreground s = (s', e, resumed)"
  shows "P s' (h @ e)"
proof (cases "is_duplicate_power_resume now s")
  case True
  have "P (remember_tick tick_ms (s\<lparr>st_last_power_resume_at := Some now\<rparr>)) h"
    by (rule frame[OF assms(1)]) (simp add: core_def remember_tick_def)
  with True assms(2) show ?thesis by (simp add: on_power_resume_at_def)
next
  case False
  let ?fs = "[flush_pending_mouse channel,
    resume_boundary channel env now tick_ms foreground (st_power_suspended s),
    send_system channel now (PowerResume tick_ms (st_power_suspended s)),
    update (\<lambda>s. remember_tick tick_ms (s\<lparr>st_power_suspended := False, st_last_power_resume_at := Some now\<rparr>))]"
  have "keeps P (steps ?fs)"
    by (rule keeps_steps)
      (auto intro!: keeps_mouse_keyboard keeps_resume_boundary keeps_system keeps_update
        simp: core_def remember_tick_def)
  moreover have "steps ?fs s = (s', e)"
    using False assms(2) by (simp add: on_power_resume_at_def Let_def split: prod.splits del: steps.simps)
  ultimately show ?thesis using keepsD assms(1) by blast
qed

lemma keeps_power_resume: "keeps P (on_power_resume channel env now tick_ms foreground)"
proof (rule keepsI)
  fix s h s' e
  assume p: "P s h" "on_power_resume channel env now tick_ms foreground s = (s', e)"
  obtain t e1 resumed where r: "on_power_resume_at channel env now tick_ms foreground s = (t, e1, resumed)"
    by (metis surj_pair)
  from keeps_resume_at[OF p(1) r] p(2) r keepsD[OF keeps_power_status, of t "h @ e1"]
  show "P s' (h @ e)" by (auto simp: on_power_resume_def split: if_splits prod.splits)
qed

lemma keeps_foreground: "keeps P (on_foreground channel env now window)"
proof -
  have "keeps P (update protect_unknown_password_focus)"
    by (rule keeps_update) (simp add: core_def protect_unknown_password_focus_def set_password_field_gate_def)
  moreover have "keeps P (update (note_focused_app env w))" for w by (rule keeps_update) simp
  moreover have "keeps P (run_foreground channel (\<lambda>F. on_window_at F w now))" for w by (rule keeps_parts) simp
  ultimately show ?thesis
    unfolding on_foreground_def by (intro keeps_steps) (auto split: option.splits)
qed

lemma keeps_window:
  "keeps P (on_window_visible channel now window)" "keeps P (on_window_gone channel now hwnd)"
proof -
  have "keeps P (run_windows channel (map_prod id option_list \<circ> on_opened_at w now))" for w
    by (rule keeps_parts) simp
  then show "keeps P (on_window_visible channel now window)"
    unfolding on_window_visible_def by (cases window) (auto intro: keeps_steps)
  have "keeps P (run_windows channel (map_prod id option_list \<circ> on_closed_at hwnd now))"
    by (rule keeps_parts) simp
  moreover have "keeps P (update (\<lambda>s. s\<lparr>st_foreground := on_window_destroyed (st_foreground s) hwnd\<rparr>))"
    by (rule keeps_update) (simp add: core_def)
  ultimately show "keeps P (on_window_gone channel now hwnd)"
    unfolding on_window_gone_def by (intro keeps_steps) auto
qed

lemma keeps_activity: "keeps P (on_user_activity channel env now)"
  unfolding on_user_activity_def by (cases "we_idle_ms env") (auto intro!: keeps_steps keeps_parts)

lemma keeps_redact:
  assumes "P s h" "redact_keyboard_at channel env window now s = (s', e, redact)"
  shows "P s' (h @ e)"
proof -
  have cache: "P (s\<lparr>st_password_focus_cache := c\<rparr>) h" for c
    by (rule frame[OF assms(1)]) (simp add: core_def)
  have gate: "P (set_controls (\<lambda>k. set_password_field_gate k True) (s\<lparr>st_password_focus_cache := None\<rparr>)) h"
    by (rule frame[OF assms(1)]) (simp add: core_def set_password_field_gate_def)
  show ?thesis
  proof (cases "k_password_field_confirmed_active (st_controls s) \<or>
      (if k_password_field_active (st_controls s) then None
       else Option.bind window (\<lambda>w. cached_password_focus (w_hwnd w) now s)) \<noteq> None")
    case True
    with assms show ?thesis by (auto simp: redact_keyboard_at_def split: if_splits option.splits)
  next
    case ask: False
    show ?thesis
    proof (cases "probe_password_field_active (\<lambda>_ _. we_probe env) (st_controls s) PASSWORD_FIELD_PROBE_TIMEOUT")
      case None
      with ask assms(2) gate show ?thesis by (auto simp: redact_keyboard_at_def)
    next
      case (Some result)
      define t where "t = (case window of
          Some w \<Rightarrow> s\<lparr>st_password_focus_cache := Some
              \<lparr>fc_hwnd = w_hwnd w, fc_is_password = pr_is_password result,
               fc_focus_generation = pr_focus_generation result, fc_resolved_at = now\<rparr>\<rparr>
        | None \<Rightarrow> s)"
      have "P t h" using cache assms(1) by (auto simp: t_def split: option.split)
      moreover have "emit_confirmed_password_sample channel (pr_is_password result) now t = (s', e)"
        using ask Some assms(2) by (auto simp: redact_keyboard_at_def Let_def t_def[symmetric] split: prod.splits)
      ultimately show ?thesis using keepsD[OF keeps_password] by blast
    qed
  qed
qed

lemma keeps_keyboard: "keeps P (on_raw_keyboard_at channel env raw window now)"
proof (rule keepsI)
  fix s h s' e
  assume p: "P s h" "on_raw_keyboard_at channel env raw window now s = (s', e)"
  obtain s1 e1 where a: "on_user_activity channel env now s = (s1, e1)" by fastforce
  obtain s2 e2 redact where b:
    "(if is_key_down raw then redact_keyboard_at channel env window now s1 else (s1, [], False)) = (s2, e2, redact)"
    by (metis surj_pair)
  obtain s3 e3 where c: "send_key channel raw window now redact s2 = (s3, e3)" by fastforce
  have "P s1 (h @ e1)" using keepsD[OF keeps_activity p(1) a] .
  then have "P s2 (h @ e1 @ e2)" using keeps_redact[of s1 "h @ e1" env window now s2 e2 redact] b
    by (auto split: if_splits)
  moreover have "keeps P (send_key channel raw window now redact)"
    unfolding send_key_def by (rule keeps_part) (simp_all add: core_def)
  ultimately have "P s3 (h @ e1 @ e2 @ e3)" using keepsD[of P _ s2 "h @ e1 @ e2"] c by fastforce
  moreover have "core s' = core s3" "e = e1 @ e2 @ e3"
    using p(2) a b c by (auto simp: on_raw_keyboard_at_def core_def Let_def split: if_splits)
  ultimately show "P s' (h @ e)" using frame by fastforce
qed

lemma keeps_mouse_input: "keeps P (on_raw_mouse_at channel env raw window position now)"
proof -
  have "keeps P (update (if mouse_may_change_focus raw then protect_unknown_password_focus else id))"
    by (rule keeps_update) (simp add: core_def protect_unknown_password_focus_def set_password_field_gate_def)
  moreover have "keeps P (run_mouse channel (on_raw_mouse (we_screen env) raw window position now))"
    by (rule keeps_parts) simp
  ultimately show ?thesis
    unfolding on_raw_mouse_at_def by (intro keeps_steps) (auto intro: keeps_activity)
qed

lemma keeps_desktop:
  "keeps P (on_input_desktop_sample channel desktop now)" "keeps P (on_desktop_switch channel desktop now)"
proof -
  show a: "keeps P (on_input_desktop_sample channel desktop now)"
    unfolding on_input_desktop_sample_def
    by (cases desktop) (simp_all add: keeps_enter keeps_exit pump_reasons_def)
  show "keeps P (on_desktop_switch channel desktop now)"
    using a unfolding on_desktop_switch_def keeps_def by auto
qed

lemma keeps_timer: "keeps P (on_periodic_timer channel env now tick_ms foreground desktop key_down button_down)"
proof -
  have power: "keeps P (timer_power channel env sample)" for sample
  proof (rule keepsI)
    fix s h s' e
    assume "P s h" "timer_power channel env sample s = (s', e)"
    then show "P s' (h @ e)"
      using keeps_resume_at[of s h] keepsD[OF keeps_missed]
      unfolding timer_power_def by (auto split: if_splits option.splits prod.splits)
  qed
  have "keeps P (on_timer_sample channel env sample key_down button_down)" for sample
    unfolding on_timer_sample_def
    by (rule keeps_steps)
      (auto intro!: keeps_flush keeps_desktop power keeps_update keeps_steps keeps_parts
        simp: core_def remember_tick_def split: option.splits)
  then show ?thesis unfolding keeps_def on_periodic_timer_def by blast
qed

lemma keeps_session: "keeps P (on_session_change channel env event session_id now foreground)"
proof -
  have "keeps P (session_leaves channel now)"
    unfolding session_leaves_def by (rule keeps_steps) (auto intro: keeps_mouse_keyboard)
  moreover have "keeps P (session_returns channel env now foreground)"
    unfolding session_returns_def by (rule keeps_steps) (auto intro: keeps_mouse_keyboard keeps_seed)
  ultimately show ?thesis
    unfolding on_session_change_def Let_def
    by (auto intro!: keeps_steps keeps_system keeps_enter keeps_exit simp: pump_reasons_def)
qed

lemma keeps_reseed:
  assumes "case system_info of SystemInfo _ _ _ _ _ \<Rightarrow> True | _ \<Rightarrow> False"
  shows "keeps P (check_state_reseed channel env now foreground windows system_info tick_ms)"
proof (rule keepsI)
  fix s h s' e
  assume p: "P s h" "check_state_reseed channel env now foreground windows system_info tick_ms s = (s', e)"
  have "keeps P (run_windows channel (\<lambda>_. reseed_with_events_at ws now))" for ws
    by (rule keeps_parts) simp
  moreover have "keeps P (seed_system channel env system_info now)"
    unfolding seed_system_def
    by (rule keeps_parts)
      (use assms in \<open>auto simp: plain_def system_seed_with_at_def virtual_screen_event_def split: event_payload.splits\<close>)
  moreover have "keeps P (update (\<lambda>s. (remember_tick t s)
      \<lparr>st_foreground := foreground_default, st_keyboard := keyboard_default, st_mouse := fresh_mouse env,
       st_idle := idle_state_new (idle_threshold (st_controls s)), st_power_suspended := False,
       st_last_power_resume_at := None, st_last_power_status := None\<rparr>))" for t
    by (rule keeps_update) (simp add: core_def remember_tick_def)
  ultimately have r: "keeps P (steps
      [reseed_after_reset_with_at channel env now foreground windows system_info (Some tick_ms) redact,
       on_power_status_change channel env now])" for redact
    unfolding reseed_after_reset_with_at_def
    by (auto intro!: keeps_steps keeps_take keeps_seed keeps_power_status)
  show "P s' (h @ e)"
  proof (cases "k_reseed_generation (st_controls s) = st_last_reseed_generation s")
    case True
    with p show ?thesis by (simp add: check_state_reseed_def)
  next
    case False
    obtain k redact where k: "take_title_redaction_for_reseed (st_controls s) = (k, redact)" by fastforce
    have "P (s\<lparr>st_last_reseed_generation := k_reseed_generation (st_controls s), st_controls := k\<rparr>) h"
      by (rule frame[OF p(1)]) (use k in \<open>auto simp: core_def take_title_redaction_for_reseed_def\<close>)
    from keepsD[OF r this, of redact s' e] p(2) False k show ?thesis
      by (simp add: check_state_reseed_def del: steps.simps)
  qed
qed

lemma keeps_pump_step: "message_ok m \<Longrightarrow> keeps P (pump_step channel m)"
proof (cases m)
  case (CheckReseed env now foreground windows system_info tick_ms)
  assume "message_ok m"
  with CheckReseed keeps_reseed show ?thesis by (simp add: message_ok_def)
next
  case (OtherThread op)
  assume "message_ok m"
  with OtherThread keeps_other show ?thesis by (simp add: message_ok_def)
next
  case (DisplayChange env now)
  then show ?thesis by (simp add: on_display_change_def keeps_parts)
next
  case (ClipboardUpdate c now)
  then show ?thesis by (simp add: on_clipboard_update_def keeps_parts)
next
  case (Shutdown now)
  then show ?thesis
    by (auto simp: flush_shutdown_events_def simp del: steps.simps intro!: keeps_steps keeps_mouse_keyboard keeps_parts)
qed (simp_all add: keeps_foreground keeps_window keeps_keyboard keeps_mouse_input keeps_suspend
    keeps_power_resume keeps_power_status keeps_session keeps_desktop keeps_timer keeps_mouse_keyboard
    keeps_resume keeps_password)

lemma keeps_pump_run:
  assumes "\<forall>m \<in> set ms. message_ok m" "P s h"
  shows "P (final (\<lambda>s m. pump_step channel m s) s ms) (h @ outputs (\<lambda>s m. pump_step channel m s) s ms)"
  by (rule keeps_run[where step = "pump_step channel" and P = P]) (use assms keeps_pump_step in auto)

end

section \<open>Refused rows are counted\<close>

definition refused :: "capture_effect list \<Rightarrow> nat" where
  "refused h = length (filter (\<lambda>e. case e of Refused _ \<Rightarrow> True | _ \<Rightarrow> False) h)"

lemma refused_simps [simp]:
  "refused [] = 0" "refused (g @ h) = refused g + refused h" "refused (Refused r # h) = refused h + 1"
  "refused (Enqueued r # h) = refused h" "refused (ContextOn c # h) = refused h"
  "refused (ContextOff c # h) = refused h" "refused (Deferred # h) = refused h"
  "refused (Reconciled # h) = refused h"
  by (simp_all add: refused_def)

definition dropped_events :: "capture_state \<Rightarrow> 64 word" where
  "dropped_events s = dc_capture_events_dropped (k_diagnostics (st_controls s))"

definition counts :: "64 word \<Rightarrow> capture_state \<Rightarrow> capture_effect list \<Rightarrow> bool" where
  "counts n s h \<longleftrightarrow> dropped_events s = n + word_of_nat (refused h)"

lemma drop_tokens_frame [simp]:
  "st_pending_sensitive_boundaries (drop_tokens n s) = st_pending_sensitive_boundaries s"
  "st_active_sensitive_reasons (drop_tokens n s) = st_active_sensitive_reasons s"
  "st_sends (drop_tokens n s) = st_sends s"
  "dropped_events (drop_tokens n s) = dropped_events s"
  "k_sensitive_reconcile_pending (st_controls (drop_tokens n s)) = k_sensitive_reconcile_pending (st_controls s)"
  "k_suspended (st_controls (drop_tokens n s)) = k_suspended (st_controls s)"
  "k_sensitive_resume_barrier (st_controls (drop_tokens n s)) = k_sensitive_resume_barrier (st_controls s)"
proof -
  have "k_diagnostics ((drop_sensitive_transition ^^ n) k) = k_diagnostics k \<and>
      k_sensitive_reconcile_pending ((drop_sensitive_transition ^^ n) k) = k_sensitive_reconcile_pending k \<and>
      k_suspended ((drop_sensitive_transition ^^ n) k) = k_suspended k \<and>
      k_sensitive_resume_barrier ((drop_sensitive_transition ^^ n) k) = k_sensitive_resume_barrier k" for k
    by (induction n) (simp_all add: drop_sensitive_transition_def)
  then show
    "dropped_events (drop_tokens n s) = dropped_events s"
    "k_sensitive_reconcile_pending (st_controls (drop_tokens n s)) = k_sensitive_reconcile_pending (st_controls s)"
    "k_suspended (st_controls (drop_tokens n s)) = k_suspended (st_controls s)"
    "k_sensitive_resume_barrier (st_controls (drop_tokens n s)) = k_sensitive_resume_barrier (st_controls s)"
    by (simp_all add: drop_tokens_def dropped_events_def)
qed (simp_all add: drop_tokens_def)

lemma dropped_frame [simp]:
  "dropped_events (s\<lparr>st_sends := m\<rparr>) = dropped_events s"
  "dropped_events (s\<lparr>st_pending_sensitive_boundaries := rows\<rparr>) = dropped_events s"
  "dropped_events (s\<lparr>st_active_sensitive_reasons := rs\<rparr>) = dropped_events s"
  "dropped_events (clear_pending s) = dropped_events s"
  "dropped_events (count_dropped s) = dropped_events s + 1"
  "dropped_events (set_controls request_sensitive_context_reconcile s) = dropped_events s"
  "dropped_events (set_controls begin_sensitive_transition s) = dropped_events s"
  by (simp_all add: dropped_events_def clear_pending_def drop_tokens_frame(4)[unfolded dropped_events_def]
      count_dropped_def increment_capture_events_dropped_def request_sensitive_context_reconcile_def
      begin_sensitive_transition_def)

lemma flush_loop_dropped:
  "flush_loop channel rows s = (s', e) \<Longrightarrow> dropped_events s' = dropped_events s \<and> refused e = 0"
  by (induction channel rows s arbitrary: s' e rule: flush_loop.induct)
    (auto simp: Let_def split: channel_state.splits prod.splits)

lemma flush_dropped:
  "flush_pending_boundaries channel s = (s', e) \<Longrightarrow> dropped_events s' = dropped_events s \<and> refused e = 0"
  "flush_pending_unchecked channel s = (s', e) \<Longrightarrow> dropped_events s' = dropped_events s \<and> refused e = 0"
  using flush_loop_dropped[of channel]
  by (auto simp: flush_pending_boundaries_def flush_pending_unchecked_def split: if_splits)

lemma send_blocking_dropped:
  "send_blocking_rows channel rows s = (s', e, ok) \<Longrightarrow> dropped_events s' = dropped_events s \<and> refused e = 0"
  by (induction channel rows s arbitrary: s' e ok rule: send_blocking_rows.induct)
    (auto simp: Let_def split: if_splits prod.splits)

lemma reconcile_dropped:
  "reconcile_after_pause channel now s = (s', e, ok) \<Longrightarrow> dropped_events s' = dropped_events s \<and> refused e = 0"
  using send_blocking_dropped[of channel]
  by (auto simp: reconcile_after_pause_def Let_def split: prod.splits)

lemma queue_dropped:
  "queue_or_send_boundary channel row s = (s', e) \<Longrightarrow> dropped_events s' = dropped_events s \<and> refused e = 0"
  using flush_dropped(2)[of channel]
  by (auto simp: queue_or_send_boundary_def queue_or_send_unchecked_def Let_def
      split: if_splits prod.splits channel_state.splits)

interpretation dropped: pump_invariant channel "counts n" for channel n
proof
  show "counts n s h \<Longrightarrow> core s' = core s \<Longrightarrow> counts n s' h" for s h s'
    by (simp add: counts_def core_def dropped_events_def)
  show "keeps (counts n) (send channel row)" for row
    by (rule keepsI) (auto simp: send_def counts_def Let_def dest!: flush_dropped(1)
        split: if_splits prod.splits channel_state.splits)
  show "keeps (counts n) (flush_pending_boundaries channel)"
    by (rule keepsI) (auto simp: counts_def dest: flush_dropped(1))
  show "keeps (counts n) (enter_sensitive_context_at channel now reason)"
    "keeps (counts n) (exit_sensitive_context_at channel now reason)" for now reason
    by (rule keepsI, auto simp: enter_sensitive_context_at_def exit_sensitive_context_at_def counts_def
        update_def doing_def dest!: queue_dropped split: if_splits prod.splits)+
  show "keeps (counts n) (take_reconcile channel now)" for now
    by (rule keepsI) (auto simp: take_reconcile_def take_sensitive_context_reconcile_def counts_def
        dropped_events_def dest!: reconcile_dropped[unfolded dropped_events_def] split: if_splits prod.splits)
  show "keeps (counts n) (\<lambda>s. case reconcile_for_resume channel now s of (s, e, _) \<Rightarrow> (s, e))" for now
    by (rule keepsI) (auto simp: reconcile_for_resume_def take_sensitive_context_reconcile_def counts_def
        dropped_events_def Let_def dest!: reconcile_dropped[unfolded dropped_events_def] split: if_splits prod.splits)
  show "keeps (counts n) (emit_confirmed_password_sample channel is_password now)" for is_password now
    by (rule keepsI) (auto simp: emit_confirmed_password_sample_def counts_def Let_def
        begin_sensitive_transition_def request_sensitive_context_reconcile_def count_dropped_def
        increment_capture_events_dropped_def dropped_events_def drop_tokens_frame(4)[unfolded dropped_events_def]
        split: if_splits channel_state.splits)
  show "foreign_op op \<Longrightarrow> keeps (counts n) (update (set_controls (control_step op)))" for op
  proof -
    have "k_diagnostics (control_step op k) = k_diagnostics k" for k
      by (cases op) (auto simp: control_op_defs Let_def; (rename_tac st on, case_tac st)?; simp)+
    then show ?thesis by (intro keepsI) (auto simp: update_def counts_def dropped_events_def)
  qed
qed

text \<open>
  C25 (\<open>CaptureState::send\<close>): in any run of the pump the counter of dropped capture events counts
  exactly the rows that found the channel full, whatever messages arrived and whatever the
  other threads did to the controls meanwhile.
\<close>

theorem dropped_rows_are_counted:
  assumes "\<forall>m \<in> set ms. message_ok m"
  shows "dropped_events (final (\<lambda>s m. pump_step channel m s) s ms) =
    dropped_events s + word_of_nat (refused (outputs (\<lambda>s m. pump_step channel m s) s ms))"
proof -
  have "counts (dropped_events s) s []" by (simp add: counts_def)
  from dropped.keeps_pump_run[OF assms this, of channel] show ?thesis by (simp add: counts_def)
qed

section \<open>Boundaries go first\<close>

text \<open>
  What the writer believes, from the rows that entered the channel; what the pump tracks
  locally; and whether a boundary was put off to a reconciliation still to come.
\<close>

definition believe :: "sensitive_context_reason set \<Rightarrow> captured \<Rightarrow> sensitive_context_reason set" where
  "believe B row =
     (case c_payload row of
        SensitiveContextEntered r \<Rightarrow> insert r B | SensitiveContextExited r \<Rightarrow> B - {r} | _ \<Rightarrow> B)"

definition belief :: "capture_effect list \<Rightarrow> sensitive_context_reason set" where
  "belief h = foldl (\<lambda>B e. case e of Enqueued row \<Rightarrow> believe B row | _ \<Rightarrow> B) {} h"

definition tracked :: "capture_effect list \<Rightarrow> sensitive_context_reason set" where
  "tracked h = foldl (\<lambda>A e. case e of ContextOn r \<Rightarrow> insert r A | ContextOff r \<Rightarrow> A - {r} | _ \<Rightarrow> A) {} h"

definition outstanding :: "capture_effect list \<Rightarrow> bool" where
  "outstanding h = foldl (\<lambda>b e. case e of Deferred \<Rightarrow> True | Reconciled \<Rightarrow> False | _ \<Rightarrow> b) False h"

lemma pump_history_append [simp]:
  "belief (h @ g) = foldl (\<lambda>B e. case e of Enqueued row \<Rightarrow> believe B row | _ \<Rightarrow> B) (belief h) g"
  "tracked (h @ g) = foldl (\<lambda>A e. case e of ContextOn r \<Rightarrow> insert r A | ContextOff r \<Rightarrow> A - {r} | _ \<Rightarrow> A) (tracked h) g"
  "outstanding (h @ g) = foldl (\<lambda>b e. case e of Deferred \<Rightarrow> True | Reconciled \<Rightarrow> False | _ \<Rightarrow> b) (outstanding h) g"
  by (simp_all add: belief_def tracked_def outstanding_def)

lemma believe_row [simp]:
  "believe B (context_row now entered r) = (if entered then insert r B else B - {r})"
  by (simp add: believe_def context_row_def captured_new_def)

lemma believe_ordinary [simp]: "ordinary row \<Longrightarrow> believe B row = B"
  by (auto simp: ordinary_def believe_def split: event_payload.splits)

definition rows_follow :: "capture_effect list \<Rightarrow> bool" where
  "rows_follow h \<longleftrightarrow>
     (\<forall>before row later. h = before @ Enqueued row # later \<longrightarrow> ordinary row \<longrightarrow> length before < 2 ^ 32 \<longrightarrow>
        outstanding before \<or> belief before \<inter> pump_reasons = tracked before)"

lemma rows_follow_snoc:
  "rows_follow (h @ [e]) \<longleftrightarrow> rows_follow h \<and>
     (\<forall>row. e = Enqueued row \<longrightarrow> ordinary row \<longrightarrow> length h < 2 ^ 32 \<longrightarrow>
        outstanding h \<or> belief h \<inter> pump_reasons = tracked h)"
  (is "?l \<longleftrightarrow> ?r")
proof
  assume l: ?l
  show ?r
  proof (intro conjI allI impI)
    show "rows_follow h" unfolding rows_follow_def
    proof (intro allI impI)
      fix before row later
      assume "h = before @ Enqueued row # later" "ordinary row" "length before < 2 ^ 32"
      then show "outstanding before \<or> belief before \<inter> pump_reasons = tracked before"
        using l unfolding rows_follow_def by (metis append.assoc append_Cons)
    qed
  next
    fix row
    assume "e = Enqueued row" "ordinary row" "length h < 2 ^ 32"
    then show "outstanding h \<or> belief h \<inter> pump_reasons = tracked h"
      using l unfolding rows_follow_def by blast
  qed
next
  assume r: ?r
  show ?l unfolding rows_follow_def
  proof (intro allI impI)
    fix before row later
    assume s: "h @ [e] = before @ Enqueued row # later" "ordinary row" "length before < 2 ^ 32"
    then consider "later = []" "h = before" "e = Enqueued row" | rest where "h = before @ Enqueued row # rest"
      by (cases later rule: rev_cases) auto
    then show "outstanding before \<or> belief before \<inter> pump_reasons = tracked before"
      using r s unfolding rows_follow_def by cases auto
  qed
qed

definition boundary :: "captured \<Rightarrow> bool" where
  "boundary row \<longleftrightarrow> (\<exists>now entered r. row = context_row now entered r)"

lemma boundary_not_ordinary [simp]: "boundary row \<Longrightarrow> \<not> ordinary row"
  by (auto simp: boundary_def)

lemma boundary_context_row [simp]: "boundary (context_row now entered r)"
  by (auto simp: boundary_def)

text \<open>Effects that put no ordinary row into the channel.\<close>

definition quiet_effect :: "capture_effect \<Rightarrow> bool" where
  "quiet_effect e \<longleftrightarrow> (case e of Enqueued row \<Rightarrow> boundary row | _ \<Rightarrow> True)"

lemma rows_follow_quiet: "rows_follow h \<Longrightarrow> \<forall>e \<in> set g. quiet_effect e \<Longrightarrow> rows_follow (h @ g)"
proof (induction g rule: rev_induct)
  case (snoc e g)
  then show ?case unfolding append_assoc[symmetric]
    by (subst rows_follow_snoc) (auto simp: quiet_effect_def)
qed simp

text \<open>The tokens in the shared word are those of the queue, modulo its width.\<close>

definition tokens :: "capture_state \<Rightarrow> nat \<Rightarrow> bool" where
  "tokens s n \<longleftrightarrow> unat (k_sensitive_transition_state (st_controls s)) mod 2 ^ 32 = n mod 2 ^ 32"

lemma two_32: "(2::nat) ^ 32 = 4294967296"
  by simp

lemma low_half_begin: "unat (w + 4294967297 :: 64 word) mod 2 ^ 32 = (unat w + 1) mod 2 ^ 32"
proof -
  have "unat (w + 4294967297 :: 64 word) = (unat w + 4294967297) mod 2 ^ 64" by (simp add: unat_word_ariths)
  then have "unat (w + 4294967297 :: 64 word) mod 2 ^ 32 = (unat w + 4294967297) mod 2 ^ 32"
    by (simp add: mod_mod_cancel)
  also have "\<dots> = (unat w + 1) mod 2 ^ 32"
    unfolding two_32 using mod_add_self2[of "unat w + 1" 4294967296] by (simp add: add.commute)
  finally show ?thesis .
qed

lemma tokens_begin: "tokens s n \<Longrightarrow> tokens (set_controls begin_sensitive_transition s) (Suc n)"
  unfolding tokens_def begin_sensitive_transition_def step_word
  using low_half_begin[of "k_sensitive_transition_state (st_controls s)"]
  by (simp add: algebra_simps) (metis add.commute mod_Suc_eq plus_1_eq_Suc)

lemma low_half_drop:
  assumes "unat (w :: 64 word) mod 2 ^ 32 = Suc n mod 2 ^ 32"
  shows "unat (w - 1) mod 2 ^ 32 = n mod 2 ^ 32"
proof -
  have "unat ((w - 1) + 1) = (unat (w - 1) + 1) mod 2 ^ 64"
    by (simp only: unat_word_ariths(1) unat_1) simp
  then have "unat w = (unat (w - 1) + 1) mod 2 ^ 64" by simp
  then have "unat w mod 2 ^ 32 = (unat (w - 1) + 1) mod 2 ^ 32"
    by (simp add: mod_mod_cancel)
  with assms have "(unat (w - 1) + 1) mod 2 ^ 32 = (n + 1) mod 2 ^ 32" by simp
  then show ?thesis by (simp only: Suc_eq_plus1[symmetric] mod_Suc) (simp split: if_splits)
qed

lemma tokens_drop: "tokens s (Suc n) \<Longrightarrow> tokens (drop_tokens 1 s) n"
  using low_half_drop[of "k_sensitive_transition_state (st_controls s)" n]
  by (simp add: tokens_def drop_tokens_def drop_sensitive_transition_def)

lemma tokens_drop_all: "tokens s (m + n) \<Longrightarrow> tokens (drop_tokens m s) n"
proof (induction m arbitrary: s)
  case (Suc m)
  have "drop_tokens (Suc m) s = drop_tokens m (drop_tokens 1 s)"
    by (simp add: drop_tokens_def funpow_swap1)
  with Suc tokens_drop[of s "m + n"] show ?case by simp
qed (simp add: drop_tokens_def)

lemma tokens_frame:
  "k_sensitive_transition_state (st_controls t) = k_sensitive_transition_state (st_controls s) \<Longrightarrow>
   tokens t n = tokens s n"
  by (simp add: tokens_def)

lemma tokens_active:
  assumes "tokens s n" "0 < n" "n < 2 ^ 32"
  shows "sensitive_transition_active (st_controls s)"
proof -
  let ?w = "k_sensitive_transition_state (st_controls s)"
  have "unat ?w = (unat ?w div 2 ^ 32) * 2 ^ 32 + n"
    using assms div_mult_mod_eq[of "unat ?w" "2 ^ 32"] by (simp add: tokens_def)
  with active_low_half[OF this assms(3)] assms(2) show ?thesis
    by (simp add: sensitive_transition_active_def)
qed

text \<open>
  The invariant, with the boundaries \<open>extra\<close> in flight behind the queue: each holds a token.
\<close>

definition ordered_with :: "captured list \<Rightarrow> capture_state \<Rightarrow> capture_effect list \<Rightarrow> bool" where
  "ordered_with extra s h \<longleftrightarrow>
     (let queue = st_pending_sensitive_boundaries s @ extra in
      tokens s (length queue) \<and> length queue \<le> length h \<and> (\<forall>row \<in> set queue. boundary row) \<and>
      tracked h = st_active_sensitive_reasons s \<and> st_active_sensitive_reasons s \<subseteq> pump_reasons \<and>
      (\<not> outstanding h \<longrightarrow> foldl believe (belief h) queue \<inter> pump_reasons = st_active_sensitive_reasons s) \<and>
      (outstanding h \<longrightarrow> k_sensitive_reconcile_pending (st_controls s)) \<and>
      rows_follow h)"

definition connected :: "(nat \<Rightarrow> channel_state) \<Rightarrow> bool" where
  "connected channel \<longleftrightarrow> (\<forall>n. channel n \<noteq> Disconnected)"

definition ordered :: "(nat \<Rightarrow> channel_state) \<Rightarrow> capture_state \<Rightarrow> capture_effect list \<Rightarrow> bool" where
  "ordered channel s h \<longleftrightarrow> (connected channel \<longrightarrow> ordered_with [] s h)"

lemma ordered_with_frame:
  "core s' = core s \<Longrightarrow> ordered_with extra s' h = ordered_with extra s h"
  by (simp add: ordered_with_def core_def tokens_def)

text \<open>The retry loop moves a prefix of the queue into the channel.\<close>

lemma flush_loop_prefix:
  assumes "flush_loop channel rows s = (s', e)" "connected channel" "tokens s (length rows + k)"
  shows "\<exists>sent. rows = sent @ st_pending_sensitive_boundaries s' \<and> e = map Enqueued sent \<and>
    tokens s' (length (st_pending_sensitive_boundaries s') + k) \<and>
    st_active_sensitive_reasons s' = st_active_sensitive_reasons s \<and>
    k_sensitive_reconcile_pending (st_controls s') = k_sensitive_reconcile_pending (st_controls s)"
  using assms(1,3)
proof (induction rows arbitrary: s e)
  case Nil
  then show ?case by (auto intro: tokens_frame[THEN iffD1, rotated])
next
  case (Cons row rows)
  let ?t = "s\<lparr>st_sends := st_sends s + 1\<rparr>"
  have t: "tokens ?t (Suc (length rows + k))" using Cons.prems(2) by (simp add: tokens_def)
  show ?case
  proof (cases "channel (st_sends s)")
    case Accepting
    with Cons.prems(1) obtain e' where e: "flush_loop channel rows (drop_tokens 1 ?t) = (s', e')" "e = Enqueued row # e'"
      by (auto simp: Let_def split: prod.splits)
    from Cons.IH[OF e(1) tokens_drop[OF t]] obtain sent where
      "rows = sent @ st_pending_sensitive_boundaries s'" "e' = map Enqueued sent"
      "tokens s' (length (st_pending_sensitive_boundaries s') + k)"
      "st_active_sensitive_reasons s' = st_active_sensitive_reasons s"
      "k_sensitive_reconcile_pending (st_controls s') = k_sensitive_reconcile_pending (st_controls s)"
      by auto
    with e(2) show ?thesis by (intro exI[of _ "row # sent"]) simp
  next
    case Full
    with Cons.prems(1) t show ?thesis by (intro exI[of _ "[]"]) (auto simp: Let_def tokens_def)
  next
    case Disconnected
    with assms(2) show ?thesis by (simp add: connected_def)
  qed
qed

lemma foldl_enqueued [simp]:
  "foldl (\<lambda>B e. case e of Enqueued row \<Rightarrow> believe B row | _ \<Rightarrow> B) B (map Enqueued rows) = foldl believe B rows"
  "foldl (\<lambda>A e. case e of ContextOn r \<Rightarrow> insert r A | ContextOff r \<Rightarrow> A - {r} | _ \<Rightarrow> A) A (map Enqueued rows) = A"
  "foldl (\<lambda>b e. case e of Deferred \<Rightarrow> True | Reconciled \<Rightarrow> False | _ \<Rightarrow> b) b (map Enqueued rows) = b"
  by (induction rows arbitrary: A B b) auto

lemma flush_unchecked_ordered:
  assumes "ordered_with extra s h" "connected channel" "flush_pending_unchecked channel s = (s', e)"
  shows "ordered_with extra s' (h @ e)"
proof -
  let ?q = "st_pending_sensitive_boundaries s"
  from assms(1) have o: "tokens s (length ?q + length extra)" "length ?q + length extra \<le> length h"
    "\<forall>row \<in> set (?q @ extra). boundary row"
    "tracked h = st_active_sensitive_reasons s" "st_active_sensitive_reasons s \<subseteq> pump_reasons"
    "\<not> outstanding h \<longrightarrow> foldl believe (belief h) (?q @ extra) \<inter> pump_reasons = st_active_sensitive_reasons s"
    "outstanding h \<longrightarrow> k_sensitive_reconcile_pending (st_controls s)" "rows_follow h"
    by (simp_all add: ordered_with_def Let_def)
  from flush_loop_prefix[OF assms(3)[unfolded flush_pending_unchecked_def] assms(2) o(1)]
  obtain sent where p: "?q = sent @ st_pending_sensitive_boundaries s'"
    "e = map Enqueued sent" "tokens s' (length (st_pending_sensitive_boundaries s') + length extra)"
    "st_active_sensitive_reasons s' = st_active_sensitive_reasons s"
    "k_sensitive_reconcile_pending (st_controls s') = k_sensitive_reconcile_pending (st_controls s)" by blast
  have "\<forall>e \<in> set (map Enqueued sent). quiet_effect e"
    using o(3) p(1) by (auto simp: quiet_effect_def)
  with o(8) have "rows_follow (h @ e)" using rows_follow_quiet p(2) by blast
  moreover have "length (st_pending_sensitive_boundaries s') + length extra \<le> length h + length e"
  proof -
    have "length ?q = length sent + length (st_pending_sensitive_boundaries s')" by (subst p(1)) simp
    with o(2) show ?thesis by simp
  qed
  moreover have "foldl believe (belief (h @ e)) (st_pending_sensitive_boundaries s' @ extra) =
      foldl believe (belief h) (?q @ extra)"
    by (simp add: p(1,2))
  ultimately show ?thesis
    using o p unfolding ordered_with_def Let_def by auto
qed

lemma clear_pending_parts [simp]:
  "st_pending_sensitive_boundaries (clear_pending s) = []"
  "st_active_sensitive_reasons (clear_pending s) = st_active_sensitive_reasons s"
  "k_sensitive_reconcile_pending (st_controls (clear_pending s)) = k_sensitive_reconcile_pending (st_controls s)"
  by (simp_all add: clear_pending_def)

lemma tokens_clear:
  assumes "tokens s (length (st_pending_sensitive_boundaries s) + n)"
  shows "tokens (clear_pending s) n"
  using tokens_drop_all[OF assms] by (simp add: clear_pending_def tokens_def)

text \<open>Putting a boundary off: the queue is forgotten and a reconciliation requested.\<close>

lemma deferred_ordered:
  assumes "ordered_with extra s h"
  shows "ordered_with [] (drop_tokens (length extra)
    (clear_pending (set_controls request_sensitive_context_reconcile s))) (h @ [Deferred])"
proof -
  let ?t = "set_controls request_sensitive_context_reconcile s"
  have "tokens ?t (length (st_pending_sensitive_boundaries ?t) + length extra)"
    using assms by (simp add: ordered_with_def Let_def tokens_def request_sensitive_context_reconcile_def)
  from tokens_drop_all[of _ "length extra" 0] tokens_clear[OF this]
  have "tokens (drop_tokens (length extra) (clear_pending ?t)) 0" by simp
  moreover have "rows_follow (h @ [Deferred])"
    using assms by (intro rows_follow_quiet) (simp_all add: ordered_with_def Let_def quiet_effect_def)
  moreover have "k_sensitive_reconcile_pending (st_controls ?t)"
    by (simp add: request_sensitive_context_reconcile_def)
  ultimately show ?thesis using assms by (simp add: ordered_with_def Let_def)
qed

lemma flush_ordered:
  assumes "ordered_with [] s h" "connected channel" "flush_pending_boundaries channel s = (s', e)"
  shows "ordered_with [] s' (h @ e)"
  using assms(3) flush_unchecked_ordered[OF assms(1,2)] deferred_ordered[OF assms(1)] assms(1)
  by (auto simp: flush_pending_boundaries_def drop_tokens_def split: if_splits)

text \<open>One more send of an ordinary row.\<close>

lemma ordered_with_snoc:
  assumes "ordered_with extra s h" "rows_follow (h @ [x])"
    and "belief (h @ [x]) = belief h" "tracked (h @ [x]) = tracked h" "outstanding (h @ [x]) = outstanding h"
  shows "ordered_with extra s (h @ [x])"
  using assms(1,2) unfolding ordered_with_def assms(3-5) by simp

lemma send_ordered:
  assumes "ordered channel s h" "ordinary row" "send channel row s = (s', e)"
  shows "ordered channel s' (h @ e)"
  unfolding ordered_def
proof
  assume c: "connected channel"
  with assms(1) have o: "ordered_with [] s h" by (simp add: ordered_def)
  show "ordered_with [] s' (h @ e)"
  proof (cases "enabled_for (st_controls s) row")
    case False
    with assms(3) o show ?thesis by (simp add: send_def)
  next
    case True
    obtain t e1 where f: "flush_pending_boundaries channel s = (t, e1)" by fastforce
    have t: "ordered_with [] t (h @ e1)" by (rule flush_ordered[OF o c f])
    have row: "rows_follow ((h @ e1) @ [Enqueued row])"
    proof -
      have "outstanding (h @ e1) \<or> belief (h @ e1) \<inter> pump_reasons = tracked (h @ e1)" if "length (h @ e1) < 2 ^ 32"
      proof -
        have idle: "\<not> sensitive_transition_active (st_controls s)" "\<not> sensitive_transition_should_defer (st_controls s)"
          using True by (simp_all add: enabled_for_def is_suspended_def)
        have "length (st_pending_sensitive_boundaries s) < 2 ^ 32"
          using o that by (simp add: ordered_with_def Let_def)
        with idle(1) have "st_pending_sensitive_boundaries s = []"
          using tokens_active[of s "length (st_pending_sensitive_boundaries s)"] o
          by (auto simp: ordered_with_def Let_def)
        with f idle(2) have "st_pending_sensitive_boundaries t = []"
          by (auto simp: flush_pending_boundaries_def flush_pending_unchecked_def)
        with t show ?thesis by (auto simp: ordered_with_def Let_def)
      qed
      moreover have "rows_follow (h @ e1)" using t by (simp add: ordered_with_def Let_def)
      ultimately show ?thesis by (subst rows_follow_snoc) auto
    qed
    have refuse: "rows_follow ((h @ e1) @ [Refused row])"
      using rows_follow_quiet[of "h @ e1" "[Refused row]"] t
      by (simp add: ordered_with_def Let_def quiet_effect_def del: pump_history_append)
    have same: "belief ((h @ e1) @ [x]) = belief (h @ e1)" "tracked ((h @ e1) @ [x]) = tracked (h @ e1)"
      "outstanding ((h @ e1) @ [x]) = outstanding (h @ e1)" if "x = Enqueued row \<or> x = Refused row" for x
      using that assms(2) by (auto simp only: pump_history_append foldl.simps capture_effect.case believe_ordinary)
    let ?u = "t\<lparr>st_sends := st_sends t + 1\<rparr>"
    show ?thesis
    proof (cases "channel (st_sends t)")
      case Accepting
      with assms(3) True f have "s' = ?u" "e = e1 @ [Enqueued row]" by (auto simp: send_def Let_def)
      with ordered_with_snoc[OF t row same] show ?thesis by (simp add: ordered_with_def tokens_def)
    next
      case Full
      with assms(3) True f have "s' = count_dropped ?u" "e = e1 @ [Refused row]" by (auto simp: send_def Let_def)
      with ordered_with_snoc[OF t refuse same] show ?thesis
        by (simp add: ordered_with_def tokens_def count_dropped_def)
    next
      case Disconnected
      with c show ?thesis by (simp add: connected_def)
    qed
  qed
qed


text \<open>A boundary with its token in hand goes out, joins the queue, or is put off with it.\<close>

lemma ordered_with_parts:
  "ordered_with extra s h \<longleftrightarrow>
     tokens s (length (st_pending_sensitive_boundaries s @ extra)) \<and>
     length (st_pending_sensitive_boundaries s @ extra) \<le> length h \<and>
     (\<forall>row \<in> set (st_pending_sensitive_boundaries s @ extra). boundary row) \<and>
     tracked h = st_active_sensitive_reasons s \<and> st_active_sensitive_reasons s \<subseteq> pump_reasons \<and>
     (\<not> outstanding h \<longrightarrow> foldl believe (belief h) (st_pending_sensitive_boundaries s @ extra) \<inter> pump_reasons =
        st_active_sensitive_reasons s) \<and>
     (outstanding h \<longrightarrow> k_sensitive_reconcile_pending (st_controls s)) \<and> rows_follow h"
  by (simp only: ordered_with_def Let_def)

lemma queued_ordered:
  assumes "ordered_with [row] s h"
  shows "ordered_with [] (s\<lparr>st_pending_sensitive_boundaries := st_pending_sensitive_boundaries s @ [row]\<rparr>) h"
  using assms by (simp add: ordered_with_parts tokens_def)

lemma sent_ordered:
  assumes "ordered_with [row] s h" "st_pending_sensitive_boundaries s = []"
  shows "ordered_with [] (drop_tokens 1 s) (h @ [Enqueued row])"
proof -
  have o: "tokens s (Suc 0)" "boundary row" "tracked h = st_active_sensitive_reasons s"
    "st_active_sensitive_reasons s \<subseteq> pump_reasons"
    "\<not> outstanding h \<longrightarrow> believe (belief h) row \<inter> pump_reasons = st_active_sensitive_reasons s"
    "outstanding h \<longrightarrow> k_sensitive_reconcile_pending (st_controls s)" "rows_follow h"
    using assms by (simp_all add: ordered_with_parts)
  have "rows_follow (h @ [Enqueued row])"
    using o(2,7) by (intro rows_follow_quiet) (simp_all add: quiet_effect_def)
  with o tokens_drop[OF o(1)] assms(2) show ?thesis by (simp add: ordered_with_parts)
qed

lemma sends_ordered: "ordered_with extra (s\<lparr>st_sends := n\<rparr>) h = ordered_with extra s h"
  by (simp add: ordered_with_parts tokens_def)

lemma queue_ordered:
  assumes "ordered_with [row] s h" "connected channel" "queue_or_send_boundary channel row s = (s', e)"
  shows "ordered_with [] s' (h @ e)"
proof (cases "sensitive_transition_should_defer (st_controls s)")
  case True
  with assms(3) deferred_ordered[OF assms(1)] show ?thesis by (simp add: queue_or_send_boundary_def)
next
  case False
  obtain t e1 where f: "flush_pending_unchecked channel s = (t, e1)" by fastforce
  have t: "ordered_with [row] t (h @ e1)" by (rule flush_unchecked_ordered[OF assms(1,2) f])
  have out: "queue_or_send_unchecked channel row s = (s', e)"
    using assms(3) False by (simp add: queue_or_send_boundary_def)
  show ?thesis
  proof (cases "st_pending_sensitive_boundaries t = []")
    case empty: True
    let ?u = "t\<lparr>st_sends := st_sends t + 1\<rparr>"
    have u: "ordered_with [row] ?u (h @ e1)" using t by (simp only: sends_ordered)
    show ?thesis
    proof (cases "channel (st_sends t)")
      case Accepting
      with out f empty have "s' = drop_tokens 1 ?u" "e = e1 @ [Enqueued row]"
        by (auto simp: queue_or_send_unchecked_def Let_def)
      with sent_ordered[OF u] empty show ?thesis by (simp del: pump_history_append)
    next
      case Full
      with out f empty have "s' = ?u\<lparr>st_pending_sensitive_boundaries := [row]\<rparr>" "e = e1"
        by (auto simp: queue_or_send_unchecked_def Let_def)
      with queued_ordered[OF u] empty show ?thesis by simp
    next
      case Disconnected
      with assms(2) show ?thesis by (simp add: connected_def)
    qed
  next
    case False
    with out f have "s' = t\<lparr>st_pending_sensitive_boundaries := st_pending_sensitive_boundaries t @ [row]\<rparr>" "e = e1"
      by (auto simp: queue_or_send_unchecked_def Let_def)
    with queued_ordered[OF t] show ?thesis by simp
  qed
qed

lemma step_queue_ordered:
  assumes "ordered channel s h" "reason \<in> pump_reasons"
    and "\<And>h. ordered_with [] s h \<Longrightarrow> ordered_with [row] t (h @ [x])"
    and "queue_or_send_boundary channel row t = (s', e)"
  shows "ordered channel s' (h @ x # e)"
  using queue_ordered[OF assms(3) _ assms(4), of h] assms(1) unfolding ordered_def by simp

lemma enter_ordered:
  assumes "reason \<in> pump_reasons"
  shows "keeps (ordered channel) (enter_sensitive_context_at channel now reason)"
proof (rule keepsI)
  fix s h s' e
  assume o: "ordered channel s h" "enter_sensitive_context_at channel now reason s = (s', e)"
  let ?row = "context_row now True reason"
  let ?t = "(set_controls begin_sensitive_transition s)
    \<lparr>st_active_sensitive_reasons := insert reason (st_active_sensitive_reasons s)\<rparr>"
  show "ordered channel s' (h @ e)"
  proof (cases "reason \<in> st_active_sensitive_reasons s")
    case False
    then obtain e2 where q: "queue_or_send_boundary channel ?row ?t = (s', e2)" "e = ContextOn reason # e2"
      using o(2) by (auto simp: enter_sensitive_context_at_def update_def doing_def split: prod.splits)
    have "ordered_with [?row] ?t (h @ [ContextOn reason])" if "ordered_with [] s h" for h
    proof -
      have "tokens ?t (Suc (length (st_pending_sensitive_boundaries s)))"
        using that tokens_begin[of s] by (simp add: ordered_with_parts tokens_def)
      moreover have "rows_follow (h @ [ContextOn reason])"
        using that by (intro rows_follow_quiet) (simp_all add: ordered_with_parts quiet_effect_def)
      ultimately show ?thesis using that assms
        by (auto simp: ordered_with_parts begin_sensitive_transition_def step_word)
    qed
    from step_queue_ordered[OF o(1) assms this q(1)] q(2) show ?thesis by simp
  qed (use o in \<open>simp add: enter_sensitive_context_at_def\<close>)
qed

lemma exit_ordered:
  assumes "reason \<in> pump_reasons"
  shows "keeps (ordered channel) (exit_sensitive_context_at channel now reason)"
proof (rule keepsI)
  fix s h s' e
  assume o: "ordered channel s h" "exit_sensitive_context_at channel now reason s = (s', e)"
  let ?row = "context_row now False reason"
  let ?t = "(set_controls begin_sensitive_transition s)
    \<lparr>st_active_sensitive_reasons := st_active_sensitive_reasons s - {reason}\<rparr>"
  show "ordered channel s' (h @ e)"
  proof (cases "reason \<in> st_active_sensitive_reasons s")
    case True
    then obtain e2 where q: "queue_or_send_boundary channel ?row ?t = (s', e2)" "e = ContextOff reason # e2"
      using o(2) by (auto simp: exit_sensitive_context_at_def update_def doing_def split: prod.splits)
    have "ordered_with [?row] ?t (h @ [ContextOff reason])" if "ordered_with [] s h" for h
    proof -
      have "tokens ?t (Suc (length (st_pending_sensitive_boundaries s)))"
        using that tokens_begin[of s] by (simp add: ordered_with_parts tokens_def)
      moreover have "rows_follow (h @ [ContextOff reason])"
        using that by (intro rows_follow_quiet) (simp_all add: ordered_with_parts quiet_effect_def)
      ultimately show ?thesis using that assms
        by (auto simp: ordered_with_parts begin_sensitive_transition_def step_word)
    qed
    from step_queue_ordered[OF o(1) assms this q(1)] q(2) show ?thesis by simp
  qed (use o in \<open>simp add: exit_sensitive_context_at_def\<close>)
qed


text \<open>A reconciliation tells the writer what the pump tracks, whatever it believed before.\<close>

lemma believe_entered: "foldl believe B (map (context_row now True) rs) = B \<union> set rs"
  by (induction rs arbitrary: B) auto

lemma believe_exited: "foldl believe B (map (context_row now False) rs) = B - set rs"
  by (induction rs arbitrary: B) auto

lemma send_blocking_connected:
  "connected channel \<Longrightarrow>
   send_blocking_rows channel rows s = (s\<lparr>st_sends := st_sends s + length rows\<rparr>, map Enqueued rows, True)"
  by (induction rows arbitrary: s) (auto simp: Let_def connected_def)

lemma reconciled_belief:
  assumes "A \<subseteq> pump_reasons"
  shows "foldl believe B (map (context_row now False) RECONCILED_REASONS @
      map (context_row now True) (filter (\<lambda>r. r \<in> A \<union> (if p then {PasswordField} else {})) RECONCILED_REASONS))
    \<inter> pump_reasons = A"
  using assms unfolding foldl_append believe_entered believe_exited
  by (auto simp: RECONCILED_REASONS_def pump_reasons_def)

lemma reconcile_ordered:
  assumes "ordered_with [] s h" "connected channel" "reconcile_after_pause channel now t = (s', e, ok)"
    and "t = set_controls (\<lambda>k. fst (take_sensitive_context_reconcile k)) s"
  shows "ordered_with [] s' (h @ e)"
proof -
  let ?rows = "map (context_row now False) RECONCILED_REASONS @
    map (context_row now True) (filter (\<lambda>r. r \<in> st_active_sensitive_reasons s \<union>
      (if k_password_field_confirmed_active (st_controls t) then {PasswordField} else {})) RECONCILED_REASONS)"
  have t: "st_active_sensitive_reasons t = st_active_sensitive_reasons s"
    "st_pending_sensitive_boundaries t = st_pending_sensitive_boundaries s"
    "tokens t (length (st_pending_sensitive_boundaries t) + 0)"
    using assms(1,4) by (simp_all add: ordered_with_parts tokens_def take_sensitive_context_reconcile_def)
  have s': "s' = (clear_pending t)\<lparr>st_sends := st_sends (clear_pending t) + length ?rows\<rparr>"
    and e: "e = map Enqueued ?rows @ [Reconciled]"
    using assms(3) by (simp_all add: reconcile_after_pause_def send_blocking_connected[OF assms(2)] t(1))
  have "tokens s' 0" using tokens_clear[OF t(3)] by (simp add: s' tokens_def)
  moreover have "rows_follow (h @ e)"
    using assms(1) by (intro rows_follow_quiet) (auto simp: ordered_with_parts quiet_effect_def e)
  moreover have "belief (h @ e) = foldl believe (belief h) ?rows"
    by (simp only: pump_history_append e foldl_append foldl_enqueued foldl.simps capture_effect.case)
  moreover have "tracked (h @ e) = tracked h" "\<not> outstanding (h @ e)"
    by (simp_all only: pump_history_append e foldl_append foldl_enqueued foldl.simps capture_effect.case simp_thms)
  moreover have "foldl believe (belief h) ?rows \<inter> pump_reasons = st_active_sensitive_reasons s"
    using assms(1) by (intro reconciled_belief) (simp add: ordered_with_parts)
  moreover have "st_active_sensitive_reasons s' = st_active_sensitive_reasons s"
    "st_pending_sensitive_boundaries s' = []" by (simp_all add: s' t(1))
  ultimately show ?thesis using assms(1) unfolding ordered_with_parts by simp
qed

lemma take_ordered: "keeps (ordered channel) (take_reconcile channel now)"
proof (rule keepsI)
  fix s h s' e
  assume o: "ordered channel s h" "take_reconcile channel now s = (s', e)"
  show "ordered channel s' (h @ e)" unfolding ordered_def
  proof
    assume c: "connected channel"
    with o(1) have s: "ordered_with [] s h" by (simp add: ordered_def)
    show "ordered_with [] s' (h @ e)"
    proof (cases "k_sensitive_reconcile_pending (st_controls s)")
      case True
      then obtain ok where "reconcile_after_pause channel now
          (set_controls (\<lambda>k. fst (take_sensitive_context_reconcile k)) s) = (s', e, ok)"
        using o(2) by (auto simp: take_reconcile_def take_sensitive_context_reconcile_def split: prod.splits)
      from reconcile_ordered[OF s c this refl] show ?thesis .
    next
      case False
      with o(2) s show ?thesis
        by (auto simp: take_reconcile_def take_sensitive_context_reconcile_def ordered_with_parts tokens_def)
    qed
  qed
qed

lemma resume_ordered: "keeps (ordered channel) (\<lambda>s. case reconcile_for_resume channel now s of (s, e, _) \<Rightarrow> (s, e))"
proof (rule keepsI)
  fix s h s' e
  assume o: "ordered channel s h" "(case reconcile_for_resume channel now s of (s, e, _) \<Rightarrow> (s, e)) = (s', e)"
  show "ordered channel s' (h @ e)" unfolding ordered_def
  proof
    assume c: "connected channel"
    with o(1) have s: "ordered_with [] s h" by (simp add: ordered_def)
    show "ordered_with [] s' (h @ e)"
    proof (cases "sensitive_transition_active (st_controls s)")
      case True
      with o(2) s show ?thesis by (auto simp: reconcile_for_resume_def)
    next
      case False
      then obtain ok where "reconcile_after_pause channel now
          (set_controls (\<lambda>k. fst (take_sensitive_context_reconcile k)) s) = (s', e, ok)"
        using o(2) by (auto simp: reconcile_for_resume_def Let_def split: prod.splits)
      from reconcile_ordered[OF s c this refl] show ?thesis .
    qed
  qed
qed

text \<open>The password field is no context of the pump: its rows move no belief about one.\<close>

lemma believe_inter: "foldl believe B q \<inter> pump_reasons = foldl believe (B \<inter> pump_reasons) q \<inter> pump_reasons"
proof (induction q rule: rev_induct)
  case (snoc row q)
  have "believe X row \<inter> pump_reasons = believe (X \<inter> pump_reasons) row \<inter> pump_reasons" for X
    by (auto simp: believe_def split: event_payload.splits)
  with snoc show ?case by (metis (no_types, lifting) foldl_Cons foldl_Nil foldl_append)
qed simp

lemma password_belief:
  "foldl believe (believe B (context_row now on PasswordField)) q \<inter> pump_reasons = foldl believe B q \<inter> pump_reasons"
proof -
  have "believe B (context_row now on PasswordField) \<inter> pump_reasons = B \<inter> pump_reasons"
    by (auto simp: pump_reasons_def)
  then show ?thesis by (metis believe_inter)
qed

lemma bracket_ordered:
  assumes "ordered_with [] s h" "tokens t (Suc (length (st_pending_sensitive_boundaries s)))"
    and "st_pending_sensitive_boundaries t = st_pending_sensitive_boundaries s"
    and "st_active_sensitive_reasons t = st_active_sensitive_reasons s"
    and "k_sensitive_reconcile_pending (st_controls s) \<longrightarrow> k_sensitive_reconcile_pending (st_controls t)"
  shows "ordered_with [] (drop_tokens 1 t) h"
  using assms tokens_drop[OF assms(2)] by (simp add: ordered_with_parts)


lemma snoc_deferred:
  assumes "ordered_with [] s h" "k_sensitive_reconcile_pending (st_controls s)"
  shows "ordered_with [] s (h @ [Deferred])"
proof -
  have "rows_follow (h @ [Deferred])"
    using assms(1) by (intro rows_follow_quiet) (simp_all add: ordered_with_parts quiet_effect_def)
  with assms show ?thesis by (simp add: ordered_with_parts)
qed

lemma snoc_refused:
  assumes "ordered_with [] s h"
  shows "ordered_with [] s (h @ [Refused row])"
proof -
  have "rows_follow (h @ [Refused row])"
    using assms by (intro rows_follow_quiet) (simp_all add: ordered_with_parts quiet_effect_def)
  with assms show ?thesis by (simp add: ordered_with_parts)
qed

lemma snoc_password:
  assumes "ordered_with [] s h"
  shows "ordered_with [] s (h @ [Enqueued (context_row now on PasswordField)])"
proof -
  have "rows_follow (h @ [Enqueued (context_row now on PasswordField)])"
    using assms by (intro rows_follow_quiet) (simp_all add: ordered_with_parts quiet_effect_def)
  with assms password_belief[of "belief h" now on] show ?thesis
    by (simp add: ordered_with_parts del: believe_row)
qed

lemma password_ordered: "keeps (ordered channel) (emit_confirmed_password_sample channel is_password now)"
proof (rule keepsI)
  fix s h s' e
  assume o: "ordered channel s h" "emit_confirmed_password_sample channel is_password now s = (s', e)"
  let ?flags = "\<lambda>on k. k\<lparr>k_password_field_active := on, k_password_field_confirmed_active := on\<rparr>"
  let ?previous = "k_password_field_confirmed_active (st_controls s)"
  let ?t = "set_controls (?flags is_password \<circ> begin_sensitive_transition) s"
  let ?u = "?t\<lparr>st_sends := st_sends s + 1\<rparr>"
  let ?row = "context_row now is_password PasswordField"
  show "ordered channel s' (h @ e)" unfolding ordered_def
  proof
    assume c: "connected channel"
    with o(1) have s: "ordered_with [] s h" by (simp add: ordered_def)
    have begun: "tokens ?t (Suc (length (st_pending_sensitive_boundaries s)))"
      using tokens_begin[of s] s by (simp add: ordered_with_parts tokens_def)
    have dropped: "ordered_with [] (drop_tokens 1 x) h"
      if "k_sensitive_transition_state (st_controls x) = k_sensitive_transition_state (st_controls ?t)"
        "st_pending_sensitive_boundaries x = st_pending_sensitive_boundaries s"
        "st_active_sensitive_reasons x = st_active_sensitive_reasons s"
        "k_sensitive_reconcile_pending (st_controls s) \<longrightarrow> k_sensitive_reconcile_pending (st_controls x)" for x
      using bracket_ordered[OF s, of x] begun tokens_frame[OF that(1)] that(2-4) by simp
    note out = o(2)[unfolded emit_confirmed_password_sample_def Let_def]
    consider "?previous = is_password" | "?previous \<noteq> is_password" "sensitive_transition_should_defer (st_controls ?t)"
      | "?previous \<noteq> is_password" "\<not> sensitive_transition_should_defer (st_controls ?t)" by blast
    then show "ordered_with [] s' (h @ e)"
    proof cases
      case 1
      with out have "s' = drop_tokens 1 ?t" "e = []" by (auto split: if_splits)
      with dropped[of ?t] show ?thesis by (simp add: begin_sensitive_transition_def)
    next
      case 2
      with out have "s' = drop_tokens 1 (set_controls request_sensitive_context_reconcile ?t)" "e = [Deferred]"
        by (auto split: if_splits)
      with snoc_deferred[OF dropped[of "set_controls request_sensitive_context_reconcile ?t"]] show ?thesis
        by (simp add: request_sensitive_context_reconcile_def)
    next
      case 3
      show ?thesis
      proof (cases "channel (st_sends s)")
        case Accepting
        with 3 out have "s' = drop_tokens 1 ?u" "e = [Enqueued ?row]" by (auto split: if_splits)
        with snoc_password[OF dropped[of ?u]] show ?thesis
          by (simp add: begin_sensitive_transition_def del: pump_history_append)
      next
        case Full
        with 3 out have "s' = drop_tokens 1 (set_controls (?flags ?previous) (count_dropped ?u))" "e = [Refused ?row]"
          by (auto split: if_splits)
        with snoc_refused[OF dropped[of "set_controls (?flags ?previous) (count_dropped ?u)"]] show ?thesis
          by (simp add: begin_sensitive_transition_def count_dropped_def del: pump_history_append)
      next
        case Disconnected
        with c show ?thesis by (simp add: connected_def)
      qed
    qed
  qed
qed

lemma foreign_ordered: "foreign_op op \<Longrightarrow> keeps (ordered channel) (update (set_controls (control_step op)))"
proof (rule keepsI)
  fix s h s' and e :: "capture_effect list"
  assume o: "foreign_op op" "ordered channel s h" "update (set_controls (control_step op)) s = (s', e)"
  have "k_sensitive_transition_state (control_step op k) = k_sensitive_transition_state k" for k
    using o(1) by (intro transition_word_frame) (auto simp: foreign_op_def)
  moreover have enabled_frame: "k_sensitive_reconcile_pending (set_enabled k st on) = k_sensitive_reconcile_pending k" for k st on
    by (cases st) simp_all
  moreover have "k_sensitive_reconcile_pending k \<longrightarrow> k_sensitive_reconcile_pending (control_step op k)" for k
    using o(1) enabled_frame by (cases op) (auto simp: foreign_op_def control_op_defs Let_def)
  ultimately show "ordered channel s' (h @ e)"
    using o(2,3) by (auto simp: update_def ordered_def ordered_with_parts tokens_def)
qed

interpretation boundaries: pump_invariant channel "ordered channel" for channel
proof
  show "ordered channel s h \<Longrightarrow> core s' = core s \<Longrightarrow> ordered channel s' h" for s h s'
    using ordered_with_frame unfolding ordered_def by blast
  show "ordinary row \<Longrightarrow> keeps (ordered channel) (send channel row)" for row
    using send_ordered by (auto intro: keepsI)
  show "keeps (ordered channel) (flush_pending_boundaries channel)"
    using flush_ordered by (auto intro!: keepsI simp: ordered_def)
qed (simp_all add: enter_ordered exit_ordered take_ordered resume_ordered password_ordered foreign_ordered)

lemma boundaries_run:
  assumes "\<forall>n. channel n \<noteq> Disconnected" "k_sensitive_transition_state controls = 0"
    and "\<forall>m \<in> set ms. message_ok m"
  shows "ordered_with [] (final (\<lambda>s m. pump_step channel m s) (capture_state_new env controls on tick) ms)
    (outputs (\<lambda>s m. pump_step channel m s) (capture_state_new env controls on tick) ms)"
proof -
  have "ordered channel (capture_state_new env controls on tick) []"
    using assms(2)
    by (simp add: ordered_def ordered_with_parts tokens_def capture_state_new_def belief_def tracked_def
        outstanding_def rows_follow_def)
  from boundaries.keeps_pump_run[OF assms(3) this] assms(1) show ?thesis
    by (simp add: ordered_def connected_def)
qed

text \<open>
  C8 (\<open>CaptureState\<close>): as long as the writer's channel is connected, no ordinary row enters it
  ahead of a sensitive-context boundary it follows.  In any run of the pump, when a row enters
  the channel the writer has already been told of exactly the session and desktop contexts the
  pump tracks at that moment, unless a boundary was put off to a reconciliation that is still
  owed; the bound is the width of the shared token counter.
\<close>

theorem rows_never_overtake_boundaries:
  assumes "\<forall>n. channel n \<noteq> Disconnected" "k_sensitive_transition_state controls = 0"
    and "\<forall>m \<in> set ms. message_ok m"
    and "outputs (\<lambda>s m. pump_step channel m s) (capture_state_new env controls on tick) ms =
      before @ Enqueued row # later"
    and "ordinary row" "length before < 2 ^ 32"
  shows "outstanding before \<or> belief before \<inter> pump_reasons = tracked before"
proof -
  from boundaries_run[OF assms(1-3)] have "rows_follow (before @ Enqueued row # later)"
    unfolding ordered_with_parts assms(4)[symmetric] by blast
  with assms(5,6) show ?thesis unfolding rows_follow_def by blast
qed


text \<open>A run to look at: the session is locked, a suspend follows, and the channel fills at its fourth send.\<close>

definition demo_env :: win_env where
  "demo_env = \<lparr>we_power_status = None, we_pid_exe = (\<lambda>_. []), we_idle_ms = None,
     we_screen = \<lparr>vs_x0 = 0, vs_y0 = 0, vs_width = 1920, vs_height = 1080\<rparr>, we_probe = None,
     we_double_click_ms = 500, we_double_click_metric = (4, 4), we_drag_metric = (4, 4)\<rparr>"

definition demo_channel :: "nat \<Rightarrow> channel_state" where
  "demo_channel n = (if n < 3 then Accepting else Full)"

definition demo_locked :: "pump_message list" where
  "demo_locked = [SessionChange demo_env WTS_SESSION_LOCK 1 5 None, Suspend 6 7, Suspend 8 9]"

lemmas demo_pump_defs =
  demo_env_def demo_channel_def demo_locked_def on_session_change_def session_leaves_def send_system_def
  on_power_suspend_def flush_pending_mouse_def run_mouse_def run_part_def mouse_flush_pending_def
  capture_state_new_def fresh_mouse_def mouse_default_def reset_mouse_def mouse_reset_after_boundary_def
  end_current_foreground_def run_foreground_def end_current_at_def end_current_at_with_duration_limit_def
  foreground_default_def reset_keyboard_def keyboard_reset_after_boundary_def send_list_def send_def
  enabled_for_def is_suspended_def sensitive_transition_active_def enabled_def stream_for_def
  flush_pending_boundaries_def flush_pending_unchecked_def sensitive_transition_should_defer_def
  enter_sensitive_context_at_def queue_or_send_boundary_def queue_or_send_unchecked_def update_def doing_def
  begin_sensitive_transition_def drop_tokens_def drop_sensitive_transition_def count_dropped_def
  controls_all_enabled_def controls_new_def settings_all_enabled_def step_word option_list_def
  captured_new_def remember_tick_def keyboard_default_def WTS_SESSION_LOCK_def Let_def

lemma demo_mask: "(4294967296 :: 64 word) AND SENSITIVE_TRANSITION_ACTIVE_MASK = 0"
  using active_low_half[of 4294967296 1 0] by simp

lemma demo_token: "(4294967297 :: 64 word) AND SENSITIVE_TRANSITION_ACTIVE_MASK \<noteq> 0"
  using active_low_half[of 4294967297 1 1] by simp

lemma demo_locked_ok: "\<forall>m \<in> set demo_locked. message_ok m"
  by (simp add: demo_locked_def message_ok_def)

theorem dropped_rows_are_counted_witness:
  "dropped_events (final (\<lambda>s m. pump_step demo_channel m s) (capture_state_new demo_env controls_all_enabled True 0)
     demo_locked) = 1"
proof -
  have "refused (outputs (\<lambda>s m. pump_step demo_channel m s) (capture_state_new demo_env controls_all_enabled True 0)
     demo_locked) = 1"
    by (simp add: demo_pump_defs demo_mask)
  with dropped_rows_are_counted[OF demo_locked_ok, of demo_channel "capture_state_new demo_env controls_all_enabled True 0"]
  show ?thesis
    by (simp add: dropped_events_def capture_state_new_def controls_all_enabled_def controls_new_def
        diagnostics_new_def)
qed


theorem rows_never_overtake_boundaries_witness:
  "\<exists>before row later.
     outputs (\<lambda>s m. pump_step (\<lambda>_. Accepting) m s) (capture_state_new demo_env controls_all_enabled True 0) demo_locked =
       before @ Enqueued row # later \<and>
     c_payload row = PowerSuspend (Some 7) \<and> \<not> outstanding before \<and> belief before \<inter> pump_reasons = tracked before"
proof -
  let ?lock = "captured_new source.System 5 (SessionLock 1)"
  let ?suspend = "captured_new source.System 6 (PowerSuspend (Some 7))"
  let ?before = "[Enqueued ?lock, ContextOn SessionLocked, Enqueued (context_row 5 True SessionLocked)]"
  let ?later = "[Enqueued (captured_new source.System 8 (PowerSuspend (Some 9)))]"
  have run: "outputs (\<lambda>s m. pump_step (\<lambda>_. Accepting) m s) (capture_state_new demo_env controls_all_enabled True 0)
      demo_locked = ?before @ Enqueued ?suspend # ?later"
    by (simp add: demo_pump_defs demo_mask context_row_def)
  have on: "\<not> outstanding ?before" "c_payload ?suspend = PowerSuspend (Some 7)"
    by (simp_all add: outstanding_def captured_new_def)
  have "outstanding ?before \<or> belief ?before \<inter> pump_reasons = tracked ?before"
    by (rule rows_never_overtake_boundaries[OF _ _ demo_locked_ok run])
      (simp_all add: controls_all_enabled_def controls_new_def)
  with on run show ?thesis by blast
qed

section \<open>A queued boundary holds every row back\<close>

text \<open>
  C26 (\<open>CaptureState::send\<close>): while a boundary waits in the queue, an ordinary row is discarded:
  it is neither sent nor counted as dropped, and the queue is not retried for it, since the
  token of the queued boundary already suspends the capture.
\<close>

theorem queued_boundaries_discard_rows:
  assumes "\<forall>n. channel n \<noteq> Disconnected" "k_sensitive_transition_state controls = 0"
    and "\<forall>m \<in> set ms. message_ok m"
    and "s = final (\<lambda>s m. pump_step channel m s) (capture_state_new env controls on tick) ms"
    and "st_pending_sensitive_boundaries s \<noteq> []" "length (st_pending_sensitive_boundaries s) < 2 ^ 32"
  shows "send channel row s = (s, [])"
proof -
  from boundaries_run[OF assms(1-3)] have "tokens s (length (st_pending_sensitive_boundaries s))"
    unfolding assms(4) by (simp add: ordered_with_parts)
  with assms(5,6) have "sensitive_transition_active (st_controls s)"
    by (intro tokens_active) auto
  then show ?thesis by (simp add: send_def enabled_for_def is_suspended_def)
qed

theorem queued_boundaries_discard_rows_witness:
  "\<exists>s. length (st_pending_sensitive_boundaries s) = 1 \<and>
     s = final (\<lambda>s m. pump_step (\<lambda>_. Full) m s) (capture_state_new demo_env controls_all_enabled True 0) demo_locked \<and>
     send (\<lambda>_. Full) (captured_new source.System 9 (SessionLock 2)) s = (s, [])"
proof -
  let ?s = "final (\<lambda>s m. pump_step (\<lambda>_. Full) m s) (capture_state_new demo_env controls_all_enabled True 0) demo_locked"
  have q: "length (st_pending_sensitive_boundaries ?s) = 1"
    by (simp add: demo_pump_defs demo_token)
  have "k_sensitive_transition_state controls_all_enabled = 0"
    by (simp add: controls_all_enabled_def controls_new_def)
  moreover define s where "s = ?s"
  moreover have "st_pending_sensitive_boundaries s \<noteq> []" "length (st_pending_sensitive_boundaries s) < 2 ^ 32"
    using q unfolding s_def by auto
  ultimately have "send (\<lambda>_. Full) (captured_new source.System 9 (SessionLock 2)) s = (s, [])"
    using queued_boundaries_discard_rows[of "\<lambda>_. Full" controls_all_enabled demo_locked s demo_env True 0
        "captured_new source.System 9 (SessionLock 2)"] demo_locked_ok by simp
  with q s_def show ?thesis by blast
qed


section \<open>Typing into a password field\<close>

text \<open>What an answer about the focus rests on; no send changes it.\<close>

definition focus_word :: "capture_state \<Rightarrow> _" where
  "focus_word s = (k_password_field_confirmed_active (st_controls s), k_password_field_active (st_controls s),
     k_password_focus_generation (st_controls s), k_sensitive_field_probe (st_controls s), st_password_focus_cache s)"

lemma focus_drop_tokens [simp]: "focus_word (drop_tokens n s) = focus_word s"
proof -
  have "focus_word (set_controls (drop_sensitive_transition ^^ n) s) = focus_word s"
    by (induction n) (simp_all add: focus_word_def drop_sensitive_transition_def)
  then show ?thesis by (simp add: drop_tokens_def)
qed

lemma focus_frame [simp]:
  "focus_word (s\<lparr>st_sends := n\<rparr>) = focus_word s"
  "focus_word (s\<lparr>st_pending_sensitive_boundaries := rows\<rparr>) = focus_word s"
  "focus_word (clear_pending s) = focus_word s"
  "focus_word (count_dropped s) = focus_word s"
  "focus_word (set_controls request_sensitive_context_reconcile s) = focus_word s"
  "focus_word (s\<lparr>st_idle := i\<rparr>) = focus_word s"
  by (simp_all add: focus_word_def clear_pending_def focus_drop_tokens[unfolded focus_word_def, simplified]
      count_dropped_def request_sensitive_context_reconcile_def)

lemma focus_flush_loop: "flush_loop channel rows s = (s', e) \<Longrightarrow> focus_word s' = focus_word s"
  by (induction channel rows s arbitrary: s' e rule: flush_loop.induct)
    (auto simp: Let_def split: channel_state.splits prod.splits)

lemma focus_send: "send channel row s = (s', e) \<Longrightarrow> focus_word s' = focus_word s"
  using focus_flush_loop[of channel]
  by (auto simp: send_def flush_pending_boundaries_def flush_pending_unchecked_def Let_def
      split: if_splits prod.splits channel_state.splits)

lemma focus_send_list: "send_list channel rows s = (s', e) \<Longrightarrow> focus_word s' = focus_word s"
  unfolding send_list_def
  by (induction rows arbitrary: s s' e) (auto split: prod.splits dest!: focus_send)

lemma focus_activity: "on_user_activity channel env now s = (s', e) \<Longrightarrow> focus_word s' = focus_word s"
  unfolding on_user_activity_def run_idle_def run_part_def
  by (auto split: option.splits prod.splits dest: focus_send_list)

text \<open>The rows of a send are the row sent and queued boundaries; keys are no boundaries.\<close>

definition key_row :: "captured \<Rightarrow> bool" where
  "key_row row \<longleftrightarrow> (\<exists>name m w kc. c_payload row = Key name m w kc)"


lemma flush_loop_rows:
  "flush_loop channel rows s = (s', e) \<Longrightarrow>
   set (st_pending_sensitive_boundaries s') \<subseteq> set rows \<and> (\<forall>r. Enqueued r \<in> set e \<longrightarrow> r \<in> set rows)"
  by (induction channel rows s arbitrary: s' e rule: flush_loop.induct)
    (fastforce simp: Let_def split: channel_state.splits prod.splits)+

lemma flush_rows:
  assumes "flush_pending_boundaries channel s = (s', e)"
  shows "set (st_pending_sensitive_boundaries s') \<subseteq> set (st_pending_sensitive_boundaries s)"
    "Enqueued r \<in> set e \<Longrightarrow> r \<in> set (st_pending_sensitive_boundaries s)"
  using assms flush_loop_rows[of channel "st_pending_sensitive_boundaries s"]
  by (auto simp: flush_pending_boundaries_def flush_pending_unchecked_def clear_pending_def split: if_splits)

lemma send_rows:
  assumes "send channel row s = (s', e)"
  shows "set (st_pending_sensitive_boundaries s') \<subseteq> set (st_pending_sensitive_boundaries s)"
    "Enqueued r \<in> set e \<Longrightarrow> r = row \<or> r \<in> set (st_pending_sensitive_boundaries s)"
proof -
  obtain t e1 where f: "flush_pending_boundaries channel s = (t, e1)" by fastforce
  with assms have "s' = s \<and> e = [] \<or>
      st_pending_sensitive_boundaries s' = st_pending_sensitive_boundaries t \<and>
      set e \<subseteq> set e1 \<union> {Enqueued row, Refused row}"
    by (auto simp: send_def Let_def count_dropped_def split: if_splits channel_state.splits)
  with flush_rows[OF f] show
    "set (st_pending_sensitive_boundaries s') \<subseteq> set (st_pending_sensitive_boundaries s)"
    "Enqueued r \<in> set e \<Longrightarrow> r = row \<or> r \<in> set (st_pending_sensitive_boundaries s)" by auto
qed

lemma send_list_rows:
  assumes "send_list channel rows s = (s', e)"
  shows "set (st_pending_sensitive_boundaries s') \<subseteq> set (st_pending_sensitive_boundaries s) \<and>
    (\<forall>r. Enqueued r \<in> set e \<longrightarrow> r \<in> set rows \<union> set (st_pending_sensitive_boundaries s))"
  using assms unfolding send_list_def
proof (induction rows arbitrary: s s' e)
  case (Cons row rows)
  obtain t e1 where a: "send channel row s = (t, e1)" by fastforce
  obtain e2 where b: "steps (map (send channel) rows) t = (s', e2)" "e = e1 @ e2"
    using Cons.prems a by (auto split: prod.splits)
  from Cons.IH[OF b(1)] send_rows[OF a] b(2) show ?case by fastforce
qed simp

lemma queue_rows:
  assumes "queue_or_send_boundary channel row s = (s', e)"
  shows "set (st_pending_sensitive_boundaries s') \<subseteq> insert row (set (st_pending_sensitive_boundaries s))"
proof -
  obtain t e1 where f: "flush_pending_unchecked channel s = (t, e1)" by fastforce
  have "set (st_pending_sensitive_boundaries t) \<subseteq> set (st_pending_sensitive_boundaries s)"
    using flush_loop_rows f unfolding flush_pending_unchecked_def by blast
  with assms f show ?thesis
    by (auto simp: queue_or_send_boundary_def queue_or_send_unchecked_def Let_def clear_pending_def
        split: if_splits channel_state.splits)
qed

lemma blocking_pending:
  "st_pending_sensitive_boundaries (fst (send_blocking_rows channel rows s)) = st_pending_sensitive_boundaries s"
  by (induction rows arbitrary: s) (simp_all add: Let_def split_beta)

lemma reconcile_pending:
  assumes "reconcile_after_pause channel now s = (s', e, ok)"
  shows "st_pending_sensitive_boundaries s' = []"
proof -
  have "st_pending_sensitive_boundaries (fst (reconcile_after_pause channel now s)) = []"
    by (simp add: reconcile_after_pause_def Let_def split_beta blocking_pending)
  with assms show ?thesis by simp
qed

definition queue_of_boundaries :: "capture_state \<Rightarrow> capture_effect list \<Rightarrow> bool" where
  "queue_of_boundaries s h \<longleftrightarrow> (\<forall>row \<in> set (st_pending_sensitive_boundaries s). boundary row)"

lemma queue_enter:
  assumes "queue_of_boundaries s h" "queue_or_send_boundary channel (context_row now on r) t = (s', e)"
    "st_pending_sensitive_boundaries t = st_pending_sensitive_boundaries s"
  shows "queue_of_boundaries s' h'"
  using assms(1,3) queue_rows[OF assms(2)] unfolding queue_of_boundaries_def by auto

interpretation queued: pump_invariant channel queue_of_boundaries for channel
proof
  show "queue_of_boundaries s h \<Longrightarrow> core s' = core s \<Longrightarrow> queue_of_boundaries s' h" for s h s'
    by (simp add: queue_of_boundaries_def core_def)
  show "keeps queue_of_boundaries (send channel row)" for row
    by (rule keepsI) (auto simp: queue_of_boundaries_def dest: send_rows(1))
  show "keeps queue_of_boundaries (flush_pending_boundaries channel)"
    by (rule keepsI) (auto simp: queue_of_boundaries_def dest: flush_rows(1))
  show "keeps queue_of_boundaries (enter_sensitive_context_at channel now reason)"
    "keeps queue_of_boundaries (exit_sensitive_context_at channel now reason)" for now reason
    by (rule keepsI, auto simp: enter_sensitive_context_at_def exit_sensitive_context_at_def
        update_def doing_def elim!: queue_enter split: if_splits prod.splits)+
  show "keeps queue_of_boundaries (take_reconcile channel now)" for now
    by (rule keepsI) (auto simp: take_reconcile_def take_sensitive_context_reconcile_def
        queue_of_boundaries_def dest!: reconcile_pending split: if_splits prod.splits)
  show "keeps queue_of_boundaries (\<lambda>s. case reconcile_for_resume channel now s of (s, e, _) \<Rightarrow> (s, e))" for now
    by (rule keepsI) (auto simp: reconcile_for_resume_def queue_of_boundaries_def Let_def
        dest!: reconcile_pending split: if_splits prod.splits)
  show "keeps queue_of_boundaries (emit_confirmed_password_sample channel is_password now)" for is_password now
    by (rule keepsI) (auto simp: emit_confirmed_password_sample_def queue_of_boundaries_def Let_def
        count_dropped_def split: if_splits channel_state.splits)
  show "keeps queue_of_boundaries (update (set_controls (control_step op)))" for op
    by (rule keepsI) (auto simp: update_def queue_of_boundaries_def)
qed

lemma activity_rows:
  assumes "on_user_activity channel env now s = (s', e)"
  shows "set (st_pending_sensitive_boundaries s') \<subseteq> set (st_pending_sensitive_boundaries s) \<and>
    (\<forall>r. Enqueued r \<in> set e \<longrightarrow> \<not> key_row r \<or> r \<in> set (st_pending_sensitive_boundaries s))"
proof (cases "we_idle_ms env")
  case None
  with assms show ?thesis by (simp add: on_user_activity_def)
next
  case (Some idle_ms)
  obtain p row where i: "idle_on_activity_at (st_idle s) idle_ms now = (p, row)" by fastforce
  with assms Some have sl: "send_list channel (option_list row) (s\<lparr>st_idle := p\<rparr>) = (s', e)"
    by (simp add: on_user_activity_def run_idle_def run_part_def)
  have "\<not> key_row r" if "r \<in> set (option_list row)" for r
    using that i by (auto simp: idle_on_activity_at_def active_event_def key_row_def option_list_def captured_new_def Let_def
        split: if_splits option.splits)
  with send_list_rows[OF sl] show ?thesis by auto
qed

lemma redact_rows:
  assumes "redact_keyboard_at channel env window now s = (s', e, redact)"
  shows "st_pending_sensitive_boundaries s' = st_pending_sensitive_boundaries s \<and>
    (\<forall>r. Enqueued r \<in> set e \<longrightarrow> boundary r)"
proof -
  have emit: "st_pending_sensitive_boundaries t' = st_pending_sensitive_boundaries t \<and>
      (\<forall>r. Enqueued r \<in> set e' \<longrightarrow> boundary r)"
    if "emit_confirmed_password_sample channel on now t = (t', e')" for on t t' e'
    using that by (auto simp: emit_confirmed_password_sample_def Let_def count_dropped_def
        split: if_splits channel_state.splits)
  show ?thesis using assms
    by (auto simp: redact_keyboard_at_def Let_def split: if_splits option.splits prod.splits dest!: emit)
qed

lemma send_key_rows:
  assumes "send_key channel raw window now redact s = (s', e)" "Enqueued r \<in> set e"
    and "c_payload r = Key name m w kc" "name \<noteq> ''<redacted>''"
    and "\<forall>b \<in> set (st_pending_sensitive_boundaries s). boundary b" "\<not> boundary r"
  shows "is_key_down raw \<and> \<not> redact"
proof -
  obtain p row where i: "on_raw_key (st_keyboard s) raw window now redact = (p, row)" by fastforce
  with assms(1) have sl: "send_list channel (option_list row) (s\<lparr>st_keyboard := p\<rparr>) = (s', e)"
    by (simp add: send_key_def run_part_def)
  from send_list_rows[OF sl] assms(2,5,6) have "row = Some r" by (cases row) (auto simp: option_list_def)
  with i assms(3,4) show ?thesis
    by (auto simp: on_raw_key_def is_key_down_def captured_new_def Let_def split: if_splits option.splits)
qed

lemma redact_answer:
  assumes "redact_keyboard_at channel env window now s = (s', e, False)"
  shows "\<not> k_password_field_confirmed_active (st_controls s) \<and>
    ((\<exists>r. k_sensitive_field_probe (st_controls s) \<noteq> None \<and> we_probe env = Some r \<and> \<not> pr_is_password r) \<or>
     (\<not> k_password_field_active (st_controls s) \<and>
      (\<exists>win c. window = Some win \<and> st_password_focus_cache s = Some c \<and> fc_hwnd c = w_hwnd win \<and>
         fc_focus_generation c = unat (k_password_focus_generation (st_controls s)) \<and>
         duration_since now (fc_resolved_at c) \<le> from_secs 2 \<and> \<not> fc_is_password c)))"
proof -
  have cached: "\<exists>c. st_password_focus_cache s = Some c \<and> fc_hwnd c = hwnd \<and>
      fc_focus_generation c = unat (k_password_focus_generation (st_controls s)) \<and>
      duration_since now (fc_resolved_at c) \<le> from_secs 2 \<and> \<not> fc_is_password c"
    if "cached_password_focus hwnd now s = Some False" for hwnd
    using that by (auto simp: cached_password_focus_def PASSWORD_FIELD_PROBE_CACHE_TTL_def split: option.splits if_splits)
  have probed: "k_sensitive_field_probe k \<noteq> None \<and> we_probe env = Some r"
    if "probe_password_field_active (\<lambda>_ _. we_probe env) k t = Some r" for k t r
    using that by (cases "k_sensitive_field_probe k") (auto simp: probe_password_field_active_def)
  show ?thesis
  proof (cases "\<exists>win. window = Some win \<and> \<not> k_password_field_active (st_controls s) \<and>
      cached_password_focus (w_hwnd win) now s = Some False")
    case True
    with assms cached show ?thesis by (auto simp: redact_keyboard_at_def split: if_splits)
  next
    case False
    with assms show ?thesis
      by (cases window) (auto simp: redact_keyboard_at_def Let_def split: if_splits option.splits prod.splits
          dest!: probed)
  qed
qed



definition demo_typing :: win_env where
  "demo_typing = demo_env\<lparr>we_probe := Some \<lparr>pr_is_password = False, pr_focus_generation = 0\<rparr>\<rparr>"


end
