(* ===== verification/Spec2Isabelle.thy ===== *)
theory Spec2Isabelle
  imports Selector_Path Capture_Controls Privacy_Policy Foreground_State Process_Monitor
    Power_Monitor Writer_Laws Record_Prompts Read_Input Read_Health Pause_Intervals Replay_Laws
    Worker_Laws Password_Laws Win_Input_Laws Win_State_Laws Win_Laws
begin

text \<open>
  Placeholder.
\<close>

section \<open>Properties that span components\<close>


end
